(* ===== verification/Prelude.thy ===== *)
theory Prelude
  imports Complex_Main "HOL-Library.AList"
begin

text \<open>
  Shared vocabulary of the development: the JavaScript values, strings, objects and Maps the server
  code computes with, the relational view of a database table as a list of rows, and the two
  interfaces (locales) the components are stated against: a store of keyed rows and a state
  machine with an invariant.

  \<^item> A JavaScript value is a \<open>jsval\<close>. Numbers are exact rationals: the code handles
    counters, exit codes, millisecond timestamps and decimal literals, all exactly representable,
    so the rounding of IEEE doubles is not modelled. \<open>NaN\<close> and the infinities only arise from
    \<open>Number(...)\<close> and have their own type \<open>jsnum\<close>.
  \<^item> A plain object and a \<open>Map\<close> are association lists with distinct keys in insertion order;
    \<open>AList.update\<close> overwrites in place or appends, which is what JavaScript does.
  \<^item> Strings are lists of 8-bit characters: case folding and white space are the ASCII ones.
\<close>

section \<open>Collections of rewrite rules\<close>

named_theorems js_simps "evaluation of JavaScript primitives"
named_theorems row_simps "lookup and update of table rows"
named_theorems inv_intros "introduction rules for component invariants"

section \<open>Strings\<close>

definition is_space :: "char \<Rightarrow> bool" where
  "is_space c = (c \<in> set [CHR '' '', CHR 0x09, CHR 0x0A, CHR 0x0B, CHR 0x0C, CHR 0x0D, CHR 0xA0])"

definition is_digit_char :: "char \<Rightarrow> bool" where
  "is_digit_char c = (48 \<le> (of_char c :: nat) \<and> (of_char c :: nat) \<le> 57)"

definition is_alpha_char :: "char \<Rightarrow> bool" where
  "is_alpha_char c =
     ((65 \<le> (of_char c :: nat) \<and> (of_char c :: nat) \<le> 90) \<or>
      (97 \<le> (of_char c :: nat) \<and> (of_char c :: nat) \<le> 122))"

definition is_word_char :: "char \<Rightarrow> bool" where
  "is_word_char c = (is_alpha_char c \<or> is_digit_char c \<or> c = CHR ''_'')"

definition lower_char :: "char \<Rightarrow> char" where
  "lower_char c =
     (let n = (of_char c :: nat) in if 65 \<le> n \<and> n \<le> 90 then char_of (n + 32) else c)"

definition js_lower :: "string \<Rightarrow> string" where
  "js_lower s = map lower_char s"

definition trim_start :: "string \<Rightarrow> string" where
  "trim_start s = dropWhile is_space s"

definition js_trim :: "string \<Rightarrow> string" where
  "js_trim s = rev (dropWhile is_space (rev (dropWhile is_space s)))"

definition starts_with :: "string \<Rightarrow> string \<Rightarrow> bool" where
  "starts_with p s = (take (length p) s = p)"

definition ends_with :: "string \<Rightarrow> string \<Rightarrow> bool" where
  "ends_with p s = (length p \<le> length s \<and> drop (length s - length p) s = p)"

fun includes_str :: "string \<Rightarrow> string \<Rightarrow> bool" where
  "includes_str p [] = (p = [])"
| "includes_str p (c # cs) = (starts_with p (c # cs) \<or> includes_str p cs)"

text \<open>\<open>s.slice(i, j)\<close> for \<open>0 \<le> i\<close>, and \<open>s.slice(-n)\<close>.\<close>

definition js_slice :: "nat \<Rightarrow> nat \<Rightarrow> 'a list \<Rightarrow> 'a list" where
  "js_slice i j s = take (j - i) (drop i s)"

definition slice_last :: "nat \<Rightarrow> 'a list \<Rightarrow> 'a list" where
  "slice_last n s = drop (length s - n) s"

fun join_with :: "string \<Rightarrow> string list \<Rightarrow> string" where
  "join_with sep [] = []"
| "join_with sep [s] = s"
| "join_with sep (s # t # ts) = s @ sep @ join_with sep (t # ts)"

lemma length_js_trim: "length (js_trim s) \<le> length s"
proof -
  have "length (dropWhile is_space (rev (dropWhile is_space s))) \<le> length (rev (dropWhile is_space s))"
    by (rule length_dropWhile_le)
  also have "\<dots> \<le> length s" by (simp add: length_dropWhile_le)
  finally show ?thesis by (simp add: js_trim_def)
qed

lemma js_trim_Nil [simp]: "js_trim [] = []"
  by (simp add: js_trim_def)

lemma starts_with_Nil [simp]: "starts_with [] s"
  by (simp add: starts_with_def)

lemma starts_with_append [simp]: "starts_with p (p @ s)"
  by (simp add: starts_with_def)

lemma starts_withE:
  assumes "starts_with p s"
  obtains r where "s = p @ r"
  using assms unfolding starts_with_def by (metis append_take_drop_id)

lemma length_slice_last [simp]: "length (slice_last n s) = min n (length s)"
  by (simp add: slice_last_def)

section \<open>JavaScript values\<close>

datatype jsval =
    JUndef
  | JNull
  | JBool bool
  | JNum rat
  | JStr string
  | JArr "jsval list"
  | JObj "(string \<times> jsval) list"

type_synonym jsobj = "(string \<times> jsval) list"

datatype jsnum = NaN | PosInf | NegInf | Fin rat

fun js_truthy :: "jsval \<Rightarrow> bool" where
  "js_truthy JUndef = False"
| "js_truthy JNull = False"
| "js_truthy (JBool b) = b"
| "js_truthy (JNum q) = (q \<noteq> 0)"
| "js_truthy (JStr s) = (s \<noteq> [])"
| "js_truthy (JArr _) = True"
| "js_truthy (JObj _) = True"

fun is_nullish :: "jsval \<Rightarrow> bool" where
  "is_nullish JUndef = True"
| "is_nullish JNull = True"
| "is_nullish _ = False"

text \<open>\<open>a || b\<close> and \<open>a ?? b\<close>.\<close>

definition js_or :: "jsval \<Rightarrow> jsval \<Rightarrow> jsval" where
  "js_or a b = (if js_truthy a then a else b)"

definition js_coalesce :: "jsval \<Rightarrow> jsval \<Rightarrow> jsval" where
  "js_coalesce a b = (if is_nullish a then b else a)"

text \<open>An optional column: \<open>NULL\<close> is \<open>null\<close>.\<close>

definition js_of_str_option :: "string option \<Rightarrow> jsval" where
  "js_of_str_option v = (case v of None \<Rightarrow> JNull | Some s \<Rightarrow> JStr s)"

definition str_truthy :: "string option \<Rightarrow> bool" where
  "str_truthy v = (case v of None \<Rightarrow> False | Some s \<Rightarrow> s \<noteq> [])"

subsection \<open>Objects\<close>

definition obj_get :: "jsobj \<Rightarrow> string \<Rightarrow> jsval" where
  "obj_get o' k = (case map_of o' k of None \<Rightarrow> JUndef | Some v \<Rightarrow> v)"

definition obj_has :: "jsobj \<Rightarrow> string \<Rightarrow> bool" where
  "obj_has o' k = (map_of o' k \<noteq> None)"

definition obj_set :: "string \<Rightarrow> jsval \<Rightarrow> jsobj \<Rightarrow> jsobj" where
  "obj_set k v o' = AList.update k v o'"

definition obj_delete :: "string \<Rightarrow> jsobj \<Rightarrow> jsobj" where
  "obj_delete k o' = AList.delete k o'"

text \<open>\<open>{...a, ...b}\<close>\<close>

definition obj_merge :: "jsobj \<Rightarrow> jsobj \<Rightarrow> jsobj" where
  "obj_merge a b = foldl (\<lambda>acc (k, v). obj_set k v acc) a b"

text \<open>
  \<open>normalizeMetadata\<close> of \<open>server/utils/normalize-metadata.js\<close>: a metadata column is kept parsed
  (\<open>JNull\<close> for \<open>NULL\<close> or text that is no JSON), so what is left is the type test.
\<close>

fun normalizeMetadata :: "jsval \<Rightarrow> jsobj" where
  "normalizeMetadata (JObj fields) = fields"
| "normalizeMetadata _ = []"

lemma obj_get_set [simp]: "obj_get (obj_set k v o') j = (if j = k then v else obj_get o' j)"
  by (simp add: obj_get_def obj_set_def update_conv')

lemma obj_has_set [simp]: "obj_has (obj_set k v o') j \<longleftrightarrow> j = k \<or> obj_has o' j"
  by (simp add: obj_has_def obj_set_def update_conv')

lemma obj_get_delete [simp]: "obj_get (obj_delete k o') j = (if j = k then JUndef else obj_get o' j)"
  by (simp add: obj_get_def obj_delete_def delete_conv')

lemma obj_get_Nil [simp]: "obj_get [] k = JUndef"
  by (simp add: obj_get_def)

lemma obj_merge_Nil [simp]: "obj_merge a [] = a"
  by (simp add: obj_merge_def)

lemma obj_get_merge:
  assumes "distinct (map fst b)"
  shows "obj_get (obj_merge a b) k = (if obj_has b k then obj_get b k else obj_get a k)"
  using assms
proof (induction b arbitrary: a)
  case Nil
  then show ?case by (simp add: obj_has_def)
next
  case (Cons p b)
  obtain j v where p: "p = (j, v)" by (cases p)
  have step: "obj_merge a (p # b) = obj_merge (obj_set j v a) b"
    by (simp add: obj_merge_def p)
  have j: "\<not> obj_has b j"
    using Cons.prems by (simp add: p obj_has_def map_of_eq_None_iff)
  have head: "obj_has (p # b) k \<longleftrightarrow> k = j \<or> obj_has b k"
    "obj_get (p # b) k = (if k = j then v else obj_get b k)"
    by (auto simp: p obj_has_def obj_get_def)
  from Cons.IH [of "obj_set j v a"] Cons.prems show ?case
    using j by (auto simp: step head)
qed

section \<open>Numbers as text\<close>

definition digit_char :: "nat \<Rightarrow> char" where
  "digit_char n = char_of (48 + n)"

fun nat_string :: "nat \<Rightarrow> string" where
  "nat_string n = (if n < 10 then [digit_char n] else nat_string (n div 10) @ [digit_char (n mod 10)])"

declare nat_string.simps [simp del]

definition int_string :: "int \<Rightarrow> string" where
  "int_string i = (if i < 0 then CHR ''-'' # nat_string (nat (- i)) else nat_string (nat i))"

text \<open>
  Decimal digits of a fraction in \<open>[0,1)\<close>, at most \<open>fuel\<close> of them; a double needs at most 17.
\<close>

fun fraction_digits :: "nat \<Rightarrow> rat \<Rightarrow> string" where
  "fraction_digits 0 q = []"
| "fraction_digits (Suc fuel) q =
     (if q = 0 then []
      else digit_char (nat (floor (10 * q))) # fraction_digits fuel (10 * q - of_int (floor (10 * q))))"

definition num_string :: "rat \<Rightarrow> string" where
  "num_string q =
     (let a = \<bar>q\<bar>; whole = floor a; frac = a - of_int whole in
      (if q < 0 then ''-'' else []) @ nat_string (nat whole)
      @ (if frac = 0 then [] else ''.'' @ fraction_digits 17 frac))"

text \<open>\<open>String(v)\<close>\<close>

fun js_string :: "jsval \<Rightarrow> string" where
  "js_string JUndef = ''undefined''"
| "js_string JNull = ''null''"
| "js_string (JBool b) = (if b then ''true'' else ''false'')"
| "js_string (JNum q) = num_string q"
| "js_string (JStr s) = s"
| "js_string (JArr vs) =
     join_with '','' (map (\<lambda>v. if is_nullish v then [] else js_string v) vs)"
| "js_string (JObj _) = ''[object Object]''"

lemma nat_string_nonempty [simp]: "nat_string n \<noteq> []"
  by (subst nat_string.simps) simp

section \<open>Tables\<close>

text \<open>
  A table is the list of its rows in insertion order, which is the order a \<open>SELECT\<close> without
  \<open>ORDER BY\<close> is taken to return. \<open>update_where\<close> is \<open>UPDATE ... SET ... WHERE\<close> with its count of
  changed rows, \<open>count_where\<close> is \<open>SELECT COUNT(*)\<close>, \<open>select_first\<close> is \<open>.get()\<close>.
\<close>

definition count_where :: "('r \<Rightarrow> bool) \<Rightarrow> 'r list \<Rightarrow> nat" where
  "count_where P rows = length (filter P rows)"

definition select_first :: "('r \<Rightarrow> bool) \<Rightarrow> 'r list \<Rightarrow> 'r option" where
  "select_first P rows = List.find P rows"

definition map_where :: "('r \<Rightarrow> bool) \<Rightarrow> ('r \<Rightarrow> 'r) \<Rightarrow> 'r list \<Rightarrow> 'r list" where
  "map_where P f rows = map (\<lambda>r. if P r then f r else r) rows"

lemma length_map_where [simp]: "length (map_where P f rows) = length rows"
  by (simp add: map_where_def)

lemma map_where_Nil [simp]: "map_where P f [] = []"
  by (simp add: map_where_def)

lemma map_where_Cons [simp]:
  "map_where P f (r # rows) = (if P r then f r else r) # map_where P f rows"
  by (simp add: map_where_def)

lemma map_where_none: "(\<And>r. r \<in> set rows \<Longrightarrow> \<not> P r) \<Longrightarrow> map_where P f rows = rows"
  by (induction rows) auto

lemma set_map_where: "set (map_where P f rows) = (\<lambda>r. if P r then f r else r) ` set rows"
  by (simp add: map_where_def)

lemma map_map_where:
  "(\<And>r. P r \<Longrightarrow> g (f r) = g r) \<Longrightarrow> map g (map_where P f rows) = map g rows"
  by (induction rows) auto

lemma count_where_Nil [simp]: "count_where P [] = 0"
  by (simp add: count_where_def)

lemma count_where_Cons [simp]:
  "count_where P (r # rows) = (if P r then Suc (count_where P rows) else count_where P rows)"
  by (simp add: count_where_def)

lemma count_where_le: "count_where P rows \<le> length rows"
  by (induction rows) auto

lemma count_where_mono:
  "(\<And>r. r \<in> set rows \<Longrightarrow> P r \<Longrightarrow> Q r) \<Longrightarrow> count_where P rows \<le> count_where Q rows"
  by (induction rows) auto

lemma count_where_zero: "count_where P rows = 0 \<longleftrightarrow> (\<forall>r \<in> set rows. \<not> P r)"
  by (induction rows) auto

lemma select_first_Some: "select_first P rows = Some r \<Longrightarrow> r \<in> set rows \<and> P r"
  by (auto simp: select_first_def find_Some_iff)

lemma select_first_None: "select_first P rows = None \<longleftrightarrow> (\<forall>r \<in> set rows. \<not> P r)"
  by (auto simp: select_first_def find_None_iff)

section \<open>Interfaces\<close>

text \<open>
  What every component that works on rows by primary key relies on: reading a row back after an
  update of the same key, and the frame property for the other keys. \<open>legal\<close> are the updates the
  component makes (those that keep the key).
\<close>

locale row_store =
  fixes look :: "'st \<Rightarrow> 'k \<Rightarrow> 'r option"
    and modify :: "'k \<Rightarrow> ('r \<Rightarrow> 'r) \<Rightarrow> 'st \<Rightarrow> 'st"
    and legal :: "('r \<Rightarrow> 'r) \<Rightarrow> bool"
  assumes look_same: "legal f \<Longrightarrow> look (modify k f s) k = map_option f (look s k)"
    and look_other: "legal f \<Longrightarrow> j \<noteq> k \<Longrightarrow> look (modify k f s) j = look s j"
    and legal_comp: "legal f \<Longrightarrow> legal g \<Longrightarrow> legal (g \<circ> f)"
begin

lemma look_modify:
  "legal f \<Longrightarrow> look (modify k f s) j = (if j = k then map_option f (look s j) else look s j)"
  by (simp add: look_same look_other)

lemma same_rows: "legal f \<Longrightarrow> look (modify k f s) j = None \<longleftrightarrow> look s j = None"
  by (simp add: look_modify)

text \<open>Updates that keep a property of every row keep it in every later state.\<close>

lemma modify_keeps:
  assumes "legal f" and "\<And>j r. look s j = Some r \<Longrightarrow> Q j r" and "\<And>r. look s k = Some r \<Longrightarrow> Q k (f r)"
    and "look (modify k f s) j = Some r"
  shows "Q j r"
  using assms by (auto simp: look_modify split: if_splits)

text \<open>Two successive writes of one key are one write.\<close>

lemma look_modify_twice:
  "legal f \<Longrightarrow> legal g \<Longrightarrow> look (modify k g (modify k f s)) j = look (modify k (g \<circ> f) s) j"
  by (auto simp: look_modify option.map_comp legal_comp)

end

text \<open>
  A deterministic state machine with a well-formedness invariant, and its runs over lists of
  events.
\<close>

locale invariant_machine =
  fixes step :: "'e \<Rightarrow> 's \<Rightarrow> 's"
    and inv :: "'s \<Rightarrow> bool"
  assumes inv_step: "inv s \<Longrightarrow> inv (step e s)"
begin

lemma inv_run: "inv s \<Longrightarrow> inv (fold step es s)"
  by (induction es arbitrary: s) (auto intro: inv_step)

end

text \<open>
  A machine with a distinguished event class that, once a flag is raised, keeps it raised: the
  shape of a latch (a probe handed out, a lock held).
\<close>

locale latch_machine = invariant_machine +
  fixes raised :: "'s \<Rightarrow> bool"
    and quiet :: "'e \<Rightarrow> bool"
  assumes latched: "inv s \<Longrightarrow> raised s \<Longrightarrow> quiet e \<Longrightarrow> raised (step e s)"
begin

lemma latched_run:
  "inv s \<Longrightarrow> raised s \<Longrightarrow> (\<And>e. e \<in> set es \<Longrightarrow> quiet e) \<Longrightarrow> raised (fold step es s)"
proof (induction es arbitrary: s)
  case Nil
  then show ?case by simp
next
  case (Cons e es)
  from Cons.prems have "inv (step e s)" "raised (step e s)"
    by (auto intro: inv_step latched)
  with Cons show ?case by simp
qed

end

text \<open>
  A machine whose events carry an obligation of their environment (a fresh identifier, a clock that
  does not go back). \<open>legal_run\<close> says every event of a run meets it when its turn comes.
\<close>

primrec legal_run :: "('e \<Rightarrow> 's \<Rightarrow> 's) \<Rightarrow> ('e \<Rightarrow> 's \<Rightarrow> bool) \<Rightarrow> 'e list \<Rightarrow> 's \<Rightarrow> bool" where
  "legal_run step ok [] s = True"
| "legal_run step ok (e # es) s = (ok e s \<and> legal_run step ok es (step e s))"

locale guarded_machine =
  fixes step :: "'e \<Rightarrow> 's \<Rightarrow> 's"
    and ok :: "'e \<Rightarrow> 's \<Rightarrow> bool"
    and inv :: "'s \<Rightarrow> bool"
  assumes guarded_step: "inv s \<Longrightarrow> ok e s \<Longrightarrow> inv (step e s)"
begin

lemma guarded_run: "inv s \<Longrightarrow> legal_run step ok es s \<Longrightarrow> inv (fold step es s)"
  by (induction es arbitrary: s) (auto intro: guarded_step)

end

text \<open>A guarded machine that refines an abstract one step by step.\<close>

locale refined_machine = guarded_machine +
  fixes abstraction :: "'s \<Rightarrow> 'a"
    and astep :: "'e \<Rightarrow> 'a \<Rightarrow> 'a"
  assumes simulates: "inv s \<Longrightarrow> ok e s \<Longrightarrow> abstraction (step e s) = astep e (abstraction s)"
begin

lemma refined_run:
  "inv s \<Longrightarrow> legal_run step ok es s \<Longrightarrow> abstraction (fold step es s) = fold astep es (abstraction s)"
  by (induction es arbitrary: s) (auto simp: guarded_step simulates)

end

end
