(* ===== verification/Circuit_Breaker_Laws.thy ===== *)
theory Circuit_Breaker_Laws
  imports Circuit_Breaker
begin

text \<open>
  What the circuit breaker promises. Each provider's entry is a small machine of its own
  (\<open>spec_*\<close> below); the class implements one such machine per provider name, and the lemmas
  \<open>entry_of_*\<close> are the refinement: after an operation on \<open>p\<close> the entry of \<open>p\<close> is the
  specification's and no other entry changes.
\<close>

section \<open>Reading entries back\<close>

interpretation entries: row_store "\<lambda>b p. Some (entry_of b p)"
  "\<lambda>p f b. set_entry p (f (entry_of b p)) b" "\<lambda>_. True"
  by unfold_locales (simp_all add: entry_of_def set_entry_def update_conv' split: option.split)

lemma entry_of_set_entry [simp]:
  "entry_of (set_entry p e b) q = (if q = p then e else entry_of b q)"
  using entries.look_modify [of p "\<lambda>_. e" b q] by (simp split: if_splits)

lemma frame_set_entry [simp]:
  "breaker_cfg (set_entry p e b) = breaker_cfg b"
  "breaker_store (set_entry p e b) = breaker_store b"
  "breaker_events (set_entry p e b) = breaker_events b"
  by (simp_all add: set_entry_def)

lemma frame_emit [simp]:
  "breaker_cfg (emit ev b) = breaker_cfg b"
  "breaker_store (emit ev b) = breaker_store b"
  "entry_of (emit ev b) q = entry_of b q"
  by (simp_all add: emit_def entry_of_def split: option.split)

lemma frame_persist [simp]:
  "breaker_cfg (persist p st t u r b) = breaker_cfg b"
  "entry_of (persist p st t u r b) q = entry_of b q"
  "breaker_events (persist p st t u r b) = breaker_events b"
  by (simp_all add: persist_def entry_of_def split: option.splits)

lemma frame_getStateEntry [simp]:
  "breaker_cfg (getStateEntry p b) = breaker_cfg b"
  "breaker_store (getStateEntry p b) = breaker_store b"
  "breaker_events (getStateEntry p b) = breaker_events b"
  "entry_of (getStateEntry p b) q = entry_of b q"
  by (simp_all add: getStateEntry_def) (simp add: entry_of_def)

section \<open>The specification of one entry\<close>

definition spec_tick :: "int \<Rightarrow> provider_entry \<Rightarrow> provider_entry" where
  "spec_tick now e =
     (if state e = OPEN \<and> recoveryTimeoutMs e \<le> now - (case trippedAt e of None \<Rightarrow> 0 | Some t \<Rightarrow> t)
      then e\<lparr>state := HALF_OPEN, currentProbeAllowed := False\<rparr> else e)"

definition spec_trip :: "breaker_config \<Rightarrow> int \<Rightarrow> provider_entry \<Rightarrow> provider_entry" where
  "spec_trip cfg now e = e\<lparr>state := OPEN,
     recoveryTimeoutMs := (if state e = HALF_OPEN
       then min (recoveryTimeoutMs e * backoffMultiplier cfg) (maxRecoveryTimeoutMs cfg)
       else baseRecoveryTimeoutMs cfg),
     trippedAt := Some now, currentProbeAllowed := False\<rparr>"

definition spec_failure :: "breaker_config \<Rightarrow> int \<Rightarrow> failure_category \<Rightarrow> provider_entry \<Rightarrow> provider_entry" where
  "spec_failure cfg now cat e0 =
     (let e = spec_tick now e0;
          e' = e\<lparr>consecutiveFailures := (if lastFailureCategory e = Some cat
                  then consecutiveFailures e + 1 else 1), lastFailureCategory := Some cat\<rparr> in
      spec_tick now (if state e' = HALF_OPEN \<or> threshold cfg \<le> consecutiveFailures e'
        then spec_trip cfg now e' else e'))"

definition spec_success :: "breaker_config \<Rightarrow> provider_entry \<Rightarrow> provider_entry" where
  "spec_success cfg e = e\<lparr>state := CLOSED, consecutiveFailures := 0, lastFailureCategory := None,
     trippedAt := None, currentProbeAllowed := False,
     recoveryTimeoutMs := (if state e = CLOSED then recoveryTimeoutMs e else baseRecoveryTimeoutMs cfg)\<rparr>"

definition spec_allow :: "int \<Rightarrow> provider_entry \<Rightarrow> bool \<times> provider_entry" where
  "spec_allow now e =
     (let e' = spec_tick now e in
      (state e = CLOSED \<or> state e' = HALF_OPEN \<and> \<not> currentProbeAllowed e',
       if state e' = HALF_OPEN then e'\<lparr>currentProbeAllowed := True\<rparr> else e'))"

definition spec_manual_trip :: "int \<Rightarrow> provider_entry \<Rightarrow> provider_entry" where
  "spec_manual_trip now e = e\<lparr>state := OPEN, trippedAt := Some now,
     lastFailureCategory := Some (case lastFailureCategory e of None \<Rightarrow> Manual | Some c \<Rightarrow> c)\<rparr>"

definition spec_untrip :: "breaker_config \<Rightarrow> provider_entry \<Rightarrow> provider_entry" where
  "spec_untrip cfg e = e\<lparr>state := CLOSED, consecutiveFailures := 0, lastFailureCategory := None,
     recoveryTimeoutMs := baseRecoveryTimeoutMs cfg, currentProbeAllowed := False, trippedAt := None\<rparr>"

lemma spec_tick_idem [simp]: "spec_tick now (spec_tick now e) = spec_tick now e"
  by (simp add: spec_tick_def)

lemma spec_tick_closed [simp]: "state e \<noteq> OPEN \<Longrightarrow> spec_tick now e = e"
  by (simp add: spec_tick_def)

lemma entry_of_tick [simp]:
  "entry_of (maybeTransitionToHalfOpen now p b) q = (if q = p then spec_tick now (entry_of b p) else entry_of b q)"
  "breaker_cfg (maybeTransitionToHalfOpen now p b) = breaker_cfg b"
  "breaker_store (maybeTransitionToHalfOpen now p b) = breaker_store b"
  by (auto simp: maybeTransitionToHalfOpen_def spec_tick_def Let_def split: if_splits)

lemma entry_of_trip [simp]:
  "entry_of (tripCircuit now p cat b) q = (if q = p then spec_trip (breaker_cfg b) now (entry_of b p) else entry_of b q)"
  "breaker_cfg (tripCircuit now p cat b) = breaker_cfg b"
  by (auto simp: tripCircuit_def spec_trip_def Let_def)

lemma entry_of_getState [simp]:
  "entry_of (snd (getState_norm now p b)) q = (if q = p then spec_tick now (entry_of b p) else entry_of b q)"
  "fst (getState_norm now p b) = spec_tick now (entry_of b p)"
  "breaker_cfg (snd (getState_norm now p b)) = breaker_cfg b"
  "breaker_store (snd (getState_norm now p b)) = breaker_store b"
  by (auto simp: getState_norm_def Let_def)

lemma entry_of_failure:
  "entry_of (snd (recordFailureWithCategory_norm now p cat b)) q =
     (if q = p then spec_failure (breaker_cfg b) now cat (entry_of b p) else entry_of b q)"
  "breaker_cfg (snd (recordFailureWithCategory_norm now p cat b)) = breaker_cfg b"
  by (auto simp: recordFailureWithCategory_norm_def spec_failure_def Let_def)

lemma entry_of_success:
  "entry_of (snd (recordSuccess_norm now p b)) q =
     (if q = p then spec_success (breaker_cfg b) (entry_of b p) else entry_of b q)"
  "breaker_cfg (snd (recordSuccess_norm now p b)) = breaker_cfg b"
  by (auto simp: recordSuccess_norm_def spec_success_def Let_def)

lemma entry_of_allow:
  "fst (allowRequest_norm now p b) = fst (spec_allow now (entry_of b p))"
  "entry_of (snd (allowRequest_norm now p b)) q =
     (if q = p then snd (spec_allow now (entry_of b p)) else entry_of b q)"
  "breaker_cfg (snd (allowRequest_norm now p b)) = breaker_cfg b"
  "breaker_store (snd (allowRequest_norm now p b)) = breaker_store b"
  by (auto simp: allowRequest_norm_def spec_allow_def Let_def)

lemma entry_of_isState:
  "entry_of (snd (isState_norm st now p b)) q = (if q = p then spec_tick now (entry_of b p) else entry_of b q)"
  "breaker_cfg (snd (isState_norm st now p b)) = breaker_cfg b"
  "breaker_store (snd (isState_norm st now p b)) = breaker_store b"
  by (auto simp: isState_norm_def Let_def)

lemma entry_of_manual_trip:
  "entry_of (trip_norm now p r b) q = (if q = p then spec_manual_trip now (entry_of b p) else entry_of b q)"
  "breaker_cfg (trip_norm now p r b) = breaker_cfg b"
  by (auto simp: trip_norm_def spec_manual_trip_def Let_def)

lemma entry_of_untrip:
  "entry_of (untrip_norm now p r b) q = (if q = p then spec_untrip (breaker_cfg b) (entry_of b p) else entry_of b q)"
  "breaker_cfg (untrip_norm now p r b) = breaker_cfg b"
  by (auto simp: untrip_norm_def spec_untrip_def Let_def)

lemmas entry_refinement =
  entry_of_failure entry_of_success entry_of_allow entry_of_isState entry_of_manual_trip entry_of_untrip

section \<open>Invariants\<close>

text \<open>
  A configuration the breaker makes sense for; the constructor accepts any.
\<close>

definition cfg_ok :: "breaker_config \<Rightarrow> bool" where
  "cfg_ok cfg \<longleftrightarrow> 1 \<le> threshold cfg \<and> 0 \<le> baseRecoveryTimeoutMs cfg
     \<and> baseRecoveryTimeoutMs cfg \<le> maxRecoveryTimeoutMs cfg \<and> 1 \<le> backoffMultiplier cfg"

definition entry_ok :: "breaker_config \<Rightarrow> provider_entry \<Rightarrow> bool" where
  "entry_ok cfg e \<longleftrightarrow>
     baseRecoveryTimeoutMs cfg \<le> recoveryTimeoutMs e \<and> recoveryTimeoutMs e \<le> maxRecoveryTimeoutMs cfg
     \<and> (state e = CLOSED \<longrightarrow> consecutiveFailures e < threshold cfg \<and> \<not> currentProbeAllowed e
          \<and> recoveryTimeoutMs e = baseRecoveryTimeoutMs cfg)
     \<and> (state e \<noteq> CLOSED \<longrightarrow> trippedAt e \<noteq> None)"

definition row_agrees :: "breaker_row option \<Rightarrow> provider_entry \<Rightarrow> bool" where
  "row_agrees r e = (case r of
       None \<Rightarrow> state e = CLOSED
     | Some row \<Rightarrow> if state e = CLOSED then row_state row = CLOSED
                  else row_state row = OPEN \<and> tripped_at row = trippedAt e)"

definition store_agrees :: "breaker \<Rightarrow> bool" where
  "store_agrees b = (case breaker_store b of None \<Rightarrow> True
     | Some rows \<Rightarrow> distinct (map fst rows) \<and> (\<forall>p. row_agrees (map_of rows p) (entry_of b p)))"

definition breaker_ok :: "breaker \<Rightarrow> bool" where
  "breaker_ok b \<longleftrightarrow> cfg_ok (breaker_cfg b) \<and> (\<forall>p. entry_ok (breaker_cfg b) (entry_of b p)) \<and> store_agrees b"

lemma entry_ok_initial: "cfg_ok cfg \<Longrightarrow> entry_ok cfg (createProviderState (baseRecoveryTimeoutMs cfg))"
  by (simp add: entry_ok_def cfg_ok_def createProviderState_def)

lemma entry_ok_tick [inv_intros]: "entry_ok cfg e \<Longrightarrow> entry_ok cfg (spec_tick now e)"
  by (auto simp: entry_ok_def spec_tick_def)

lemma backoff_bounds:
  assumes "cfg_ok cfg" and "baseRecoveryTimeoutMs cfg \<le> t"
  shows "baseRecoveryTimeoutMs cfg \<le> min (t * backoffMultiplier cfg) (maxRecoveryTimeoutMs cfg)"
proof -
  have "t * 1 \<le> t * backoffMultiplier cfg"
    using assms by (intro mult_left_mono) (auto simp: cfg_ok_def)
  with assms show ?thesis by (auto simp: cfg_ok_def)
qed

lemma entry_ok_spec_trip [inv_intros]: "cfg_ok cfg \<Longrightarrow> baseRecoveryTimeoutMs cfg \<le> recoveryTimeoutMs e \<Longrightarrow> entry_ok cfg (spec_trip cfg now e)"
  using backoff_bounds [of cfg "recoveryTimeoutMs e"]
  by (auto simp: entry_ok_def spec_trip_def cfg_ok_def)

lemma entry_ok_failure [inv_intros]:
  assumes "cfg_ok cfg" and "entry_ok cfg e"
  shows "entry_ok cfg (spec_failure cfg now cat e)"
proof -
  let ?t = "spec_tick now e"
  let ?e = "?t\<lparr>consecutiveFailures := (if lastFailureCategory ?t = Some cat
     then consecutiveFailures ?t + 1 else 1), lastFailureCategory := Some cat\<rparr>"
  have t: "entry_ok cfg ?t" using assms by (simp add: entry_ok_tick)
  show ?thesis
  proof (cases "state ?e = HALF_OPEN \<or> threshold cfg \<le> consecutiveFailures ?e")
    case True
    have "entry_ok cfg (spec_trip cfg now ?e)"
      using t assms(1) by (intro entry_ok_spec_trip) (auto simp: entry_ok_def)
    with True show ?thesis by (auto simp: spec_failure_def Let_def intro: entry_ok_tick)
  next
    case False
    then have "entry_ok cfg ?e" using t by (auto simp: entry_ok_def split: if_splits)
    with False show ?thesis by (auto simp: spec_failure_def Let_def intro: entry_ok_tick)
  qed
qed

lemma entry_ok_success [inv_intros]: "cfg_ok cfg \<Longrightarrow> entry_ok cfg e \<Longrightarrow> entry_ok cfg (spec_success cfg e)"
  by (auto simp: entry_ok_def spec_success_def cfg_ok_def)

lemma entry_ok_allow [inv_intros]: "entry_ok cfg e \<Longrightarrow> entry_ok cfg (snd (spec_allow now e))"
  using entry_ok_tick [of cfg e now] by (auto simp: spec_allow_def Let_def entry_ok_def)

lemma entry_ok_manual_trip [inv_intros]: "entry_ok cfg e \<Longrightarrow> entry_ok cfg (spec_manual_trip now e)"
  by (auto simp: entry_ok_def spec_manual_trip_def)

lemma entry_ok_untrip [inv_intros]: "cfg_ok cfg \<Longrightarrow> entry_ok cfg (spec_untrip cfg e)"
  by (auto simp: entry_ok_def spec_untrip_def cfg_ok_def)

section \<open>The store follows the entries\<close>

lemma row_agrees_tick: "row_agrees r e \<Longrightarrow> row_agrees r (spec_tick now e)"
  by (auto simp: row_agrees_def spec_tick_def split: option.splits if_splits)

lemma row_agrees_persist_open: "state e = OPEN \<Longrightarrow> trippedAt e = Some now \<Longrightarrow>
    row_agrees (Some (persist_row OPEN (Some now) None why old)) e"
  by (auto simp: row_agrees_def persist_row_def coalesce_def split: option.splits)

lemma row_agrees_persist_closed: "state e = CLOSED \<Longrightarrow>
    row_agrees (Some (persist_row CLOSED None (Some now) why old)) e"
  by (auto simp: row_agrees_def persist_row_def split: option.splits)

lemma store_agrees_quiet:
  assumes "store_agrees b" and "breaker_store b' = breaker_store b"
    and "\<And>q. q \<noteq> p \<Longrightarrow> entry_of b' q = entry_of b q"
    and "\<And>r. row_agrees r (entry_of b p) \<Longrightarrow> row_agrees r (entry_of b' p)"
  shows "store_agrees b'"
  using assms unfolding store_agrees_def by (auto split: option.splits) metis

lemma store_agrees_write:
  assumes "store_agrees b" and "breaker_store b' = breaker_store b"
    and "\<And>q. q \<noteq> p \<Longrightarrow> entry_of b' q = entry_of b q"
    and "\<And>old. row_agrees (Some (persist_row st t u why old)) (entry_of b' p)"
  shows "store_agrees (persist p st t u why b')"
proof (cases "breaker_store b")
  case None
  with assms show ?thesis by (simp add: persist_def store_agrees_def)
next
  case (Some rows)
  have "breaker_store (persist p st t u why b') =
      Some (AList.update p (persist_row st t u why (map_of rows p)) rows)"
    using Some assms(2) by (simp add: persist_def)
  moreover have "row_agrees (map_of rows q) (entry_of b q)" "distinct (map fst rows)" for q
    using assms(1) Some by (auto simp: store_agrees_def)
  ultimately show ?thesis
    using assms(3,4) by (auto simp: store_agrees_def update_conv' distinct_update)
qed

lemma store_agrees_getState:
  "store_agrees b \<Longrightarrow> store_agrees (snd (getState_norm now p b))"
  by (erule store_agrees_quiet [where p = p]) (auto intro: row_agrees_tick)

lemma store_agrees_tick: "store_agrees b \<Longrightarrow> store_agrees (maybeTransitionToHalfOpen now p b)"
  by (erule store_agrees_quiet [where p = p]) (auto intro: row_agrees_tick)

lemma store_agrees_ensure: "store_agrees b \<Longrightarrow> store_agrees (getStateEntry p b)"
  by (erule store_agrees_quiet [where p = p]) auto

lemma store_agrees_tripCircuit:
  assumes "store_agrees b"
  shows "store_agrees (tripCircuit now p cat b)"
  unfolding tripCircuit_def Let_def
  by (rule store_agrees_write [OF assms]) (auto intro!: row_agrees_persist_open)

lemma store_agrees_failure:
  assumes "store_agrees b"
  shows "store_agrees (snd (recordFailureWithCategory_norm now p cat b))"
proof -
  let ?b = "maybeTransitionToHalfOpen now p (getStateEntry p b)"
  have b: "store_agrees ?b" using assms by (intro store_agrees_tick store_agrees_ensure)
  have "store_agrees (set_entry p ((entry_of ?b p)\<lparr>consecutiveFailures := n,
      lastFailureCategory := Some cat\<rparr>) ?b)" for n
    by (rule store_agrees_quiet [OF b, where p = p])
      (auto simp: row_agrees_def split: option.splits)
  then show ?thesis
    unfolding recordFailureWithCategory_norm_def Let_def
    by (intro store_agrees_getState) (auto intro: store_agrees_tripCircuit)
qed

lemma store_agrees_success:
  assumes "store_agrees b"
  shows "store_agrees (snd (recordSuccess_norm now p b))"
proof (cases "state (entry_of b p) = CLOSED")
  case True
  have "store_agrees (set_entry p ((entry_of b p)\<lparr>state := CLOSED, consecutiveFailures := 0,
      lastFailureCategory := None, trippedAt := None, currentProbeAllowed := False\<rparr>) (getStateEntry p b))"
    by (rule store_agrees_quiet [OF assms, where p = p])
      (use True in \<open>auto simp: row_agrees_def split: option.splits\<close>)
  with True show ?thesis
    unfolding recordSuccess_norm_def Let_def by (intro store_agrees_getState) simp
next
  case False
  let ?e = "(entry_of b p)\<lparr>state := CLOSED, consecutiveFailures := 0, lastFailureCategory := None,
     trippedAt := None, currentProbeAllowed := False,
     recoveryTimeoutMs := baseRecoveryTimeoutMs (breaker_cfg b)\<rparr>"
  have "store_agrees (persist p CLOSED None (Some now) None (set_entry p ?e (getStateEntry p b)))"
    by (rule store_agrees_write [OF assms]) (auto intro!: row_agrees_persist_closed)
  then have "store_agrees (emit (Recovered p None)
      (persist p CLOSED None (Some now) None (set_entry p ?e (getStateEntry p b))))"
    by (rule store_agrees_quiet [where p = p]) auto
  with False show ?thesis
    unfolding recordSuccess_norm_def Let_def by (intro store_agrees_getState) simp
qed

lemma store_agrees_allow: "store_agrees b \<Longrightarrow> store_agrees (snd (allowRequest_norm now p b))"
  by (erule store_agrees_quiet [where p = p])
    (auto simp: entry_of_allow spec_allow_def Let_def row_agrees_def spec_tick_def
      split: option.splits if_splits)

lemma store_agrees_isState: "store_agrees b \<Longrightarrow> store_agrees (snd (isState_norm st now p b))"
  by (erule store_agrees_quiet [where p = p]) (auto simp: entry_of_isState intro: row_agrees_tick)

lemma store_agrees_manual_trip: "store_agrees b \<Longrightarrow> store_agrees (trip_norm now p why b)"
  unfolding trip_norm_def Let_def
  by (rule store_agrees_write) (auto intro!: row_agrees_persist_open)

lemma store_agrees_untrip: "store_agrees b \<Longrightarrow> store_agrees (untrip_norm now p why b)"
  unfolding untrip_norm_def Let_def
  by (rule store_agrees_write) (auto intro!: row_agrees_persist_closed)

lemmas store_agrees_ops = store_agrees_failure store_agrees_success store_agrees_allow
  store_agrees_isState store_agrees_manual_trip store_agrees_untrip store_agrees_getState

section \<open>The invariant of the class\<close>

lemma breaker_okI:
  assumes "breaker_ok b" and "breaker_cfg b' = breaker_cfg b"
    and "\<And>q. q \<noteq> p \<Longrightarrow> entry_of b' q = entry_of b q"
    and "entry_ok (breaker_cfg b) (entry_of b' p)" and "store_agrees b'"
  shows "breaker_ok b'"
  using assms unfolding breaker_ok_def by metis

lemma breaker_ok_getAll: "breaker_ok b \<Longrightarrow> breaker_ok (snd (getAllStates_loop now ps acc b))"
proof (induction now ps acc b rule: getAllStates_loop.induct)
  case (2 now p ps result b)
  have "breaker_ok (maybeTransitionToHalfOpen now p b)"
    by (rule breaker_okI [OF "2.prems", where p = p])
      (use "2.prems" in \<open>auto simp: breaker_ok_def intro: inv_intros store_agrees_tick\<close>)
  with 2 show ?case by (simp add: Let_def)
qed simp

lemma breaker_inv_step: "breaker_ok b \<Longrightarrow> breaker_ok (breaker_step ev b)"
proof -
  assume ok: "breaker_ok b"
  then have e: "cfg_ok (breaker_cfg b)" "\<And>p. entry_ok (breaker_cfg b) (entry_of b p)" "store_agrees b"
    by (auto simp: breaker_ok_def)
  note I = breaker_okI [OF ok]
  note solve = entry_refinement store_agrees_ops e inv_intros
  have fail: "breaker_ok (snd (recordFailureWithCategory_norm now p cat b))" for now p cat
    by (rule I [where p = p]) (auto simp: entry_of_failure intro: solve)
  have succ: "breaker_ok (snd (recordSuccess_norm now p b))" for now p
    by (rule I [where p = p]) (auto simp: entry_of_success intro: solve)
  have allow: "breaker_ok (snd (allowRequest_norm now p b))" for now p
    by (rule I [where p = p]) (auto simp: entry_of_allow intro: solve)
  have st_ok: "breaker_ok (snd (isState_norm st now p b))" for st now p
    by (rule I [where p = p]) (auto simp: entry_of_isState intro: solve)
  have get: "breaker_ok (snd (getState_norm now p b))" for now p
    by (rule I [where p = p]) (auto intro: solve)
  have man: "breaker_ok (trip_norm now p r b)" for now p r
    by (rule I [where p = p]) (auto simp: entry_of_manual_trip intro: solve)
  have un: "breaker_ok (untrip_norm now p r b)" for now p r
    by (rule I [where p = p]) (auto simp: entry_of_untrip intro: solve)
  have after: "\<lbrakk>\<And>p. breaker_ok (snd (f p))\<rbrakk> \<Longrightarrow> breaker_ok (after b (map_sum id f r))" for f r
    using ok by (cases r) (auto simp: after_def split: prod.splits, metis snd_conv)
  have after_void: "\<lbrakk>\<And>p. breaker_ok (f p)\<rbrakk> \<Longrightarrow> breaker_ok (after_void b (map_sum id f r))" for f r
    using ok by (cases r) (auto simp: after_void_def)
  obtain now op where ev: "ev = (now, op)" by (cases ev)
  show ?thesis
    unfolding ev
    by (cases op)
      (simp_all add: recordSuccess_def recordFailure_def recordFailureByCode_def isOpen_def
        isHalfOpen_def allowRequest_def getState_def trip_def untrip_def getAllStates_def
        after after_void fail succ allow st_ok get man un breaker_ok_getAll ok)
qed

interpretation breaker_machine: invariant_machine breaker_step breaker_ok
  by unfold_locales (rule breaker_inv_step)

section \<open>Refinement of the whole machine\<close>

text \<open>Every call acts on the entry of its normalised provider name, or throws and does nothing.\<close>

fun spec_op :: "breaker_config \<Rightarrow> int \<Rightarrow> breaker_op \<Rightarrow> jsval \<times> (provider_entry \<Rightarrow> provider_entry)" where
  "spec_op cfg now (Op_success p) = (p, spec_success cfg)"
| "spec_op cfg now (Op_failure p e) = (p, spec_failure cfg now (classifyFailure e))"
| "spec_op cfg now (Op_failure_code p c x) = (p, spec_failure cfg now (failure_category_of_code c x))"
| "spec_op cfg now (Op_is_open p) = (p, spec_tick now)"
| "spec_op cfg now (Op_is_half_open p) = (p, spec_tick now)"
| "spec_op cfg now (Op_allow p) = (p, \<lambda>e. snd (spec_allow now e))"
| "spec_op cfg now (Op_get_state p) = (p, spec_tick now)"
| "spec_op cfg now Op_get_all = (JNull, id)"
| "spec_op cfg now (Op_trip p r) = (p, spec_manual_trip now)"
| "spec_op cfg now (Op_untrip p r) = (p, spec_untrip cfg)"

definition spec_step ::
  "breaker_config \<Rightarrow> int \<times> breaker_op \<Rightarrow> (string \<Rightarrow> provider_entry) \<Rightarrow> string \<Rightarrow> provider_entry" where
  "spec_step cfg ev f = (case ev of (now, op) \<Rightarrow>
     if op = Op_get_all then (\<lambda>q. spec_tick now (f q))
     else case normalizeProvider (fst (spec_op cfg now op)) of
         Inl _ \<Rightarrow> f
       | Inr p \<Rightarrow> f(p := snd (spec_op cfg now op) (f p)))"

lemma entry_of_getAll_loop:
  "entry_of (snd (getAllStates_loop now ps acc b)) q =
     (if q \<in> set ps then spec_tick now (entry_of b q) else entry_of b q)"
  by (induction now ps acc b rule: getAllStates_loop.induct) (auto simp: Let_def)

lemma entry_of_getAll: "entry_of (snd (getAllStates now b)) q = spec_tick now (entry_of b q)"
proof (cases "q \<in> set (map fst (breaker_providers b))")
  case True
  then show ?thesis by (simp add: getAllStates_def entry_of_getAll_loop)
next
  case False
  then have "map_of (breaker_providers b) q = None" by (simp add: map_of_eq_None_iff)
  then have "state (entry_of b q) = CLOSED" by (simp add: entry_of_def createProviderState_def)
  with False show ?thesis by (simp add: getAllStates_def entry_of_getAll_loop)
qed

lemma after_simps [simp]:
  "after b (Inl e) = b" "after b (Inr r) = snd r"
  "after_void b (Inl e) = b" "after_void b (Inr b') = b'"
  by (simp_all add: after_def after_void_def split: prod.splits)

lemmas public_ops = recordSuccess_def recordFailure_def recordFailureByCode_def isOpen_def
  isHalfOpen_def allowRequest_def getState_def trip_def untrip_def

lemma step_refines:
  "entry_of (breaker_step ev b) = spec_step (breaker_cfg b) ev (entry_of b)"
proof
  fix q
  obtain now op where ev: "ev = (now, op)" by (cases ev)
  show "entry_of (breaker_step ev b) q = spec_step (breaker_cfg b) ev (entry_of b) q"
  proof (cases "op = Op_get_all")
    case True
    then show ?thesis by (simp add: ev spec_step_def entry_of_getAll)
  next
    case False
    then show ?thesis
      by (cases "normalizeProvider (fst (spec_op (breaker_cfg b) now op))"; cases op)
        (simp_all add: ev spec_step_def public_ops entry_refinement)
  qed
qed

lemma getAll_cfg: "breaker_cfg (snd (getAllStates_loop now ps acc b)) = breaker_cfg b"
  by (induction now ps acc b rule: getAllStates_loop.induct) (auto simp: Let_def)

lemma step_cfg [simp]: "breaker_cfg (breaker_step ev b) = breaker_cfg b"
proof -
  obtain now op where ev: "ev = (now, op)" by (cases ev)
  show ?thesis
  proof (cases "op = Op_get_all")
    case True
    then show ?thesis by (simp add: ev getAll_cfg getAllStates_def)
  next
    case False
    then show ?thesis
      by (cases "normalizeProvider (fst (spec_op (breaker_cfg b) now op))"; cases op)
        (simp_all add: ev public_ops entry_refinement)
  qed
qed

section \<open>Restart\<close>

lemma map_of_restore:
  "distinct (map fst rows) \<Longrightarrow>
   map_of (foldl (\<lambda>acc (p, r). AList.update p (g r) acc) acc rows) q =
     (case map_of rows q of None \<Rightarrow> map_of acc q | Some r \<Rightarrow> Some (g r))"
proof (induction rows arbitrary: acc)
  case (Cons pr rows)
  obtain p r where pr: "pr = (p, r)" by (cases pr)
  from Cons.prems have "map_of rows p = None" by (simp add: pr map_of_eq_None_iff)
  with Cons show ?case by (auto simp: pr update_conv' split: option.splits)
qed simp

lemma entry_of_create:
  assumes "distinct (map fst rows)"
  shows "entry_of (createCircuitBreaker cfg (Some rows)) q =
     (case map_of rows q of
        None \<Rightarrow> createProviderState (baseRecoveryTimeoutMs cfg)
      | Some r \<Rightarrow> (createProviderState (baseRecoveryTimeoutMs cfg))\<lparr>state := row_state r, trippedAt := tripped_at r\<rparr>)"
  using map_of_restore [OF assms, of "\<lambda>r. (createProviderState (baseRecoveryTimeoutMs cfg))
      \<lparr>state := row_state r, trippedAt := tripped_at r\<rparr>" "[]" q]
  by (simp add: entry_of_def createCircuitBreaker_def split: option.splits)

lemma entry_of_create_None [simp]:
  "entry_of (createCircuitBreaker cfg None) q = createProviderState (baseRecoveryTimeoutMs cfg)"
  "breaker_cfg (createCircuitBreaker cfg st) = cfg"
  "breaker_store (createCircuitBreaker cfg st) = st"
  by (simp_all add: entry_of_def createCircuitBreaker_def)

lemma breaker_ok_create_None: "cfg_ok cfg \<Longrightarrow> breaker_ok (createCircuitBreaker cfg None)"
  by (simp add: breaker_ok_def store_agrees_def entry_ok_initial)

lemma breaker_ok_create_empty: "cfg_ok cfg \<Longrightarrow> breaker_ok (createCircuitBreaker cfg (Some []))"
  using entry_ok_initial [of cfg]
  by (simp add: breaker_ok_def store_agrees_def entry_of_create row_agrees_def)
    (simp add: createProviderState_def)

lemma entry_ok_restored:
  "cfg_ok cfg \<Longrightarrow> st = CLOSED \<or> st = OPEN \<and> t \<noteq> None \<Longrightarrow>
   entry_ok cfg ((createProviderState (baseRecoveryTimeoutMs cfg))\<lparr>state := st, trippedAt := t\<rparr>)"
  by (auto simp: entry_ok_def cfg_ok_def createProviderState_def)

declare breaker_step.simps [simp del]

section \<open>The probe latch\<close>

fun reports :: "breaker_op \<Rightarrow> bool" where
  "reports (Op_success _) = True"
| "reports (Op_failure _ _) = True"
| "reports (Op_failure_code _ _ _) = True"
| "reports (Op_trip _ _) = True"
| "reports (Op_untrip _ _) = True"
| "reports _ = False"

definition quiet_for :: "string \<Rightarrow> int \<times> breaker_op \<Rightarrow> bool" where
  "quiet_for p ev = (reports (snd ev) \<longrightarrow> normalizeProvider (fst (spec_op DEFAULT_CONFIG 0 (snd ev))) \<noteq> Inr p)"

definition probe_out :: "string \<Rightarrow> breaker \<Rightarrow> bool" where
  "probe_out p b = (state (entry_of b p) = HALF_OPEN \<and> currentProbeAllowed (entry_of b p))"

lemma spec_op_provider: "fst (spec_op cfg now op) = fst (spec_op DEFAULT_CONFIG 0 op)"
  by (cases op) simp_all

lemma probe_out_step: "probe_out p b \<Longrightarrow> quiet_for p ev \<Longrightarrow> probe_out p (breaker_step ev b)"
proof -
  assume a: "probe_out p b" "quiet_for p ev"
  obtain now op where ev: "ev = (now, op)" by (cases ev)
  have "snd (spec_op (breaker_cfg b) now op) (entry_of b p) = entry_of b p" if "\<not> reports op"
    using that a(1) by (cases op) (auto simp: probe_out_def spec_allow_def Let_def)
  then have "entry_of (breaker_step ev b) p = entry_of b p"
    using a spec_op_provider [of "breaker_cfg b" now op]
    by (auto simp: step_refines spec_step_def ev quiet_for_def probe_out_def split: sum.split)
  with a(1) show ?thesis by (simp add: probe_out_def)
qed

interpretation probe: latch_machine breaker_step "\<lambda>_. True" "probe_out p" "quiet_for p" for p
  by unfold_locales (auto intro: probe_out_step)

lemma probe_granted:
  "allowRequest now (JStr s) b = Inr (True, b') \<Longrightarrow> state (entry_of b (js_trim s)) \<noteq> CLOSED
     \<Longrightarrow> probe_out (js_trim s) b'"
  by (auto simp: allowRequest_def normalizeProvider_def allowRequest_norm_def Let_def probe_out_def
      split: if_splits)

lemma probe_denied:
  "probe_out (js_trim s) b \<Longrightarrow> js_trim s \<noteq> [] \<Longrightarrow> allowRequest now (JStr s) b = Inr (False, getStateEntry (js_trim s) b)"
  by (auto simp: allowRequest_def normalizeProvider_def allowRequest_norm_def Let_def probe_out_def
      maybeTransitionToHalfOpen_def)

section \<open>Tripping and backing off\<close>

definition fails_at :: "string \<Rightarrow> string option \<Rightarrow> int \<Rightarrow> int \<times> breaker_op" where
  "fails_at s code now = (now, Op_failure_code (JStr s) code None)"

lemma fail_step:
  "js_trim s \<noteq> [] \<Longrightarrow> entry_of (breaker_step (fails_at s code now) b) (js_trim s) =
     spec_failure (breaker_cfg b) now (failure_category_of_code code None) (entry_of b (js_trim s))"
  by (simp add: step_refines spec_step_def fails_at_def normalizeProvider_def)

lemma run_cfg [simp]: "breaker_cfg (fold breaker_step evs b) = breaker_cfg b"
  by (induction evs arbitrary: b) simp_all

text \<open>What a call reports on a provider: a failure and its category, or (\<open>None\<close>) that the count starts again.\<close>

fun report_of :: "breaker_op \<Rightarrow> failure_category option" where
  "report_of (Op_failure _ e) = Some (classifyFailure e)"
| "report_of (Op_failure_code _ c x) = Some (failure_category_of_code c x)"
| "report_of _ = None"

definition reports_on :: "string \<Rightarrow> int \<times> breaker_op \<Rightarrow> bool" where
  "reports_on p ev = (reports (snd ev) \<and> normalizeProvider (fst (spec_op DEFAULT_CONFIG 0 (snd ev))) = Inr p)"

definition outcomes :: "string \<Rightarrow> (int \<times> breaker_op) list \<Rightarrow> failure_category option list" where
  "outcomes p evs = map (\<lambda>ev. report_of (snd ev)) (filter (reports_on p) evs)"

text \<open>The reference: how many of the last reports are failures of the category of the very last one.\<close>

definition last_category :: "failure_category option list \<Rightarrow> failure_category option" where
  "last_category os = (case rev os of [] \<Rightarrow> None | c # _ \<Rightarrow> c)"

definition streak :: "failure_category option list \<Rightarrow> nat" where
  "streak os = (case last_category os of None \<Rightarrow> 0 | Some c \<Rightarrow> length (takeWhile (\<lambda>x. x = Some c) (rev os)))"

definition trips_by_hand :: "string \<Rightarrow> int \<times> breaker_op \<Rightarrow> bool" where
  "trips_by_hand p ev = (case snd ev of Op_trip q _ \<Rightarrow> normalizeProvider q = Inr p | _ \<Rightarrow> False)"

lemma streak_simps:
  "streak [] = 0" "last_category [] = None" "last_category (os @ [r]) = r" "streak (os @ [None]) = 0"
  "streak (os @ [Some c]) = (if last_category os = Some c then Suc (streak os) else 1)"
  by (cases "rev os"; auto simp: streak_def last_category_def)+

lemma outcomes_snoc:
  "outcomes p (evs @ [ev]) = outcomes p evs @ (if reports_on p ev then [report_of (snd ev)] else [])"
  by (simp add: outcomes_def)

definition counting :: "breaker_config \<Rightarrow> failure_category option list \<Rightarrow> provider_entry" where
  "counting cfg os = (createProviderState (baseRecoveryTimeoutMs cfg))
     \<lparr>consecutiveFailures := streak os, lastFailureCategory := last_category os\<rparr>"

lemma counting_failure:
  assumes "0 < baseRecoveryTimeoutMs cfg"
  shows "streak (os @ [Some c]) < threshold cfg \<Longrightarrow> spec_failure cfg now c (counting cfg os) = counting cfg (os @ [Some c])"
    "threshold cfg \<le> streak (os @ [Some c]) \<Longrightarrow> spec_failure cfg now c (counting cfg os) =
       (counting cfg (os @ [Some c]))\<lparr>state := OPEN, trippedAt := Some now\<rparr>"
  using assms by (auto simp: spec_failure_def spec_trip_def spec_tick_def counting_def createProviderState_def Let_def
      streak_simps)

lemma counting_step:
  assumes e: "entry_of b p = counting (breaker_cfg b) os" and pos: "0 < baseRecoveryTimeoutMs (breaker_cfg b)"
    and hand: "\<not> trips_by_hand p ev"
  defines "os' \<equiv> os @ (if reports_on p ev then [report_of (snd ev)] else [])"
  shows "entry_of (breaker_step ev b) p =
    (if reports_on p ev \<and> report_of (snd ev) \<noteq> None \<and> threshold (breaker_cfg b) \<le> streak os'
     then (counting (breaker_cfg b) os')\<lparr>state := OPEN, trippedAt := Some (fst ev)\<rparr>
     else counting (breaker_cfg b) os')"
proof -
  obtain now op where ev: "ev = (now, op)" by (cases ev)
  have quiet: "spec_tick now (counting (breaker_cfg b) os) = counting (breaker_cfg b) os"
    "snd (spec_allow now (counting (breaker_cfg b) os)) = counting (breaker_cfg b) os"
    by (simp_all add: counting_def createProviderState_def spec_allow_def Let_def)
  have zero: "spec_success (breaker_cfg b) (counting (breaker_cfg b) os) = counting (breaker_cfg b) (os @ [None])"
    "spec_untrip (breaker_cfg b) (counting (breaker_cfg b) os) = counting (breaker_cfg b) (os @ [None])"
    by (simp_all add: counting_def createProviderState_def spec_success_def spec_untrip_def streak_simps)
  note failure = counting_failure [OF pos, of os]
  show ?thesis
    using hand unfolding os'_def ev
    by (cases op)
      (auto simp: step_refines spec_step_def e reports_on_def trips_by_hand_def quiet zero failure not_le split: sum.split)
qed

lemma counting_run:
  assumes "entry_of b p = counting (breaker_cfg b) []" and "0 < baseRecoveryTimeoutMs (breaker_cfg b)"
    and "\<forall>ev \<in> set evs. \<not> trips_by_hand p ev"
    and "\<forall>k \<le> length evs. streak (outcomes p (take k evs)) < threshold (breaker_cfg b)"
  shows "entry_of (fold breaker_step evs b) p = counting (breaker_cfg b) (outcomes p evs)"
  using assms(3,4)
proof (induction evs rule: rev_induct)
  case Nil
  then show ?case using assms(1) by (simp add: outcomes_def)
next
  case (snoc ev evs)
  have "streak (outcomes p (take k evs)) < threshold (breaker_cfg b)" if "k \<le> length evs" for k
    using snoc.prems(2) that by (metis butlast_snoc le_SucI length_append_singleton take_butlast nat_less_le
        order_le_less take_all_iff append_Nil2 diff_is_0_eq' take_append take_0)
  then have IH: "entry_of (fold breaker_step evs b) p = counting (breaker_cfg (fold breaker_step evs b)) (outcomes p evs)"
    using snoc by simp
  have "streak (outcomes p (evs @ [ev])) < threshold (breaker_cfg b)"
    using snoc.prems(2) [rule_format, of "Suc (length evs)"] by simp
  then show ?case
    using counting_step [OF IH, of ev] assms(2) snoc.prems(1) by (simp add: outcomes_snoc)
qed

fun probes_due :: "breaker_config \<Rightarrow> int \<Rightarrow> int \<Rightarrow> (int \<times> int) list \<Rightarrow> bool" where
  "probes_due cfg tripped timeout [] = True"
| "probes_due cfg tripped timeout ((probe, failed) # rest) =
     (timeout \<le> probe - tripped \<and> probe \<le> failed \<and>
      probes_due cfg failed (min (timeout * backoffMultiplier cfg) (maxRecoveryTimeoutMs cfg)) rest)"

definition probe_round :: "string \<Rightarrow> string option \<Rightarrow> int \<times> int \<Rightarrow> (int \<times> breaker_op) list" where
  "probe_round s code r = [(fst r, Op_allow (JStr s)), fails_at s code (snd r)]"

lemma probe_round_entry:
  fixes b :: breaker and s :: string and code :: "string option" and T probe failed :: int
  assumes "js_trim s \<noteq> []" and "state (entry_of b (js_trim s)) = OPEN"
    and "trippedAt (entry_of b (js_trim s)) = Some T" and "recoveryTimeoutMs (entry_of b (js_trim s)) \<le> probe - T"
    and "0 < min (recoveryTimeoutMs (entry_of b (js_trim s)) * backoffMultiplier (breaker_cfg b)) (maxRecoveryTimeoutMs (breaker_cfg b))"
  defines "e' \<equiv> entry_of (fold breaker_step (probe_round s code (probe, failed)) b) (js_trim s)"
  shows "state e' = OPEN" "trippedAt e' = Some failed"
    "recoveryTimeoutMs e' = min (recoveryTimeoutMs (entry_of b (js_trim s)) * backoffMultiplier (breaker_cfg b))
       (maxRecoveryTimeoutMs (breaker_cfg b))"
proof -
  have allow: "entry_of (breaker_step (probe, Op_allow (JStr s)) b) (js_trim s) =
      (entry_of b (js_trim s))\<lparr>state := HALF_OPEN, currentProbeAllowed := True\<rparr>"
    using assms(1-4)
    by (simp add: step_refines spec_step_def normalizeProvider_def spec_allow_def spec_tick_def Let_def)
  have e': "e' = spec_failure (breaker_cfg b) failed (failure_category_of_code code None)
      ((entry_of b (js_trim s))\<lparr>state := HALF_OPEN, currentProbeAllowed := True\<rparr>)"
    using assms(1) by (simp add: e'_def probe_round_def fail_step allow)
  show "state e' = OPEN" "trippedAt e' = Some failed"
    "recoveryTimeoutMs e' = min (recoveryTimeoutMs (entry_of b (js_trim s)) * backoffMultiplier (breaker_cfg b))
       (maxRecoveryTimeoutMs (breaker_cfg b))"
    using assms(5) by (auto simp: e' spec_failure_def spec_trip_def spec_tick_def Let_def)
qed

lemma min_backoff: "1 \<le> (m::int) \<Longrightarrow> 0 < M \<Longrightarrow> min (min x M * m) M = min (x * m) M"
proof (cases "x \<le> M")
  case False
  assume m: "1 \<le> m" "0 < M"
  then have "M * 1 \<le> M * m" "M * m \<le> x * m"
    using False by (intro mult_left_mono mult_right_mono; simp)+
  then have "M \<le> M * m" "M \<le> x * m" by linarith+
  with False show ?thesis by (simp only: min_def) auto
qed simp

lemma backoff_run:
  assumes "js_trim s \<noteq> []" and "cfg_ok (breaker_cfg b)" and "0 < baseRecoveryTimeoutMs (breaker_cfg b)"
    and "state (entry_of b (js_trim s)) = OPEN" and "trippedAt (entry_of b (js_trim s)) = Some T"
    and "recoveryTimeoutMs (entry_of b (js_trim s)) = R" and "0 < R"
    and "probes_due (breaker_cfg b) T R rounds"
  shows "state (entry_of (fold breaker_step (concat (map (probe_round s code) rounds)) b) (js_trim s)) = OPEN
     \<and> recoveryTimeoutMs (entry_of (fold breaker_step (concat (map (probe_round s code) rounds)) b) (js_trim s)) =
         (if rounds = [] then R
          else min (R * backoffMultiplier (breaker_cfg b) ^ length rounds) (maxRecoveryTimeoutMs (breaker_cfg b)))"
  using assms
proof (induction rounds arbitrary: b T R)
  case (Cons r rounds)
  obtain probe failed where r: "r = (probe, failed)" by (cases r)
  let ?m = "backoffMultiplier (breaker_cfg b)" and ?M = "maxRecoveryTimeoutMs (breaker_cfg b)"
  let ?R = "min (R * ?m) ?M" and ?b = "fold breaker_step (probe_round s code r) b"
  have m: "1 \<le> ?m" "0 < ?M" using Cons.prems by (auto simp: cfg_ok_def)
  then have R: "0 < ?R" using Cons.prems(7) by auto
  have due: "R \<le> probe - T" "probes_due (breaker_cfg b) failed ?R rounds"
    using Cons.prems(8) by (auto simp: r)
  note step = probe_round_entry [where s = s and b = b and T = T and probe = probe and failed = failed and code = code]
  have "state (entry_of ?b (js_trim s)) = OPEN" "trippedAt (entry_of ?b (js_trim s)) = Some failed"
    "recoveryTimeoutMs (entry_of ?b (js_trim s)) = ?R"
    using step Cons.prems due R by (auto simp: r)
  from Cons.IH [OF Cons.prems(1) _ _ this(1,2,3)] Cons.prems R due(2) show ?case
    using min_backoff [of "?m ^ length rounds" ?M "R * ?m"] m
    by (simp add: mult.assoc)
qed simp

section \<open>Properties\<close>

text \<open>C1: Whatever sequence of calls is made on a breaker created over an empty store, at
  whatever clock readings, every entry stays well formed (recovery timeout between base and
  maximum, a closed circuit below its threshold with no probe out, an open or half-open one with
  a trip time) and the persisted row of every provider agrees with its entry.\<close>

theorem breaker_invariant:
  assumes "cfg_ok cfg"
  shows "breaker_ok (fold breaker_step evs (createCircuitBreaker cfg (Some [])))"
  by (rule breaker_machine.inv_run) (rule breaker_ok_create_empty [OF assms])

theorem breaker_invariant_witness:
  "breaker_ok (fold breaker_step [(5, Op_failure (JStr ''ollama'') (JStr ''ECONNREFUSED''))]
     (createCircuitBreaker DEFAULT_CONFIG (Some [])))"
  by (rule breaker_invariant) (simp add: cfg_ok_def DEFAULT_CONFIG_def)

text \<open>C2: The class refines one independent entry machine per provider name: after any run of
  public calls (errors, store writes and lazy half-open transitions included) reading the entry of
  every provider gives what the entry specification computes.\<close>

theorem breaker_refines_entries:
  "entry_of (fold breaker_step evs b) = fold (spec_step (breaker_cfg b)) evs (entry_of b)"
  by (induction evs arbitrary: b) (simp_all add: step_refines)

text \<open>C3: A half-open circuit hands out one probe: once \<open>allowRequest\<close> has admitted a request on a
  circuit that is not closed, no later \<open>allowRequest\<close> is admitted, at any later time and after any
  queries or any calls for other providers, until a success, failure, trip or untrip is reported
  for that provider.\<close>

theorem single_probe:
  assumes "allowRequest now (JStr s) b = Inr (True, b1)" and "state (entry_of b (js_trim s)) \<noteq> CLOSED"
    and "\<forall>ev \<in> set evs. quiet_for (js_trim s) ev"
  shows "\<exists>b2. allowRequest later (JStr s) (fold breaker_step evs b1) = Inr (False, b2)"
proof -
  have "js_trim s \<noteq> []"
    using assms(1) by (auto simp: allowRequest_def normalizeProvider_def split: if_splits)
  moreover have "probe_out (js_trim s) (fold breaker_step evs b1)"
    by (rule probe.latched_run) (use probe_granted [OF assms(1,2)] assms(3) in auto)
  ultimately show ?thesis using probe_denied by blast
qed

definition open_breaker :: breaker where
  "open_breaker = breaker_step (0, Op_trip (JStr ''ollama'') None) (createCircuitBreaker DEFAULT_CONFIG (Some []))"

theorem single_probe_witness:
  "\<exists>b1. allowRequest 60000 (JStr ''ollama'') open_breaker = Inr (True, b1) \<and>
    (\<exists>b2. allowRequest 900000 (JStr ''ollama'')
      (fold breaker_step [(70000, Op_get_all), (80000, Op_failure (JStr ''codex'') JNull)] b1) = Inr (False, b2))"
proof -
  have a: "allowRequest 60000 (JStr ''ollama'') open_breaker =
      Inr (True, snd (allowRequest_norm 60000 ''ollama'' open_breaker))"
    "state (entry_of open_breaker (js_trim ''ollama'')) \<noteq> CLOSED"
    "\<forall>ev \<in> set [(70000, Op_get_all), (80000, Op_failure (JStr ''codex'') JNull)]. quiet_for (js_trim ''ollama'') ev"
    by code_simp+
  show ?thesis using a(1) single_probe [OF a] by blast
qed

text \<open>C4: From its initial state, through any calls of the class for any providers (this provider is not tripped by
  hand), a circuit counts exactly the latest run of failures of one category: a success, an \<open>untrip\<close> or a failure of
  another category starts the count again, and nothing else changes it. As long as every run so far was
  shorter than the threshold the circuit is closed; the next call leaves it closed if the run is still shorter,
  and opens it at that moment, with the base recovery timeout, if the run has reached the threshold.\<close>

theorem trips_at_threshold:
  assumes "entry_of b p = createProviderState (baseRecoveryTimeoutMs (breaker_cfg b))"
    and "0 < baseRecoveryTimeoutMs (breaker_cfg b)"
    and "\<forall>e \<in> set (ev # evs). \<not> trips_by_hand p e"
    and "\<forall>k \<le> length evs. streak (outcomes p (take k evs)) < threshold (breaker_cfg b)"
    and "n = streak (outcomes p (evs @ [ev]))" and "before = fold breaker_step evs b"
  shows "state (entry_of before p) = CLOSED \<and> consecutiveFailures (entry_of before p) = streak (outcomes p evs) \<and>
    (let e = entry_of (breaker_step ev before) p in
       consecutiveFailures e = n \<and> recoveryTimeoutMs e = baseRecoveryTimeoutMs (breaker_cfg b) \<and>
       (if n < threshold (breaker_cfg b) then state e = CLOSED else state e = OPEN \<and> trippedAt e = Some (fst ev)))"
proof -
  have initial: "entry_of b p = counting (breaker_cfg b) []"
    using assms(1) by (simp add: counting_def createProviderState_def streak_simps)
  have run: "entry_of before p = counting (breaker_cfg before) (outcomes p evs)"
    using counting_run [OF initial assms(2) _ assms(4)] assms(3,6) by simp
  have quiet: "streak (outcomes p evs) < threshold (breaker_cfg b)"
    using assms(4) [rule_format, of "length evs"] by simp
  have step: "entry_of (breaker_step ev before) p =
    (if reports_on p ev \<and> report_of (snd ev) \<noteq> None \<and> threshold (breaker_cfg b) \<le> n
     then (counting (breaker_cfg b) (outcomes p (evs @ [ev])))\<lparr>state := OPEN, trippedAt := Some (fst ev)\<rparr>
     else counting (breaker_cfg b) (outcomes p (evs @ [ev])))"
    using counting_step [OF run, of ev] assms(2,3,5,6) by (cases "report_of (snd ev)") (simp_all add: outcomes_snoc)
  have "n < threshold (breaker_cfg b)" if "\<not> (reports_on p ev \<and> report_of (snd ev) \<noteq> None)"
    using that quiet assms(5) by (auto simp: outcomes_snoc streak_simps split: if_splits)
  then show ?thesis
    unfolding Let_def step using run assms(5,6) by (auto simp: counting_def createProviderState_def)
qed

definition mixed_calls :: "(int \<times> breaker_op) list" where
  "mixed_calls = [(10, Op_failure (JStr ''codex'') (JStr ''429'')), (20, Op_failure (JStr ''codex'') (JStr ''429'')),
     (25, Op_failure (JStr ''codex'') (JStr ''enotfound'')), (26, Op_success (JStr ''ollama'')),
     (30, Op_failure_code (JStr ''codex'') (Some ''rate_limit'') None), (35, Op_is_open (JStr ''codex'')),
     (40, Op_failure (JStr ''codex'') (JStr ''too many requests''))]"

theorem trips_at_threshold_witness:
  "let before = fold breaker_step mixed_calls (createCircuitBreaker DEFAULT_CONFIG None) in
     state (entry_of before ''codex'') = CLOSED \<and> consecutiveFailures (entry_of before ''codex'') = 2 \<and>
     state (entry_of (breaker_step (50, Op_failure_code (JStr ''codex'') (Some ''quota_exceeded'') None) before) ''codex'') = OPEN"
proof -
  let ?b = "createCircuitBreaker DEFAULT_CONFIG None"
  let ?ev = "(50, Op_failure_code (JStr ''codex'') (Some ''quota_exceeded'') None) :: int \<times> breaker_op"
  have h: "entry_of ?b ''codex'' = createProviderState (baseRecoveryTimeoutMs (breaker_cfg ?b))"
    "0 < baseRecoveryTimeoutMs (breaker_cfg ?b)"
    by (simp, code_simp)
  have ok: "\<forall>e \<in> set (?ev # mixed_calls). \<not> trips_by_hand ''codex'' e"
    by code_simp
  have "\<forall>k \<in> set [0..<8]. streak (outcomes ''codex'' (take k mixed_calls)) < threshold (breaker_cfg ?b)"
    by code_simp
  then have prefixes: "\<forall>k \<le> length mixed_calls. streak (outcomes ''codex'' (take k mixed_calls)) < threshold (breaker_cfg ?b)"
    by (simp add: mixed_calls_def)
  have v: "streak (outcomes ''codex'' mixed_calls) = 2" "streak (outcomes ''codex'' (mixed_calls @ [?ev])) = 3"
    "threshold (breaker_cfg ?b) = 3"
    by code_simp+
  show ?thesis using trips_at_threshold [OF h ok prefixes refl refl] unfolding v Let_def by simp
qed

text \<open>C5: Exponential backoff: every failed probe multiplies the recovery timeout, so after k
  failed probes of an open circuit it is the initial one times the multiplier to the k, capped
  at the configured maximum, and the circuit is open again.\<close>

theorem backoff_after_failed_probes:
  assumes "js_trim s \<noteq> []" and "cfg_ok (breaker_cfg b)" and "0 < baseRecoveryTimeoutMs (breaker_cfg b)"
    and "entry_of b (js_trim s) = e" and "state e = OPEN" and "trippedAt e = Some T"
    and "recoveryTimeoutMs e = baseRecoveryTimeoutMs (breaker_cfg b)"
    and "probes_due (breaker_cfg b) T (baseRecoveryTimeoutMs (breaker_cfg b)) rounds" and "rounds \<noteq> []"
  shows "state (entry_of (fold breaker_step (concat (map (probe_round s code) rounds)) b) (js_trim s)) = OPEN
     \<and> recoveryTimeoutMs (entry_of (fold breaker_step (concat (map (probe_round s code) rounds)) b) (js_trim s)) =
        min (baseRecoveryTimeoutMs (breaker_cfg b) * backoffMultiplier (breaker_cfg b) ^ length rounds)
          (maxRecoveryTimeoutMs (breaker_cfg b))"
  using backoff_run [of s b T "baseRecoveryTimeoutMs (breaker_cfg b)" rounds code] assms by simp

theorem backoff_after_failed_probes_witness:
  "recoveryTimeoutMs (entry_of (fold breaker_step
     (concat (map (probe_round ''ollama'' None) [(60000, 61000), (200000, 200001)])) open_breaker) ''ollama'') = 240000"
proof -
  have h: "js_trim ''ollama'' \<noteq> []" "cfg_ok (breaker_cfg open_breaker)"
    "0 < baseRecoveryTimeoutMs (breaker_cfg open_breaker)"
    "entry_of open_breaker (js_trim ''ollama'') = entry_of open_breaker ''ollama''"
    "state (entry_of open_breaker ''ollama'') = OPEN"
    "trippedAt (entry_of open_breaker ''ollama'') = Some 0"
    "recoveryTimeoutMs (entry_of open_breaker ''ollama'') = baseRecoveryTimeoutMs (breaker_cfg open_breaker)"
    "probes_due (breaker_cfg open_breaker) 0 (baseRecoveryTimeoutMs (breaker_cfg open_breaker)) [(60000, 61000), (200000, 200001)]"
    "[(60000, 61000), (200000, 200001)] \<noteq> ([] :: (int \<times> int) list)"
    by (code_simp | simp add: cfg_ok_def open_breaker_def DEFAULT_CONFIG_def)+
  have v: "js_trim ''ollama'' = ''ollama''"
    "min (baseRecoveryTimeoutMs (breaker_cfg open_breaker) * backoffMultiplier (breaker_cfg open_breaker) ^ length
      [(60000, 61000), (200000, 200001::int)]) (maxRecoveryTimeoutMs (breaker_cfg open_breaker)) = 240000" (is "?v = _")
    by code_simp+
  show ?thesis using backoff_after_failed_probes [OF h, of None] unfolding v by blast
qed

text \<open>C6: Restart: a breaker rebuilt from the rows a run persisted is well formed, has open exactly
  the circuits that were not closed (a half-open one comes back open), with their trip times.\<close>

theorem restart_from_store:
  assumes "breaker_ok b" and "breaker_store b = Some rows"
    and "b' = createCircuitBreaker (breaker_cfg b) (Some rows)"
  shows "breaker_ok b' \<and> (\<forall>q. if state (entry_of b q) = CLOSED then state (entry_of b' q) = CLOSED
      else state (entry_of b' q) = OPEN \<and> trippedAt (entry_of b' q) = trippedAt (entry_of b q))"
proof -
  have rows: "distinct (map fst rows)" and agree: "row_agrees (map_of rows q) (entry_of b q)" for q
    using assms(1,2) by (auto simp: breaker_ok_def store_agrees_def)
  have ok: "cfg_ok (breaker_cfg b)" "entry_ok (breaker_cfg b) (entry_of b q)" for q
    using assms(1) by (auto simp: breaker_ok_def)
  note e = entry_of_create [OF rows, of "breaker_cfg b", folded assms(3)]
  have q: "entry_ok (breaker_cfg b) (entry_of b' q) \<and> row_agrees (map_of rows q) (entry_of b' q) \<and>
    (if state (entry_of b q) = CLOSED then state (entry_of b' q) = CLOSED
      else state (entry_of b' q) = OPEN \<and> trippedAt (entry_of b' q) = trippedAt (entry_of b q))" for q
  proof (cases "map_of rows q")
    case None
    then show ?thesis using agree [of q] ok(1)
      by (simp add: e row_agrees_def entry_ok_initial) (simp add: createProviderState_def)
  next
    case (Some r)
    then show ?thesis using agree [of q] ok(1) ok(2) [of q]
      by (auto simp: e row_agrees_def entry_ok_restored entry_ok_def [of _ "entry_of b q"] split: if_splits)
  qed
  moreover have "breaker_cfg b' = breaker_cfg b" "breaker_store b' = Some rows"
    by (simp_all add: assms(3))
  ultimately show ?thesis using ok(1) rows by (simp add: breaker_ok_def store_agrees_def)
qed

theorem restart_from_store_witness:
  "state (entry_of (createCircuitBreaker DEFAULT_CONFIG (breaker_store open_breaker)) ''ollama'') = OPEN"
proof -
  have ok: "breaker_ok open_breaker"
    unfolding open_breaker_def
    by (rule breaker_inv_step, rule breaker_ok_create_empty) (simp add: cfg_ok_def DEFAULT_CONFIG_def)
  obtain rows where rows: "breaker_store open_breaker = Some rows"
    by (cases "breaker_store open_breaker") (simp, code_simp, simp)
  have v: "breaker_cfg open_breaker = DEFAULT_CONFIG" "state (entry_of open_breaker ''ollama'') = OPEN"
    by (simp add: open_breaker_def, code_simp)
  show ?thesis using restart_from_store [OF ok rows refl] by (auto simp: v rows dest!: spec [of _ "''ollama''"])
qed

end
