(* ===== verification/Rows.thy ===== *)
theory Rows
  imports Prelude
begin

text \<open>
  Database rows as JavaScript objects: a row maps column names to values, a column that was never
  written is \<open>NULL\<close>. \<open>set_cols\<close> is the assignment list of an \<open>UPDATE\<close>: a column that occurs twice
  gets the rightmost value, as SQLite defines it, and \<open>undefined\<close> is bound as \<open>NULL\<close>. A table is the
  list of its rows; the primary key is the text column \<open>id\<close>.

  Lemmas: reading a column back after an update (\<open>row_simps\<close>), lookup by key, the frame property of
  updates by key, uniqueness of keys, and the interpretation of \<open>row_store\<close> on tables.
\<close>

section \<open>Columns\<close>

type_synonym db_row = jsobj

definition col :: "db_row \<Rightarrow> string \<Rightarrow> jsval" where
  "col r c = (case map_of r c of None \<Rightarrow> JNull | Some v \<Rightarrow> v)"

definition sql_value :: "jsval \<Rightarrow> jsval" where
  "sql_value v = (if v = JUndef then JNull else v)"

definition set_col :: "string \<Rightarrow> jsval \<Rightarrow> db_row \<Rightarrow> db_row" where
  "set_col c v r = AList.update c (sql_value v) r"

definition set_cols :: "(string \<times> jsval) list \<Rightarrow> db_row \<Rightarrow> db_row" where
  "set_cols updates r = foldl (\<lambda>acc (c, v). set_col c v acc) r updates"

text \<open>\<open>a = b\<close> in SQL, and property access \<open>v.k\<close> on any value that is not nullish.\<close>

definition sql_eq :: "jsval \<Rightarrow> jsval \<Rightarrow> bool" where
  "sql_eq a b = (a = b \<and> \<not> is_nullish a)"

fun jget :: "jsval \<Rightarrow> string \<Rightarrow> jsval" where
  "jget (JObj fields) k = obj_get fields k"
| "jget _ k = JUndef"

definition num_of :: "jsval \<Rightarrow> rat" where
  "num_of v = (case v of JNum q \<Rightarrow> q | _ \<Rightarrow> 0)"

definition str_of :: "jsval \<Rightarrow> string" where
  "str_of v = (case v of JStr s \<Rightarrow> s | _ \<Rightarrow> [])"

definition arr_of :: "jsval \<Rightarrow> jsval list" where
  "arr_of v = (case v of JArr vs \<Rightarrow> vs | _ \<Rightarrow> [])"

lemma col_set_col [simp, row_simps]:
  "col (set_col c v r) d = (if d = c then sql_value v else col r d)"
  by (simp add: col_def set_col_def update_conv')

lemma set_cols_Nil [simp, row_simps]: "set_cols [] r = r"
  by (simp add: set_cols_def)

lemma set_cols_Cons [simp, row_simps]: "set_cols ((c, v) # us) r = set_cols us (set_col c v r)"
  by (simp add: set_cols_def)

lemma set_cols_append [simp, row_simps]: "set_cols (us @ vs) r = set_cols vs (set_cols us r)"
  by (simp add: set_cols_def)

lemma col_set_cols:
  "col (set_cols us r) c = (case map_of (rev us) c of None \<Rightarrow> col r c | Some v \<Rightarrow> sql_value v)"
proof (induction us arbitrary: r)
  case (Cons u us)
  obtain d v where "u = (d, v)" by (cases u)
  with Cons show ?case by (simp add: map_add_def split: option.splits)
qed simp

lemma col_set_cols_frame [row_simps]: "c \<notin> fst ` set us \<Longrightarrow> col (set_cols us r) c = col r c"
  by (subst col_set_cols) (simp add: map_of_eq_None_iff [THEN iffD2])

lemma sql_value_simps [simp, row_simps]:
  "sql_value JUndef = JNull" "sql_value JNull = JNull" "sql_value (JBool b) = JBool b"
  "sql_value (JNum q) = JNum q" "sql_value (JStr s) = JStr s" "sql_value (JArr vs) = JArr vs"
  "sql_value (JObj o') = JObj o'"
  by (simp_all add: sql_value_def)

lemma sql_value_idem [simp]: "sql_value (sql_value v) = sql_value v"
  by (simp add: sql_value_def)

lemma sql_eq_simps [simp, row_simps]:
  "sql_eq (JStr s) v \<longleftrightarrow> v = JStr s" "sql_eq v (JStr s) \<longleftrightarrow> v = JStr s"
  "\<not> sql_eq JNull v" "\<not> sql_eq v JNull"
  by (auto simp: sql_eq_def)

section \<open>Tables with a text key\<close>

definition has_id :: "string \<Rightarrow> db_row \<Rightarrow> bool" where
  "has_id i r = (col r ''id'' = JStr i)"

definition lookup_row :: "string \<Rightarrow> db_row list \<Rightarrow> db_row option" where
  "lookup_row i rows = List.find (has_id i) rows"

definition update_row :: "string \<Rightarrow> (db_row \<Rightarrow> db_row) \<Rightarrow> db_row list \<Rightarrow> db_row list" where
  "update_row i f rows = map_where (has_id i) f rows"

definition row_ids :: "db_row list \<Rightarrow> jsval list" where
  "row_ids rows = map (\<lambda>r. col r ''id'') rows"

text \<open>Updates never assign the primary key.\<close>

definition keeps_id :: "(db_row \<Rightarrow> db_row) \<Rightarrow> bool" where
  "keeps_id f \<longleftrightarrow> (\<forall>r. col (f r) ''id'' = col r ''id'')"

lemma keeps_id_set_cols [intro]: "''id'' \<notin> fst ` set us \<Longrightarrow> keeps_id (set_cols us)"
  by (simp add: keeps_id_def col_set_cols_frame)

lemma lookup_row_Nil [simp]: "lookup_row i [] = None"
  by (simp add: lookup_row_def)

lemma lookup_row_Cons [simp]:
  "lookup_row i (r # rows) = (if has_id i r then Some r else lookup_row i rows)"
  by (simp add: lookup_row_def)

lemma lookup_row_Some: "lookup_row i rows = Some r \<Longrightarrow> r \<in> set rows \<and> col r ''id'' = JStr i"
  by (auto simp: lookup_row_def find_Some_iff has_id_def)

lemma lookup_row_None: "lookup_row i rows = None \<longleftrightarrow> JStr i \<notin> set (row_ids rows)"
  by (induction rows) (auto simp: row_ids_def has_id_def)

lemma lookup_row_unique:
  "distinct (row_ids rows) \<Longrightarrow> r \<in> set rows \<Longrightarrow> col r ''id'' = JStr i \<Longrightarrow> lookup_row i rows = Some r"
  by (induction rows) (auto simp: row_ids_def has_id_def image_iff)

lemma row_ids_map_where [simp]: "keeps_id f \<Longrightarrow> row_ids (map_where P f rows) = row_ids rows"
  by (induction rows) (auto simp: row_ids_def keeps_id_def)

lemma row_ids_update_row [simp]: "keeps_id f \<Longrightarrow> row_ids (update_row i f rows) = row_ids rows"
  by (simp add: update_row_def)

lemma lookup_map_where:
  "keeps_id f \<Longrightarrow> lookup_row i (map_where P f rows) =
     map_option (\<lambda>r. if P r then f r else r) (lookup_row i rows)"
  by (induction rows) (auto simp: has_id_def keeps_id_def)

lemma lookup_update_row:
  "keeps_id f \<Longrightarrow> lookup_row j (update_row i f rows) =
     (if j = i then map_option f (lookup_row j rows) else lookup_row j rows)"
  by (induction rows) (auto simp: update_row_def has_id_def keeps_id_def)

lemma in_row_ids: "r \<in> set rows \<Longrightarrow> col r ''id'' \<in> set (row_ids rows)"
  by (simp add: row_ids_def)

lemma row_ids_filter_subset: "set (row_ids (filter P rows)) \<subseteq> set (row_ids rows)"
  by (auto simp: row_ids_def)

lemma distinct_row_ids_filter: "distinct (row_ids rows) \<Longrightarrow> distinct (row_ids (filter P rows))"
  by (simp add: row_ids_def distinct_map_filter)

lemma all2_map_where:
  "(\<And>r. r \<in> set rows \<Longrightarrow> P r \<Longrightarrow> R r (f r)) \<Longrightarrow> (\<And>r. r \<in> set rows \<Longrightarrow> \<not> P r \<Longrightarrow> R r r) \<Longrightarrow>
   list_all2 R rows (map_where P f rows)"
  by (induction rows) auto

lemma all2_ids: "list_all2 R rows rows' \<Longrightarrow> (\<And>r r'. R r r' \<Longrightarrow> col r' ''id'' = col r ''id'') \<Longrightarrow> row_ids rows' = row_ids rows"
  by (induction rule: list_all2_induct) (auto simp: row_ids_def)

interpretation table: row_store "\<lambda>rows i. lookup_row i rows" update_row keeps_id
  by unfold_locales (auto simp: lookup_update_row keeps_id_def)

end
