(* ===== verification/Task_Store.thy ===== *)
theory Task_Store
  imports Rows "HOL-Library.Product_Lexorder" "HOL-Library.List_Lexorder"
begin

text \<open>
  The task table of \<open>server/db/task-core.js\<close> and the operations on it: status transitions, slot
  claims, requeueing, progress, deletion and output retention.

  State: \<open>tdb\<close>, the tables the operations touch, the queue of events they emit and the flag
  \<open>dbClosed\<close>. An operation that can throw returns \<open>Inl\<close> an error or \<open>Inr\<close> a value, with the state
  it leaves behind. SQLite is synchronous in the one server process, so a read and the guarded
  write after it see the same rows; the \<open>changes === 0\<close> branches are kept as the code has them. The
  JSON columns hold their parsed value. Instants (\<open>toISOString\<close>) are kept as their milliseconds:
  ISO strings of one width order as the instants do. \<open>dbClosed\<close> stands for both \<open>dbClosed\<close> and
  \<open>db === null\<close>, which \<open>setDb\<close> sets together. \<open>terminalGuards\<close> and \<open>terminalPending\<close> are the two Maps of
  the workflow runtime, kept in the same record so that one state is passed along.
\<close>

section \<open>Data\<close>

definition TERMINAL_TASK_STATUS_VALUES :: "string list" where
  "TERMINAL_TASK_STATUS_VALUES = [''completed'', ''failed'', ''cancelled'', ''skipped'']"

definition ACTIVE_TASK_STATUS_VALUES :: "string list" where
  "ACTIVE_TASK_STATUS_VALUES = [''pending'', ''pending_approval'', ''queued'', ''waiting'',
     ''running'', ''paused'', ''blocked'', ''retry_scheduled'']"

datatype task_error =
    Database_closed
  | Invalid_column string
  | Not_an_object
  | Use_updateTaskStatus
  | Task_not_found string
  | Cannot_transition string string string
  | Ambiguous_prefix string nat
  | Cannot_delete string string
  | Cannot_bulk_delete string
  | Other_error string

datatype task_event =
    Queue_changed
  | File_write string string
  | Status_notification string string string
  | Task_event string string string
  | Task_started string
  | Workflow_event string string

record dep_row =
  dep_id :: nat
  dep_workflow :: string
  dep_task :: string
  dep_on :: string
  dep_condition :: "string option"
  dep_on_fail :: "string option"
  dep_alternate :: "string option"
  dep_created :: int

record tdb =
  tasks :: "db_row list"
  deps :: "dep_row list"
  next_dep_id :: nat
  workflows :: "db_row list"
  project_config :: "string list"
  factory_projects :: "(string \<times> string) list"
  task_events :: "task_event list"
  dbClosed :: bool
  terminalGuards :: "string list"
  terminalPending :: "(string \<times> string list) list"

type_synonym 'a db_result = "(task_error + 'a) \<times> tdb"

definition ALLOWED_TASK_COLUMNS :: "string list" where
  "ALLOWED_TASK_COLUMNS = [
    ''id'', ''status'', ''task_description'', ''working_directory'', ''timeout_minutes'',
    ''auto_approve'', ''priority'', ''context'', ''output'', ''error_output'', ''exit_code'',
    ''pid'', ''progress_percent'', ''files_modified'', ''created_at'', ''started_at'',
    ''completed_at'', ''cancel_reason'', ''retry_count'', ''max_retries'', ''depends_on'',
    ''template_name'', ''isolated_workspace'', ''git_before_sha'', ''git_after_sha'',
    ''git_stash_ref'', ''tags'', ''project'', ''retry_strategy'', ''retry_delay_seconds'',
    ''last_retry_at'', ''group_id'', ''paused_at'', ''pause_reason'', ''approval_status'',
    ''workflow_id'', ''workflow_node_id'', ''claimed_by_agent'', ''required_capabilities'',
    ''ollama_host_id'', ''provider'', ''model'', ''original_provider'', ''provider_switched_at'',
    ''mcp_instance_id'', ''complexity'', ''metadata'', ''task_metadata'', ''partial_output'',
    ''resume_context'', ''subprocess_pid'', ''output_log_path'', ''error_log_path'',
    ''output_log_offset'', ''error_log_offset'', ''last_activity_at'',
    ''completion_detected_at'', ''stall_recovery_attempts'']"

definition STATUS_TO_EVENT :: "string \<Rightarrow> string option" where
  "STATUS_TO_EVENT = map_of
    [(''queued'', ''TASK_QUEUED''), (''running'', ''TASK_RUNNING''), (''completed'', ''TASK_COMPLETED''),
     (''failed'', ''TASK_FAILED''), (''cancelled'', ''TASK_CANCELLED''), (''skipped'', ''TASK_SKIPPED'')]"

definition iso :: "int \<Rightarrow> jsval" where
  "iso now = JNum (of_int now)"

definition is_terminal :: "jsval \<Rightarrow> bool" where
  "is_terminal v = (v \<in> JStr ` set TERMINAL_TASK_STATUS_VALUES)"

definition is_active :: "jsval \<Rightarrow> bool" where
  "is_active v = (v \<in> JStr ` set ACTIVE_TASK_STATUS_VALUES)"

definition reopens :: "string \<Rightarrow> bool" where
  "reopens s = (s \<in> set [''pending'', ''queued'', ''waiting''])"

definition emit_event :: "task_event \<Rightarrow> tdb \<Rightarrow> tdb" where
  "emit_event ev d = d\<lparr>task_events := task_events d @ [ev]\<rparr>"

section \<open>Normalisation of fields\<close>

definition validateColumnName :: "string \<Rightarrow> task_error + string" where
  "validateColumnName c = (if c \<in> set ALLOWED_TASK_COLUMNS then Inr c else Inl (Invalid_column c))"

fun normalizeProviderValue :: "jsval \<Rightarrow> jsval" where
  "normalizeProviderValue (JStr s) =
     (let normalized = js_lower (js_trim s) in if normalized = [] then JNull else JStr normalized)"
| "normalizeProviderValue v = v"

fun normalizeApprovalStatus :: "jsval \<Rightarrow> jsval" where
  "normalizeApprovalStatus JUndef = JStr ''not_required''"
| "normalizeApprovalStatus JNull = JNull"
| "normalizeApprovalStatus (JStr s) =
     (let normalized = js_lower (js_trim s) in
      if normalized = [] \<or> normalized = ''none'' then JStr ''not_required'' else JStr normalized)"
| "normalizeApprovalStatus v = v"

text \<open>\<open>history.slice(-20)\<close> after the push.\<close>

definition provider_metadata :: "int \<Rightarrow> db_row \<Rightarrow> string \<Rightarrow> string \<Rightarrow> jsval \<Rightarrow> string option \<Rightarrow> jsobj" where
  "provider_metadata now source from to base reason =
     (let meta0 = normalizeMetadata base;
          meta1 = (if js_truthy (obj_get meta0 ''requested_provider'') then meta0
                   else obj_set ''requested_provider'' (js_or (col source ''original_provider'') (JStr from)) meta0);
          switchEntry = JObj [(''from'', JStr from), (''to'', JStr to), (''at'', iso now),
            (''reason'', JStr (case reason of None \<Rightarrow> ''runtime_provider_fallback''
               | Some r \<Rightarrow> if r = [] then ''runtime_provider_fallback'' else r))];
          history = arr_of (obj_get meta1 ''provider_switch_history'') @ [switchEntry] in
      obj_set ''last_provider_switch'' switchEntry
        (obj_set ''provider_switch_history'' (JArr (slice_last 20 history)) meta1))"

definition default_field :: "string \<Rightarrow> jsval \<Rightarrow> jsobj \<Rightarrow> jsobj" where
  "default_field k v patch = (if obj_has patch k then patch else obj_set k v patch)"

definition applyProviderSwitchEnrichment ::
  "int \<Rightarrow> db_row option \<Rightarrow> jsval \<Rightarrow> jsobj \<Rightarrow> string option \<Rightarrow> jsobj" where
  "applyProviderSwitchEnrichment now sourceTask targetProvider patch reason =
     (case sourceTask of None \<Rightarrow> patch
      | Some source \<Rightarrow>
         (case (col source ''provider'', normalizeProviderValue targetProvider) of
            (JStr from, JStr to) \<Rightarrow>
              (if from = [] \<or> to = [] \<or> to = from then patch
               else
                 let f1 = (if js_truthy (col source ''original_provider'') then patch
                           else default_field ''original_provider'' (JStr from) patch);
                     f2 = default_field ''model'' JNull f1;
                     f3 = (if to \<noteq> ''ollama'' then default_field ''ollama_host_id'' JNull f2 else f2);
                     f4 = default_field ''provider_switched_at'' (iso now) f3;
                     base = (if obj_has f4 ''metadata'' then obj_get f4 ''metadata'' else col source ''metadata'') in
                 obj_set ''metadata'' (JObj (provider_metadata now source from to base reason)) f4)
          | _ \<Rightarrow> patch))"

definition slashes :: "string \<Rightarrow> string" where
  "slashes s = map (\<lambda>c. if c = CHR 0x5C then CHR ''/'' else c) s"

fun normalize_files_loop :: "string list \<Rightarrow> string list \<Rightarrow> jsval list \<Rightarrow> string list" where
  "normalize_files_loop seen normalized [] = normalized"
| "normalize_files_loop seen normalized (entry # rest) =
     (let filePath = (case entry of JStr s \<Rightarrow> s | v \<Rightarrow> str_of (jget v ''path''));
          trimmed = js_trim filePath; key = slashes trimmed in
      if trimmed = [] \<or> key \<in> set seen then normalize_files_loop seen normalized rest
      else normalize_files_loop (key # seen) (normalized @ [trimmed]) rest)"

definition normalizeFilesModifiedField :: "jsval \<Rightarrow> string list" where
  "normalizeFilesModifiedField value =
     (case value of JArr entries \<Rightarrow> normalize_files_loop [] [] entries | _ \<Rightarrow> [])"

definition hasProviderSelectionLock :: "jsval \<Rightarrow> bool" where
  "hasProviderSelectionLock metadata =
     list_ex (\<lambda>k. js_truthy (jget metadata k))
       [''user_provider_override'', ''provider_selection_locked'', ''agentic_handoff'', ''_routing_template'']"

section \<open>Reading tasks\<close>

text \<open>\<open>LIKE\<close> with a literal prefix folds ASCII case.\<close>

definition resolveTaskId :: "string \<Rightarrow> tdb \<Rightarrow> task_error + string option" where
  "resolveTaskId i d =
     (if i = [] \<or> dbClosed d then Inr None
      else if length i = 36 then Inr (Some i)
      else case filter (\<lambda>r. starts_with (js_lower i) (js_lower (str_of (col r ''id'')))) (tasks d) of
          [] \<Rightarrow> Inr None
        | [r] \<Rightarrow> Inr (Some (str_of (col r ''id'')))
        | rs \<Rightarrow> Inl (Ambiguous_prefix i (length rs)))"

definition parse_task_row :: "db_row \<Rightarrow> db_row" where
  "parse_task_row r = set_cols
     [(''auto_approve'', JBool (js_truthy (col r ''auto_approve''))),
      (''files_modified'', js_coalesce (col r ''files_modified'') (JArr [])),
      (''tags'', js_coalesce (col r ''tags'') (JArr [])),
      (''metadata'', case col r ''metadata'' of JStr _ \<Rightarrow> JObj [] | v \<Rightarrow> v)] r"

definition getTask :: "string \<Rightarrow> tdb \<Rightarrow> task_error + db_row option" where
  "getTask i d =
     (if i = [] \<or> dbClosed d then Inr None
      else case (if length i < 36 then resolveTaskId i d else Inr (Some i)) of
          Inl e \<Rightarrow> Inl e
        | Inr None \<Rightarrow> Inr None
        | Inr (Some fullId) \<Rightarrow> Inr (map_option parse_task_row (lookup_row fullId (tasks d))))"

definition getTaskStatus :: "string \<Rightarrow> tdb \<Rightarrow> jsval" where
  "getTaskStatus i d = (if dbClosed d then JNull
     else case lookup_row i (tasks d) of None \<Rightarrow> JNull | Some r \<Rightarrow> col r ''status'')"

section \<open>Status transitions\<close>

text \<open>
  The first half of \<open>updateTaskStatus\<close>: the patch is cloned, its internal flags are taken out, a
  requeue decides about the provider, and a provider switch is recorded in the metadata.
\<close>

definition requeue_provider :: "string \<Rightarrow> jsobj \<Rightarrow> tdb \<Rightarrow> jsobj" where
  "requeue_provider i patch d =
     (let row = lookup_row i (tasks d);
          currentProvider = (case row of None \<Rightarrow> JNull | Some r \<Rightarrow> js_or (col r ''provider'') JNull);
          hasProviderIntent = (case row of None \<Rightarrow> False
            | Some r \<Rightarrow> js_truthy (col r ''metadata'') \<and> hasProviderSelectionLock (col r ''metadata'')) in
      if obj_has patch ''provider'' \<and> obj_get patch ''provider'' = JNull \<and> hasProviderIntent
         \<and> js_truthy currentProvider
      then obj_set ''provider'' currentProvider patch
      else if \<not> obj_has patch ''provider'' \<and> \<not> hasProviderIntent then obj_set ''provider'' JNull patch
      else patch)"

definition prepare_fields :: "int \<Rightarrow> string \<Rightarrow> string \<Rightarrow> jsobj \<Rightarrow> tdb \<Rightarrow> jsobj" where
  "prepare_fields now i status additionalFields d =
     (let reason = (case obj_get additionalFields ''_provider_switch_reason'' of JStr s \<Rightarrow> Some s | _ \<Rightarrow> None);
          f0 = obj_delete ''_provider_switch_reason'' additionalFields;
          cancelReason = js_or (obj_get f0 ''cancel_reason'') (JStr ''unknown'');
          f1 = obj_delete ''cancel_reason'' f0;
          f2 = (if status = ''cancelled'' then obj_set ''cancel_reason'' cancelReason f1 else f1);
          f3 = (if obj_has f2 ''provider''
                then obj_set ''provider'' (normalizeProviderValue (obj_get f2 ''provider'')) f2 else f2);
          f4 = (if status = ''queued'' \<and> \<not> js_truthy (obj_get f3 ''_preserveProvider'')
                then requeue_provider i f3 d else f3);
          f5 = obj_delete ''_softFail'' (obj_delete ''_preserveProvider'' f4) in
      if obj_has f5 ''provider''
      then applyProviderSwitchEnrichment now (lookup_row i (tasks d)) (obj_get f5 ''provider'') f5 reason
      else f5)"

text \<open>
  \<open>UPDATE tasks SET ... WHERE id = ? AND status = ?\<close>; the second component is \<open>changes\<close>.
\<close>

definition update_where_status ::
  "string \<Rightarrow> jsval \<Rightarrow> (string \<times> jsval) list \<Rightarrow> tdb \<Rightarrow> tdb \<times> nat" where
  "update_where_status i prev updates d =
     (let hit = (\<lambda>r. has_id i r \<and> sql_eq (col r ''status'') prev) in
      (d\<lparr>tasks := map_where hit (set_cols updates) (tasks d)\<rparr>, count_where hit (tasks d)))"

definition emit_file_writes :: "string \<Rightarrow> string list \<Rightarrow> tdb \<Rightarrow> tdb" where
  "emit_file_writes i files d = foldl (\<lambda>acc f. emit_event (File_write i f) acc) d files"

definition emit_if :: "bool \<Rightarrow> task_event \<Rightarrow> tdb \<Rightarrow> tdb" where
  "emit_if b ev d = (if b then emit_event ev d else d)"

definition emit_status_event :: "string \<Rightarrow> string \<Rightarrow> jsval \<Rightarrow> tdb \<Rightarrow> tdb" where
  "emit_status_event i status previousStatus d = (case STATUS_TO_EVENT status of None \<Rightarrow> d
     | Some ev \<Rightarrow> emit_event (Task_event i ev (str_of previousStatus)) d)"

definition after_transition ::
  "string \<Rightarrow> string \<Rightarrow> jsval \<Rightarrow> jsobj \<Rightarrow> tdb \<Rightarrow> db_row option db_result" where
  "after_transition i status previousStatus patch d =
     (let terminal = is_terminal (JStr status);
          d1 = emit_if (status = ''queued'' \<or> status = ''pending'' \<or> terminal) Queue_changed d;
          d2 = emit_file_writes i (if terminal \<and> obj_has patch ''files_modified''
                then normalizeFilesModifiedField (obj_get patch ''files_modified'') else []) d1;
          moved = (js_truthy previousStatus \<and> previousStatus \<noteq> JStr status) in
      case getTask i d2 of
        Inl e \<Rightarrow> (Inl e, if terminal \<and> moved then d2 else emit_status_event i status previousStatus d2)
      | Inr task \<Rightarrow>
          (Inr task,
           emit_if (status = ''running'' \<and> moved \<and> task \<noteq> None) (Task_started i)
             (emit_status_event i status previousStatus
               (emit_if (terminal \<and> moved) (Status_notification i status (str_of previousStatus)) d2))))"

definition is_critical :: "string \<Rightarrow> bool" where
  "is_critical status = (status \<in> set [''completed'', ''failed'', ''cancelled'', ''skipped'', ''running''])"

definition completion_cols :: "int \<Rightarrow> string \<Rightarrow> jsval \<Rightarrow> (string \<times> jsval) list" where
  "completion_cols now status previousStatus =
     (if status = ''completed'' \<or> status = ''failed'' \<or> status = ''skipped''
         \<or> status = ''cancelled'' \<and> previousStatus = JStr ''running''
      then [(''completed_at'', iso now)] else [])"

definition write_transition ::
  "int \<Rightarrow> string \<Rightarrow> string \<Rightarrow> jsobj \<Rightarrow> (string \<times> jsval) list \<Rightarrow> bool \<Rightarrow> tdb \<Rightarrow> db_row option db_result" where
  "write_transition now i status patch updates softFail d =
     (case lookup_row i (tasks d) of
        None \<Rightarrow> if is_critical status then (Inl (Task_not_found i), d) else (Inr None, d)
      | Some current \<Rightarrow>
          (let previousStatus = col current ''status'' in
           if is_critical status \<and> previousStatus = JStr status \<and> patch = [] then (getTask i d, d)
           else if is_terminal previousStatus \<and> \<not> reopens status then
             (if softFail then getTask i d else Inl (Cannot_transition i (str_of previousStatus) status), d)
           else
             (case update_where_status i previousStatus
                 (updates @ completion_cols now status previousStatus) d of
                (d', changes) \<Rightarrow>
                  if changes = 0 then (getTask i d', d')
                  else after_transition i status previousStatus patch d')))"

definition started_cols :: "int \<Rightarrow> string \<Rightarrow> jsobj \<Rightarrow> (string \<times> jsval) list" where
  "started_cols now status additionalFields =
     (if status = ''running'' \<and> \<not> js_truthy (obj_get additionalFields ''started_at'')
      then [(''started_at'', iso now)] else [])"

definition updateTaskStatus ::
  "int \<Rightarrow> string \<Rightarrow> string \<Rightarrow> jsobj \<Rightarrow> tdb \<Rightarrow> db_row option db_result" where
  "updateTaskStatus now i status additionalFields d =
     (if dbClosed d then (Inr None, d)
      else
        let patch = prepare_fields now i status additionalFields d in
        case List.find (\<lambda>(c, _). c \<notin> set ALLOWED_TASK_COLUMNS) patch of
          Some (c, _) \<Rightarrow> (Inl (Invalid_column c), d)
        | None \<Rightarrow> write_transition now i status patch
            ((''status'', JStr status) # started_cols now status additionalFields @ patch)
            (js_truthy (obj_get additionalFields ''_softFail'')) d)"

definition write_cols :: "string \<Rightarrow> (string \<times> jsval) list \<Rightarrow> tdb \<Rightarrow> tdb" where
  "write_cols i updates d = d\<lparr>tasks := update_row i (set_cols updates) (tasks d)\<rparr>"

definition updateTask :: "string \<Rightarrow> jsval \<Rightarrow> tdb \<Rightarrow> db_row option db_result" where
  "updateTask i additionalFields d =
     (if dbClosed d then (Inr None, d)
      else case additionalFields of
          JObj patch0 \<Rightarrow>
            (if obj_has patch0 ''status'' then (Inl Use_updateTaskStatus, d)
             else if patch0 = [] then (getTask i d, d)
             else
               let patch = (if obj_has patch0 ''provider''
                     then obj_set ''provider'' (normalizeProviderValue (obj_get patch0 ''provider'')) patch0
                     else patch0) in
               case List.find (\<lambda>(c, _). c \<notin> set ALLOWED_TASK_COLUMNS) patch of
                 Some (c, _) \<Rightarrow> (Inl (Invalid_column c), d)
               | None \<Rightarrow> (let d' = write_cols i patch d in (getTask i d', d')))
        | _ \<Rightarrow> (Inl Not_an_object, d))"

text \<open>
  \<open>requeueTaskAfterAttemptedStart\<close>: the artifacts of the attempted start are reset, the provider
  of the patch becomes a routing hint in the metadata, and a locked provider is kept. The first
  read of the row throws on an ambiguous id; the second is guarded.
\<close>

definition START_ARTIFACTS :: jsobj where
  "START_ARTIFACTS = [(''started_at'', JNull), (''completed_at'', JNull), (''pid'', JNull),
     (''subprocess_pid'', JNull), (''output_log_path'', JNull), (''error_log_path'', JNull),
     (''output_log_offset'', JNum 0), (''error_log_offset'', JNum 0), (''last_activity_at'', JNull),
     (''completion_detected_at'', JNull), (''progress_percent'', JNull), (''exit_code'', JNull),
     (''mcp_instance_id'', JNull), (''ollama_host_id'', JNull)]"

definition task_meta :: "db_row option \<Rightarrow> jsobj" where
  "task_meta task = (case task of None \<Rightarrow> [] | Some r \<Rightarrow> normalizeMetadata (col r ''metadata''))"

definition requeueTaskAfterAttemptedStart :: "int \<Rightarrow> string \<Rightarrow> jsobj \<Rightarrow> tdb \<Rightarrow> db_row option db_result" where
  "requeueTaskAfterAttemptedStart now i additionalFields d =
     (let patchProvider = obj_get additionalFields ''provider'';
          patchMetadata = obj_get additionalFields ''metadata'';
          restFields = obj_delete ''metadata'' (obj_delete ''provider'' additionalFields) in
      case (if js_truthy patchProvider then getTask i d else Inr None) of
        Inl e \<Rightarrow> (Inl e, d)
      | Inr task \<Rightarrow>
          (let metadataUpdate = (if js_truthy patchProvider
                 then JObj (obj_set ''eligible_providers'' (JArr [patchProvider])
                   (obj_set ''intended_provider'' patchProvider
                     (obj_merge (task_meta task) (normalizeMetadata patchMetadata))))
                 else patchMetadata);
               requeueProvider = (case getTask i d of
                   Inr (Some r) \<Rightarrow>
                     if hasProviderSelectionLock (JObj (task_meta (Some r))) \<and> js_truthy (col r ''provider'')
                     then col r ''provider'' else JNull
                 | _ \<Rightarrow> JNull);
               patch = obj_merge (obj_set ''provider'' requeueProvider START_ARTIFACTS) restFields in
           updateTaskStatus now i ''queued''
             (if is_nullish metadataUpdate then patch else obj_set ''metadata'' metadataUpdate patch) d))"

section \<open>Progress\<close>

text \<open>\<open>parseInt(s, 10)\<close>: white space, a sign and the longest run of digits; \<open>None\<close> is \<open>NaN\<close>.\<close>

definition digit_value :: "char \<Rightarrow> int" where
  "digit_value c = int (of_char c) - 48"

definition parseInt :: "string \<Rightarrow> int option" where
  "parseInt s =
     (let t = trim_start s;
          (sgn', body) = (case t of c # rest \<Rightarrow>
              (if c = CHR ''-'' then (- 1, rest) else if c = CHR ''+'' then (1, rest) else (1, t))
            | [] \<Rightarrow> (1, []));
          digits = takeWhile is_digit_char body in
      if digits = [] then None else Some (sgn' * foldl (\<lambda>acc c. 10 * acc + digit_value c) 0 digits))"

definition clamp_progress :: "jsval \<Rightarrow> int" where
  "clamp_progress progress =
     (case progress of
        JNum q \<Rightarrow> max 0 (min 100 (floor (q + 1 / 2)))
      | JStr s \<Rightarrow> (case parseInt s of None \<Rightarrow> 0 | Some n \<Rightarrow> max 0 (min 100 n))
      | _ \<Rightarrow> 0)"

definition updateTaskProgress :: "string \<Rightarrow> jsval \<Rightarrow> string option \<Rightarrow> tdb \<Rightarrow> tdb" where
  "updateTaskProgress i progress output d =
     d\<lparr>tasks := update_row i (\<lambda>r. set_cols
        ((''progress_percent'', JNum (of_int (clamp_progress progress))) #
         (case output of None \<Rightarrow> []
          | Some text \<Rightarrow> [(''output'', JStr (str_of (col r ''output'') @ text))])) r) (tasks d)\<rparr>"

section \<open>The queue\<close>

definition workflow_priority :: "tdb \<Rightarrow> db_row \<Rightarrow> rat" where
  "workflow_priority d t =
     (case col t ''workflow_id'' of
        JStr w \<Rightarrow> (case lookup_row w (workflows d) of None \<Rightarrow> 0 | Some r \<Rightarrow> num_of (col r ''priority''))
      | _ \<Rightarrow> 0)"

text \<open>
  The sort key of the queue; sorting is stable, so rows with equal keys keep the table's order.
\<close>

definition queue_key :: "tdb \<Rightarrow> db_row \<Rightarrow> rat \<times> rat \<times> rat" where
  "queue_key d t = (- workflow_priority d t, - num_of (col t ''priority''), num_of (col t ''created_at''))"

definition listQueuedTasksLightweight :: "nat \<Rightarrow> tdb \<Rightarrow> db_row list" where
  "listQueuedTasksLightweight limit d =
     (if dbClosed d then []
      else take limit (sort_key (queue_key d)
        (filter (\<lambda>t. sql_eq (col t ''status'') (JStr ''queued'')) (tasks d))))"

text \<open>\<open>scores\<close> is the table \<open>task_priority_scores\<close>, read as the combined score of a task.\<close>

definition getNextQueuedTask :: "(string \<Rightarrow> rat option) \<Rightarrow> tdb \<Rightarrow> db_row option" where
  "getNextQueuedTask scores d =
     (let score = (\<lambda>t. case scores (str_of (col t ''id'')) of None \<Rightarrow> 0 | Some q \<Rightarrow> q);
          candidates = filter (\<lambda>t. sql_eq (col t ''status'') (JStr ''queued'') \<and>
            col t ''provider'' \<noteq> JStr ''codex-pending'') (tasks d) in
      case sort_key (\<lambda>t. (- workflow_priority d t, - score t, - num_of (col t ''priority''),
          num_of (col t ''created_at''))) candidates of
        [] \<Rightarrow> None
      | t # _ \<Rightarrow> Some (set_cols [(''auto_approve'', JBool (js_truthy (col t ''auto_approve'')))] t))"

definition getExpiredQueuedTasks :: "int option \<Rightarrow> tdb \<Rightarrow> string list" where
  "getExpiredQueuedTasks cutoff d =
     (case cutoff of None \<Rightarrow> []
      | Some t \<Rightarrow>
          if dbClosed d then []
          else map (\<lambda>r. str_of (col r ''id''))
            (filter (\<lambda>r. col r ''status'' \<in> JStr ` set [''queued'', ''pending''] \<and>
                (case col r ''created_at'' of JNum q \<Rightarrow> q < of_int t | _ \<Rightarrow> False) \<and>
                \<not> is_nullish (col r ''provider'') \<and>
                col r ''provider'' \<noteq> JStr ''workflow'' \<and> col r ''provider'' \<noteq> JStr ''system'' \<and>
                is_nullish (col r ''workflow_id'') \<and>
                \<not> includes_str (js_lower ''Restart barrier active'') (js_lower (str_of (col r ''error_output''))))
              (tasks d)))"

section \<open>Deletion and counting\<close>

fun normalize_ids_loop :: "string list \<Rightarrow> string list \<Rightarrow> jsval list \<Rightarrow> string list" where
  "normalize_ids_loop seen normalized [] = normalized"
| "normalize_ids_loop seen normalized (v # vs) =
     (let value = js_trim (js_string v) in
      if is_nullish v \<or> value = [] \<or> value \<in> set seen then normalize_ids_loop seen normalized vs
      else normalize_ids_loop (value # seen) (normalized @ [value]) vs)"

definition normalizeTaskIds :: "jsval list \<Rightarrow> string list" where
  "normalizeTaskIds vs = normalize_ids_loop [] [] vs"

text \<open>
  Deleting task rows; the foreign keys of \<open>task_dependencies\<close> cascade. The other child tables are
  not part of the model, so \<open>deleteTaskChildrenByIds\<close> has nothing to do.
\<close>

definition col_ids :: "(db_row \<Rightarrow> bool) \<Rightarrow> db_row list \<Rightarrow> jsval set" where
  "col_ids P rows = (\<lambda>r. col r ''id'') ` set (filter P rows)"

definition deleteTaskRowsByIds :: "jsval list \<Rightarrow> tdb \<Rightarrow> nat \<times> tdb" where
  "deleteTaskRowsByIds taskIds d =
     (let ids = normalizeTaskIds taskIds; gone = (\<lambda>r. col r ''id'' \<in> JStr ` set ids) in
      (count_where gone (tasks d),
       d\<lparr>tasks := filter (\<lambda>r. \<not> gone r) (tasks d),
         deps := filter (\<lambda>e. JStr (dep_task e) \<notin> col_ids gone (tasks d)
             \<and> JStr (dep_on e) \<notin> col_ids gone (tasks d)) (deps d)\<rparr>))"

definition deleteTask :: "string \<Rightarrow> tdb \<Rightarrow> jsval db_result" where
  "deleteTask taskId d =
     (case lookup_row taskId (tasks d) of
        None \<Rightarrow> (Inl (Task_not_found taskId), d)
      | Some task \<Rightarrow>
          if is_active (col task ''status'') then (Inl (Cannot_delete taskId (str_of (col task ''status''))), d)
          else (Inr (col task ''status''), snd (deleteTaskRowsByIds [JStr taskId] d)))"

definition deleteTasks :: "string \<Rightarrow> tdb \<Rightarrow> nat db_result" where
  "deleteTasks status d =
     (if status \<notin> set [''failed'', ''completed'', ''cancelled''] then (Inl (Cannot_bulk_delete status), d)
      else
        let taskIds = map (\<lambda>r. col r ''id'') (filter (\<lambda>r. col r ''status'' = JStr status) (tasks d));
            (deleted, d') = deleteTaskRowsByIds taskIds d in
        (Inr deleted, d'))"

definition countTasksByStatus :: "tdb \<Rightarrow> (string \<times> nat) list" where
  "countTasksByStatus d =
     map (\<lambda>s. (s, count_where (\<lambda>r. col r ''archived'' = JNum 0 \<and> col r ''status'' = JStr s) (tasks d)))
       [''running'', ''queued'', ''completed'', ''failed'', ''pending'', ''cancelled'', ''blocked'']"

definition getRunningCount :: "tdb \<Rightarrow> nat" where
  "getRunningCount d = (if dbClosed d then 0
     else count_where (\<lambda>r. col r ''status'' = JStr ''running'') (tasks d))"

definition getRunningCountByProvider :: "jsval \<Rightarrow> tdb \<Rightarrow> nat" where
  "getRunningCountByProvider provider d =
     (let p = normalizeProviderValue provider in
      if dbClosed d \<or> \<not> js_truthy p then 0
      else count_where (\<lambda>r. col r ''status'' = JStr ''running'' \<and> sql_eq (col r ''provider'') p) (tasks d))"

definition before :: "jsval \<Rightarrow> int \<Rightarrow> bool" where
  "before v cutoff = (case v of JNum q \<Rightarrow> q < of_int cutoff | _ \<Rightarrow> False)"

definition archiveOldTasks :: "int \<Rightarrow> int \<Rightarrow> tdb \<Rightarrow> nat \<times> tdb" where
  "archiveOldTasks now maxAgeHours d =
     (let cutoff = now - maxAgeHours * 3600000;
          hit = (\<lambda>r. col r ''archived'' = JNum 0 \<and>
             col r ''status'' \<in> JStr ` set [''completed'', ''failed'', ''cancelled''] \<and>
             before (col r ''created_at'') cutoff) in
      if dbClosed d then (0, d)
      else (count_where hit (tasks d),
            d\<lparr>tasks := map_where hit (set_cols [(''archived'', JNum 1)]) (tasks d)\<rparr>))"

section \<open>Output retention\<close>

definition OUTPUT_COLUMNS :: "string list" where
  "OUTPUT_COLUMNS = [''output'', ''error_output'', ''partial_output'']"

definition clear_output :: "db_row \<Rightarrow> db_row" where
  "clear_output = set_cols [(''output'', JNull), (''error_output'', JNull), (''partial_output'', JNull)]"

definition has_output :: "db_row \<Rightarrow> bool" where
  "has_output r = list_ex (\<lambda>c. col r c \<noteq> JNull) OUTPUT_COLUMNS"

text \<open>
  \<open>taskOutputBytesExpression\<close>. What it adds up is not bytes: \<open>length\<close> of SQLite counts the code points of a text up to
  its first NUL character. A byte of the form \<open>10xxxxxx\<close> continues a code point.
\<close>

definition continues_code_point :: "char \<Rightarrow> bool" where
  "continues_code_point c = (of_char c div 64 = (2::nat))"

definition sql_length :: "string \<Rightarrow> nat" where
  "sql_length s = length (filter (\<lambda>c. \<not> continues_code_point c) (takeWhile (\<lambda>c. c \<noteq> CHR 0x00) s))"

definition output_bytes :: "db_row \<Rightarrow> nat" where
  "output_bytes r = sql_length (str_of (col r ''output'')) + sql_length (str_of (col r ''error_output''))
     + sql_length (str_of (col r ''partial_output''))"

definition purgeOldTaskOutput :: "int \<Rightarrow> int \<Rightarrow> tdb \<Rightarrow> nat \<times> tdb" where
  "purgeOldTaskOutput now retentionDays d =
     (let cutoff = now - retentionDays * 24 * 3600000;
          hit = (\<lambda>r. is_terminal (col r ''status'') \<and> before (col r ''created_at'') cutoff \<and> has_output r) in
      if dbClosed d then (0, d)
      else (count_where hit (tasks d), d\<lparr>tasks := map_where hit clear_output (tasks d)\<rparr>))"

definition getTerminalTaskOutputBytes :: "tdb \<Rightarrow> nat" where
  "getTerminalTaskOutputBytes d = (if dbClosed d then 0
     else sum_list (map output_bytes (filter (\<lambda>r. is_terminal (col r ''status'')) (tasks d))))"

definition DEFAULT_TASK_OUTPUT_MAX_BYTES :: nat where
  "DEFAULT_TASK_OUTPUT_MAX_BYTES = 256 * 1024 * 1024"

text \<open>The argument is what \<open>Number(value)\<close> gives.\<close>

definition normalizeNonNegativeInt :: "jsnum \<Rightarrow> nat \<Rightarrow> nat" where
  "normalizeNonNegativeInt value fallback = (case value of Fin q \<Rightarrow> nat (max 0 (floor q)) | _ \<Rightarrow> fallback)"

record retention_report =
  purged :: nat
  bytes_before :: nat
  bytes_after :: nat
  bytes_reclaimed :: nat
  max_bytes :: nat

fun select_overflow :: "nat \<Rightarrow> nat \<Rightarrow> db_row list \<Rightarrow> db_row list" where
  "select_overflow overflow selected [] = []"
| "select_overflow overflow selected (r # rs) =
     (if output_bytes r = 0 then select_overflow overflow selected rs
      else if overflow \<le> selected + output_bytes r then [r]
      else r # select_overflow overflow (selected + output_bytes r) rs)"

definition first_time :: "db_row \<Rightarrow> rat" where
  "first_time r = (case (col r ''completed_at'', col r ''started_at'', col r ''created_at'') of
     (JNum q, _, _) \<Rightarrow> q | (_, JNum q, _) \<Rightarrow> q | (_, _, JNum q) \<Rightarrow> q | _ \<Rightarrow> 0)"

definition id_key :: "db_row \<Rightarrow> nat list" where
  "id_key r = map of_char (str_of (col r ''id''))"

definition retention_candidates :: "nat \<Rightarrow> tdb \<Rightarrow> db_row list" where
  "retention_candidates batchLimit d =
     take (max 1 batchLimit) (sort_key (\<lambda>r. (first_time r, num_of (col r ''created_at''), id_key r))
       (filter (\<lambda>r. is_terminal (col r ''status'') \<and> has_output r) (tasks d)))"

definition enforceTaskOutputSizeLimit :: "jsnum \<Rightarrow> jsnum \<Rightarrow> tdb \<Rightarrow> retention_report \<times> tdb" where
  "enforceTaskOutputSizeLimit maxBytes batchLimitOpt d =
     (let mx = normalizeNonNegativeInt maxBytes DEFAULT_TASK_OUTPUT_MAX_BYTES;
          bytesBefore = getTerminalTaskOutputBytes d;
          unchanged = \<lparr>purged = 0, bytes_before = bytesBefore, bytes_after = bytesBefore,
                       bytes_reclaimed = 0, max_bytes = mx\<rparr> in
      if dbClosed d \<or> mx = 0 \<or> bytesBefore \<le> mx then (unchanged, d)
      else
        let batchLimit = normalizeNonNegativeInt batchLimitOpt 10000;
            ids = map (\<lambda>r. col r ''id'') (select_overflow (bytesBefore - mx) 0 (retention_candidates batchLimit d)) in
        if ids = [] then (unchanged, d)
        else
          let hit = (\<lambda>r. col r ''id'' \<in> set ids);
              d' = d\<lparr>tasks := map_where hit clear_output (tasks d)\<rparr>;
              bytesAfter = getTerminalTaskOutputBytes d' in
          (\<lparr>purged = count_where hit (tasks d), bytes_before = bytesBefore, bytes_after = bytesAfter,
             bytes_reclaimed = bytesBefore - bytesAfter, max_bytes = mx\<rparr>, d'))"

section \<open>Claiming a slot\<close>

datatype claim_result =
    Claimed db_row
  | At_capacity nat
  | Provider_at_capacity nat rat string
  | Claim_not_found
  | Already_running
  | Invalid_status jsval
  | Approval_not_approved jsval

definition running_in :: "string list \<Rightarrow> tdb \<Rightarrow> nat" where
  "running_in grp d = count_where
     (\<lambda>r. col r ''status'' = JStr ''running'' \<and> col r ''provider'' \<in> JStr ` set grp) (tasks d)"

definition nonblank :: "string list \<Rightarrow> string list" where
  "nonblank ps = filter (\<lambda>p. js_trim p \<noteq> []) ps"

definition claim_updates :: "int \<Rightarrow> jsval \<Rightarrow> string option \<Rightarrow> db_row \<Rightarrow> (string \<times> jsval) list" where
  "claim_updates now mcpInstanceId finalProvider task =
     [(''status'', JStr ''running''), (''started_at'', iso now)]
     @ (if js_truthy mcpInstanceId then [(''mcp_instance_id'', mcpInstanceId)] else [])
     @ (case finalProvider of None \<Rightarrow> []
        | Some p \<Rightarrow> (''provider'', JStr p) # applyProviderSwitchEnrichment now (Some task) (JStr p) [] None)"

definition finish_claim :: "int \<Rightarrow> string \<Rightarrow> jsval \<Rightarrow> string option \<Rightarrow> tdb \<Rightarrow> claim_result db_result" where
  "finish_claim now taskId mcpInstanceId finalProvider d =
     (case lookup_row taskId (tasks d) of
        None \<Rightarrow> (Inr Claim_not_found, d)
      | Some task \<Rightarrow>
          if col task ''status'' = JStr ''running'' then (Inr Already_running, d)
          else if col task ''status'' \<noteq> JStr ''queued'' \<and> col task ''status'' \<noteq> JStr ''pending''
          then (Inr (Invalid_status (col task ''status'')), d)
          else if js_truthy (col task ''approval_status'') \<and> col task ''approval_status'' \<noteq> JStr ''approved''
             \<and> col task ''approval_status'' \<noteq> JStr ''not_required''
          then (Inr (Approval_not_approved (col task ''approval_status'')), d)
          else
            let updates = claim_updates now mcpInstanceId finalProvider task in
            case List.find (\<lambda>(c, _). c \<notin> set ALLOWED_TASK_COLUMNS) updates of
              Some (c, _) \<Rightarrow> (Inl (Invalid_column c), d)
            | None \<Rightarrow>
                let hit = (\<lambda>r. has_id taskId r \<and> col r ''status'' \<in> {JStr ''queued'', JStr ''pending''});
                    d' = d\<lparr>tasks := map_where hit (set_cols updates) (tasks d)\<rparr> in
                case lookup_row taskId (tasks d') of
                  None \<Rightarrow> (Inr Claim_not_found, d')
                | Some updated \<Rightarrow> (Inr (Claimed
                    (set_cols [(''auto_approve'', JBool (js_truthy (col updated ''auto_approve'')))] updated)), d'))"

definition tryClaimTaskSlot ::
  "int \<Rightarrow> string \<Rightarrow> nat \<Rightarrow> jsval \<Rightarrow> jsval \<Rightarrow> rat option \<Rightarrow> string list \<Rightarrow> rat option \<Rightarrow> string list
     \<Rightarrow> tdb \<Rightarrow> claim_result db_result" where
  "tryClaimTaskSlot now taskId maxConcurrent mcpInstanceId provider providerLimit providerGroup
       secondaryLimit secondaryGroup d =
     (let finalProvider = (case provider of JStr s \<Rightarrow> if js_trim s = [] then None else Some (js_trim s) | _ \<Rightarrow> None);
          grp = nonblank providerGroup;
          secondary = nonblank secondaryGroup;
          runningCount = count_where (\<lambda>r. col r ''status'' = JStr ''running'') (tasks d);
          providerRunning = (case finalProvider of None \<Rightarrow> 0
            | Some p \<Rightarrow> running_in (if grp \<noteq> [] then grp else [p]) d);
          over = (\<lambda>limit n. case limit of None \<Rightarrow> False | Some q \<Rightarrow> q \<le> of_nat n) in
      if maxConcurrent \<le> runningCount then (Inr (At_capacity runningCount), d)
      else if finalProvider \<noteq> None \<and> over providerLimit providerRunning
      then (Inr (Provider_at_capacity providerRunning (the providerLimit)
             (if grp \<noteq> [] then ''provider_group'' else ''provider'')), d)
      else if secondary \<noteq> [] \<and> over secondaryLimit (running_in secondary d)
      then (Inr (Provider_at_capacity (running_in secondary d) (the secondaryLimit) ''category''), d)
      else finish_claim now taskId mcpInstanceId finalProvider d)"

section \<open>Slot-pull primitives\<close>

definition patchTaskMetadata :: "string \<Rightarrow> jsval \<Rightarrow> tdb \<Rightarrow> bool \<times> tdb" where
  "patchTaskMetadata i metadata d =
     (count_where (has_id i) (tasks d) > 0, write_cols i [(''metadata'', metadata)] d)"

definition patchTaskSlotBinding :: "string \<Rightarrow> jsval \<Rightarrow> tdb \<Rightarrow> bool \<times> tdb" where
  "patchTaskSlotBinding i metadata d =
     (count_where (has_id i) (tasks d) > 0, write_cols i [(''provider'', JNull), (''metadata'', metadata)] d)"

definition claimSlotAtomic :: "string \<Rightarrow> string \<Rightarrow> tdb \<Rightarrow> bool \<times> tdb" where
  "claimSlotAtomic i provider d =
     (let hit = (\<lambda>r. has_id i r \<and> col r ''status'' = JStr ''queued'') in
      (count_where hit (tasks d) > 0,
       d\<lparr>tasks := map_where hit (set_cols [(''provider'', JStr provider)]) (tasks d)\<rparr>))"

definition clearProviderIfNotRunning :: "string \<Rightarrow> tdb \<Rightarrow> bool \<times> tdb" where
  "clearProviderIfNotRunning i d =
     (let hit = (\<lambda>r. has_id i r \<and> \<not> is_nullish (col r ''status'') \<and> col r ''status'' \<noteq> JStr ''running'') in
      (count_where hit (tasks d) > 0,
       d\<lparr>tasks := map_where hit (set_cols [(''provider'', JNull)]) (tasks d)\<rparr>))"

record requeue_result =
  requeued :: bool
  exhausted :: bool
  providerExhausted :: "bool option"
  missing :: bool

text \<open>
  \<open>requeueAfterSlotFailure\<close>. Its arguments \<open>maxRetries\<close> and \<open>parseMeta\<close> are the functions the
  code is given; \<open>resume\<close> and \<open>prepend\<close> are the text helpers of \<open>server/utils/resume-context.js\<close>.
\<close>

definition retry_counts :: "jsobj \<Rightarrow> jsobj" where
  "retry_counts meta = (case obj_get meta ''_provider_retry_counts'' of JObj o' \<Rightarrow> o' | _ \<Rightarrow> [])"

definition add_unique :: "jsval list \<Rightarrow> jsval \<Rightarrow> jsval list" where
  "add_unique vs v = (let all = filter js_truthy (vs @ [v]) in rev (remdups (rev all)))"

definition requeueAfterSlotFailure ::
  "int \<Rightarrow> (db_row \<Rightarrow> jsval \<Rightarrow> jsval \<Rightarrow> jsval) \<Rightarrow> (jsval \<Rightarrow> jsval \<Rightarrow> jsval) \<Rightarrow> (string \<Rightarrow> nat) \<Rightarrow> (db_row \<Rightarrow> jsobj)
     \<Rightarrow> string \<Rightarrow> string \<Rightarrow> bool \<Rightarrow> jsval \<Rightarrow> jsval \<Rightarrow> tdb \<Rightarrow> requeue_result \<times> tdb" where
  "requeueAfterSlotFailure now resume prepend maxRetries parseMeta taskId failedProvider deferTerminalWrite
       errorOutput output d =
     (case lookup_row taskId (tasks d) of
        None \<Rightarrow> (\<lparr>requeued = False, exhausted = False, providerExhausted = None, missing = True\<rparr>, d)
      | Some task \<Rightarrow>
          let meta0 = parseMeta task;
              n = num_of (obj_get (retry_counts meta0) failedProvider) + 1;
              meta1 = obj_set ''_provider_retry_counts''
                (JObj (obj_set failedProvider (JNum n) (retry_counts meta0))) meta0;
              out = js_or output (js_or (col task ''partial_output'') (js_or (col task ''output'') (JStr [])));
              err = js_or errorOutput (js_or (col task ''error_output'')
                (JStr (''Provider '' @ failedProvider @ '' failed before slot-pull retry'')));
              resumeContext = js_or (col task ''resume_context'') (resume task out err);
              retry = (\<lambda>meta. [(''status'', JStr ''queued''), (''provider'', JNull), (''metadata'', JObj meta),
                (''resume_context'', resumeContext),
                (''task_description'', prepend (col task ''task_description'') resumeContext)]) in
          if of_nat (maxRetries failedProvider) \<le> n then
            (let eligible = filter (\<lambda>p. p \<noteq> JStr failedProvider) (arr_of (obj_get meta1 ''eligible_providers''));
                 meta2 = obj_set ''_failed_providers''
                   (JArr (add_unique (arr_of (obj_get meta1 ''_failed_providers'')) (JStr failedProvider))) meta1;
                 meta3 = obj_set ''eligible_providers'' (JArr eligible) meta2 in
             if eligible = [] then
               (\<lparr>requeued = False, exhausted = True, providerExhausted = None, missing = False\<rparr>,
                write_cols taskId
                  (if deferTerminalWrite then [(''metadata'', JObj meta3)]
                   else [(''status'', JStr ''failed''), (''provider'', JNull), (''metadata'', JObj meta3),
                     (''completed_at'', iso now)]) d)
             else
               (\<lparr>requeued = True, exhausted = False, providerExhausted = Some True, missing = False\<rparr>,
                write_cols taskId (retry meta3) d))
          else
            (\<lparr>requeued = True, exhausted = False, providerExhausted = Some False, missing = False\<rparr>,
             write_cols taskId (retry meta1) d))"

section \<open>Creating tasks\<close>

definition ensureProjectRegistered :: "jsval \<Rightarrow> tdb \<Rightarrow> tdb" where
  "ensureProjectRegistered projectName d =
     (let p = js_trim (str_of projectName) in
      if p = [] \<or> dbClosed d \<or> p \<in> set (project_config d) then d
      else d\<lparr>project_config := project_config d @ [p]\<rparr>)"

text \<open>
  \<open>deriveProjectFromWorkingDirectory\<close>; \<open>normalize\<close>, the separator and the case folding of Windows
  are the platform's \<open>path\<close> module.
\<close>

record platform =
  path_normalize :: "string \<Rightarrow> string"
  path_sep :: string
  case_fold :: bool

definition path_key :: "platform \<Rightarrow> string \<Rightarrow> string" where
  "path_key pf p = (if case_fold pf then js_lower p else p)"

fun match_projects :: "platform \<Rightarrow> string \<Rightarrow> (string \<times> nat) option \<Rightarrow> (string \<times> string) list \<Rightarrow> string option" where
  "match_projects pf wdKey best [] = map_option fst best"
| "match_projects pf wdKey best ((name, p) # rows) =
     (let projectPath = path_normalize pf (js_trim p); projectKey = path_key pf projectPath;
          ancestor = (if ends_with (path_sep pf) projectKey then projectKey else projectKey @ path_sep pf);
          better = (case best of None \<Rightarrow> True | Some (_, n) \<Rightarrow> n < length projectKey) in
      if name = [] \<or> projectPath = [] then match_projects pf wdKey best rows
      else if wdKey = projectKey then Some name
      else if starts_with ancestor wdKey \<and> better
      then match_projects pf wdKey (Some (name, length projectKey)) rows
      else match_projects pf wdKey best rows)"

definition deriveProjectFromWorkingDirectory :: "platform \<Rightarrow> tdb \<Rightarrow> jsval \<Rightarrow> string option" where
  "deriveProjectFromWorkingDirectory pf d workingDirectory =
     (case workingDirectory of
        JStr s \<Rightarrow> (if js_trim s = [] then None
                   else match_projects pf (path_key pf (path_normalize pf (js_trim s))) None (factory_projects d))
      | _ \<Rightarrow> None)"

datatype dir_stat = Is_directory | Not_directory | No_entry | Stat_failed string

definition MAX_METADATA_SIZE :: nat where
  "MAX_METADATA_SIZE = 256 * 1024"

text \<open>
  \<open>createTask\<close>. \<open>cfg_provider\<close> is the configured default provider, \<open>json_length\<close> the length of
  \<open>JSON.stringify\<close>, \<open>resolve\<close> and \<open>stat\<close> the path and file system modules, \<open>epoch\<close> the server epoch.
\<close>

record create_env =
  cfg_provider :: jsval
  json_length :: "jsval \<Rightarrow> nat"
  path_resolve :: "string \<Rightarrow> string"
  dir_stat_of :: "string \<Rightarrow> dir_stat"
  create_platform :: platform
  server_epoch :: int

definition task_metadata_for :: "jsval \<Rightarrow> jsval \<Rightarrow> jsobj \<Rightarrow> jsobj" where
  "task_metadata_for normalizedProvider resolvedProvider task =
     (let m0 = normalizeMetadata (obj_get task ''metadata'');
          m1 = (if js_truthy (obj_get m0 ''requested_provider'') then m0
                else obj_set ''requested_provider'' resolvedProvider m0) in
      if \<not> js_truthy normalizedProvider \<and> \<not> js_truthy (obj_get m1 ''user_provider_override'')
      then obj_set ''auto_routed'' (JBool True) m1 else m1)"

definition check_working_directory :: "create_env \<Rightarrow> jsval \<Rightarrow> task_error + jsval" where
  "check_working_directory env wd =
     (if \<not> js_truthy wd then Inr wd
      else case dir_stat_of env (path_resolve env (str_of wd)) of
          Is_directory \<Rightarrow> Inr (JStr (path_resolve env (str_of wd)))
        | Not_directory \<Rightarrow> Inl (Other_error (''working_directory is not a directory: '' @ str_of wd))
        | No_entry \<Rightarrow> Inl (Other_error (''working_directory does not exist: '' @ str_of wd))
        | Stat_failed e \<Rightarrow> Inl (Other_error e))"

definition new_task_row ::
  "int \<Rightarrow> create_env \<Rightarrow> jsobj \<Rightarrow> jsval \<Rightarrow> jsval \<Rightarrow> jsval list \<Rightarrow> jsval \<Rightarrow> jsval \<Rightarrow> jsobj \<Rightarrow> db_row" where
  "new_task_row now env task status wd tags project originalProvider metadata =
     (let f = obj_get task; opt = (\<lambda>k. js_or (f k) JNull) in
      set_cols
      [(''id'', f ''id''), (''status'', status), (''task_description'', f ''task_description''),
       (''working_directory'', js_or wd JNull),
       (''timeout_minutes'', js_coalesce (f ''timeout_minutes'') (JNum 480)),
       (''auto_approve'', JNum (if js_truthy (f ''auto_approve'') then 1 else 0)),
       (''priority'', js_or (f ''priority'') (JNum 0)), (''context'', opt ''context''),
       (''created_at'', iso now),
       (''max_retries'', if f ''max_retries'' = JUndef then JNum 2 else f ''max_retries''),
       (''depends_on'', opt ''depends_on''), (''template_name'', opt ''template_name''),
       (''isolated_workspace'', opt ''isolated_workspace''),
       (''approval_status'', normalizeApprovalStatus (f ''approval_status'')),
       (''tags'', JArr tags), (''project'', project), (''provider'', normalizeProviderValue (f ''provider'')),
       (''model'', opt ''model''), (''complexity'', js_or (f ''complexity'') (JStr ''normal'')),
       (''review_status'', opt ''review_status''), (''ollama_host_id'', opt ''ollama_host_id''),
       (''original_provider'', originalProvider), (''provider_switched_at'', JNull),
       (''metadata'', JObj metadata), (''workflow_id'', opt ''workflow_id''),
       (''workflow_node_id'', opt ''workflow_node_id''),
       (''stall_timeout_seconds'', js_coalesce (f ''stall_timeout_seconds'') JNull),
       (''server_epoch'', JNum (of_int (server_epoch env))),
       (''resume_context'', f ''resume_context''), (''archived'', JNum 0)] [])"

definition store_task :: "string \<Rightarrow> jsval \<Rightarrow> jsval \<Rightarrow> db_row \<Rightarrow> tdb \<Rightarrow> db_row option db_result" where
  "store_task i status project row d =
     (let d1 = ensureProjectRegistered project (d\<lparr>tasks := tasks d @ [row]\<rparr>);
          d2 = emit_if (status = JStr ''queued'' \<or> status = JStr ''pending'') Queue_changed d1;
          d3 = emit_event (Task_event i ''task_created'' []) d2 in
      case getTask i d3 of
        Inl e \<Rightarrow> (Inl e, d3)
      | Inr created \<Rightarrow> (Inr created, emit_event (Task_event i ''TASK_CREATED'' []) d3))"

text \<open>The primary key of the table (\<open>server/db/schema/tables.js\<close>).\<close>

definition primary_key_taken :: "string \<Rightarrow> tdb \<Rightarrow> bool" where
  "primary_key_taken i d = (lookup_row i (tasks d) \<noteq> None)"

definition insert_task :: "int \<Rightarrow> create_env \<Rightarrow> jsobj \<Rightarrow> string \<Rightarrow> jsval \<Rightarrow> tdb \<Rightarrow> db_row option db_result" where
  "insert_task now env task i wd d =
     (let normalizedProvider = normalizeProviderValue (obj_get task ''provider'');
          resolvedProvider = js_or normalizedProvider (js_or (cfg_provider env) (JStr ''codex''));
          originalProvider = js_or (obj_get task ''original_provider'') resolvedProvider;
          explicit = js_trim (str_of (obj_get task ''project''));
          project = (if explicit \<noteq> [] then Some explicit
                     else deriveProjectFromWorkingDirectory (create_platform env) d wd);
          tags0 = arr_of (obj_get task ''tags'');
          tags = (case project of None \<Rightarrow> tags0
            | Some p \<Rightarrow> if p = [] \<or> p = ''unassigned'' \<or> JStr (''project:'' @ p) \<in> set tags0 then tags0
                        else tags0 @ [JStr (''project:'' @ p)]);
          metadata = task_metadata_for normalizedProvider resolvedProvider task;
          status = js_or (obj_get task ''status'') (JStr ''pending'') in
      if MAX_METADATA_SIZE < json_length env (JObj metadata)
      then (Inl (Other_error ''metadata exceeds maximum size''), d)
      else if primary_key_taken i d
      then (Inl (Other_error ''UNIQUE constraint failed: tasks.id''), d)
      else
        store_task i status (js_of_str_option project)
          (new_task_row now env task status wd tags (js_of_str_option project) originalProvider metadata) d)"

definition createTask :: "int \<Rightarrow> create_env \<Rightarrow> jsobj \<Rightarrow> tdb \<Rightarrow> db_row option db_result" where
  "createTask now env task d =
     (if dbClosed d then (Inl Database_closed, d)
      else case obj_get task ''id'' of
          JStr i \<Rightarrow>
            (if js_trim i = [] then (Inl (Other_error ''task.id must be a non-empty string''), d)
             else case check_working_directory env (obj_get task ''working_directory'') of
                 Inl e \<Rightarrow> (Inl e, d)
               | Inr wd \<Rightarrow> insert_task now env task i wd d)
        | _ \<Rightarrow> (Inl (Other_error ''task.id must be a non-empty string''), d))"

end
