(* ===== verification/Task_Store_Laws.thy ===== *)
theory Task_Store_Laws
  imports Task_Store
begin

text \<open>
  What the task table promises: keys stay unique, a terminal status is left only by an operation
  that reopens the task, a transition touches one row, claims respect the concurrency limits,
  requeueing resets the artifacts of the attempted start and keeps a locked provider, the retries
  of the slot scheduler are bounded, and output retention meets its limit.
\<close>

section \<open>Reading rows after an operation\<close>

definition row_of :: "tdb \<Rightarrow> string \<Rightarrow> db_row option" where
  "row_of d i = lookup_row i (tasks d)"

definition status_of :: "tdb \<Rightarrow> string \<Rightarrow> jsval option" where
  "status_of d i = map_option (\<lambda>r. col r ''status'') (row_of d i)"

definition ids_unique :: "tdb \<Rightarrow> bool" where
  "ids_unique d \<longleftrightarrow> distinct (row_ids (tasks d))"

interpretation task_rows: row_store row_of "\<lambda>i f d. d\<lparr>tasks := update_row i f (tasks d)\<rparr>" keeps_id
  by unfold_locales (auto simp: row_of_def lookup_update_row keeps_id_def)

lemma emit_event_frame [simp]:
  "tasks (emit_event ev d) = tasks d" "deps (emit_event ev d) = deps d"
  "workflows (emit_event ev d) = workflows d" "dbClosed (emit_event ev d) = dbClosed d"
  "row_of (emit_event ev d) i = row_of d i" "terminalGuards (emit_event ev d) = terminalGuards d"
  by (simp_all add: emit_event_def row_of_def)

lemma emit_file_writes_frame [simp]:
  "tasks (emit_file_writes i fs d) = tasks d" "deps (emit_file_writes i fs d) = deps d"
  "workflows (emit_file_writes i fs d) = workflows d" "dbClosed (emit_file_writes i fs d) = dbClosed d"
  "terminalGuards (emit_file_writes i fs d) = terminalGuards d"
  unfolding emit_file_writes_def by (induction fs arbitrary: d) simp_all

lemma emit_if_frame [simp]:
  "tasks (emit_if b ev d) = tasks d" "deps (emit_if b ev d) = deps d"
  "workflows (emit_if b ev d) = workflows d" "dbClosed (emit_if b ev d) = dbClosed d"
  "terminalGuards (emit_if b ev d) = terminalGuards d"
  by (simp_all add: emit_if_def)

lemma emit_status_event_frame [simp]:
  "tasks (emit_status_event i s prev d) = tasks d" "deps (emit_status_event i s prev d) = deps d"
  "workflows (emit_status_event i s prev d) = workflows d"
  "dbClosed (emit_status_event i s prev d) = dbClosed d" "terminalGuards (emit_status_event i s prev d) = terminalGuards d"
  by (simp_all add: emit_status_event_def split: option.split)

lemma after_transition_frame [simp]:
  "tasks (snd (after_transition i s prev patch d)) = tasks d"
  "deps (snd (after_transition i s prev patch d)) = deps d"
  "workflows (snd (after_transition i s prev patch d)) = workflows d"
  "dbClosed (snd (after_transition i s prev patch d)) = dbClosed d"
  "terminalGuards (snd (after_transition i s prev patch d)) = terminalGuards d"
  by (simp_all add: after_transition_def Let_def split: sum.split)

lemma getTask_tasks:
  assumes "tasks d' = tasks d" and "dbClosed d' = dbClosed d"
  shows "getTask i d' = getTask i d"
proof -
  have "resolveTaskId i d' = resolveTaskId i d" using assms by (simp add: resolveTaskId_def)
  then show ?thesis using assms by (simp add: getTask_def split: sum.split option.split)
qed

lemma after_transition_result [simp]: "fst (after_transition i s prev patch d) = getTask i d"
proof -
  have "getTask i (emit_file_writes i fs (emit_if b ev d)) = getTask i d" for fs b ev
    by (rule getTask_tasks) simp_all
  then show ?thesis by (simp add: after_transition_def Let_def split: sum.split)
qed

lemma write_cols_frame [simp]:
  "tasks (write_cols i us d) = update_row i (set_cols us) (tasks d)"
  "deps (write_cols i us d) = deps d" "dbClosed (write_cols i us d) = dbClosed d"
  "workflows (write_cols i us d) = workflows d"
  by (simp_all add: write_cols_def)

lemma find_None_list_all: "List.find P xs = None \<longleftrightarrow> list_all (\<lambda>x. \<not> P x) xs"
  by (induction xs) auto

section \<open>What the prepared patch can contain\<close>

lemma obj_has_default_field [simp]:
  "obj_has (default_field k v patch) j \<longleftrightarrow> j = k \<or> obj_has patch j"
  by (auto simp: default_field_def)

lemma obj_get_default_field [simp]:
  "obj_get (default_field k v patch) j = (if j = k \<and> \<not> obj_has patch k then v else obj_get patch j)"
  by (simp add: default_field_def)

lemma obj_has_delete [simp]: "obj_has (obj_delete k patch) j \<longleftrightarrow> j \<noteq> k \<and> obj_has patch j"
  by (simp add: obj_has_def obj_delete_def delete_conv')

lemma obj_has_fst: "obj_has patch k \<longleftrightarrow> k \<in> fst ` set patch"
  by (auto simp: obj_has_def map_of_eq_None_iff [symmetric] dom_map_of_conv_image_fst [symmetric])

lemma enrichment_frame:
  "k \<notin> {''original_provider'', ''model'', ''ollama_host_id'', ''provider_switched_at'', ''metadata''} \<Longrightarrow>
   obj_has (applyProviderSwitchEnrichment now src tgt patch why) k = obj_has patch k \<and>
   obj_get (applyProviderSwitchEnrichment now src tgt patch why) k = obj_get patch k"
  by (auto simp: applyProviderSwitchEnrichment_def Let_def split: option.split jsval.split)

lemma prepare_keeps_absent:
  assumes "k \<notin> {''original_provider'', ''model'', ''ollama_host_id'', ''provider_switched_at'', ''metadata'',
      ''provider'', ''cancel_reason''}" and "\<not> obj_has patch k"
  shows "\<not> obj_has (prepare_fields now i s patch d) k"
  using assms enrichment_frame [of k]
  by (auto simp: prepare_fields_def requeue_provider_def Let_def)

lemma distinct_obj_set: "distinct (map fst p) \<Longrightarrow> distinct (map fst (obj_set k v p))"
  by (simp add: obj_set_def distinct_update)

lemma distinct_obj_delete: "distinct (map fst p) \<Longrightarrow> distinct (map fst (obj_delete k p))"
  by (simp add: obj_delete_def distinct_delete)

section \<open>The operations as a machine\<close>

datatype task_op =
    T_create create_env jsobj
  | T_update string jsval
  | T_status string string jsobj
  | T_requeue string jsobj
  | T_progress string jsval "string option"
  | T_delete string
  | T_delete_all string
  | T_archive int
  | T_purge int
  | T_limit jsnum jsnum
  | T_claim string nat jsval jsval "rat option" "string list" "rat option" "string list"
  | T_patch_meta string jsval
  | T_bind string jsval
  | T_claim_slot string string
  | T_clear string
  | T_slot_failure "db_row \<Rightarrow> jsval \<Rightarrow> jsval \<Rightarrow> jsval" "jsval \<Rightarrow> jsval \<Rightarrow> jsval" "string \<Rightarrow> nat"
      "db_row \<Rightarrow> jsobj" string string bool jsval jsval

fun task_step :: "int \<times> task_op \<Rightarrow> tdb \<Rightarrow> tdb" where
  "task_step (now, T_create env t) d = snd (createTask now env t d)"
| "task_step (now, T_update i p) d = snd (updateTask i p d)"
| "task_step (now, T_status i s p) d = snd (updateTaskStatus now i s p d)"
| "task_step (now, T_requeue i p) d = snd (requeueTaskAfterAttemptedStart now i p d)"
| "task_step (now, T_progress i v t) d = updateTaskProgress i v t d"
| "task_step (now, T_delete i) d = snd (deleteTask i d)"
| "task_step (now, T_delete_all s) d = snd (deleteTasks s d)"
| "task_step (now, T_archive h) d = snd (archiveOldTasks now h d)"
| "task_step (now, T_purge days) d = snd (purgeOldTaskOutput now days d)"
| "task_step (now, T_limit m b) d = snd (enforceTaskOutputSizeLimit m b d)"
| "task_step (now, T_claim i mx inst p l g l2 g2) d = snd (tryClaimTaskSlot now i mx inst p l g l2 g2 d)"
| "task_step (now, T_patch_meta i v) d = snd (patchTaskMetadata i v d)"
| "task_step (now, T_bind i v) d = snd (patchTaskSlotBinding i v d)"
| "task_step (now, T_claim_slot i p) d = snd (claimSlotAtomic i p d)"
| "task_step (now, T_clear i) d = snd (clearProviderIfNotRunning i d)"
| "task_step (now, T_slot_failure rs pp mr pm i p df e out) d =
     snd (requeueAfterSlotFailure now rs pp mr pm i p df e out d)"

text \<open>
  Every operation but \<open>createTask\<close> and the deletions rewritten selected rows. \<open>rewritten Q d d'\<close>: the
  table is unchanged or one such rewrite by an assignment that satisfies \<open>Q\<close> on the rows it hits.
\<close>

definition rewritten :: "(db_row \<Rightarrow> (string \<times> jsval) list \<Rightarrow> bool) \<Rightarrow> tdb \<Rightarrow> tdb \<Rightarrow> bool" where
  "rewritten Q d d' \<longleftrightarrow> (\<exists>P g. tasks d' = map_where P (\<lambda>r. set_cols (g r) r) (tasks d)
     \<and> (\<forall>r \<in> set (tasks d). P r \<longrightarrow> Q r (g r)))"

lemma rewritten_same [intro]: "tasks d' = tasks d \<Longrightarrow> rewritten Q d d'"
  unfolding rewritten_def by (rule exI [of _ "\<lambda>_. False"]) (simp add: map_where_none)

lemma rewritten_mono: "rewritten Q d d' \<Longrightarrow> (\<And>r us. Q r us \<Longrightarrow> Q' r us) \<Longrightarrow> rewritten Q' d d'"
  unfolding rewritten_def by blast

lemma rewrittenI:
  "tasks d' = map_where P (\<lambda>r. set_cols (g r) r) (tasks d) \<Longrightarrow>
   (\<And>r. r \<in> set (tasks d) \<Longrightarrow> P r \<Longrightarrow> Q r (g r)) \<Longrightarrow> rewritten Q d d'"
  unfolding rewritten_def by blast

lemma map_where_cong:
  "(\<And>r. r \<in> set rows \<Longrightarrow> P r \<Longrightarrow> f r = g r) \<Longrightarrow> map_where P f rows = map_where P g rows"
  by (induction rows) auto

definition no_id :: "(string \<times> jsval) list \<Rightarrow> bool" where
  "no_id us \<longleftrightarrow> ''id'' \<notin> fst ` set us"

lemma rewritten_ids:
  assumes "rewritten (\<lambda>r us. no_id us) d d'"
  shows "row_ids (tasks d') = row_ids (tasks d)"
proof -
  obtain P g where t: "tasks d' = map_where P (\<lambda>r. set_cols (g r) r) (tasks d)"
    and g: "\<forall>r \<in> set (tasks d). P r \<longrightarrow> no_id (g r)" using assms by (auto simp: rewritten_def)
  have "row_ids (map_where P (\<lambda>r. set_cols (g r) r) rows) = row_ids rows"
    if "\<forall>r \<in> set rows. P r \<longrightarrow> no_id (g r)" for rows
    using that by (induction rows) (auto simp: row_ids_def no_id_def col_set_cols_frame)
  with t g show ?thesis by simp
qed

lemma rewritten_row:
  assumes "rewritten Q d d'" and "\<And>r us. Q r us \<Longrightarrow> no_id us" and "row_of d i = Some r"
  shows "\<exists>us. row_of d' i = Some (set_cols us r) \<and> (us = [] \<or> Q r us)"
proof -
  obtain P g where t: "tasks d' = map_where P (\<lambda>r. set_cols (g r) r) (tasks d)"
    and g: "\<forall>r \<in> set (tasks d). P r \<longrightarrow> Q r (g r)" using assms(1) by (auto simp: rewritten_def)
  have look: "lookup_row i (map_where P (\<lambda>r. set_cols (g r) r) rows) =
      map_option (\<lambda>r. if P r then set_cols (g r) r else r) (lookup_row i rows)"
    if "\<forall>r \<in> set rows. P r \<longrightarrow> no_id (g r)" for rows
    using that by (induction rows) (auto simp: has_id_def no_id_def col_set_cols_frame)
  have r: "r \<in> set (tasks d)" using lookup_row_Some assms(3) by (auto simp: row_of_def)
  have "\<forall>r \<in> set (tasks d). P r \<longrightarrow> no_id (g r)" using g assms(2) by blast
  from look [OF this] have "row_of d' i = Some (if P r then set_cols (g r) r else r)"
    using assms(3) t by (simp add: row_of_def)
  with g r show ?thesis by (cases "P r") (auto intro: exI [of _ "[]"])
qed

lemma rewritten_none:
  "rewritten (\<lambda>r us. no_id us) d d' \<Longrightarrow> row_of d' i = None \<longleftrightarrow> row_of d i = None"
  by (simp add: row_of_def lookup_row_None rewritten_ids)

section \<open>Operations as rewrites\<close>

definition status_writes :: "jsval \<Rightarrow> (string \<times> jsval) list \<Rightarrow> bool" where
  "status_writes v us \<longleftrightarrow> (\<forall>(c, w) \<in> set us. c = ''status'' \<longrightarrow> w = v)"

lemma keeps_status: "''status'' \<notin> fst ` set us \<Longrightarrow> col (set_cols us r) ''status'' = col r ''status''"
  by (simp add: col_set_cols_frame)

text \<open>A transition to \<open>s\<close> hits a row that is not terminal, or reopens it.\<close>

definition writes_of :: "int \<Rightarrow> string \<Rightarrow> string \<Rightarrow> jsobj \<Rightarrow> jsval \<Rightarrow> tdb \<Rightarrow> (string \<times> jsval) list" where
  "writes_of now i s p prev d = ((''status'', JStr s) # started_cols now s p @ prepare_fields now i s p d)
     @ completion_cols now s prev"

definition refused :: "int \<Rightarrow> string \<Rightarrow> string \<Rightarrow> jsobj \<Rightarrow> db_row \<Rightarrow> tdb \<Rightarrow> bool" where
  "refused now i s p cur d \<longleftrightarrow>
     is_critical s \<and> col cur ''status'' = JStr s \<and> prepare_fields now i s p d = [] \<or>
     is_terminal (col cur ''status'') \<and> \<not> reopens s"

lemma write_transition_tasks:
  "tasks (snd (write_transition now i s patch us soft d)) =
     (case lookup_row i (tasks d) of None \<Rightarrow> tasks d
      | Some cur \<Rightarrow>
          if is_critical s \<and> col cur ''status'' = JStr s \<and> patch = []
             \<or> is_terminal (col cur ''status'') \<and> \<not> reopens s then tasks d
          else map_where (\<lambda>r. has_id i r \<and> sql_eq (col r ''status'') (col cur ''status''))
            (set_cols (us @ completion_cols now s (col cur ''status''))) (tasks d))"
proof (cases "lookup_row i (tasks d)")
  case (Some cur)
  then show ?thesis
    by (simp add: write_transition_def Let_def update_where_status_def if_distrib [of snd] if_distrib [of tasks]
        del: set_cols_append sql_eq_simps cong: if_cong)
qed (simp add: write_transition_def)

lemma updateTaskStatus_tasks:
  "tasks (snd (updateTaskStatus now i s p d)) =
     (if dbClosed d \<or> \<not> list_all (\<lambda>(c, _). c \<in> set ALLOWED_TASK_COLUMNS) (prepare_fields now i s p d)
      then tasks d
      else case row_of d i of None \<Rightarrow> tasks d
        | Some cur \<Rightarrow> if refused now i s p cur d then tasks d
            else map_where (\<lambda>r. has_id i r \<and> sql_eq (col r ''status'') (col cur ''status''))
              (set_cols (writes_of now i s p (col cur ''status'') d)) (tasks d))"
proof (cases "List.find (\<lambda>(c, _). c \<notin> set ALLOWED_TASK_COLUMNS) (prepare_fields now i s p d)")
  case None
  then have "list_all (\<lambda>(c, _). c \<in> set ALLOWED_TASK_COLUMNS) (prepare_fields now i s p d)"
    by (auto simp: find_None_iff list_all_iff)
  with None show ?thesis
    by (simp only: updateTaskStatus_def Let_def option.case if_distrib [of snd] if_distrib [of tasks]
        write_transition_tasks row_of_def refused_def writes_of_def not_True_eq_False simp_thms snd_conv
        cong: if_cong)
next
  case (Some x)
  then have "\<not> list_all (\<lambda>(c, _). c \<in> set ALLOWED_TASK_COLUMNS) (prepare_fields now i s p d)"
    using find_None_list_all [of "\<lambda>(c, _). c \<notin> set ALLOWED_TASK_COLUMNS" "prepare_fields now i s p d"]
    by (simp add: case_prod_unfold)
  with Some show ?thesis by (simp add: updateTaskStatus_def split: prod.split)
qed

text \<open>A transition leaves the other tables alone.\<close>

definition other_tables :: "tdb \<Rightarrow> bool \<times> dep_row list \<times> db_row list \<times> string list" where
  "other_tables d = (dbClosed d, deps d, workflows d, terminalGuards d)"

lemma write_transition_other: "other_tables (snd (write_transition now t s patch us soft d)) = other_tables d"
  by (simp add: other_tables_def write_transition_def Let_def update_where_status_def split: option.split)

lemma updateTaskStatus_other: "other_tables (snd (updateTaskStatus now t s p d)) = other_tables d"
proof (cases "List.find (\<lambda>(c, _). c \<notin> set ALLOWED_TASK_COLUMNS) (prepare_fields now t s p d)")
  case None
  then show ?thesis
    by (simp only: updateTaskStatus_def Let_def option.case if_distrib [of snd] if_distrib [of other_tables]
        write_transition_other snd_conv if_cancel)
next
  case (Some x)
  then show ?thesis
    by (cases x) (simp only: updateTaskStatus_def Let_def option.case prod.case if_distrib [of snd]
        if_distrib [of other_tables] snd_conv if_cancel)
qed

lemma other_tablesD:
  assumes "other_tables d' = other_tables d"
  shows "dbClosed d' = dbClosed d" "deps d' = deps d" "workflows d' = workflows d" "terminalGuards d' = terminalGuards d"
  using assms by (simp_all add: other_tables_def)

lemmas updateTaskStatus_frame [simp] = other_tablesD [OF updateTaskStatus_other]

lemma writes_of_absent:
  assumes "k \<in> {''id'', ''status''}" and "\<not> obj_has p k" and "(k, v) \<in> set (writes_of now i s p prev d)"
  shows "k = ''status'' \<and> v = JStr s"
proof -
  have "\<not> obj_has (prepare_fields now i s p d) k"
    by (rule prepare_keeps_absent) (use assms(1,2) in auto)
  then have "(k, v) \<notin> set (prepare_fields now i s p d)" by (force simp: obj_has_fst)
  with assms(1,3) show ?thesis
    by (auto simp: writes_of_def started_cols_def completion_cols_def split: if_splits)
qed

lemma updateTaskStatus_rewritten:
  "rewritten (\<lambda>r us. has_id i r \<and> (is_terminal (col r ''status'') \<longrightarrow> reopens s) \<and>
      (\<not> obj_has p ''id'' \<longrightarrow> no_id us) \<and>
      (\<not> obj_has p ''status'' \<longrightarrow> status_writes (JStr s) us)) d (snd (updateTaskStatus now i s p d))"
proof (cases "tasks (snd (updateTaskStatus now i s p d)) = tasks d")
  case False
  then obtain cur where cur: "\<not> refused now i s p cur d"
    "tasks (snd (updateTaskStatus now i s p d)) =
       map_where (\<lambda>r. has_id i r \<and> sql_eq (col r ''status'') (col cur ''status''))
         (set_cols (writes_of now i s p (col cur ''status'') d)) (tasks d)"
    by (auto simp: updateTaskStatus_tasks split: if_splits option.splits)
  show ?thesis
    by (rule rewrittenI [OF cur(2)])
      (use cur(1) writes_of_absent [of "''id''" p] writes_of_absent [of "''status''" p]
        in \<open>auto simp: sql_eq_def no_id_def status_writes_def refused_def\<close>)
qed blast

fun patch_safe :: "task_op \<Rightarrow> bool" where
  "patch_safe (T_update i (JObj p)) = (\<not> obj_has p ''id'')"
| "patch_safe (T_status i s p) = (\<not> obj_has p ''id'' \<and> \<not> obj_has p ''status'')"
| "patch_safe (T_requeue i p) = (\<not> obj_has p ''id'' \<and> \<not> obj_has p ''status'')"
| "patch_safe _ = True"

fun reopened_by :: "task_op \<Rightarrow> db_row \<Rightarrow> bool" where
  "reopened_by (T_status i s p) r = (reopens s \<and> has_id i r)"
| "reopened_by (T_requeue i p) r = has_id i r"
| "reopened_by (T_slot_failure rs pp mr pm i p df e out) r = has_id i r"
| "reopened_by _ r = False"

fun rewriting :: "task_op \<Rightarrow> bool" where
  "rewriting (T_create _ _) = False"
| "rewriting (T_delete _) = False"
| "rewriting (T_delete_all _) = False"
| "rewriting _ = True"

definition row_change :: "task_op \<Rightarrow> db_row \<Rightarrow> (string \<times> jsval) list \<Rightarrow> bool" where
  "row_change op r us \<longleftrightarrow> no_id us \<and>
     (is_terminal (col r ''status'') \<and> \<not> reopened_by op r \<longrightarrow> status_writes (col r ''status'') us)"

lemma row_change_plain: "no_id us \<Longrightarrow> ''status'' \<notin> fst ` set us \<Longrightarrow> row_change op r us"
  by (force simp: row_change_def status_writes_def)

lemma not_terminal_open [simp]:
  "\<not> is_terminal (JStr ''queued'')" "\<not> is_terminal (JStr ''pending'')" "\<not> is_terminal (JStr ''running'')"
  "\<not> is_terminal JNull"
  by (auto simp: is_terminal_def TERMINAL_TASK_STATUS_VALUES_def)

lemma update_row_rewritten:
  "tasks d' = update_row i (\<lambda>r. set_cols (g r) r) (tasks d) \<Longrightarrow> (\<And>r. has_id i r \<Longrightarrow> Q r (g r)) \<Longrightarrow> rewritten Q d d'"
  by (rule rewrittenI [of d' "has_id i" g d]) (auto simp: update_row_def)

lemma obj_has_merge_absent:
  "\<not> obj_has a k \<Longrightarrow> \<not> obj_has b k \<Longrightarrow> \<not> obj_has (obj_merge a b) k"
proof (induction b arbitrary: a)
  case (Cons p b)
  then show ?case
    by (cases p) (auto simp: obj_merge_def obj_has_def obj_set_def update_conv' split: if_splits)
qed simp

lemma requeue_as_update:
  "tasks (snd (requeueTaskAfterAttemptedStart now i p d)) = tasks d \<or>
   (\<exists>p'. requeueTaskAfterAttemptedStart now i p d = updateTaskStatus now i ''queued'' p' d \<and>
      (\<forall>k \<in> {''id'', ''status''}. \<not> obj_has p k \<longrightarrow> \<not> obj_has p' k))"
proof -
  have a: "\<not> obj_has (obj_merge (obj_set ''provider'' v START_ARTIFACTS)
      (obj_delete ''metadata'' (obj_delete ''provider'' p))) k"
    if "k \<in> {''id'', ''status''}" "\<not> obj_has p k" for v k
    using that by (intro obj_has_merge_absent) (auto, auto simp: START_ARTIFACTS_def obj_has_def)
  show ?thesis
  proof (cases "if js_truthy (obj_get p ''provider'') then getTask i d else Inr None")
    case (Inl e)
    then show ?thesis by (simp add: requeueTaskAfterAttemptedStart_def Let_def)
  next
    case (Inr t)
    then show ?thesis
      using a by (auto simp: requeueTaskAfterAttemptedStart_def Let_def intro!: exI)
  qed
qed

lemma updateTask_tasks:
  "tasks (snd (updateTask i v d)) = tasks d \<or>
   (\<exists>p p'. v = JObj p \<and> tasks (snd (updateTask i v d)) = update_row i (set_cols p') (tasks d)
      \<and> \<not> obj_has p' ''status'' \<and> (\<not> obj_has p ''id'' \<longrightarrow> \<not> obj_has p' ''id''))"
proof (cases v)
  case (JObj p)
  then show ?thesis
    by (auto simp: updateTask_def Let_def split: option.split intro!: exI [of _ p]
        exI [of _ "if obj_has p ''provider''
          then obj_set ''provider'' (normalizeProviderValue (obj_get p ''provider'')) p else p"])
qed (simp_all add: updateTask_def)

lemma finish_claim_tasks:
  "tasks (snd (finish_claim now i inst fp d)) = tasks d \<or>
   (\<exists>task. tasks (snd (finish_claim now i inst fp d)) =
      map_where (\<lambda>r. has_id i r \<and> col r ''status'' \<in> {JStr ''queued'', JStr ''pending''})
        (set_cols (claim_updates now inst fp task)) (tasks d))"
  by (auto simp: finish_claim_def Let_def split: option.splits)

lemma claim_tasks:
  "snd (tryClaimTaskSlot now i mx inst p l g l2 g2 d) = d \<or>
   (\<exists>fp. snd (tryClaimTaskSlot now i mx inst p l g l2 g2 d) = snd (finish_claim now i inst fp d))"
  by (auto simp: tryClaimTaskSlot_def Let_def)

lemma claim_step_tasks:
  obtains "tasks (snd (tryClaimTaskSlot now i mx inst p l g l2 g2 d)) = tasks d"
  | fp task where "tasks (snd (tryClaimTaskSlot now i mx inst p l g l2 g2 d)) =
      map_where (\<lambda>r. has_id i r \<and> col r ''status'' \<in> {JStr ''queued'', JStr ''pending''})
        (set_cols (claim_updates now inst fp task)) (tasks d)"
proof (cases "snd (tryClaimTaskSlot now i mx inst p l g l2 g2 d) = d")
  case False
  then obtain fp where fp: "snd (tryClaimTaskSlot now i mx inst p l g l2 g2 d) = snd (finish_claim now i inst fp d)"
    using claim_tasks [of now i mx inst p l g l2 g2 d] by (elim disjE exE) simp_all
  show ?thesis
    using finish_claim_tasks [of now i inst fp d] unfolding fp [symmetric]
    by (elim disjE exE) (rule that, assumption)+
qed (use that in simp)

lemma enrichment_no_id:
  "\<not> obj_has patch ''id'' \<Longrightarrow> ''id'' \<notin> fst ` set (applyProviderSwitchEnrichment now src tgt patch why)"
  using enrichment_frame [of "''id''"] by (simp flip: obj_has_fst)

lemma obj_has_Nil [simp]: "\<not> obj_has [] k"
  by (simp add: obj_has_def)

lemma claim_updates_no_id: "no_id (claim_updates now inst fp task)"
  by (cases fp; cases "js_truthy inst") (simp_all add: no_id_def claim_updates_def enrichment_no_id)

lemma slot_failure_tasks:
  "tasks (snd (requeueAfterSlotFailure now rs pp mr pm i p df e out d)) = tasks d \<or>
   (\<exists>us. tasks (snd (requeueAfterSlotFailure now rs pp mr pm i p df e out d)) =
      update_row i (set_cols us) (tasks d) \<and> no_id us)"
  by (auto simp: requeueAfterSlotFailure_def Let_def no_id_def split: option.split)

lemma limit_tasks:
  "tasks (snd (enforceTaskOutputSizeLimit m b d)) = tasks d \<or>
   (\<exists>P. tasks (snd (enforceTaskOutputSizeLimit m b d)) = map_where P clear_output (tasks d))"
  by (auto simp: enforceTaskOutputSizeLimit_def Let_def)

lemma clear_output_change: "rewritten (row_change op) d d'" if "tasks d' = map_where P clear_output (tasks d)"
  using that by (intro rewrittenI [where P = P]) (auto simp: clear_output_def intro!: row_change_plain simp: no_id_def)

lemma plain_writes:
  assumes "no_id us" and "''status'' \<notin> fst ` set us"
  shows "tasks d' = map_where P (set_cols us) (tasks d) \<Longrightarrow> rewritten (row_change op) d d'"
    and "tasks d' = update_row i (set_cols us) (tasks d) \<Longrightarrow> rewritten (row_change op) d d'"
  using assms
  by (auto simp: update_row_def intro!: rewrittenI [of d' _ "\<lambda>_. us" d] row_change_plain)

text \<open>Every operation that is no insertion or deletion makes legal changes to the rows it hits.\<close>

lemma step_row_change:
  assumes "rewriting op" and "patch_safe op"
  shows "rewritten (row_change op) d (task_step (now, op) d)"
proof (cases op)
  case (T_status i s p)
  then show ?thesis
    using assms(2) by (auto simp: row_change_def intro: rewritten_mono [OF updateTaskStatus_rewritten])
next
  case (T_requeue i p)
  consider "tasks (task_step (now, op) d) = tasks d" |
    p' where "task_step (now, op) d = snd (updateTaskStatus now i ''queued'' p' d)"
      "\<not> obj_has p' ''id''" "\<not> obj_has p' ''status''"
    using requeue_as_update [of now i p d] assms(2) by (auto simp: T_requeue)
  then show ?thesis
  proof cases
    case 2
    show ?thesis unfolding 2(1) unfolding T_requeue
      by (rule rewritten_mono [OF updateTaskStatus_rewritten]) (use 2 in \<open>auto simp: row_change_def\<close>)
  qed blast
next
  case (T_update i v)
  consider "tasks (task_step (now, op) d) = tasks d" |
    us where "tasks (task_step (now, op) d) = update_row i (set_cols us) (tasks d)"
      "no_id us" "''status'' \<notin> fst ` set us"
    using updateTask_tasks [of i v d] assms(2) by (auto simp: T_update no_id_def simp flip: obj_has_fst)
  then show ?thesis
  proof cases
    case 2
    then show ?thesis by (intro update_row_rewritten [of _ i "\<lambda>_. us"] row_change_plain)
  qed blast
next
  case (T_claim i mx inst p l g l2 g2)
  show ?thesis
  proof (cases rule: claim_step_tasks [of now i mx inst p l g l2 g2 d])
    case 1
    then show ?thesis by (auto simp: T_claim)
  next
    case (2 fp task)
    then have "tasks (task_step (now, op) d) =
      map_where (\<lambda>r. has_id i r \<and> col r ''status'' \<in> {JStr ''queued'', JStr ''pending''})
        (set_cols (claim_updates now inst fp task)) (tasks d)" by (simp add: T_claim)
    then show ?thesis by (rule rewrittenI) (auto simp: row_change_def claim_updates_no_id)
  qed
next
  case (T_slot_failure rs pp mr pm i p df e out)
  consider "tasks (task_step (now, op) d) = tasks d" |
    us where "tasks (task_step (now, op) d) = update_row i (set_cols us) (tasks d)" "no_id us"
    using slot_failure_tasks [of now rs pp mr pm i p df e out d] by (auto simp: T_slot_failure)
  then show ?thesis
  proof cases
    case 2
    then show ?thesis
      by (intro update_row_rewritten [of _ i "\<lambda>_. us"]) (auto simp: row_change_def T_slot_failure)
  qed blast
next
  case (T_limit m b)
  then show ?thesis using limit_tasks [of m b d] by (auto intro: clear_output_change)
next
  case (T_purge days)
  then show ?thesis by (auto simp: purgeOldTaskOutput_def Let_def intro: clear_output_change)
next
  case (T_progress i v t)
  show ?thesis unfolding T_progress
    by (rule update_row_rewritten [where i = i and g = "\<lambda>r.
          (''progress_percent'', JNum (of_int (clamp_progress v))) #
          (case t of None \<Rightarrow> [] | Some text \<Rightarrow> [(''output'', JStr (str_of (col r ''output'') @ text))])"])
      (auto simp: updateTaskProgress_def no_id_def intro!: row_change_plain split: option.splits)
next
  case (T_archive h)
  show ?thesis
  proof (cases "dbClosed d")
    case False
    then show ?thesis
      unfolding T_archive
      by (intro plain_writes(1) [of "[(''archived'', JNum 1)]"])
        (auto simp: archiveOldTasks_def Let_def no_id_def simp del: set_cols_Cons)
  qed (auto simp: archiveOldTasks_def T_archive)
next
  case (T_patch_meta i v)
  then show ?thesis
    by (intro plain_writes(2) [of "[(''metadata'', v)]"]) (auto simp: patchTaskMetadata_def no_id_def)
next
  case (T_bind i v)
  then show ?thesis
    by (intro plain_writes(2) [of "[(''provider'', JNull), (''metadata'', v)]"])
      (auto simp: patchTaskSlotBinding_def no_id_def)
next
  case (T_claim_slot i p)
  then show ?thesis
    by (intro plain_writes(1) [of "[(''provider'', JStr p)]"])
      (auto simp: claimSlotAtomic_def no_id_def Let_def simp del: set_cols_Cons)
next
  case (T_clear i)
  then show ?thesis
    by (intro plain_writes(1) [of "[(''provider'', JNull)]"])
      (auto simp: clearProviderIfNotRunning_def no_id_def Let_def simp del: set_cols_Cons)
qed (use assms(1) in simp_all)

section \<open>Keys stay unique\<close>

lemma ensureProjectRegistered_frame [simp]:
  "tasks (ensureProjectRegistered v d) = tasks d" "deps (ensureProjectRegistered v d) = deps d"
  "dbClosed (ensureProjectRegistered v d) = dbClosed d" "workflows (ensureProjectRegistered v d) = workflows d"
  by (simp_all add: ensureProjectRegistered_def Let_def)

lemma store_task_frame [simp]:
  "tasks (snd (store_task i st pr row d)) = tasks d @ [row]" "deps (snd (store_task i st pr row d)) = deps d"
  by (simp_all add: store_task_def Let_def split: sum.split)

lemma insert_task_tasks:
  obtains "snd (insert_task now env task i wd d) = d"
  | st tags pr op m where "lookup_row i (tasks d) = None"
    "snd (insert_task now env task i wd d) = snd (store_task i st pr (new_task_row now env task st wd tags pr op m) d)"
proof -
  have "snd (insert_task now env task i wd d) = d \<or> lookup_row i (tasks d) = None \<and>
    (\<exists>st tags pr op m. snd (insert_task now env task i wd d) =
       snd (store_task i st pr (new_task_row now env task st wd tags pr op m) d))"
    unfolding insert_task_def primary_key_taken_def Let_def by (simp only: if_distrib [of snd] snd_conv not_not split: if_split) blast
  then show thesis using that by blast
qed

lemma insert_task_unique:
  assumes "ids_unique d" and "obj_get task ''id'' = JStr i"
  shows "ids_unique (snd (insert_task now env task i wd d))"
proof (cases rule: insert_task_tasks [of now env task i wd d])
  case (2 st tags pr op m)
  have "col (new_task_row now env task st wd tags pr op m) ''id'' = JStr i"
    using assms(2) by (simp add: new_task_row_def Let_def)
  with 2 assms(1) show ?thesis by (simp add: ids_unique_def row_ids_def lookup_row_None)
qed (use assms(1) in \<open>simp add: ids_unique_def\<close>)

lemma createTask_unique: "ids_unique d \<Longrightarrow> ids_unique (snd (createTask now env task d))"
  by (auto simp: createTask_def insert_task_unique split: jsval.split sum.split)

lemma delete_tasks_of: "tasks (snd (deleteTaskRowsByIds is d)) =
    filter (\<lambda>r. col r ''id'' \<notin> JStr ` set (normalizeTaskIds is)) (tasks d)"
  by (simp add: deleteTaskRowsByIds_def Let_def)

lemma delete_unique: "ids_unique d \<Longrightarrow> ids_unique (snd (deleteTaskRowsByIds is d))"
  by (simp add: ids_unique_def delete_tasks_of distinct_row_ids_filter)

lemma deleteTask_unique: "ids_unique d \<Longrightarrow> ids_unique (snd (deleteTask i d))"
  by (simp add: deleteTask_def delete_unique split: option.split)

lemma deleteTasks_unique: "ids_unique d \<Longrightarrow> ids_unique (snd (deleteTasks s d))"
  by (simp add: deleteTasks_def Let_def case_prod_unfold delete_unique)

lemma task_step_unique:
  assumes "ids_unique d" and "patch_safe op"
  shows "ids_unique (task_step (now, op) d)"
proof (cases "rewriting op")
  case True
  then have "rewritten (\<lambda>r us. no_id us) d (task_step (now, op) d)"
    using assms(2) by (intro rewritten_mono [OF step_row_change]) (auto simp: row_change_def)
  then show ?thesis using assms(1) by (simp add: ids_unique_def rewritten_ids)
next
  case False
  then show ?thesis
    using assms(1)
    by (cases op) (simp_all add: createTask_unique deleteTask_unique deleteTasks_unique)
qed

interpretation unique_ids: latch_machine task_step "\<lambda>_. True" ids_unique "\<lambda>ev. patch_safe (snd ev)"
  by unfold_locales (auto simp: task_step_unique)

section \<open>Terminal tasks stay terminal\<close>

fun deletes :: "string \<Rightarrow> task_op \<Rightarrow> bool" where
  "deletes i (T_delete j) = (js_trim j = i)"
| "deletes i (T_delete_all s) = True"
| "deletes i _ = False"

definition leaves :: "string \<Rightarrow> int \<times> task_op \<Rightarrow> bool" where
  "leaves i ev \<longleftrightarrow> patch_safe (snd ev) \<and> \<not> deletes i (snd ev) \<and>
     \<not> reopened_by (snd ev) [(''id'', JStr i)]"

definition finished :: "string \<Rightarrow> string \<Rightarrow> tdb \<Rightarrow> bool" where
  "finished i s d \<longleftrightarrow> s \<in> set TERMINAL_TASK_STATUS_VALUES \<and> status_of d i = Some (JStr s)"

lemma reopened_by_id: "has_id i r \<Longrightarrow> reopened_by op r = reopened_by op [(''id'', JStr i)]"
  by (cases op) (auto simp: has_id_def col_def)

lemma status_writes_col: "status_writes (col r ''status'') us \<Longrightarrow> sql_value (col r ''status'') = col r ''status''
    \<Longrightarrow> col (set_cols us r) ''status'' = col r ''status''"
  by (auto simp: col_set_cols status_writes_def split: option.split dest!: map_of_SomeD)

lemma normalizeTaskIds_single: "set (normalizeTaskIds [JStr j]) \<subseteq> {js_trim j}"
  by (auto simp: normalizeTaskIds_def Let_def)

lemma lookup_append: "lookup_row i (xs @ ys) = (case lookup_row i xs of None \<Rightarrow> lookup_row i ys | Some r \<Rightarrow> Some r)"
  by (induction xs) auto

lemma lookup_filter_keeps:
  "(\<And>r. has_id i r \<Longrightarrow> P r) \<Longrightarrow> lookup_row i (filter P xs) = lookup_row i xs"
  by (induction xs) auto

lemma createTask_keeps_row: "row_of d i = Some r \<Longrightarrow> row_of (snd (createTask now env t d)) i = Some r"
proof -
  assume r: "row_of d i = Some r"
  have "row_of (snd (insert_task now env t j wd d)) i = Some r" for j wd
    by (cases rule: insert_task_tasks [of now env t j wd d]) (use r in \<open>simp_all add: row_of_def lookup_append\<close>)
  with r show ?thesis by (simp add: createTask_def split: jsval.split sum.split)
qed

lemma deleteTask_keeps_row:
  assumes "js_trim j \<noteq> i" and "row_of d i = Some r"
  shows "row_of (snd (deleteTask j d)) i = Some r"
proof -
  have "lookup_row i (tasks (snd (deleteTaskRowsByIds [JStr j] d))) = lookup_row i (tasks d)"
    unfolding delete_tasks_of
    by (rule lookup_filter_keeps) (use assms(1) normalizeTaskIds_single [of j] in \<open>auto simp: has_id_def\<close>)
  with assms(2) show ?thesis by (simp add: row_of_def deleteTask_def split: option.split)
qed

lemma finished_step:
  assumes "finished i s d" and "leaves i ev"
  shows "finished i s (task_step ev d)"
proof -
  obtain now op where ev: "ev = (now, op)" by (cases ev)
  obtain r where r: "row_of d i = Some r" "col r ''status'' = JStr s" "has_id i r"
    using assms(1) lookup_row_Some by (fastforce simp: finished_def status_of_def row_of_def has_id_def)
  have fin: "is_terminal (col r ''status'')" using assms(1) r(2) by (simp add: finished_def is_terminal_def)
  have "\<exists>r'. row_of (task_step ev d) i = Some r' \<and> col r' ''status'' = JStr s"
  proof (cases "rewriting op")
    case True
    have safe: "patch_safe op" "\<not> reopened_by op r"
      using assms(2) reopened_by_id [OF r(3)] by (auto simp: leaves_def ev)
    obtain us where us: "row_of (task_step ev d) i = Some (set_cols us r)" "us = [] \<or> row_change op r us"
      using rewritten_row [OF step_row_change [OF True safe(1)] _ r(1)]
      by (auto simp: ev row_change_def)
    have "col (set_cols us r) ''status'' = col r ''status''"
      using us(2) fin safe(2) r(2) status_writes_col [of r us] by (auto simp: row_change_def)
    with us(1) r(2) show ?thesis by auto
  next
    case False
    have nd: "\<not> deletes i op" using assms(2) by (simp add: leaves_def ev)
    show ?thesis
      using False nd r by (cases op) (auto simp: ev createTask_keeps_row deleteTask_keeps_row)
  qed
  with assms(1) show ?thesis by (auto simp: finished_def status_of_def)
qed

interpretation terminal_tasks: latch_machine task_step "\<lambda>_. True" "finished i s" "leaves i" for i s
  by unfold_locales (auto intro: finished_step)

end
