(* ===== verification/Task_Claims.thy ===== *)
theory Task_Claims
  imports Task_Store_Laws
begin

text \<open>
  The effect of single transitions, the capacity limits of slot claims, requeueing, the bound on
  slot-pull retries and output retention, with the properties of the task table.
\<close>

section \<open>One transition\<close>

definition INTERNAL_FLAGS :: "string list" where
  "INTERNAL_FLAGS = [''_provider_switch_reason'', ''_preserveProvider'', ''_softFail'']"

lemma enrichment_keys:
  "obj_has (applyProviderSwitchEnrichment now src tgt patch why) k \<Longrightarrow> obj_has patch k \<or>
   k \<in> {''original_provider'', ''model'', ''ollama_host_id'', ''provider_switched_at'', ''metadata''}"
  using enrichment_frame [of k now src tgt patch why]
  by (cases "k \<in> {''original_provider'', ''model'', ''ollama_host_id'', ''provider_switched_at'', ''metadata''}")
    simp_all

lemma prepare_keys:
  assumes "obj_has (prepare_fields now i s p d) k"
  shows "obj_has p k \<and> k \<notin> set INTERNAL_FLAGS \<or> k \<in> {''original_provider'', ''model'', ''ollama_host_id'',
    ''provider_switched_at'', ''metadata'', ''provider'', ''cancel_reason''}"
proof (cases "k \<in> {''original_provider'', ''model'', ''ollama_host_id'',
    ''provider_switched_at'', ''metadata'', ''provider'', ''cancel_reason''}")
  case False
  then have e: "obj_has (applyProviderSwitchEnrichment now src tgt patch why) k = obj_has patch k"
    for src tgt patch why
    using enrichment_frame [of k] by simp
  have r: "obj_has (requeue_provider i p' d) k = obj_has p' k" for p'
    using False by (simp add: requeue_provider_def Let_def)
  show ?thesis
    using assms False
    by (simp add: prepare_fields_def Let_def e r INTERNAL_FLAGS_def split: if_split_asm)
qed simp

definition patch_ok :: "jsobj \<Rightarrow> bool" where
  "patch_ok p \<longleftrightarrow> (\<forall>k. obj_has p k \<longrightarrow> k \<in> set ALLOWED_TASK_COLUMNS \<union> set INTERNAL_FLAGS)
     \<and> \<not> obj_has p ''id'' \<and> \<not> obj_has p ''status''"

lemma patch_ok_columns:
  assumes "patch_ok p"
  shows "list_all (\<lambda>(c, _). c \<in> set ALLOWED_TASK_COLUMNS) (prepare_fields now i s p d)"
proof -
  have "c \<in> set ALLOWED_TASK_COLUMNS" if "obj_has (prepare_fields now i s p d) c" for c
    using prepare_keys [OF that] assms by (auto simp: patch_ok_def) (auto simp: ALLOWED_TASK_COLUMNS_def)
  then show ?thesis by (force simp: list_all_iff obj_has_fst)
qed

lemma lookup_other:
  "(\<And>r. P r \<Longrightarrow> has_id i r) \<Longrightarrow> no_id us \<Longrightarrow> j \<noteq> i \<Longrightarrow>
   lookup_row j (map_where P (set_cols us) rows) = lookup_row j rows"
  by (induction rows) (auto simp: has_id_def no_id_def col_set_cols_frame)

lemma lookup_hit:
  "lookup_row i rows = Some r \<Longrightarrow> P r \<Longrightarrow> no_id us \<Longrightarrow>
   lookup_row i (map_where P (set_cols us) rows) = Some (set_cols us r)"
  by (subst lookup_map_where) (auto simp: no_id_def)

lemma writes_no_id: "\<not> obj_has p ''id'' \<Longrightarrow> no_id (writes_of now i s p prev d)"
  using writes_of_absent [of "''id''" p] by (force simp: no_id_def)

lemma transition_row:
  fixes now :: int
  assumes "\<not> dbClosed d" and "row_of d i = Some cur" and "\<not> is_terminal (col cur ''status'') \<or> reopens s"
    and "\<not> is_nullish (col cur ''status'')" and "col cur ''status'' \<noteq> JStr s \<or> \<not> is_critical s" and "patch_ok p"
  defines "d' \<equiv> snd (updateTaskStatus now i s p d)"
  shows "row_of d' i = Some (set_cols (writes_of now i s p (col cur ''status'') d) cur)"
    and "j \<noteq> i \<Longrightarrow> row_of d' j = row_of d j"
proof -
  have t: "tasks d' = map_where (\<lambda>r. has_id i r \<and> sql_eq (col r ''status'') (col cur ''status''))
      (set_cols (writes_of now i s p (col cur ''status'') d)) (tasks d)"
    using assms(1-3,5) patch_ok_columns [OF assms(6)]
    by (auto simp: d'_def updateTaskStatus_tasks refused_def)
  have n: "no_id (writes_of now i s p (col cur ''status'') d)"
    using assms(6) by (intro writes_no_id) (simp add: patch_ok_def)
  have "has_id i cur" using assms(2) lookup_row_Some by (fastforce simp: row_of_def has_id_def)
  then show "row_of d' i = Some (set_cols (writes_of now i s p (col cur ''status'') d) cur)"
    unfolding row_of_def t using assms(2,4) n by (intro lookup_hit) (auto simp: row_of_def sql_eq_def)
  show "row_of d' j = row_of d j" if "j \<noteq> i"
    unfolding row_of_def t using that n by (intro lookup_other [where i = i]) auto
qed

lemma writes_status:
  assumes "patch_ok p"
  shows "col (set_cols (writes_of now i s p prev d) r) ''status'' = JStr s"
proof -
  have "map_of (rev (writes_of now i s p prev d)) ''status'' = Some v \<Longrightarrow> v = JStr s" for v
    using writes_of_absent [of "''status''" p v] assms by (auto simp: patch_ok_def dest!: map_of_SomeD)
  moreover have "map_of (rev (writes_of now i s p prev d)) ''status'' \<noteq> None"
    by (simp add: map_of_eq_None_iff writes_of_def)
  ultimately show ?thesis by (auto simp: col_set_cols split: option.split)
qed

lemma writes_completed:
  assumes "s \<in> {''completed'', ''failed'', ''skipped''} \<or> s = ''cancelled'' \<and> prev = JStr ''running''"
  shows "col (set_cols (writes_of now i s p prev d) r) ''completed_at'' = iso now"
  using assms by (auto simp: writes_of_def completion_cols_def iso_def)

lemma writes_started:
  assumes "\<not> obj_has p ''started_at''"
  shows "col (set_cols (writes_of now i ''running'' p prev d) r) ''started_at'' = iso now"
proof -
  have "\<not> obj_has (prepare_fields now i ''running'' p d) ''started_at''"
    using assms by (intro prepare_keeps_absent) auto
  moreover have "\<not> js_truthy (obj_get p ''started_at'')"
    using assms by (simp add: obj_get_def obj_has_def)
  ultimately show ?thesis
    by (simp add: writes_of_def started_cols_def completion_cols_def col_set_cols_frame obj_has_fst iso_def)
qed

section \<open>Counting running tasks\<close>

lemma count_one_row:
  assumes "distinct (row_ids rows)" and "lookup_row i rows = Some r" and "H r"
    and "\<And>x. H x \<Longrightarrow> has_id i x" and "keeps_id f"
  shows "count_where P (map_where H f rows) + (if P r then 1 else 0) =
         count_where P rows + (if P (f r) then 1 else 0)"
  using assms(1,2)
proof (induction rows)
  case (Cons x rows)
  show ?case
  proof (cases "has_id i x")
    case True
    then have "\<not> has_id i y" if "y \<in> set rows" for y
      using Cons.prems(1) that by (auto simp: row_ids_def has_id_def image_iff)
    then have "map_where H f rows = rows" using assms(4) by (intro map_where_none) blast
    then show ?thesis using True Cons.prems assms(3) by simp
  next
    case False
    then have "\<not> H x" using assms(4) by blast
    with False Cons show ?thesis by (simp add: row_ids_def)
  qed
qed simp

definition running :: "tdb \<Rightarrow> nat" where
  "running d = count_where (\<lambda>r. col r ''status'' = JStr ''running'') (tasks d)"

lemma finish_claim_cases:
  obtains res where "finish_claim now i inst fp d = (res, d)" "\<And>t. res \<noteq> Inr (Claimed t)"
  | task t where "row_of d i = Some task" "col task ''status'' \<in> {JStr ''queued'', JStr ''pending''}"
      "\<not> js_truthy (col task ''approval_status'')
        \<or> col task ''approval_status'' \<in> {JStr ''approved'', JStr ''not_required''}"
      "finish_claim now i inst fp d = (Inr (Claimed t), d\<lparr>tasks :=
         map_where (\<lambda>r. has_id i r \<and> col r ''status'' \<in> {JStr ''queued'', JStr ''pending''})
           (set_cols (claim_updates now inst fp task)) (tasks d)\<rparr>)"
proof (cases "lookup_row i (tasks d)")
  case None
  with that(1) show ?thesis by (simp add: finish_claim_def)
next
  case (Some task)
  let ?us = "claim_updates now inst fp task"
  let ?t = "map_where (\<lambda>r. has_id i r \<and> col r ''status'' \<in> {JStr ''queued'', JStr ''pending''}) (set_cols ?us) (tasks d)"
  have id: "has_id i task" using lookup_row_Some [OF Some] by (simp add: has_id_def)
  have look: "col task ''status'' \<in> {JStr ''queued'', JStr ''pending''} \<Longrightarrow>
      lookup_row i ?t = Some (set_cols ?us task)"
    by (rule lookup_hit [OF Some]) (auto simp: id claim_updates_no_id)
  show ?thesis
  proof (cases "col task ''status'' \<in> {JStr ''queued'', JStr ''pending''} \<and>
      (\<not> js_truthy (col task ''approval_status'') \<or> col task ''approval_status'' \<in> {JStr ''approved'', JStr ''not_required''})
      \<and> List.find (\<lambda>(c, _). c \<notin> set ALLOWED_TASK_COLUMNS) ?us = None")
    case True
    with that(2) [of task] Some look show ?thesis
      by (auto simp: finish_claim_def Let_def row_of_def simp del: set_cols_Cons)
  next
    case False
    then have "snd (finish_claim now i inst fp d) = d \<and> (\<forall>t. fst (finish_claim now i inst fp d) \<noteq> Inr (Claimed t))"
      using Some by (auto simp: finish_claim_def Let_def split: option.split)
    then show ?thesis using that(1) [of "fst (finish_claim now i inst fp d)"] by (metis prod.collapse)
  qed
qed

lemma claim_running_status:
  "col (set_cols (claim_updates now inst fp task) r) ''status'' = JStr ''running''"
proof -
  have "''status'' \<notin> fst ` set (applyProviderSwitchEnrichment now src tgt [] why)" for src tgt why
    using enrichment_frame [of "''status''" now src tgt "[]" why] by (simp flip: obj_has_fst)
  then show ?thesis
    by (cases fp) (auto simp: claim_updates_def col_set_cols_frame split: if_split)
qed

lemma claim_provider:
  "col (set_cols (claim_updates now inst fp task) r) ''provider'' =
     (case fp of None \<Rightarrow> col r ''provider'' | Some p \<Rightarrow> JStr p)"
proof -
  have "''provider'' \<notin> fst ` set (applyProviderSwitchEnrichment now src tgt [] why)" for src tgt why
    using enrichment_frame [of "''provider''" now src tgt "[]" why] by (simp flip: obj_has_fst)
  then show ?thesis
    by (cases fp) (auto simp: claim_updates_def col_set_cols_frame iso_def split: if_split)
qed

text \<open>A successful claim starts one row that was waiting and not held back by an approval.\<close>

lemma finish_claim_count:
  assumes "ids_unique d" and "finish_claim now i inst fp d = (Inr (Claimed t), d')"
  shows "running d' = running d + 1" and "running_in grp d' \<le> running_in grp d + 1"
    and "ids_unique d'"
proof -
  obtain task where task: "row_of d i = Some task" "col task ''status'' \<in> {JStr ''queued'', JStr ''pending''}"
    and d': "d' = d\<lparr>tasks := map_where (\<lambda>r. has_id i r \<and> col r ''status'' \<in> {JStr ''queued'', JStr ''pending''})
           (set_cols (claim_updates now inst fp task)) (tasks d)\<rparr>"
    using assms(2) by (cases rule: finish_claim_cases [of now i inst fp d]) auto
  have id: "has_id i task" using lookup_row_Some task(1) by (fastforce simp: row_of_def has_id_def)
  have k: "keeps_id (set_cols (claim_updates now inst fp task))"
    using claim_updates_no_id by (intro keeps_id_set_cols) (simp add: no_id_def)
  note count = count_one_row [OF assms(1) [unfolded ids_unique_def] task(1) [unfolded row_of_def] _ _ k,
      of "\<lambda>r. has_id i r \<and> col r ''status'' \<in> {JStr ''queued'', JStr ''pending''}"]
  show "running d' = running d + 1"
    using count [of "\<lambda>r. col r ''status'' = JStr ''running''"] task(2) id
    by (auto simp: running_def d' claim_running_status)
  show "running_in grp d' \<le> running_in grp d + 1"
    using count [of "\<lambda>r. col r ''status'' = JStr ''running'' \<and> col r ''provider'' \<in> JStr ` set grp"] task(2) id
    by (simp add: running_in_def d' split: if_splits)
  show "ids_unique d'" using assms(1) k by (simp add: ids_unique_def d')
qed

lemma claim_granted:
  assumes "tryClaimTaskSlot now i mx inst prov cap grp cap2 grp2 d = (Inr (Claimed t), d')"
  obtains fp where "finish_claim now i inst fp d = (Inr (Claimed t), d')" "running d < mx"
    "\<And>q p. cap = Some q \<Longrightarrow> prov = JStr p \<Longrightarrow> js_trim p \<noteq> [] \<Longrightarrow>
       of_nat (running_in (if nonblank grp \<noteq> [] then nonblank grp else [js_trim p]) d) < q"
    "\<And>q. cap2 = Some q \<Longrightarrow> nonblank grp2 \<noteq> [] \<Longrightarrow> of_nat (running_in (nonblank grp2) d) < q"
proof -
  define fp where "fp = (case prov of JStr s \<Rightarrow> if js_trim s = [] then None else Some (js_trim s) | _ \<Rightarrow> None)"
  have "finish_claim now i inst fp d = (Inr (Claimed t), d')" "running d < mx"
    using assms by (auto simp: tryClaimTaskSlot_def Let_def fp_def running_def split: if_split_asm)
  moreover have "of_nat (running_in (if nonblank grp \<noteq> [] then nonblank grp else [js_trim p]) d) < q"
    if "cap = Some q" "prov = JStr p" "js_trim p \<noteq> []" for q p
    using assms that by (simp add: tryClaimTaskSlot_def Let_def not_le split: if_split_asm)
  moreover have "of_nat (running_in (nonblank grp2) d) < q" if "cap2 = Some q" "nonblank grp2 \<noteq> []" for q
    using assms that by (simp add: tryClaimTaskSlot_def Let_def not_le split: if_split_asm)
  ultimately show ?thesis using that by blast
qed

lemma claim_refused:
  "(\<And>t. fst (tryClaimTaskSlot now i mx inst prov cap grp cap2 grp2 d) \<noteq> Inr (Claimed t)) \<Longrightarrow>
   snd (tryClaimTaskSlot now i mx inst prov cap grp cap2 grp2 d) = d"
proof (cases "snd (tryClaimTaskSlot now i mx inst prov cap grp cap2 grp2 d) = d")
  case False
  assume no: "\<And>t. fst (tryClaimTaskSlot now i mx inst prov cap grp cap2 grp2 d) \<noteq> Inr (Claimed t)"
  from False obtain fp where
    fp: "tryClaimTaskSlot now i mx inst prov cap grp cap2 grp2 d = finish_claim now i inst fp d"
    by (auto simp: tryClaimTaskSlot_def Let_def split: if_split_asm)
  show ?thesis
    by (cases rule: finish_claim_cases [of now i inst fp d]) (use no fp in auto)
qed

text \<open>Claims of one server process, all with the same global limit.\<close>

type_synonym claim_args = "int \<times> string \<times> jsval \<times> jsval \<times> rat option \<times> string list \<times> rat option \<times> string list"

fun claim_step :: "nat \<Rightarrow> claim_args \<Rightarrow> tdb \<Rightarrow> tdb" where
  "claim_step mx (now, i, inst, prov, cap, grp, cap2, grp2) d =
     snd (tryClaimTaskSlot now i mx inst prov cap grp cap2 grp2 d)"

definition within_limit :: "nat \<Rightarrow> tdb \<Rightarrow> bool" where
  "within_limit mx d \<longleftrightarrow> ids_unique d \<and> running d \<le> mx"

lemma claim_step_within: "within_limit mx d \<Longrightarrow> within_limit mx (claim_step mx a d)"
proof -
  assume w: "within_limit mx d"
  obtain now i inst prov cap grp cap2 grp2 where a: "a = (now, i, inst, prov, cap, grp, cap2, grp2)"
    by (cases a) auto
  show ?thesis
  proof (cases "\<exists>t. fst (tryClaimTaskSlot now i mx inst prov cap grp cap2 grp2 d) = Inr (Claimed t)")
    case True
    then obtain t where "tryClaimTaskSlot now i mx inst prov cap grp cap2 grp2 d = (Inr (Claimed t), claim_step mx a d)"
      by (metis a claim_step.simps prod.collapse)
    then obtain fp where "finish_claim now i inst fp d = (Inr (Claimed t), claim_step mx a d)" "running d < mx"
      by (rule claim_granted)
    with finish_claim_count [OF _ this(1)] w show ?thesis by (auto simp: within_limit_def)
  next
    case False
    with w claim_refused show ?thesis by (simp add: a)
  qed
qed

interpretation claims: invariant_machine "claim_step mx" "within_limit mx" for mx
  by unfold_locales (rule claim_step_within)

section \<open>Requeueing after an attempted start\<close>

lemma getTask_full: "length i = 36 \<Longrightarrow> \<not> dbClosed d \<Longrightarrow> getTask i d = Inr (map_option parse_task_row (row_of d i))"
  by (auto simp: getTask_def row_of_def)

definition locked :: "db_row \<Rightarrow> bool" where
  "locked r \<longleftrightarrow> hasProviderSelectionLock (col r ''metadata'')"

lemma normalizeMetadata_lock:
  "hasProviderSelectionLock (JObj (normalizeMetadata v)) = hasProviderSelectionLock v"
  by (cases v) (simp_all add: hasProviderSelectionLock_def)

lemma task_meta_parsed [simp]: "task_meta (Some (parse_task_row r)) = normalizeMetadata (col r ''metadata'')"
  by (simp add: task_meta_def parse_task_row_def sql_value_def split: jsval.split)

lemma col_parsed_provider [simp]: "col (parse_task_row r) ''provider'' = col r ''provider''"
  by (simp add: parse_task_row_def)

definition requeue_patch :: "db_row \<Rightarrow> string \<Rightarrow> jsobj" where
  "requeue_patch r q = obj_set ''metadata'' (JObj (obj_set ''eligible_providers'' (JArr [JStr q])
      (obj_set ''intended_provider'' (JStr q) (normalizeMetadata (col r ''metadata'')))))
    (obj_set ''provider'' (if locked r \<and> js_truthy (col r ''provider'') then col r ''provider'' else JNull)
      START_ARTIFACTS)"

lemma requeue_unfold:
  assumes "length i = 36" and "\<not> dbClosed d" and "row_of d i = Some r" and "q \<noteq> []"
  shows "requeueTaskAfterAttemptedStart now i [(''provider'', JStr q)] d =
     updateTaskStatus now i ''queued'' (requeue_patch r q) d"
  using assms
  by (simp add: requeueTaskAfterAttemptedStart_def Let_def getTask_full requeue_patch_def locked_def
      normalizeMetadata_lock obj_get_def obj_delete_def)

lemma col_set_cols_distinct:
  assumes "distinct (map fst p)"
  shows "col (set_cols p r) c = (if obj_has p c then sql_value (obj_get p c) else col r c)"
proof -
  have "map_of (rev p) = map_of p" using assms by (intro map_of_inject_set [THEN iffD2]) (auto simp: rev_map [symmetric])
  then show ?thesis by (simp add: col_set_cols obj_has_def obj_get_def split: option.split)
qed

lemma obj_get_absent: "\<not> obj_has p k \<Longrightarrow> obj_get p k = JUndef"
  by (simp add: obj_has_def obj_get_def)

lemma requeue_patch_keys:
  "distinct (map fst (requeue_patch r q))" "patch_ok (requeue_patch r q)"
proof -
  show "distinct (map fst (requeue_patch r q))"
    unfolding requeue_patch_def by (intro distinct_obj_set) (simp add: START_ARTIFACTS_def)
  have "obj_has (requeue_patch r q) k \<longleftrightarrow> k = ''metadata'' \<or> k = ''provider'' \<or> k \<in> fst ` set START_ARTIFACTS" for k
    by (simp add: requeue_patch_def obj_has_fst [of START_ARTIFACTS])
  then have keys: "k \<in> set (''metadata'' # ''provider'' # map fst START_ARTIFACTS)" if "obj_has (requeue_patch r q) k" for k
    using that by simp
  have "list_all (\<lambda>k. k \<in> set ALLOWED_TASK_COLUMNS \<and> k \<noteq> ''id'' \<and> k \<noteq> ''status'')
      (''metadata'' # ''provider'' # map fst START_ARTIFACTS)"
    by code_simp
  note all = this [unfolded list_all_iff, rule_format]
  show "patch_ok (requeue_patch r q)"
    unfolding patch_ok_def using all [OF keys] by blast
qed

lemma requeue_patch_get:
  "obj_get (requeue_patch r q) c =
     (if c = ''metadata'' then JObj (obj_set ''eligible_providers'' (JArr [JStr q])
        (obj_set ''intended_provider'' (JStr q) (normalizeMetadata (col r ''metadata''))))
      else if c = ''provider'' then (if locked r \<and> js_truthy (col r ''provider'') then col r ''provider'' else JNull)
      else obj_get START_ARTIFACTS c)"
  "obj_has (requeue_patch r q) c \<longleftrightarrow> c \<in> {''metadata'', ''provider''} \<or> obj_has START_ARTIFACTS c"
  by (auto simp: requeue_patch_def)

lemma requeue_prepared:
  fixes now :: int and q :: string
  assumes "row_of d i = Some r" and "normalizeProviderValue (col r ''provider'') = col r ''provider''"
  defines "P \<equiv> prepare_fields now i ''queued'' (requeue_patch r q) d"
  shows "distinct (map fst P)" "obj_has P c = obj_has (requeue_patch r q) c"
    "obj_get P c = obj_get (requeue_patch r q) c"
proof -
  let ?p = "requeue_patch r q"
  have flags: "obj_get ?p k = JUndef" "\<not> obj_has ?p k" if "k \<in> set INTERNAL_FLAGS \<union> {''cancel_reason''}" for k
  proof -
    have "list_all (\<lambda>k. \<not> obj_has START_ARTIFACTS k \<and> k \<noteq> ''metadata'' \<and> k \<noteq> ''provider'')
        (INTERNAL_FLAGS @ [''cancel_reason''])"
      by code_simp
    with that have "\<not> obj_has START_ARTIFACTS k \<and> k \<noteq> ''metadata'' \<and> k \<noteq> ''provider''"
      unfolding list_all_iff by (simp only: set_append set_simps Un_insert_right Un_empty_right) blast
    then show "\<not> obj_has ?p k" by (simp add: requeue_patch_get(2))
    then show "obj_get ?p k = JUndef" by (rule obj_get_absent)
  qed
  define f1 where "f1 = obj_delete ''cancel_reason'' (obj_delete ''_provider_switch_reason'' ?p)"
  define f3 where "f3 = obj_set ''provider'' (normalizeProviderValue (obj_get f1 ''provider'')) f1"
  have f1: "obj_has f1 c = obj_has ?p c" "obj_get f1 c = obj_get ?p c" for c
    using flags by (auto simp: f1_def INTERNAL_FLAGS_def)
  have f3: "obj_has f3 c = obj_has ?p c" "obj_get f3 c = obj_get ?p c" for c
    using assms(2) by (auto simp: f3_def f1 requeue_patch_get)
  have keep: "requeue_provider i f3 d = f3"
    using assms(1) by (simp add: requeue_provider_def Let_def f3 requeue_patch_get locked_def row_of_def js_or_def)
      (auto simp: hasProviderSelectionLock_def)
  define f5 where "f5 = obj_delete ''_softFail'' (obj_delete ''_preserveProvider'' f3)"
  have f5: "obj_has f5 c = obj_has ?p c" "obj_get f5 c = obj_get ?p c" for c
    using flags by (auto simp: f5_def f3 INTERNAL_FLAGS_def)
  have h: "obj_has f1 ''provider'' = True" "obj_has f5 ''provider'' = True" "obj_get ?p ''_provider_switch_reason'' = JUndef"
    "(''queued'' = ''cancelled'') = False" "js_truthy (obj_get f3 ''_preserveProvider'') = False"
    using flags by (simp_all add: f1 f3 f5 requeue_patch_get(2) INTERNAL_FLAGS_def)
  have "P = applyProviderSwitchEnrichment now (lookup_row i (tasks d)) (obj_get f5 ''provider'') f5 None"
    unfolding P_def prepare_fields_def Let_def f1_def [symmetric] h if_True if_False f3_def [symmetric]
      simp_thms keep f5_def [symmetric] by simp
  also have "\<dots> = applyProviderSwitchEnrichment now (Some r) (obj_get f5 ''provider'') f5 None"
    using assms(1) by (simp add: row_of_def)
  also have "\<dots> = f5"
    using assms(2) by (auto simp: applyProviderSwitchEnrichment_def f5 requeue_patch_get split: jsval.split)
  finally have P: "P = f5" .
  show "distinct (map fst P)"
    unfolding P f5_def f3_def f1_def
    by (intro distinct_obj_set distinct_obj_delete requeue_patch_keys)
  show "obj_has P c = obj_has ?p c" "obj_get P c = obj_get ?p c" by (simp_all add: P f5)
qed

section \<open>The budget of slot-pull retries\<close>

definition column_meta :: "db_row \<Rightarrow> jsobj" where
  "column_meta r = normalizeMetadata (col r ''metadata'')"

definition eligible :: "jsobj \<Rightarrow> jsval list" where
  "eligible m = arr_of (obj_get m ''eligible_providers'')"

definition failures :: "jsobj \<Rightarrow> string \<Rightarrow> rat" where
  "failures m p = num_of (obj_get (retry_counts m) p)"

text \<open>An empty list of eligible providers means any provider.\<close>

definition may_take :: "jsobj \<Rightarrow> string \<Rightarrow> bool" where
  "may_take m p \<longleftrightarrow> eligible m = [] \<or> JStr p \<in> set (eligible m)"

definition remaining :: "(string \<Rightarrow> nat) \<Rightarrow> jsobj \<Rightarrow> string \<Rightarrow> nat" where
  "remaining mr m p = (if may_take m p then max 1 (nat \<lceil>of_nat (mr p) - failures m p\<rceil>) else 0)"

definition budget :: "(string \<Rightarrow> nat) \<Rightarrow> string set \<Rightarrow> jsobj \<Rightarrow> nat" where
  "budget mr P m = (\<Sum>p\<in>P. remaining mr m p)"

text \<open>One failure of a task: what else happens before it, and the arguments of the call.\<close>

record slot_fault =
  sf_between :: "tdb \<Rightarrow> tdb"
  sf_now :: int
  sf_provider :: string
  sf_defer :: bool
  sf_error :: jsval
  sf_output :: jsval

definition slot_failure :: "(db_row \<Rightarrow> jsval \<Rightarrow> jsval \<Rightarrow> jsval) \<Rightarrow> (jsval \<Rightarrow> jsval \<Rightarrow> jsval) \<Rightarrow> (string \<Rightarrow> nat)
    \<Rightarrow> string \<Rightarrow> slot_fault \<Rightarrow> tdb \<Rightarrow> requeue_result \<times> tdb" where
  "slot_failure rs pp mr i f d = requeueAfterSlotFailure (sf_now f) rs pp mr column_meta i (sf_provider f) (sf_defer f)
     (sf_error f) (sf_output f) (sf_between f d)"

definition meta_of :: "tdb \<Rightarrow> string \<Rightarrow> jsobj" where
  "meta_of d i = (case row_of d i of None \<Rightarrow> [] | Some r \<Rightarrow> column_meta r)"

definition failed_once :: "string \<Rightarrow> jsobj \<Rightarrow> jsobj" where
  "failed_once p m = obj_set ''_provider_retry_counts''
     (JObj (obj_set p (JNum (failures m p + 1)) (retry_counts m))) m"

lemma failed_once_simps [simp]:
  "eligible (failed_once p m) = eligible m"
  "failures (failed_once p m) q = (if q = p then failures m p + 1 else failures m q)"
  by (simp_all add: eligible_def failed_once_def failures_def retry_counts_def num_of_def)

lemma meta_after_write:
  "row_of d i = Some r \<Longrightarrow> no_id us \<Longrightarrow> meta_of (write_cols i us d) i = column_meta (set_cols us r)"
  by (simp add: meta_of_def row_of_def lookup_update_row no_id_def keeps_id_set_cols)

lemma requeued_meta:
  assumes "requeued (fst (slot_failure rs pp mr i f d0))"
  defines "p \<equiv> sf_provider f" and "d \<equiv> sf_between f d0"
  defines "m \<equiv> meta_of d i" and "m' \<equiv> meta_of (snd (slot_failure rs pp mr i f d0)) i"
  shows "of_nat (mr p) \<le> failures m p + 1 \<Longrightarrow> filter (\<lambda>v. v \<noteq> JStr p) (eligible m) \<noteq> []"
    and "eligible m' = (if of_nat (mr p) \<le> failures m p + 1 then filter (\<lambda>v. v \<noteq> JStr p) (eligible m) else eligible m)"
    and "failures m' q = failures (failed_once p m) q"
proof -
  note unfold = slot_failure_def requeueAfterSlotFailure_def d_def [symmetric] p_def [symmetric] Let_def
  obtain r where r: "lookup_row i (tasks d) = Some r"
    using assms(1) by (cases "lookup_row i (tasks d)") (simp_all add: unfold)
  then have row: "row_of d i = Some r" and m: "m = column_meta r" by (simp_all add: row_of_def m_def meta_of_def)
  have left: "filter (\<lambda>v. v \<noteq> JStr p) (eligible m) \<noteq> []" if "of_nat (mr p) \<le> failures m p + 1"
    using assms(1) r that
    by (auto simp: unfold m eligible_def failures_def simp del: filter_empty_conv split: if_split_asm)
  have e: "eligible m' = (if of_nat (mr p) \<le> failures m p + 1 then filter (\<lambda>v. v \<noteq> JStr p) (eligible m) else eligible m)
      \<and> failures m' q = failures (failed_once p m) q"
  proof (cases "of_nat (mr p) \<le> failures m p + 1")
    case True
    with left r row show ?thesis
      by (simp add: m'_def unfold m eligible_def failures_def
          meta_after_write no_id_def column_meta_def failed_once_def retry_counts_def num_of_def
          arr_of_def [of "JArr _"] del: filter_empty_conv)
  next
    case False
    with r row show ?thesis
      by (simp add: m'_def unfold m eligible_def failures_def
          meta_after_write no_id_def column_meta_def failed_once_def retry_counts_def num_of_def)
  qed
  then show "eligible m' = (if of_nat (mr p) \<le> failures m p + 1 then filter (\<lambda>v. v \<noteq> JStr p) (eligible m) else eligible m)"
    "failures m' q = failures (failed_once p m) q" by blast+
  show "of_nat (mr p) \<le> failures m p + 1 \<Longrightarrow> filter (\<lambda>v. v \<noteq> JStr p) (eligible m) \<noteq> []" by (rule left)
qed

lemma nat_ceiling_step: "(x :: rat) > c + 1 \<Longrightarrow> max 1 (nat \<lceil>x - (c + 1)\<rceil>) < max 1 (nat \<lceil>x - c\<rceil>)"
proof -
  assume "c + 1 < x"
  then have "1 < \<lceil>x - c\<rceil>" by (simp add: less_ceiling_iff)
  moreover have "\<lceil>x - (c + 1)\<rceil> = \<lceil>x - c\<rceil> - 1" using ceiling_diff_one [of "x - c"] by (simp add: algebra_simps)
  ultimately show ?thesis by simp
qed

text \<open>The bookkeeping of slot-pull in the metadata is the same.\<close>

definition same_books :: "jsobj \<Rightarrow> jsobj \<Rightarrow> bool" where
  "same_books m m' \<longleftrightarrow> eligible m' = eligible m \<and> retry_counts m' = retry_counts m"

lemma same_books_budget: "same_books m m' \<Longrightarrow> budget mr P m' = budget mr P m \<and> may_take m' p = may_take m p"
proof -
  assume "same_books m m'"
  then have "failures m' = failures m" "may_take m' = may_take m"
    by (simp_all add: same_books_def failures_def may_take_def fun_eq_iff)
  then have "remaining mr m' = remaining mr m" by (intro ext) (simp only: remaining_def)
  then show ?thesis using \<open>may_take m' = may_take m\<close> by (simp add: budget_def)
qed

lemma budget_decreases:
  assumes "requeued (fst (slot_failure rs pp mr i f d))" and "may_take (meta_of (sf_between f d) i) (sf_provider f)"
    and "finite P" and "sf_provider f \<in> P"
  shows "budget mr P (meta_of (snd (slot_failure rs pp mr i f d)) i) < budget mr P (meta_of (sf_between f d) i)"
proof -
  let ?p = "sf_provider f"
  let ?m = "meta_of (sf_between f d) i" and ?m' = "meta_of (snd (slot_failure rs pp mr i f d)) i"
  note left = requeued_meta(1) [OF assms(1)] and el = requeued_meta(2) [OF assms(1)] and fl = requeued_meta(3) [OF assms(1)]
  have take: "may_take ?m' q \<Longrightarrow> may_take ?m q" for q
    using left by (auto simp: may_take_def el simp del: filter_empty_conv split: if_splits)
  have le: "remaining mr ?m' q \<le> remaining mr ?m q" for q
  proof -
    have "nat \<lceil>of_nat (mr q) - failures ?m' q\<rceil> \<le> nat \<lceil>of_nat (mr q) - failures ?m q\<rceil>"
      by (intro nat_mono ceiling_mono) (simp add: fl)
    with take [of q] show ?thesis by (auto simp: remaining_def max_def)
  qed
  have "remaining mr ?m' ?p < remaining mr ?m ?p"
  proof (cases "of_nat (mr ?p) \<le> failures ?m ?p + 1")
    case True
    then have "\<not> may_take ?m' ?p" using left by (simp add: may_take_def el del: filter_empty_conv)
    then show ?thesis using assms(2) by (simp add: remaining_def)
  next
    case False
    then show ?thesis
      using nat_ceiling_step [of "failures ?m ?p" "of_nat (mr ?p)"] assms(2) by (simp add: remaining_def fl)
  qed
  then show ?thesis
    unfolding budget_def using assms(3,4) le by (intro sum_strict_mono_ex1) auto
qed

text \<open>A run of failures in each of which the failing provider may take the task and the task is requeued.\<close>

fun requeue_run :: "(db_row \<Rightarrow> jsval \<Rightarrow> jsval \<Rightarrow> jsval) \<Rightarrow> (jsval \<Rightarrow> jsval \<Rightarrow> jsval) \<Rightarrow> (string \<Rightarrow> nat)
    \<Rightarrow> string \<Rightarrow> slot_fault list \<Rightarrow> tdb \<Rightarrow> bool" where
  "requeue_run rs pp mr i [] d = True"
| "requeue_run rs pp mr i (f # fs) d =
     (same_books (meta_of d i) (meta_of (sf_between f d) i) \<and> may_take (meta_of d i) (sf_provider f) \<and>
      requeued (fst (slot_failure rs pp mr i f d)) \<and> requeue_run rs pp mr i fs (snd (slot_failure rs pp mr i f d)))"

section \<open>Retention\<close>

definition is_terminal_row :: "db_row \<Rightarrow> bool" where
  "is_terminal_row r = is_terminal (col r ''status'')"

lemma select_overflow_sub: "set (select_overflow ov sel rs) \<subseteq> set rs"
  by (induction ov sel rs rule: select_overflow.induct) auto

lemma select_overflow_distinct: "distinct rs \<Longrightarrow> distinct (select_overflow ov sel rs)"
proof (induction ov sel rs rule: select_overflow.induct)
  case (2 ov sel r rs)
  then show ?case using select_overflow_sub [of ov "sel + output_bytes r" rs] by auto
qed simp

lemma select_overflow_enough:
  "ov \<le> sel + sum_list (map output_bytes (select_overflow ov sel rs)) \<or>
   (\<forall>r \<in> set rs. output_bytes r = 0 \<or> r \<in> set (select_overflow ov sel rs))"
proof (induction ov sel rs rule: select_overflow.induct)
  case (2 ov sel r rs)
  consider "output_bytes r = 0" | "output_bytes r \<noteq> 0" "ov \<le> sel + output_bytes r" |
    "output_bytes r \<noteq> 0" "\<not> ov \<le> sel + output_bytes r" by blast
  then show ?case
  proof cases
    case 3
    then show ?thesis using "2.IH"(2) by (simp add: add.assoc) blast
  qed (use 2 in auto)
qed simp

lemma no_output_bytes: "\<not> has_output r \<Longrightarrow> output_bytes r = 0"
  by (simp add: has_output_def OUTPUT_COLUMNS_def output_bytes_def str_of_def sql_length_def)

lemma clear_output_simps [simp]:
  "output_bytes (clear_output r) = 0" "is_terminal_row (clear_output r) = is_terminal_row r"
  by (simp_all add: clear_output_def output_bytes_def is_terminal_row_def str_of_def sql_length_def)

lemma terminal_bytes:
  "\<not> dbClosed d \<Longrightarrow> getTerminalTaskOutputBytes d = sum_list (map output_bytes (filter is_terminal_row (tasks d)))"
  by (simp add: getTerminalTaskOutputBytes_def is_terminal_row_def [abs_def])

lemma bytes_after_clear:
  assumes "distinct (row_ids rows)" and "S \<subseteq> set rows" and "\<And>r. r \<in> S \<Longrightarrow> is_terminal_row r"
  shows "sum_list (map output_bytes (filter is_terminal_row
      (map_where (\<lambda>r. col r ''id'' \<in> (\<lambda>r. col r ''id'') ` S) clear_output rows))) + sum output_bytes S =
    sum_list (map output_bytes (filter is_terminal_row rows))"
  using assms
proof (induction rows arbitrary: S)
  case (Cons x rows)
  let ?S = "S - {x}"
  have x: "x \<notin> set rows" and d: "distinct (row_ids rows)"
    using Cons.prems(1) by (auto simp: row_ids_def)
  have ids: "col r ''id'' \<in> (\<lambda>r. col r ''id'') ` S \<longleftrightarrow> col r ''id'' \<in> (\<lambda>r. col r ''id'') ` ?S"
    if "r \<in> set rows" for r
  proof -
    have "col x ''id'' \<notin> (\<lambda>r. col r ''id'') ` set rows" using Cons.prems(1) by (simp add: row_ids_def)
    with that have "col r ''id'' \<noteq> col x ''id''" by (metis (no_types, lifting) image_eqI)
    then show ?thesis by blast
  qed
  have tail: "map_where (\<lambda>r. col r ''id'' \<in> (\<lambda>r. col r ''id'') ` S) clear_output rows =
      map_where (\<lambda>r. col r ''id'' \<in> (\<lambda>r. col r ''id'') ` ?S) clear_output rows"
    using ids by (auto simp: map_where_def)
  have fin: "finite S" using Cons.prems(2) finite_subset by blast
  have hd: "col x ''id'' \<in> (\<lambda>r. col r ''id'') ` S \<longleftrightarrow> x \<in> S"
    using Cons.prems(1,2) by (auto simp: row_ids_def image_iff)
  have IH: "sum_list (map output_bytes (filter is_terminal_row
      (map_where (\<lambda>r. col r ''id'' \<in> (\<lambda>r. col r ''id'') ` ?S) clear_output rows))) + sum output_bytes ?S =
    sum_list (map output_bytes (filter is_terminal_row rows))"
    using Cons.prems(2,3) by (intro Cons.IH [OF d]) auto
  show ?case
    using IH Cons.prems(3) hd fin unfolding map_where_Cons tail
    by (cases "x \<in> S") (auto simp: sum.remove [of S x])
qed simp

lemma candidates_terminal:
  assumes "r \<in> set (retention_candidates n d)"
  shows "r \<in> set (tasks d)" "is_terminal_row r"
  using in_set_takeD [OF assms [unfolded retention_candidates_def]] by (auto simp: is_terminal_row_def)

lemma candidates_all:
  assumes "length (filter (\<lambda>r. is_terminal_row r \<and> has_output r) (tasks d)) \<le> n"
    and "r \<in> set (tasks d)" "is_terminal_row r" "has_output r"
  shows "r \<in> set (retention_candidates n d)"
  using assms by (simp add: retention_candidates_def is_terminal_row_def)

lemma distinct_rows: "distinct (row_ids rows) \<Longrightarrow> distinct rows"
  by (simp add: row_ids_def distinct_map)

lemma retention_result:
  assumes "ids_unique d" and "\<not> dbClosed d" and "mx = normalizeNonNegativeInt m DEFAULT_TASK_OUTPUT_MAX_BYTES"
    and "0 < mx" and "length (filter (\<lambda>r. is_terminal_row r \<and> has_output r) (tasks d)) \<le> max 1 (normalizeNonNegativeInt b 10000)"
  shows "getTerminalTaskOutputBytes (snd (enforceTaskOutputSizeLimit m b d)) \<le> mx"
proof (cases "getTerminalTaskOutputBytes d \<le> mx")
  case True
  then show ?thesis by (simp add: enforceTaskOutputSizeLimit_def Let_def assms(3))
next
  case False
  let ?B = "getTerminalTaskOutputBytes d" and ?n = "max 1 (normalizeNonNegativeInt b 10000)"
  let ?sel = "select_overflow (?B - mx) 0 (retention_candidates (normalizeNonNegativeInt b 10000) d)"
  let ?rows = "map_where (\<lambda>r. col r ''id'' \<in> (\<lambda>r. col r ''id'') ` set ?sel) clear_output (tasks d)"
  have sub: "set ?sel \<subseteq> set (tasks d)" "\<And>r. r \<in> set ?sel \<Longrightarrow> is_terminal_row r"
    using select_overflow_sub candidates_terminal by blast+
  have dist: "distinct ?sel"
    using distinct_rows assms(1)
    by (intro select_overflow_distinct) (simp add: retention_candidates_def ids_unique_def distinct_rows)
  have B: "?B = sum_list (map output_bytes (filter is_terminal_row (tasks d)))"
    by (rule terminal_bytes [OF assms(2)])
  have sum: "sum_list (map output_bytes (filter is_terminal_row ?rows)) + sum_list (map output_bytes ?sel) = ?B"
    using bytes_after_clear [OF _ sub] assms(1) dist
    by (simp add: B ids_unique_def sum_list_distinct_conv_sum_set)
  have "sum_list (map output_bytes (filter is_terminal_row ?rows)) \<le> mx"
    using select_overflow_enough [of "?B - mx" 0 "retention_candidates (normalizeNonNegativeInt b 10000) d"]
  proof
    assume "?B - mx \<le> 0 + sum_list (map output_bytes ?sel)"
    with sum show ?thesis by linarith
  next
    assume all: "\<forall>r \<in> set (retention_candidates (normalizeNonNegativeInt b 10000) d). output_bytes r = 0 \<or> r \<in> set ?sel"
    have "output_bytes r = 0" if row: "r \<in> set ?rows" and rt: "is_terminal_row r" for r
    proof -
      obtain x where x: "x \<in> set (tasks d)"
        "r = (if col x ''id'' \<in> (\<lambda>r. col r ''id'') ` set ?sel then clear_output x else x)"
        using row unfolding set_map_where by blast
      show ?thesis
      proof (cases "has_output x \<and> is_terminal_row x")
        case True
        then have "x \<in> set (retention_candidates (normalizeNonNegativeInt b 10000) d)"
          using candidates_all [of d ?n x] assms(5) x(1) by (simp add: retention_candidates_def)
        with all x show ?thesis by auto
      next
        case False
        then show ?thesis using x rt no_output_bytes [of x] by (auto split: if_splits)
      qed
    qed
    then have "sum_list (map output_bytes (filter is_terminal_row ?rows)) = 0" by simp
    then show ?thesis by linarith
  qed
  moreover have "?sel = [] \<Longrightarrow> ?rows = tasks d" by (simp add: map_where_none)
  ultimately show ?thesis
    using False assms(2,4) sum B
    by (auto simp: enforceTaskOutputSizeLimit_def Let_def assms(3) [symmetric] terminal_bytes)
qed

lemma retention_spares:
  assumes "ids_unique d" and "r \<in> set (tasks d)" and "\<not> is_terminal_row r"
  shows "r \<in> set (tasks (snd (enforceTaskOutputSizeLimit m b d)))"
proof -
  have "r \<in> set (map_where (\<lambda>r. col r ''id'' \<in> (\<lambda>r. col r ''id'') ` set (select_overflow ov 0 (retention_candidates n d))) clear_output (tasks d))"
    for ov n
  proof -
    have "col r ''id'' \<noteq> col x ''id''" if "x \<in> set (select_overflow ov 0 (retention_candidates n d))" for x
    proof -
      have "x \<in> set (tasks d)" "is_terminal_row x"
        using that select_overflow_sub candidates_terminal by blast+
      with assms show ?thesis unfolding ids_unique_def row_ids_def distinct_map inj_on_def by blast
    qed
    with assms(2) show ?thesis unfolding set_map_where by (auto simp: image_iff)
  qed
  with assms(2) show ?thesis by (simp add: enforceTaskOutputSizeLimit_def Let_def)
qed

section \<open>Properties\<close>

definition uuid :: string where
  "uuid = ''0123456789abcdef0123456789abcdef0123''"

definition sample_db :: tdb where
  "sample_db = \<lparr>tasks =
     [[(''id'', JStr uuid), (''status'', JStr ''queued''), (''provider'', JStr ''ollama''), (''output'', JStr ''ab'')],
      [(''id'', JStr ''t2''), (''status'', JStr ''completed''), (''output'', JStr ''abcdef''), (''created_at'', JNum 1)]],
     deps = [], next_dep_id = 1, workflows = [], project_config = [], factory_projects = [], task_events = [], dbClosed = False, terminalGuards = [], terminalPending = []\<rparr>"

text \<open>No sequence of the operations of the task table (creations, updates, transitions, claims,
  requeues, deletions, retention) ever gives two rows the same id, as long as no patch assigns the
  columns \<open>id\<close> or \<open>status\<close> directly.\<close>

theorem task_ids_unique:
  assumes "ids_unique d" and "\<forall>ev \<in> set evs. patch_safe (snd ev)"
  shows "ids_unique (fold task_step evs d)"
  using unique_ids.latched_run [OF TrueI assms(1)] assms(2) by blast

theorem task_ids_unique_witness:
  "ids_unique (fold task_step [(5, T_status uuid ''running'' []), (6, T_delete ''t2'')] sample_db)"
  by (rule task_ids_unique) (code_simp, simp)

text \<open>C8: A finished task stays finished: whatever operations follow, concurrent claims, late
  completions and cancellations included, its terminal status does not change unless one of them
  reopens or deletes that task.\<close>

theorem terminal_status_final:
  assumes "s \<in> set TERMINAL_TASK_STATUS_VALUES" and "status_of d i = Some (JStr s)"
    and "\<forall>ev \<in> set evs. leaves i ev"
  shows "status_of (fold task_step evs d) i = Some (JStr s)"
proof -
  have "finished i s d" using assms(1,2) by (simp add: finished_def)
  from terminal_tasks.latched_run [OF TrueI this] assms(3) show ?thesis by (simp add: finished_def)
qed

theorem terminal_status_final_witness:
  "status_of (fold task_step [(5, T_status ''t2'' ''cancelled'' []), (6, T_slot_failure (\<lambda>_ _ v. v) (\<lambda>v _. v) (\<lambda>_. 2)
     column_meta uuid ''ollama'' False JNull JNull)] sample_db) ''t2'' = Some (JStr ''completed'')"
  by (rule terminal_status_final) code_simp+

text \<open>An accepted transition of an open task writes exactly that task's row: it gets the new
  status, a completion time when it ends, a start time when it starts, and no other row changes.\<close>

theorem transition_effect:
  assumes "\<not> dbClosed d" and "row_of d i = Some cur" and "\<not> is_terminal (col cur ''status'')"
    and "\<not> is_nullish (col cur ''status'')" and "col cur ''status'' \<noteq> JStr s" and "patch_ok p"
  shows "\<exists>r. row_of (snd (updateTaskStatus now i s p d)) i = Some r \<and> col r ''status'' = JStr s
    \<and> (s \<in> {''completed'', ''failed'', ''skipped''} \<longrightarrow> col r ''completed_at'' = iso now)
    \<and> (s = ''running'' \<and> \<not> obj_has p ''started_at'' \<longrightarrow> col r ''started_at'' = iso now)
    \<and> (\<forall>j. j \<noteq> i \<longrightarrow> row_of (snd (updateTaskStatus now i s p d)) j = row_of d j)"
  using transition_row [OF assms(1,2) disjI1 [OF assms(3)] assms(4) disjI1 [OF assms(5)] assms(6), where now = now]
    writes_status [OF assms(6)] writes_completed writes_started [of p]
  by auto

theorem transition_effect_witness:
  "\<exists>r. row_of (snd (updateTaskStatus 9 uuid ''running'' [] sample_db)) uuid = Some r \<and> col r ''status'' = JStr ''running''
    \<and> col r ''started_at'' = iso 9"
proof -
  have h: "\<not> dbClosed sample_db" "row_of sample_db uuid = Some (hd (tasks sample_db))"
    "\<not> is_terminal (col (hd (tasks sample_db)) ''status'')" "\<not> is_nullish (col (hd (tasks sample_db)) ''status'')"
    "col (hd (tasks sample_db)) ''status'' \<noteq> JStr ''running''"
    by code_simp+
  have "patch_ok []" by (simp add: patch_ok_def)
  from transition_effect [OF h this, of 9] show ?thesis by auto
qed

text \<open>C9: Slot claims respect every limit: a granted claim takes a row that was queued or pending
  and not held back by an approval, raises the number of running tasks by exactly one and leaves
  it within the global limit, and leaves the provider group and the category within their limits.\<close>

theorem claim_within_limits:
  assumes "ids_unique d" and "tryClaimTaskSlot now i mx inst (JStr p) (Some q) grp (Some q2) grp2 d = (Inr (Claimed t), d')"
    and "js_trim p \<noteq> []"
  shows "(\<exists>r. row_of d i = Some r \<and> col r ''status'' \<in> {JStr ''queued'', JStr ''pending''}) \<and>
    running d' = running d + 1 \<and> running d' \<le> mx \<and>
    of_nat (running_in (if nonblank grp \<noteq> [] then nonblank grp else [js_trim p]) d') < q + 1 \<and>
    (nonblank grp2 \<noteq> [] \<longrightarrow> of_nat (running_in (nonblank grp2) d') < q2 + 1)"
proof -
  obtain fp where fp: "finish_claim now i inst fp d = (Inr (Claimed t), d')" "running d < mx"
    and l: "of_nat (running_in (if nonblank grp \<noteq> [] then nonblank grp else [js_trim p]) d) < q"
      "nonblank grp2 \<noteq> [] \<Longrightarrow> of_nat (running_in (nonblank grp2) d) < q2"
    by (rule claim_granted [OF assms(2)]) (use assms(3) in blast)
  note c = finish_claim_count [OF assms(1) fp(1)]
  have up: "of_nat (running_in g d') < x + 1" if "of_nat (running_in g d) < x" for g and x :: rat
  proof -
    have "(of_nat (running_in g d') :: rat) \<le> of_nat (running_in g d + 1)" using c(2) by (simp only: of_nat_le_iff)
    with that show ?thesis by simp
  qed
  have "\<exists>r. row_of d i = Some r \<and> col r ''status'' \<in> {JStr ''queued'', JStr ''pending''}"
    by (cases rule: finish_claim_cases [of now i inst fp d]) (use fp(1) in auto)
  then show ?thesis using c(1) fp(2) up [OF l(1)] up [OF l(2)] by auto
qed

theorem claim_within_limits_witness:
  "running (snd (tryClaimTaskSlot 7 uuid 1 JNull (JStr ''codex'') (Some 1) [] (Some 3) [] sample_db)) \<le> 1"
proof -
  have h: "ids_unique sample_db" "js_trim ''codex'' \<noteq> []" by code_simp+
  obtain t d' where e: "tryClaimTaskSlot 7 uuid 1 JNull (JStr ''codex'') (Some 1) [] (Some 3) [] sample_db = (Inr (Claimed t), d')"
  proof -
    have "case fst (tryClaimTaskSlot 7 uuid 1 JNull (JStr ''codex'') (Some 1) [] (Some 3) [] sample_db) of
        Inr (Claimed t) \<Rightarrow> True | _ \<Rightarrow> False"
      by code_simp
    then show thesis using that by (auto simp: prod_eq_iff split: sum.splits claim_result.splits)
  qed
  from claim_within_limits [OF h(1) e h(2)] show ?thesis unfolding e snd_conv by blast
qed

text \<open>C10: However many claims are made against one global limit, with any arguments and in any
  order, the number of running tasks never exceeds it.\<close>

theorem claims_never_exceed:
  assumes "ids_unique d" and "running d \<le> mx"
  shows "running (fold (claim_step mx) claims d) \<le> mx"
  using claims.inv_run [of mx d claims] assms by (simp add: within_limit_def)

theorem claims_never_exceed_witness:
  "running (fold (claim_step 1) [(7, uuid, JNull, JNull, None, [], None, []), (8, ''t2'', JNull, JNull, None, [], None, [])]
     sample_db) \<le> 1"
  by (rule claims_never_exceed) code_simp+

text \<open>Requeueing after an attempted start leaves no trace of the attempt: the row is queued, all
  execution artifacts are reset, the failed choice of provider becomes a routing hint in the
  metadata, and the provider column is cleared unless the provider is locked.\<close>

theorem requeue_clears_attempt:
  assumes "length i = 36" and "\<not> dbClosed d" and "row_of d i = Some r" and "q \<noteq> []"
    and "normalizeProviderValue (col r ''provider'') = col r ''provider''" and "\<not> is_nullish (col r ''status'')"
  shows "\<exists>r'. row_of (snd (requeueTaskAfterAttemptedStart now i [(''provider'', JStr q)] d)) i = Some r' \<and>
    col r' ''status'' = JStr ''queued'' \<and>
    (\<forall>c. obj_has START_ARTIFACTS c \<longrightarrow> col r' c = obj_get START_ARTIFACTS c) \<and>
    col r' ''provider'' = (if locked r \<and> js_truthy (col r ''provider'') then col r ''provider'' else JNull) \<and>
    jget (col r' ''metadata'') ''eligible_providers'' = JArr [JStr q] \<and>
    jget (col r' ''metadata'') ''intended_provider'' = JStr q"
proof -
  note u = requeue_unfold [OF assms(1-4)]
  note p = requeue_prepared [OF assms(3,5), of now q]
  have t: "row_of (snd (updateTaskStatus now i ''queued'' (requeue_patch r q) d)) i =
      Some (set_cols (writes_of now i ''queued'' (requeue_patch r q) (col r ''status'') d) r)"
    by (rule transition_row(1) [OF assms(2,3) _ assms(6) _ requeue_patch_keys(2)])
      (simp_all add: reopens_def is_critical_def)
  let ?P = "prepare_fields now i ''queued'' (requeue_patch r q) d"
  have w: "writes_of now i ''queued'' (requeue_patch r q) (col r ''status'') d = (''status'', JStr ''queued'') # ?P"
    by (simp add: writes_of_def started_cols_def completion_cols_def)
  let ?r' = "set_cols ?P (set_col ''status'' (JStr ''queued'') r)"
  have c: "col ?r' c = (if obj_has (requeue_patch r q) c then sql_value (obj_get (requeue_patch r q) c)
      else if c = ''status'' then JStr ''queued'' else col r c)" for c
    using col_set_cols_distinct [OF p(1)] by (simp add: p(2,3))
  have "sql_value (obj_get START_ARTIFACTS c) = obj_get START_ARTIFACTS c" if "obj_has START_ARTIFACTS c" for c
    using that by (auto simp: START_ARTIFACTS_def obj_get_def obj_has_def split: if_splits)
  moreover have "\<not> obj_has START_ARTIFACTS ''metadata''" "\<not> obj_has START_ARTIFACTS ''provider''"
    "\<not> obj_has START_ARTIFACTS ''status''" by code_simp+
  moreover have "sql_value (col r ''provider'') = col r ''provider''" if "js_truthy (col r ''provider'')"
    using that by (cases "col r ''provider''") simp_all
  ultimately show ?thesis
    using t unfolding u w set_cols_Cons by (intro exI [of _ ?r']) (auto simp: c requeue_patch_get)
qed

theorem requeue_clears_attempt_witness:
  "\<exists>r'. row_of (snd (requeueTaskAfterAttemptedStart 3 uuid [(''provider'', JStr ''codex'')] sample_db)) uuid = Some r'
    \<and> col r' ''status'' = JStr ''queued'' \<and> jget (col r' ''metadata'') ''eligible_providers'' = JArr [JStr ''codex'']"
proof -
  have h: "length uuid = 36" "\<not> dbClosed sample_db" "row_of sample_db uuid = Some (hd (tasks sample_db))"
    "''codex'' \<noteq> []" "normalizeProviderValue (col (hd (tasks sample_db)) ''provider'') = col (hd (tasks sample_db)) ''provider''"
    "\<not> is_nullish (col (hd (tasks sample_db)) ''status'')"
    by code_simp+
  from requeue_clears_attempt [OF h, of 3] show ?thesis by blast
qed

text \<open>C11: Slot-pull retries are bounded. Take any run of failures of one task, with any arguments, deferred
  terminal writes included, and with anything happening in between that leaves the slot-pull bookkeeping in
  the task's metadata alone. If every failing provider is one of the eligible ones (any provider, when the
  list is empty) and every failure requeues the task, then there are at most as many failures as the providers
  of the run have attempts left, each provider counting at least one. (A provider that fails outside a
  list that is not empty requeues the task without end.)\<close>

theorem slot_retries_bounded:
  assumes "requeue_run rs pp mr i fs d" and "finite P" and "sf_provider ` set fs \<subseteq> P"
  shows "length fs \<le> budget mr P (meta_of d i)"
  using assms(1,3)
proof (induction fs arbitrary: d)
  case (Cons f fs)
  then have same: "budget mr P (meta_of (sf_between f d) i) = budget mr P (meta_of d i)"
    and may: "may_take (meta_of (sf_between f d) i) (sf_provider f)"
    using same_books_budget [of "meta_of d i" "meta_of (sf_between f d) i"] by simp_all
  have "budget mr P (meta_of (snd (slot_failure rs pp mr i f d)) i) < budget mr P (meta_of d i)"
    using budget_decreases [OF _ may assms(2), of rs pp mr] Cons.prems same by simp
  with Cons show ?case by fastforce
qed simp

definition retry_db :: tdb where
  "retry_db = sample_db\<lparr>tasks := [[(''id'', JStr ''t''), (''status'', JStr ''running''),
     (''metadata'', JObj [(''eligible_providers'', JArr [JStr ''a'', JStr ''b''])])]]\<rparr>"

definition fault_of :: "string \<Rightarrow> slot_fault" where
  "fault_of p = \<lparr>sf_between = write_cols ''t'' [(''status'', JStr ''running''), (''provider'', JStr p)], sf_now = 1,
     sf_provider = p, sf_defer = True, sf_error = JNull, sf_output = JStr ''partial''\<rparr>"

theorem slot_retries_bounded_witness:
  "length (map fault_of [''a'', ''a'', ''b'']) \<le> budget (\<lambda>_. 2) {''a'', ''b''} (meta_of retry_db ''t'')"
proof (rule slot_retries_bounded [where rs = "\<lambda>_ _ v. v" and pp = "\<lambda>v _. v"])
  show "requeue_run (\<lambda>_ _ v. v) (\<lambda>v _. v) (\<lambda>_. 2) ''t'' (map fault_of [''a'', ''a'', ''b'']) retry_db" by code_simp
qed (simp_all add: fault_of_def)

text \<open>C12: Output retention: with a positive limit, and no more finished tasks with output than one batch may
  take, the outputs of all finished tasks together are within the limit afterwards, measured the way the code
  measures them (SQLite's \<open>length\<close>: characters up to a NUL, not bytes); tasks that are not finished are not touched.
  A limit of 0 means no limit.\<close>

theorem output_limit_enforced:
  assumes "ids_unique d" and "\<not> dbClosed d" and "0 < normalizeNonNegativeInt m DEFAULT_TASK_OUTPUT_MAX_BYTES"
    and "length (filter (\<lambda>r. is_terminal_row r \<and> has_output r) (tasks d)) \<le> max 1 (normalizeNonNegativeInt b 10000)"
  shows "getTerminalTaskOutputBytes (snd (enforceTaskOutputSizeLimit m b d))
      \<le> normalizeNonNegativeInt m DEFAULT_TASK_OUTPUT_MAX_BYTES \<and>
    (\<forall>r \<in> set (tasks d). is_terminal_row r \<or> r \<in> set (tasks (snd (enforceTaskOutputSizeLimit m b d))))"
  using retention_result [OF assms(1,2) refl assms(3,4)] retention_spares [OF assms(1)] by blast

theorem output_limit_enforced_witness:
  "getTerminalTaskOutputBytes (snd (enforceTaskOutputSizeLimit (Fin 3) NaN sample_db))
    \<le> normalizeNonNegativeInt (Fin 3) DEFAULT_TASK_OUTPUT_MAX_BYTES"
proof -
  have h: "ids_unique sample_db" "\<not> dbClosed sample_db" by code_simp+
  have limit: "0 < normalizeNonNegativeInt (Fin 3) DEFAULT_TASK_OUTPUT_MAX_BYTES"
    by (simp add: normalizeNonNegativeInt_def)
  have "length (filter (\<lambda>r. is_terminal_row r \<and> has_output r) (tasks sample_db)) = 1" by code_simp
  then have "length (filter (\<lambda>r. is_terminal_row r \<and> has_output r) (tasks sample_db)) \<le> max 1 (normalizeNonNegativeInt NaN 10000)"
    by (simp add: normalizeNonNegativeInt_def)
  from output_limit_enforced [OF h limit this] show ?thesis by blast
qed

end
