(* ===== verification/Condition_Eval.thy ===== *)
theory Condition_Eval
  imports Rows
begin

text \<open>
  The condition language of workflow edges, \<open>server/db/condition-eval.js\<close>: a recursive evaluator
  that works on the text of the expression. \<open>scan_expr\<close> is \<open>scanExpression\<close> with the calls of its
  visitor as the list of visited positions; a thrown error is \<open>Inl\<close>. \<open>RegExp\<close> is the parameter
  \<open>regex\<close> (\<open>None\<close>: the pattern does not compile). Inherited properties of objects are not modelled.

  Every function is total: the recursion of \<open>evalExpr\<close> is justified by the parts of a split being
  shorter than the expression (\<open>split_shorter\<close>).
\<close>

section \<open>Numbers and properties\<close>

definition digits_value :: "string \<Rightarrow> rat" where
  "digits_value s = of_int (foldl (\<lambda>acc c. 10 * acc + (int (of_char c) - 48)) 0 s)"

definition pow10 :: "int \<Rightarrow> rat" where
  "pow10 e = (if 0 \<le> e then 10 ^ nat e else 1 / 10 ^ nat (- e))"

definition split_sign :: "string \<Rightarrow> rat \<times> string" where
  "split_sign s = (case s of [] \<Rightarrow> (1, []) | c # cs \<Rightarrow>
     if c = CHR ''-'' then (- 1, cs) else if c = CHR ''+'' then (1, cs) else (1, s))"

definition parse_exponent :: "string \<Rightarrow> int option" where
  "parse_exponent s = (case s of [] \<Rightarrow> Some 0 | c # cs \<Rightarrow>
     if c \<in> {CHR ''e'', CHR ''E''} then
       (case split_sign cs of (sg, ds) \<Rightarrow>
          if ds \<noteq> [] \<and> list_all is_digit_char ds then Some (floor (sg * digits_value ds)) else None)
     else None)"

text \<open>\<open>Number(s)\<close> for a decimal literal.\<close>

definition parse_decimal :: "string \<Rightarrow> jsnum" where
  "parse_decimal s =
     (case split_sign s of (sg, body) \<Rightarrow>
        if body = ''Infinity'' then (if sg = 1 then PosInf else NegInf)
        else
          let whole = takeWhile is_digit_char body; r1 = dropWhile is_digit_char body;
              (frac, r2) = (case r1 of c # cs \<Rightarrow> if c = CHR ''.''
                 then (takeWhile is_digit_char cs, dropWhile is_digit_char cs) else ([], r1) | [] \<Rightarrow> ([], [])) in
          if whole = [] \<and> frac = [] then NaN
          else case parse_exponent r2 of None \<Rightarrow> NaN
            | Some e \<Rightarrow> Fin (sg * (digits_value whole + digits_value frac / 10 ^ length frac) * pow10 e))"

text \<open>A literal with the prefix \<open>0x\<close>, \<open>0o\<close> or \<open>0b\<close>; it has no sign.\<close>

definition radix_digit :: "char \<Rightarrow> nat" where
  "radix_digit c =
     (let n = (of_char c :: nat) in
      if is_digit_char c then n - 48 else if 97 \<le> n \<and> n \<le> 102 then n - 87
      else if 65 \<le> n \<and> n \<le> 70 then n - 55 else 16)"

fun radix_of :: "string \<Rightarrow> (nat \<times> string) option" where
  "radix_of (c0 # c1 # ds) =
     (if c0 \<noteq> CHR ''0'' then None
      else if c1 \<in> {CHR ''x'', CHR ''X''} then Some (16, ds)
      else if c1 \<in> {CHR ''o'', CHR ''O''} then Some (8, ds)
      else if c1 \<in> {CHR ''b'', CHR ''B''} then Some (2, ds) else None)"
| "radix_of _ = None"

definition number_of_string :: "string \<Rightarrow> jsnum" where
  "number_of_string s =
     (let t = js_trim s in
      if t = [] then Fin 0
      else case radix_of t of
          Some (base, ds) \<Rightarrow>
            if ds \<noteq> [] \<and> list_all (\<lambda>c. radix_digit c < base) ds
            then Fin (of_nat (foldl (\<lambda>acc c. base * acc + radix_digit c) 0 ds)) else NaN
        | None \<Rightarrow> parse_decimal t)"

fun js_number :: "jsval \<Rightarrow> jsnum" where
  "js_number JUndef = NaN"
| "js_number JNull = Fin 0"
| "js_number (JBool b) = Fin (if b then 1 else 0)"
| "js_number (JNum q) = Fin q"
| "js_number (JStr s) = number_of_string s"
| "js_number (JArr vs) = number_of_string (js_string (JArr vs))"
| "js_number (JObj _) = NaN"

fun num_less :: "jsnum \<Rightarrow> jsnum \<Rightarrow> bool" where
  "num_less (Fin a) (Fin b) = (a < b)"
| "num_less NegInf b = (b \<noteq> NaN \<and> b \<noteq> NegInf)"
| "num_less a PosInf = (a \<noteq> NaN \<and> a \<noteq> PosInf)"
| "num_less a b = False"

definition num_le :: "jsnum \<Rightarrow> jsnum \<Rightarrow> bool" where
  "num_le a b = (num_less a b \<or> a = b \<and> a \<noteq> NaN)"

text \<open>\<open>v[part]\<close> on a value that is not nullish.\<close>

definition index_of :: "string \<Rightarrow> nat option" where
  "index_of s = (if s \<noteq> [] \<and> list_all is_digit_char s \<and> (s = ''0'' \<or> hd s \<noteq> CHR ''0'')
     then Some (nat (floor (digits_value s))) else None)"

fun js_prop :: "jsval \<Rightarrow> string \<Rightarrow> jsval" where
  "js_prop (JObj fs) k = obj_get fs k"
| "js_prop (JArr vs) k =
     (if k = ''length'' then JNum (of_nat (length vs))
      else case index_of k of None \<Rightarrow> JUndef | Some n \<Rightarrow> if n < length vs then vs ! n else JUndef)"
| "js_prop (JStr s) k =
     (if k = ''length'' then JNum (of_nat (length s))
      else case index_of k of None \<Rightarrow> JUndef | Some n \<Rightarrow> if n < length s then JStr [s ! n] else JUndef)"
| "js_prop v k = JUndef"

fun split_on :: "char \<Rightarrow> string \<Rightarrow> string list" where
  "split_on c [] = [[]]"
| "split_on c (x # xs) = (if x = c then [] # split_on c xs
     else case split_on c xs of [] \<Rightarrow> [[x]] | p # ps \<Rightarrow> (x # p) # ps)"

fun walk_path :: "jsval \<Rightarrow> string list \<Rightarrow> jsval" where
  "walk_path current [] = current"
| "walk_path current (part # parts) =
     (if is_nullish current then JUndef else walk_path (js_prop current part) parts)"

definition resolveValue :: "string \<Rightarrow> jsval \<Rightarrow> jsval" where
  "resolveValue path ctx =
     (if path = [] then JUndef
      else if starts_with ''context.'' path
      then walk_path (js_prop ctx ''context'') (split_on CHR ''.'' (drop 8 path))
      else if CHR ''.'' \<notin> set path then js_prop ctx path
      else walk_path ctx (split_on CHR ''.'' path))"

fun isTruthy :: "jsval \<Rightarrow> bool" where
  "isTruthy JUndef = False"
| "isTruthy JNull = False"
| "isTruthy (JBool b) = b"
| "isTruthy (JNum q) = (q \<noteq> 0)"
| "isTruthy (JStr s) = (js_trim (js_lower s) \<notin> set [[], ''0'', ''false'', ''no''])"
| "isTruthy (JArr vs) = (vs \<noteq> [])"
| "isTruthy (JObj _) = True"

definition stripQuotes :: "string \<Rightarrow> string" where
  "stripQuotes value =
     (let trimmed = js_trim value in
      if trimmed \<noteq> [] \<and> hd trimmed = last trimmed \<and> hd trimmed \<in> {CHR 0x22, CHR 0x27}
      then js_slice 1 (length trimmed - 1) trimmed else trimmed)"

definition OPERATORS :: "string list" where
  "OPERATORS = [''contains'', ''matches'', ''!='', ''>='', ''<='', ''=='', ''='', ''>'', ''<'']"

definition WORD_OPERATORS :: "string list" where
  "WORD_OPERATORS = [''contains'', ''matches'']"

definition compareValues :: "(string \<Rightarrow> string \<Rightarrow> bool option) \<Rightarrow> jsval \<Rightarrow> string \<Rightarrow> string \<Rightarrow> bool" where
  "compareValues regex left operator rightRaw =
     (let right = stripQuotes rightRaw; l = js_number left; r = number_of_string right in
      if operator = ''='' \<or> operator = ''=='' then js_string left = right
      else if operator = ''!='' then js_string left \<noteq> right
      else if operator = ''>'' then num_less r l
      else if operator = ''<'' then num_less l r
      else if operator = ''>='' then num_le r l
      else if operator = ''<='' then num_le l r
      else if operator = ''contains'' then
        (case left of JArr vs \<Rightarrow> right \<in> set (map js_string vs) | JStr s \<Rightarrow> includes_str right s | _ \<Rightarrow> False)
      else if operator = ''matches'' then
        (case regex right (js_string left) of None \<Rightarrow> False | Some b \<Rightarrow> b)
      else False)"

section \<open>Scanning\<close>

datatype cond_error = Unbalanced_parentheses | Unterminated_string | Missing_segment

definition is_quote :: "char \<Rightarrow> bool" where
  "is_quote c = (c \<in> {CHR 0x22, CHR 0x27})"

fun scan_expr :: "nat \<Rightarrow> nat \<Rightarrow> char option \<Rightarrow> bool \<Rightarrow> string \<Rightarrow> cond_error + (nat \<times> nat) list" where
  "scan_expr i depth quote escaped [] =
     (if quote \<noteq> None then Inl Unterminated_string
      else if depth \<noteq> 0 then Inl Unbalanced_parentheses else Inr [])"
| "scan_expr i depth (Some q) escaped (c # cs) =
     (if escaped then scan_expr (Suc i) depth (Some q) False cs
      else if c = CHR 0x5C then scan_expr (Suc i) depth (Some q) True cs
      else if c = q then scan_expr (Suc i) depth None False cs
      else scan_expr (Suc i) depth (Some q) False cs)"
| "scan_expr i depth None escaped (c # cs) =
     (if is_quote c then scan_expr (Suc i) depth (Some c) False cs
      else if c = CHR ''('' then scan_expr (Suc i) (Suc depth) None False cs
      else if c = CHR '')'' then
        (if depth = 0 then Inl Unbalanced_parentheses else scan_expr (Suc i) (depth - 1) None False cs)
      else map_sum id (\<lambda>vs. (i, depth) # vs) (scan_expr (Suc i) depth None False cs))"

definition scanExpression :: "string \<Rightarrow> cond_error + (nat \<times> nat) list" where
  "scanExpression expr = scan_expr 0 0 None False expr"

fun outer_close :: "nat \<Rightarrow> nat \<Rightarrow> char option \<Rightarrow> bool \<Rightarrow> string \<Rightarrow> cond_error + nat option" where
  "outer_close i depth quote escaped [] = (if quote \<noteq> None then Inl Unterminated_string else Inr None)"
| "outer_close i depth (Some q) escaped (c # cs) =
     (if escaped then outer_close (Suc i) depth (Some q) False cs
      else if c = CHR 0x5C then outer_close (Suc i) depth (Some q) True cs
      else if c = q then outer_close (Suc i) depth None False cs
      else outer_close (Suc i) depth (Some q) False cs)"
| "outer_close i depth None escaped (c # cs) =
     (if is_quote c then outer_close (Suc i) depth (Some c) False cs
      else if c = CHR ''('' then outer_close (Suc i) (Suc depth) None False cs
      else if c = CHR '')'' then
        (if depth = 0 then Inl Unbalanced_parentheses
         else if depth = 1 then Inr (Some i) else outer_close (Suc i) (depth - 1) None False cs)
      else outer_close (Suc i) depth None False cs)"

function strip_outer :: "string \<Rightarrow> cond_error + string" where
  "strip_outer s =
     (if starts_with ''('' s \<and> ends_with '')'' s then
        (case outer_close 0 0 None False s of
           Inl e \<Rightarrow> Inl e
         | Inr c \<Rightarrow> if c \<noteq> Some (length s - 1) then Inr s
                    else strip_outer (js_trim (js_slice 1 (length s - 1) s)))
      else Inr s)"
  by pat_completeness auto

lemma slice_inner_shorter: "s \<noteq> [] \<Longrightarrow> length (js_trim (js_slice 1 (length s - 1) s)) < length s"
proof -
  assume "s \<noteq> []"
  then have "length (js_slice 1 (length s - 1) s) < length s" by (simp add: js_slice_def)
  with length_js_trim [of "js_slice 1 (length s - 1) s"] show ?thesis by linarith
qed

termination strip_outer
proof (relation "measure length")
  fix s :: string and c
  assume "starts_with ''('' s \<and> ends_with '')'' s"
  then have "s \<noteq> []" by (auto simp: ends_with_def)
  then show "(js_trim (js_slice 1 (length s - 1) s), s) \<in> measure length"
    unfolding in_measure by (rule slice_inner_shorter)
qed simp

declare strip_outer.simps [simp del]

definition stripOuterParens :: "string \<Rightarrow> cond_error + string" where
  "stripOuterParens expr = strip_outer (js_trim expr)"

section \<open>Splitting\<close>

fun split_at :: "string \<Rightarrow> nat \<Rightarrow> nat \<Rightarrow> nat list \<Rightarrow> string list" where
  "split_at expr len start [] = [drop start expr]"
| "split_at expr len start (i # is) = js_slice start i expr # split_at expr len (i + len) is"

definition parts_at :: "string \<Rightarrow> nat \<Rightarrow> nat list \<Rightarrow> string list" where
  "parts_at expr len is = (if is = [] then [expr] else split_at expr len 0 is)"

definition top_level :: "(nat \<Rightarrow> bool) \<Rightarrow> (nat \<times> nat) list \<Rightarrow> nat list" where
  "top_level P visits = map fst (filter (\<lambda>(i, depth). depth = 0 \<and> P i) visits)"

definition splitTopLevel :: "string \<Rightarrow> string \<Rightarrow> cond_error + string list" where
  "splitTopLevel expr separator =
     map_sum id (\<lambda>visits. parts_at expr (length separator)
       (top_level (\<lambda>i. js_slice i (i + length separator) expr = separator) visits))
       (scanExpression expr)"

definition char_at :: "string \<Rightarrow> nat \<Rightarrow> char option" where
  "char_at s i = (if i < length s then Some (s ! i) else None)"

definition char_before :: "string \<Rightarrow> nat \<Rightarrow> char option" where
  "char_before s i = (if i = 0 then None else char_at s (i - 1))"

definition word_boundaries :: "string \<Rightarrow> nat \<Rightarrow> nat \<Rightarrow> bool" where
  "word_boundaries expr i len =
     ((case char_before expr i of None \<Rightarrow> True | Some c \<Rightarrow> is_space c \<or> c = CHR ''('') \<and>
      (case char_at expr (i + len) of None \<Rightarrow> True | Some c \<Rightarrow> is_space c \<or> c = CHR '')''))"

definition splitTopLevelWord :: "string \<Rightarrow> string \<Rightarrow> cond_error + string list" where
  "splitTopLevelWord expr word =
     map_sum id (\<lambda>visits. parts_at expr (length word)
       (top_level (\<lambda>i. js_slice i (i + length word) (js_lower expr) = js_lower word
          \<and> word_boundaries expr i (length word)) visits))
       (scanExpression expr)"

fun splitAnyTopLevel :: "string \<Rightarrow> string list \<Rightarrow> cond_error + string list" where
  "splitAnyTopLevel expr [] = Inr [expr]"
| "splitAnyTopLevel expr (sep # seps) =
     (case (if sep \<noteq> [] \<and> list_all is_alpha_char sep then splitTopLevelWord expr sep else splitTopLevel expr sep) of
        Inl e \<Rightarrow> Inl e
      | Inr parts \<Rightarrow> if 1 < length parts then Inr parts else splitAnyTopLevel expr seps)"

definition operator_at :: "string \<Rightarrow> nat \<Rightarrow> string \<Rightarrow> bool" where
  "operator_at expr i op =
     (if op \<in> set WORD_OPERATORS then
        js_lower (js_slice i (i + length op) expr) = op \<and>
        (case (char_before expr i, char_at expr (i + length op)) of
           (Some a, Some b) \<Rightarrow> is_space a \<and> is_space b | _ \<Rightarrow> False)
      else js_slice i (i + length op) expr = op)"

fun first_operator :: "string \<Rightarrow> (nat \<times> nat) list \<Rightarrow> (string \<times> nat) option" where
  "first_operator expr [] = None"
| "first_operator expr ((i, depth) # visits) =
     (if depth \<noteq> 0 then first_operator expr visits
      else case List.find (operator_at expr i) OPERATORS of
          Some op \<Rightarrow> Some (op, i)
        | None \<Rightarrow> first_operator expr visits)"

definition findTopLevelOperator :: "string \<Rightarrow> cond_error + (string \<times> nat) option" where
  "findTopLevelOperator expr = map_sum id (first_operator expr) (scanExpression expr)"

section \<open>Evaluation\<close>

text \<open>
  The regular expression of \<open>evalMethodCall\<close>: a name of word characters and dots ending in the
  method's name, then an argument in parentheses on one line. \<open>\w\<close> and the dot never match an opening
  parenthesis, so the name is the longest such prefix.
\<close>

definition method_suffix :: "string \<Rightarrow> (string \<times> string) option" where
  "method_suffix name =
     (if ends_with ''.contains'' name then Some (take (length name - 9) name, ''contains'')
      else if ends_with ''.matches'' name then Some (take (length name - 8) name, ''matches'')
      else None)"

definition match_method :: "string \<Rightarrow> (string \<times> string \<times> string) option" where
  "match_method expr =
     (let name = takeWhile (\<lambda>c. is_word_char c \<or> c = CHR ''.'') expr;
          rest = dropWhile (\<lambda>c. is_word_char c \<or> c = CHR ''.'') expr;
          arg = js_slice 1 (length rest - 1) rest in
      case method_suffix name of
        None \<Rightarrow> None
      | Some (path, method) \<Rightarrow>
          if path \<noteq> [] \<and> (is_alpha_char (hd path) \<or> hd path = CHR ''_'') \<and> 2 \<le> length rest \<and>
             hd rest = CHR ''('' \<and> last rest = CHR '')'' \<and> list_all (\<lambda>c. c \<notin> {CHR 0x0A, CHR 0x0D}) arg
          then Some (path, method, arg) else None)"

definition evalMethodCall :: "(string \<Rightarrow> string \<Rightarrow> bool option) \<Rightarrow> string \<Rightarrow> jsval \<Rightarrow> bool option" where
  "evalMethodCall regex expr ctx =
     (case match_method expr of
        None \<Rightarrow> None
      | Some (path, method, arg) \<Rightarrow>
          Some (js_trim arg \<noteq> [] \<and> compareValues regex (resolveValue path ctx) method (js_trim arg)))"

definition evalAtom :: "(string \<Rightarrow> string \<Rightarrow> bool option) \<Rightarrow> string \<Rightarrow> jsval \<Rightarrow> cond_error + bool" where
  "evalAtom regex expr ctx =
     (case stripOuterParens (js_trim expr) of
        Inl e \<Rightarrow> Inl e
      | Inr trimmed \<Rightarrow>
          if trimmed = [] then Inr True
          else case evalMethodCall regex trimmed ctx of
              Some b \<Rightarrow> Inr b
            | None \<Rightarrow>
                case findTopLevelOperator trimmed of
                  Inl e \<Rightarrow> Inl e
                | Inr None \<Rightarrow> Inr (isTruthy (resolveValue trimmed ctx))
                | Inr (Some (op, i)) \<Rightarrow>
                    let leftPath = js_trim (take i trimmed); rightRaw = js_trim (drop (i + length op) trimmed) in
                    Inr (leftPath \<noteq> [] \<and> rightRaw \<noteq> [] \<and>
                      compareValues regex (resolveValue leftPath ctx) op rightRaw))"

text \<open>\<open>some\<close> and \<open>every\<close> stop at the first decisive part; an error of a part they reach is thrown.\<close>

fun some_part :: "('a \<Rightarrow> cond_error + bool) \<Rightarrow> 'a list \<Rightarrow> cond_error + bool" where
  "some_part f [] = Inr False"
| "some_part f (x # xs) = (case f x of Inl e \<Rightarrow> Inl e | Inr b \<Rightarrow> if b then Inr True else some_part f xs)"

fun every_part :: "('a \<Rightarrow> cond_error + bool) \<Rightarrow> 'a list \<Rightarrow> cond_error + bool" where
  "every_part f [] = Inr True"
| "every_part f (x # xs) = (case f x of Inl e \<Rightarrow> Inl e | Inr b \<Rightarrow> if b then every_part f xs else Inr False)"

lemma some_part_cong [fundef_cong]:
  "xs = ys \<Longrightarrow> (\<And>x. x \<in> set ys \<Longrightarrow> f x = g x) \<Longrightarrow> some_part f xs = some_part g ys"
  by (induction ys arbitrary: xs) (auto split: sum.split)

lemma every_part_cong [fundef_cong]:
  "xs = ys \<Longrightarrow> (\<And>x. x \<in> set ys \<Longrightarrow> f x = g x) \<Longrightarrow> every_part f xs = every_part g ys"
  by (induction ys arbitrary: xs) (auto split: sum.split)

definition not_prefix :: "string \<Rightarrow> bool" where
  "not_prefix s = (js_lower (take 3 s) = ''not'' \<and> (case char_at s 3 of None \<Rightarrow> False | Some c \<Rightarrow> is_space c))"

lemma scan_range:
  "scan_expr i depth quote esc s = Inr vs \<Longrightarrow> (j, k) \<in> set vs \<Longrightarrow> i \<le> j \<and> j < i + length s"
proof (induction i depth quote esc s arbitrary: vs rule: scan_expr.induct)
  case (3 i depth escaped c cs)
  then show ?case
    by (cases "scan_expr (Suc i) depth None False cs") (fastforce split: if_splits)+
qed (fastforce split: if_splits)+

lemma split_at_shorter:
  assumes "expr \<noteq> []" and "0 < len" and "p \<in> set (split_at expr len start is)" and "0 < start \<or> is \<noteq> []"
    and "\<forall>i \<in> set is. i < length expr"
  shows "length p < length expr"
  using assms(3-5)
proof (induction "is" arbitrary: start)
  case (Cons i "is")
  then consider "p = js_slice start i expr" | "p \<in> set (split_at expr len (i + len) is)" by auto
  then show ?case
  proof cases
    case 1
    have "i < length expr" using Cons.prems by simp
    with 1 assms(1) show ?thesis by (auto simp: js_slice_def)
  next
    case 2
    then show ?thesis using Cons.IH [OF 2] Cons.prems assms(2) by simp
  qed
qed (use assms(1) in auto)

lemma parts_shorter:
  assumes "1 < length (parts_at expr len is)" and "0 < len" and "\<forall>i \<in> set is. i < length expr"
    and "p \<in> set (parts_at expr len is)"
  shows "length p < length expr"
proof -
  have ne: "is \<noteq> []" using assms(1) by (auto simp: parts_at_def)
  then have "expr \<noteq> []" using assms(3) by (cases "is") auto
  with ne assms show ?thesis by (auto simp: parts_at_def intro: split_at_shorter)
qed

lemma top_level_range:
  "scanExpression expr = Inr vs \<Longrightarrow> \<forall>i \<in> set (top_level P vs). i < length expr"
  using scan_range [of 0 0 None False expr] by (force simp: scanExpression_def top_level_def)

lemma split_shorter:
  assumes "splitAnyTopLevel expr seps = Inr parts" and "1 < length parts" and "[] \<notin> set seps" and "p \<in> set parts"
  shows "length p < length expr"
  using assms(1,3)
proof (induction seps)
  case (Cons sep seps)
  have one: "length p < length expr"
    if "splitTopLevel expr sep = Inr parts \<or> splitTopLevelWord expr sep = Inr parts"
  proof (cases "scanExpression expr")
    case (Inr vs)
    have "0 < length sep" using Cons.prems(2) by auto
    with that Inr assms(2,4) show ?thesis
      by (auto simp: splitTopLevel_def splitTopLevelWord_def intro: parts_shorter [OF _ _ top_level_range [OF Inr]])
  qed (use that in \<open>auto simp: splitTopLevel_def splitTopLevelWord_def\<close>)
  from Cons show ?case by (auto split: sum.splits if_splits intro: one)
qed (use assms(2) in auto)

lemma strip_outer_length: "strip_outer s = Inr t \<Longrightarrow> length t \<le> length s"
proof (induction s arbitrary: t rule: strip_outer.induct)
  case (1 s)
  note unfolded = "1.prems" [unfolded strip_outer.simps [of s]]
  show ?case
  proof (cases "starts_with ''('' s \<and> ends_with '')'' s \<and> outer_close 0 0 None False s = Inr (Some (length s - 1))")
    case True
    then have "s \<noteq> []" by (auto simp: ends_with_def)
    moreover have "length t \<le> length (js_trim (js_slice 1 (length s - 1) s))"
      using True unfolded "1.IH" by simp
    ultimately show ?thesis using slice_inner_shorter [of s] by linarith
  next
    case False
    with unfolded show ?thesis by (auto split: if_splits sum.splits)
  qed
qed

lemma strip_length: "stripOuterParens (js_trim s) = Inr t \<Longrightarrow> length t \<le> length s"
  using strip_outer_length [of "js_trim (js_trim s)" t] length_js_trim [of "js_trim s"] length_js_trim [of s]
  by (simp add: stripOuterParens_def)

function evalExpr :: "(string \<Rightarrow> string \<Rightarrow> bool option) \<Rightarrow> jsval \<Rightarrow> string \<Rightarrow> cond_error + bool" where
  "evalExpr regex ctx expr =
     (case stripOuterParens (js_trim expr) of
        Inl e \<Rightarrow> Inl e
      | Inr trimmed \<Rightarrow>
         if trimmed = [] then Inr True
         else case splitAnyTopLevel trimmed [''||'', ''OR''] of
            Inl e \<Rightarrow> Inl e
          | Inr orParts \<Rightarrow>
             if 1 < length orParts then
               (if list_ex (\<lambda>p. js_trim p = []) orParts then Inl Missing_segment
                else some_part (evalExpr regex ctx) orParts)
             else case splitAnyTopLevel trimmed [''&&'', ''AND''] of
                Inl e \<Rightarrow> Inl e
              | Inr andParts \<Rightarrow>
                 if 1 < length andParts then
                   (if list_ex (\<lambda>p. js_trim p = []) andParts then Inl Missing_segment
                    else every_part (evalExpr regex ctx) andParts)
                 else if starts_with ''!'' trimmed then
                   (let rest = js_trim (drop 1 trimmed) in
                    if rest = [] then Inr False else map_sum id Not (evalExpr regex ctx rest))
                 else if not_prefix trimmed then
                   map_sum id Not (evalExpr regex ctx (dropWhile is_space (drop 3 trimmed)))
                 else evalAtom regex trimmed ctx)"
  by pat_completeness auto
termination
proof (relation "measure (\<lambda>(regex, ctx, expr). length expr)")
  fix ctx :: jsval and expr trimmed parts p and regex :: "string \<Rightarrow> string \<Rightarrow> bool option"
  assume t: "stripOuterParens (js_trim expr) = Inr trimmed" and "trimmed \<noteq> []"
  note le = strip_length [OF t]
  show "((regex, ctx, p), regex, ctx, expr) \<in> measure (\<lambda>(regex, ctx, expr). length expr)"
    if "splitAnyTopLevel trimmed [''||'', ''OR''] = Inr parts" "1 < length parts" "p \<in> set parts"
    using split_shorter [OF that(1,2) _ that(3)] le by simp
  show "((regex, ctx, p), regex, ctx, expr) \<in> measure (\<lambda>(regex, ctx, expr). length expr)"
    if "splitAnyTopLevel trimmed [''&&'', ''AND''] = Inr parts" "1 < length parts" "p \<in> set parts"
    using split_shorter [OF that(1,2) _ that(3)] le by simp
  show "((regex, ctx, p), regex, ctx, expr) \<in> measure (\<lambda>(regex, ctx, expr). length expr)"
    if "p = js_trim (drop 1 trimmed)"
    using that le \<open>trimmed \<noteq> []\<close> length_js_trim [of "drop 1 trimmed"] by (cases trimmed) auto
  show "((regex, ctx, dropWhile is_space (drop 3 trimmed)), regex, ctx, expr) \<in> measure (\<lambda>(regex, ctx, expr). length expr)"
    using le \<open>trimmed \<noteq> []\<close> length_dropWhile_le [of is_space "drop 3 trimmed"] by (cases trimmed) auto
qed simp

declare evalExpr.simps [simp del]

definition MAX_EXPRESSION_LENGTH :: nat where
  "MAX_EXPRESSION_LENGTH = 10240"

text \<open>\<open>evaluateCondition\<close>, with \<open>None\<close> for an absent expression.\<close>

definition evaluateCondition :: "(string \<Rightarrow> string \<Rightarrow> bool option) \<Rightarrow> string option \<Rightarrow> jsval \<Rightarrow> bool" where
  "evaluateCondition regex expr ctx =
     (case expr of
        None \<Rightarrow> True
      | Some s \<Rightarrow>
          if js_trim s = [] then True
          else if MAX_EXPRESSION_LENGTH < length s then False
          else case evalExpr regex (js_or ctx (JObj [])) s of Inl _ \<Rightarrow> False | Inr b \<Rightarrow> b)"

end
