(* ===== verification/Condition_Eval_Laws.thy ===== *)
theory Condition_Eval_Laws
  imports Condition_Eval
begin

text \<open>
  The meaning of composed conditions. \<open>cond\<close> is the abstract syntax of conditions over atoms,
  \<open>show_cond\<close> writes one as text with explicit parentheses and \<open>cond_value\<close> is its value, computed
  on the syntax. The text evaluator gives that value (\<open>evalExpr_show\<close>): the scanning, parenthesis
  stripping and splitting of the code parse what \<open>show_cond\<close> prints, whatever the atoms contain.
\<close>

section \<open>Scanning composed text\<close>

lemma scan_none_escaped: "scan_expr i d None e s = scan_expr i d None False s"
  by (cases s) simp_all

lemma scan_append:
  "scan_expr i k q e s = Inr vs \<Longrightarrow>
   scan_expr i (k + d) q e (s @ r) =
     map_sum id (\<lambda>ws. map (\<lambda>(j, m). (j, m + d)) vs @ ws) (scan_expr (i + length s) d None False r)"
proof (induction i k q e s arbitrary: vs rule: scan_expr.induct)
  case (1 i depth quote escaped)
  then show ?case
    by (cases quote; cases "scan_expr i d None False r") (auto simp: scan_none_escaped [of i d escaped r] split: if_splits)
next
  case (2 i depth q escaped c cs)
  then show ?case by (auto split: if_splits)
next
  case (3 i depth escaped c cs)
  consider "is_quote c" | "\<not> is_quote c" "c = CHR ''(''" | "\<not> is_quote c" "c = CHR '')''" |
    "\<not> is_quote c" "c \<noteq> CHR ''(''" "c \<noteq> CHR '')''"
    by (cases "is_quote c"; cases "c = CHR ''(''"; cases "c = CHR '')''") iprover+
  then show ?case
  proof cases
    case 1
    then show ?thesis using "3.IH"(1) "3.prems" by simp
  next
    case 2
    then show ?thesis using "3.IH"(2) "3.prems" by simp
  next
    case closing: 3
    then obtain m where "depth = Suc m" using "3.prems" by (cases depth) auto
    then show ?thesis using "3.IH"(3) "3.prems" closing by simp
  next
    case 4
    then obtain ws where ws: "scan_expr (Suc i) depth None False cs = Inr ws" "vs = (i, depth) # ws"
      using "3.prems" 4 by (cases "scan_expr (Suc i) depth None False cs") auto
    have "scan_expr (Suc i) (depth + d) None False (cs @ r) =
        map_sum id (\<lambda>us. map (\<lambda>(j, m). (j, m + d)) ws @ us) (scan_expr (Suc i + length cs) d None False r)"
      using "3.IH"(4) [OF _ _ _ ws(1)] 4
      by (cases "scan_expr (Suc (i + length cs)) d None False r") simp_all
    then show ?thesis using 4 ws(2)
      by (cases "scan_expr (Suc (i + length cs)) d None False r") simp_all
  qed
qed

lemma scan_shift:
  "scan_expr (i + n) d q e s = map_sum id (map (\<lambda>(j, m). (j + n, m))) (scan_expr i d q e s)"
proof (induction i d q e s rule: scan_expr.induct)
  case (3 i depth escaped c cs)
  then show ?case by (cases "scan_expr (Suc i) depth None False cs") auto
qed auto

lemma outer_close_append:
  "scan_expr i k q e s = Inr vs \<Longrightarrow> outer_close j (Suc k) q e (s @ CHR '')'' # r) = Inr (Some (j + length s))"
proof (induction i k q e s arbitrary: vs j rule: scan_expr.induct)
  case (1 i depth quote escaped)
  then show ?case by (auto simp: is_quote_def split: if_splits)
next
  case (2 i depth q escaped c cs)
  then show ?case by (auto split: if_splits)
next
  case (3 i depth escaped c cs)
  then show ?case
    by (cases depth; cases "scan_expr (Suc i) depth None False cs") (auto split: if_splits)
qed

section \<open>Balanced text\<close>

definition balanced :: "string \<Rightarrow> bool" where
  "balanced s \<longleftrightarrow> (\<exists>vs. scanExpression s = Inr vs)"

text \<open>The visits of \<open>(a)\<close> all lie below the top level.\<close>

lemma scan_group:
  assumes "balanced a"
  obtains ws where "\<forall>(j, m) \<in> set ws. m \<noteq> 0"
    "\<And>i r. scan_expr i 0 None False (CHR ''('' # a @ CHR '')'' # r) =
       map_sum id (\<lambda>us. map (\<lambda>(j, m). (j + i, m)) ws @ us) (scan_expr (i + length a + 2) 0 None False r)"
proof -
  obtain vs where vs: "scan_expr 0 0 None False a = Inr vs"
    using assms by (auto simp: balanced_def scanExpression_def)
  let ?ws = "map (\<lambda>(j, m). (j + 1, m + 1)) vs"
  have shift: "scan_expr (Suc i) 0 None False a = Inr (map (\<lambda>(j, m). (j + Suc i, m)) vs)" for i
    using scan_shift [of 0 "Suc i" 0 None False a] vs by simp
  have "scan_expr i 0 None False (CHR ''('' # a @ CHR '')'' # r) =
      map_sum id (\<lambda>us. map (\<lambda>(j, m). (j + i, m)) ?ws @ us) (scan_expr (i + length a + 2) 0 None False r)" for i r
    using scan_append [OF shift, of i 1 "CHR '')'' # r"]
    by (cases "scan_expr (i + length a + 2) 0 None False r")
      (simp_all add: is_quote_def o_def case_prod_unfold add.commute)
  then show ?thesis by (intro that [of ?ws]) auto
qed

lemma close_group:
  assumes "balanced a"
  shows "outer_close 0 0 None False (CHR ''('' # a @ CHR '')'' # r) = Inr (Some (Suc (length a)))"
proof -
  obtain vs where "scan_expr 0 0 None False a = Inr vs"
    using assms by (auto simp: balanced_def scanExpression_def)
  from outer_close_append [OF this, of 1] show ?thesis by (simp add: is_quote_def)
qed

lemma not_space_paren [simp]: "\<not> is_space CHR ''(''" "\<not> is_space CHR '')''" "\<not> is_space CHR ''!''"
  by (simp_all add: is_space_def)

lemma trim_unchanged: "s \<noteq> [] \<Longrightarrow> \<not> is_space (hd s) \<Longrightarrow> \<not> is_space (last s) \<Longrightarrow> js_trim s = s"
proof -
  assume s: "s \<noteq> []" "\<not> is_space (hd s)" "\<not> is_space (last s)"
  have "dropWhile is_space s = s" using s by (cases s) simp_all
  moreover have "dropWhile is_space (rev s) = rev s" using s by (cases s rule: rev_cases) simp_all
  ultimately show ?thesis by (simp add: js_trim_def)
qed

lemma trim_idem [simp]: "js_trim (js_trim s) = js_trim s"
proof (cases "js_trim s = []")
  case False
  let ?t = "dropWhile is_space s"
  have "js_trim s = rev (dropWhile is_space (rev ?t))" by (simp add: js_trim_def)
  then have "last (js_trim s) = hd (dropWhile is_space (rev ?t))" "dropWhile is_space (rev ?t) \<noteq> []"
    using False by (simp_all add: last_rev)
  then have l: "\<not> is_space (last (js_trim s))" using hd_dropWhile by metis
  have "\<exists>u. ?t = js_trim s @ u"
    by (metis js_trim_def rev_append rev_rev_ident takeWhile_dropWhile_id)
  then obtain u where u: "?t = js_trim s @ u" by blast
  have "hd (js_trim s) = hd ?t" unfolding u using False by simp
  moreover have "?t \<noteq> []" unfolding u using False by simp
  ultimately have "\<not> is_space (hd (js_trim s))" using hd_dropWhile by metis
  with False l show ?thesis by (simp add: trim_unchanged)
qed simp

section \<open>Conditions\<close>

datatype cond = Atom string | CNot cond | CAnd cond cond | COr cond cond

definition in_parens :: "string \<Rightarrow> string" where
  "in_parens a = CHR ''('' # a @ '')''"

fun show_cond :: "cond \<Rightarrow> string" where
  "show_cond (Atom s) = s"
| "show_cond (CNot a) = CHR ''!'' # in_parens (show_cond a)"
| "show_cond (CAnd a b) = in_parens (show_cond a) @ '' && '' @ in_parens (show_cond b)"
| "show_cond (COr a b) = in_parens (show_cond a) @ '' || '' @ in_parens (show_cond b)"

text \<open>An atom is text that the evaluator takes for one: it is trimmed, splits nowhere, is no negation.\<close>

definition plain_atom :: "string \<Rightarrow> bool" where
  "plain_atom s \<longleftrightarrow> s \<noteq> [] \<and> stripOuterParens (js_trim s) = Inr s
     \<and> splitAnyTopLevel s [''||'', ''OR''] = Inr [s] \<and> splitAnyTopLevel s [''&&'', ''AND''] = Inr [s]
     \<and> \<not> starts_with ''!'' s \<and> \<not> not_prefix s"

fun well_formed :: "cond \<Rightarrow> bool" where
  "well_formed (Atom s) = plain_atom s"
| "well_formed (CNot a) = well_formed a"
| "well_formed (CAnd a b) = (well_formed a \<and> well_formed b)"
| "well_formed (COr a b) = (well_formed a \<and> well_formed b)"

fun cond_value :: "(string \<Rightarrow> string \<Rightarrow> bool option) \<Rightarrow> jsval \<Rightarrow> cond \<Rightarrow> cond_error + bool" where
  "cond_value regex ctx (Atom s) = evalAtom regex s ctx"
| "cond_value regex ctx (CNot a) = map_sum id Not (cond_value regex ctx a)"
| "cond_value regex ctx (CAnd a b) = every_part (cond_value regex ctx) [a, b]"
| "cond_value regex ctx (COr a b) = some_part (cond_value regex ctx) [a, b]"

lemma alpha_separators [simp]:
  "\<not> is_alpha_char CHR ''|''" "\<not> is_alpha_char CHR ''&''" "is_alpha_char CHR ''O''"
  "is_alpha_char CHR ''R''" "is_alpha_char CHR ''A''" "is_alpha_char CHR ''N''" "is_alpha_char CHR ''D''"
  by (simp_all add: is_alpha_char_def)

lemma balanced_atom: "plain_atom s \<Longrightarrow> balanced s"
  by (cases "scanExpression s") (simp_all add: plain_atom_def balanced_def splitTopLevel_def)

lemma group_head_last [simp]: "in_parens a \<noteq> []" "hd (in_parens a) = CHR ''(''" "last (in_parens a) = CHR '')''"
  by (simp_all add: in_parens_def)

lemma length_in_parens [simp]: "length (in_parens a) = length a + 2"
  by (simp add: in_parens_def)

text \<open>The top-level visits of two groups around a connective are those of the connective.\<close>

lemma scan_connective:
  assumes "balanced a" and "balanced b" and "c \<in> {CHR ''&'', CHR ''|''}"
  obtains vs where "scanExpression (in_parens a @ [CHR '' '', c, c, CHR '' ''] @ in_parens b) = Inr vs"
    "\<And>P. top_level P vs = filter P [length a + 2, length a + 3, length a + 4, length a + 5]"
proof -
  obtain wa where wa: "\<forall>(j, m) \<in> set wa. m \<noteq> 0"
    "\<And>i r. scan_expr i 0 None False (CHR ''('' # a @ CHR '')'' # r) =
       map_sum id (\<lambda>us. map (\<lambda>(j, m). (j + i, m)) wa @ us) (scan_expr (i + length a + 2) 0 None False r)"
    by (rule scan_group [OF assms(1)]) blast
  obtain wb where wb: "\<forall>(j, m) \<in> set wb. m \<noteq> 0"
    "\<And>i r. scan_expr i 0 None False (CHR ''('' # b @ CHR '')'' # r) =
       map_sum id (\<lambda>us. map (\<lambda>(j, m). (j + i, m)) wb @ us) (scan_expr (i + length b + 2) 0 None False r)"
    by (rule scan_group [OF assms(2)]) blast
  let ?n = "length a"
  let ?vs = "map (\<lambda>(j, m). (j + 0, m)) wa @ [(?n + 2, 0), (?n + 3, 0), (?n + 4, 0), (?n + 5, 0)]
      @ map (\<lambda>(j, m). (j + (?n + 6), m)) wb"
  have c: "c \<noteq> CHR ''(''" "c \<noteq> CHR '')''" "\<not> is_quote c" "\<not> is_quote CHR '' ''"
    using assms(3) by (auto simp: is_quote_def)
  have s: "scanExpression (in_parens a @ [CHR '' '', c, c, CHR '' ''] @ in_parens b) = Inr ?vs"
    using wa(2) [of 0 "[CHR '' '', c, c, CHR '' ''] @ in_parens b"] wb(2) [of "?n + 6" "[]"] c
    by (simp add: scanExpression_def in_parens_def eval_nat_numeral)
  have none: "filter (\<lambda>(i, depth). depth = 0 \<and> P i) (map (\<lambda>(j, m). (j + k, m)) ws) = []"
    if "\<forall>(j, m) \<in> set ws. m \<noteq> (0::nat)" for ws P and k :: nat
    using that by (auto simp: filter_empty_conv)
  have "filter (\<lambda>(i, depth). depth = 0 \<and> P i) wa = []" for P
    using wa(1) by (auto simp: filter_empty_conv)
  then have "top_level P ?vs = filter P [?n + 2, ?n + 3, ?n + 4, ?n + 5]" for P
    by (simp add: top_level_def none [OF wb(1)] del: filter_map)
  with s that show thesis by blast
qed

lemma slice_append: "js_slice (length A + j) (length A + k) (A @ B) = js_slice j k B"
  by (simp add: js_slice_def)

lemma lower_append [simp]: "js_lower (A @ B) = js_lower A @ js_lower B"
  and length_lower [simp]: "length (js_lower A) = length A"
  by (simp_all add: js_lower_def)

text \<open>What the four splits see at the visits of a connective.\<close>

lemma connective_slices:
  fixes a b :: string and c :: char
  defines "e \<equiv> in_parens a @ [CHR '' '', c, c, CHR '' ''] @ in_parens b" and "n \<equiv> length a"
  shows "js_slice (n + 2) (n + 4) e = [CHR '' '', c]" "js_slice (n + 3) (n + 5) e = [c, c]"
    "js_slice (n + 4) (n + 6) e = [c, CHR '' '']" "js_slice (n + 5) (n + 7) e = '' (''"
    "js_slice (n + 2) (n + 5) e = [CHR '' '', c, c]" "js_slice (n + 3) (n + 6) e = [c, c, CHR '' '']"
    "js_slice (n + 4) (n + 7) e = [c, CHR '' '', CHR ''('']"
    "js_slice (n + 5) (n + 8) e = CHR '' '' # js_slice 0 2 (in_parens b)"
    "js_slice 0 (n + 3) e = in_parens a @ '' ''" "drop (n + 5) e = CHR '' '' # in_parens b"
proof -
  have len: "length (in_parens a) = n + 2" by (simp add: n_def)
  note sl = slice_append [of "in_parens a" _ _ "[CHR '' '', c, c, CHR '' ''] @ in_parens b", unfolded len]
  have arith: "n + 3 = n + 2 + 1" "n + 4 = n + 2 + 2" "n + 5 = n + 2 + 3" "n + 6 = n + 2 + 4"
    "n + 7 = n + 2 + 5" "n + 8 = n + 2 + 6" "n + 2 = n + 2 + 0" by simp_all
  show "js_slice (n + 2) (n + 4) e = [CHR '' '', c]" "js_slice (n + 2) (n + 5) e = [CHR '' '', c, c]"
    using sl [of 0 2] sl [of 0 3] by (simp_all add: e_def js_slice_def eval_nat_numeral)
  show "js_slice (n + 3) (n + 5) e = [c, c]" "js_slice (n + 3) (n + 6) e = [c, c, CHR '' '']"
    using sl [of 1 3] sl [of 1 4] by (simp_all add: e_def js_slice_def eval_nat_numeral)
  show "js_slice (n + 4) (n + 6) e = [c, CHR '' '']" "js_slice (n + 4) (n + 7) e = [c, CHR '' '', CHR ''('']"
    using sl [of 2 4] sl [of 2 5] by (simp_all add: e_def js_slice_def eval_nat_numeral in_parens_def)
  show "js_slice (n + 5) (n + 7) e = '' (''" "js_slice (n + 5) (n + 8) e = CHR '' '' # js_slice 0 2 (in_parens b)"
    using sl [of 3 5] sl [of 3 6] by (simp_all add: e_def js_slice_def eval_nat_numeral in_parens_def)
  show "js_slice 0 (n + 3) e = in_parens a @ '' ''" "drop (n + 5) e = CHR '' '' # in_parens b"
    using len by (simp_all add: e_def js_slice_def eval_nat_numeral)
qed

lemma slice_lower: "js_slice i j (js_lower s) = js_lower (js_slice i j s)"
  by (simp add: js_slice_def js_lower_def take_map drop_map)

lemma lower_symbols [simp]:
  "js_lower [] = []" "js_lower (CHR '' '' # s) = CHR '' '' # js_lower s" "js_lower (CHR ''|'' # s) = CHR ''|'' # js_lower s"
  "js_lower (CHR ''&'' # s) = CHR ''&'' # js_lower s" "js_lower (CHR ''('' # s) = CHR ''('' # js_lower s"
  "js_lower (CHR ''!'' # s) = CHR ''!'' # js_lower s"
  by (simp_all add: js_lower_def lower_char_def)

lemma lower_words [simp]: "js_lower ''OR'' = ''or''" "js_lower ''AND'' = ''and''"
  by code_simp+

lemma connective_view:
  assumes "balanced a" and "balanced b" and "c \<in> {CHR ''&'', CHR ''|''}"
    and "e = in_parens a @ [CHR '' '', c, c, CHR '' ''] @ in_parens b"
  obtains vs i2 i3 i4 i5 where "scanExpression e = Inr vs" "\<And>P. top_level P vs = filter P [i2, i3, i4, i5]"
    "js_slice i2 (i2 + 2) e = [CHR '' '', c]" "js_slice i3 (i3 + 2) e = [c, c]"
    "js_slice i4 (i4 + 2) e = [c, CHR '' '']" "js_slice i5 (i5 + 2) e = '' (''"
    "js_slice i2 (i2 + 3) e = [CHR '' '', c, c]" "js_slice i3 (i3 + 3) e = [c, c, CHR '' '']"
    "js_slice i4 (i4 + 3) e = [c, CHR '' '', CHR ''('']"
    "js_slice i5 (i5 + 3) e = CHR '' '' # js_slice 0 2 (in_parens b)"
    "js_slice 0 i3 e = in_parens a @ '' ''" "drop (i3 + 2) e = CHR '' '' # in_parens b"
proof -
  obtain vs where vs: "scanExpression e = Inr vs"
    "\<And>P. top_level P vs = filter P [length a + 2, length a + 3, length a + 4, length a + 5]"
    unfolding assms(4) by (rule scan_connective [OF assms(1-3)]) blast
  have arith: "length a + 2 + 2 = length a + 4" "length a + 3 + 2 = length a + 5" "length a + 4 + 2 = length a + 6"
    "length a + 5 + 2 = length a + 7" "length a + 2 + 3 = length a + 5" "length a + 3 + 3 = length a + 6"
    "length a + 4 + 3 = length a + 7" "length a + 5 + 3 = length a + 8" by simp_all
  note slices = connective_slices [of a c b, folded assms(4)]
  show thesis
    by (rule that [of vs "length a + 2" "length a + 3" "length a + 4" "length a + 5"])
      (simp_all only: vs arith slices)
qed

lemma connective_splits:
  assumes "balanced a" and "balanced b"
  shows "splitAnyTopLevel (in_parens a @ '' || '' @ in_parens b) [''||'', ''OR''] =
      Inr [in_parens a @ '' '', '' '' @ in_parens b]"
    and "splitAnyTopLevel (in_parens a @ '' && '' @ in_parens b) [''||'', ''OR''] =
      Inr [in_parens a @ '' && '' @ in_parens b]"
    and "splitAnyTopLevel (in_parens a @ '' && '' @ in_parens b) [''&&'', ''AND''] =
      Inr [in_parens a @ '' '', '' '' @ in_parens b]"
proof -
  define eo where "eo = in_parens a @ '' || '' @ in_parens b"
  define ea where "ea = in_parens a @ '' && '' @ in_parens b"
  show "splitAnyTopLevel (in_parens a @ '' || '' @ in_parens b) [''||'', ''OR''] =
      Inr [in_parens a @ '' '', '' '' @ in_parens b]"
    unfolding eo_def [symmetric]
    by (rule connective_view [OF assms _ eo_def]) (simp_all add: splitTopLevel_def parts_at_def)
  show "splitAnyTopLevel (in_parens a @ '' && '' @ in_parens b) [''||'', ''OR''] =
      Inr [in_parens a @ '' && '' @ in_parens b]"
    unfolding ea_def [symmetric]
    by (rule connective_view [OF assms _ ea_def])
      (simp_all add: splitTopLevel_def splitTopLevelWord_def parts_at_def slice_lower)
  show "splitAnyTopLevel (in_parens a @ '' && '' @ in_parens b) [''&&'', ''AND''] =
      Inr [in_parens a @ '' '', '' '' @ in_parens b]"
    unfolding ea_def [symmetric]
    by (rule connective_view [OF assms _ ea_def]) (simp_all add: splitTopLevel_def parts_at_def)
qed

lemma negation_scan:
  assumes "balanced a"
  obtains vs where "scanExpression (CHR ''!'' # in_parens a) = Inr vs" "\<And>P. top_level P vs = filter P [0]"
proof -
  obtain wa where wa: "\<forall>(j, m) \<in> set wa. m \<noteq> 0"
    "\<And>i r. scan_expr i 0 None False (CHR ''('' # a @ CHR '')'' # r) =
       map_sum id (\<lambda>us. map (\<lambda>(j, m). (j + i, m)) wa @ us) (scan_expr (i + length a + 2) 0 None False r)"
    by (rule scan_group [OF assms]) blast
  let ?vs = "(0, 0) # map (\<lambda>(j, m). (j + 1, m)) wa"
  have "scanExpression (CHR ''!'' # in_parens a) = Inr ?vs"
    using wa(2) [of 1 "[]"] by (simp add: scanExpression_def in_parens_def is_quote_def)
  moreover have "filter (\<lambda>(i, depth). depth = 0 \<and> P i) (map (\<lambda>(j, m). (j + 1, m)) wa) = []" for P
    using wa(1) by (auto simp: filter_empty_conv)
  then have "top_level P ?vs = filter P [0]" for P by (simp add: top_level_def del: filter_map)
  ultimately show thesis using that by blast
qed

lemma negation_splits:
  assumes "balanced a"
  shows "splitAnyTopLevel (CHR ''!'' # in_parens a) [''||'', ''OR''] = Inr [CHR ''!'' # in_parens a]"
    and "splitAnyTopLevel (CHR ''!'' # in_parens a) [''&&'', ''AND''] = Inr [CHR ''!'' # in_parens a]"
proof -
  obtain vs where vs: "scanExpression (CHR ''!'' # in_parens a) = Inr vs" "\<And>P. top_level P vs = filter P [0]"
    by (rule negation_scan [OF assms]) blast
  show "splitAnyTopLevel (CHR ''!'' # in_parens a) [''||'', ''OR''] = Inr [CHR ''!'' # in_parens a]"
    "splitAnyTopLevel (CHR ''!'' # in_parens a) [''&&'', ''AND''] = Inr [CHR ''!'' # in_parens a]"
    by (simp_all add: splitTopLevel_def splitTopLevelWord_def vs parts_at_def slice_lower)
      (simp_all add: js_slice_def eval_nat_numeral)
qed

lemma balanced_show: "well_formed b \<Longrightarrow> balanced (show_cond b)"
proof (induction b)
  case (CNot a)
  then show ?case by (auto simp: balanced_def intro: negation_scan [of "show_cond a"])
next
  case (CAnd a b)
  then show ?case using scan_connective [of "show_cond a" "show_cond b" "CHR ''&''"] by (auto simp: balanced_def)
next
  case (COr a b)
  then show ?case using scan_connective [of "show_cond a" "show_cond b" "CHR ''|''"] by (auto simp: balanced_def)
qed (simp add: balanced_atom)

section \<open>The evaluator on composed text\<close>

lemma trim_group: "js_trim (in_parens a) = in_parens a"
  by (rule trim_unchanged) simp_all

lemma strip_group:
  assumes "balanced a" and "js_trim t = in_parens a"
  shows "stripOuterParens (js_trim t) = stripOuterParens (js_trim a)"
proof -
  have "strip_outer (in_parens a) = strip_outer (js_trim a)"
    using close_group [OF assms(1), of "[]"]
    by (subst strip_outer.simps) (simp add: in_parens_def starts_with_def ends_with_def js_slice_def)
  with assms(2) show ?thesis by (simp add: stripOuterParens_def trim_group)
qed

lemma evalExpr_group:
  assumes "balanced a" and "js_trim t = in_parens a"
  shows "evalExpr regex ctx t = evalExpr regex ctx a"
  by (subst (1 2) evalExpr.simps) (simp only: strip_group [OF assms])

lemma trim_spaced_group: "js_trim (in_parens a @ '' '') = in_parens a" "js_trim (CHR '' '' # in_parens a) = in_parens a"
proof -
  have "is_space CHR '' ''" by (simp add: is_space_def)
  with trim_group [of a] show "js_trim (in_parens a @ '' '') = in_parens a" "js_trim (CHR '' '' # in_parens a) = in_parens a"
    by (simp_all add: js_trim_def in_parens_def)
qed

lemma connective_strip:
  assumes "balanced a" and "t = in_parens a @ m @ in_parens b"
  shows "stripOuterParens (js_trim t) = Inr t"
proof -
  have trim: "js_trim t = t" by (rule trim_unchanged) (simp_all add: assms(2))
  have "outer_close 0 0 None False t = Inr (Some (Suc (length a)))"
    using close_group [OF assms(1), of "m @ in_parens b"] by (simp add: assms(2) in_parens_def)
  moreover have "Suc (length a) \<noteq> length t - 1" by (simp add: assms(2))
  ultimately have "strip_outer t = Inr t" by (subst strip_outer.simps) simp
  then show ?thesis by (simp add: stripOuterParens_def trim)
qed

lemma part_not_blank: "js_trim (in_parens a @ '' '') \<noteq> []" "js_trim ('' '' @ in_parens b) \<noteq> []"
  using trim_spaced_group by simp_all

lemma evalExpr_show:
  "well_formed b \<Longrightarrow> evalExpr regex ctx (show_cond b) = cond_value regex ctx b"
proof (induction b)
  case (Atom s)
  then show ?case by (subst evalExpr.simps) (simp add: plain_atom_def)
next
  case (CNot a)
  have bal: "balanced (show_cond a)" using CNot.prems by (simp add: balanced_show)
  let ?t = "CHR ''!'' # in_parens (show_cond a)"
  have trim: "js_trim ?t = ?t" by (rule trim_unchanged) simp_all
  have strip: "stripOuterParens (js_trim ?t) = Inr ?t"
    unfolding stripOuterParens_def trim by (subst strip_outer.simps) (simp add: trim starts_with_def)
  have "evalExpr regex ctx (in_parens (show_cond a)) = cond_value regex ctx a"
    using evalExpr_group [OF bal trim_group] CNot by simp
  then show ?case
    unfolding show_cond.simps
    by (subst evalExpr.simps) (simp add: strip negation_splits [OF bal] starts_with_def trim_group
        del: splitAnyTopLevel.simps)
next
  case (CAnd a b)
  let ?a = "show_cond a" and ?b = "show_cond b"
  have bal: "balanced ?a" "balanced ?b" using CAnd.prems by (simp_all add: balanced_show)
  note strip = connective_strip [OF bal(1) refl, of "'' && ''" ?b]
  have parts: "evalExpr regex ctx (in_parens ?a @ '' '') = cond_value regex ctx a"
    "evalExpr regex ctx ('' '' @ in_parens ?b) = cond_value regex ctx b"
    using evalExpr_group [OF bal(1) trim_spaced_group(1)] evalExpr_group [OF bal(2) trim_spaced_group(2)] CAnd by simp_all
  show ?case
    unfolding show_cond.simps
    by (subst evalExpr.simps)
      (simp only: strip connective_splits [OF bal] parts part_not_blank sum.case list.size list_ex_Nil_iff list_ex_Cons_iff
        every_part.simps cond_value.simps if_True if_False append_is_Nil_conv group_head_last, simp)
next
  case (COr a b)
  let ?a = "show_cond a" and ?b = "show_cond b"
  have bal: "balanced ?a" "balanced ?b" using COr.prems by (simp_all add: balanced_show)
  note strip = connective_strip [OF bal(1) refl, of "'' || ''" ?b]
  have parts: "evalExpr regex ctx (in_parens ?a @ '' '') = cond_value regex ctx a"
    "evalExpr regex ctx ('' '' @ in_parens ?b) = cond_value regex ctx b"
    using evalExpr_group [OF bal(1) trim_spaced_group(1)] evalExpr_group [OF bal(2) trim_spaced_group(2)] COr by simp_all
  show ?case
    unfolding show_cond.simps
    by (subst evalExpr.simps)
      (simp only: strip connective_splits [OF bal] parts part_not_blank sum.case list.size list_ex_Nil_iff list_ex_Cons_iff
        some_part.simps cond_value.simps if_True if_False append_is_Nil_conv group_head_last, simp)
qed

section \<open>Malformed text\<close>

definition malformed :: "string \<Rightarrow> bool" where
  "malformed s \<longleftrightarrow> \<not> balanced s"

lemma scan_spaces: "list_all is_space w \<Longrightarrow> balanced w"
proof -
  have "\<exists>vs. scan_expr i 0 None False w = Inr vs" if "list_all is_space w" for i w
    using that
  proof (induction w arbitrary: i)
    case (Cons c w)
    then have "\<not> is_quote c" "c \<noteq> CHR ''(''" "c \<noteq> CHR '')''" by (auto simp: is_space_def is_quote_def)
    moreover obtain vs where "scan_expr (Suc i) 0 None False w = Inr vs" using Cons by fastforce
    ultimately show ?case by simp
  qed simp
  then show "list_all is_space w \<Longrightarrow> balanced w" by (simp add: balanced_def scanExpression_def)
qed

lemma balanced_append: "balanced a \<Longrightarrow> balanced b \<Longrightarrow> balanced (a @ b)"
proof -
  assume "balanced a" "balanced b"
  then obtain va vb where "scan_expr 0 0 None False a = Inr va" "scan_expr 0 0 None False b = Inr vb"
    by (auto simp: balanced_def scanExpression_def)
  with scan_append [of 0 0 None False a va 0 b] scan_shift [of 0 "length a" 0 None False b]
  show ?thesis by (simp add: balanced_def scanExpression_def)
qed

lemma malformed_trim: "malformed s \<Longrightarrow> malformed (js_trim s)"
proof -
  have "balanced s" if "balanced (js_trim s)"
  proof -
    let ?t = "dropWhile is_space s"
    have "s = takeWhile is_space s @ js_trim s @ rev (takeWhile is_space (rev ?t))"
      by (metis append.assoc js_trim_def rev_append rev_rev_ident takeWhile_dropWhile_id)
    moreover have "list_all is_space (takeWhile is_space s)" "list_all is_space (rev (takeWhile is_space (rev ?t)))"
      by (auto simp: list_all_iff dest: set_takeWhileD)
    ultimately show ?thesis using that scan_spaces balanced_append by metis
  qed
  then show "malformed s \<Longrightarrow> malformed (js_trim s)" by (auto simp: malformed_def)
qed

lemma outer_close_scan:
  "outer_close j k q e s = Inr (Some c) \<Longrightarrow> Suc c = j + length s \<Longrightarrow> \<exists>vs. scan_expr i k q e s = Inr vs"
proof (induction j k q e s arbitrary: i rule: outer_close.induct)
  case (3 j depth escaped c' cs)
  have lt: "j \<le> x \<and> x < j + length t" if "outer_close j d q e t = Inr (Some x)" for j d q e t x
    using that by (induction j d q e t rule: outer_close.induct) (auto split: if_splits)
  consider "is_quote c'" | "\<not> is_quote c'" "c' = CHR ''(''" | "\<not> is_quote c'" "c' = CHR '')''" "depth = 1" |
    "\<not> is_quote c'" "c' = CHR '')''" "depth \<noteq> 1" | "\<not> is_quote c'" "c' \<noteq> CHR ''(''" "c' \<noteq> CHR '')''"
    by (cases "is_quote c'"; cases "c' = CHR ''(''"; cases "c' = CHR '')''"; cases "depth = 1") iprover+
  then show ?case
  proof cases
    case 5
    then obtain vs where "scan_expr (Suc i) depth None False cs = Inr vs"
      using "3.IH"(4) "3.prems" by fastforce
    with 5 show ?thesis by simp
  qed (use 3 in \<open>auto split: if_splits\<close>)
qed (auto split: if_splits)

lemma malformed_strip: "malformed t \<Longrightarrow> stripOuterParens t = Inr u \<Longrightarrow> malformed u"
proof -
  assume m: "malformed t" and s: "stripOuterParens t = Inr u"
  have t: "malformed (js_trim t)" using m by (rule malformed_trim)
  then have "outer_close 0 0 None False (js_trim t) \<noteq> Inr (Some (length (js_trim t) - 1))"
    using outer_close_scan [of 0 0 None False "js_trim t" "length (js_trim t) - 1" 0]
    by (cases "js_trim t = []") (auto simp: malformed_def balanced_def scanExpression_def)
  then have "u = js_trim t"
    using s unfolding stripOuterParens_def
    by (subst (asm) strip_outer.simps) (auto split: sum.splits if_splits)
  with t show ?thesis by simp
qed

lemma evalExpr_malformed: "malformed s \<Longrightarrow> \<exists>e. evalExpr regex ctx s = Inl e"
proof -
  assume "malformed s"
  then have t: "malformed (js_trim s)" by (rule malformed_trim)
  show ?thesis
  proof (cases "stripOuterParens (js_trim s)")
    case (Inr u)
    then have "malformed u" by (rule malformed_strip [OF t])
    then obtain e where e: "scanExpression u = Inl e"
      by (cases "scanExpression u") (auto simp: malformed_def balanced_def)
    then have "u \<noteq> []" by (auto simp: scanExpression_def)
    with e Inr show ?thesis by (subst evalExpr.simps) (simp add: splitTopLevel_def)
  qed (subst evalExpr.simps, simp)
qed

section \<open>Properties\<close>

text \<open>C13: The text evaluator is faithful to the structure of conditions: the text of any condition
  built with negation, conjunction and disjunction over atoms (with arbitrary quoted strings and
  parentheses inside them) evaluates to the value of its syntax tree, where a part is evaluated
  only when the parts before it leave the result open, and an error of a part makes it false.\<close>

theorem condition_text_faithful:
  assumes "well_formed b" and "length (show_cond b) \<le> MAX_EXPRESSION_LENGTH" and "js_truthy ctx"
  shows "evaluateCondition regex (Some (show_cond b)) ctx =
    (case cond_value regex ctx b of Inl _ \<Rightarrow> False | Inr v \<Rightarrow> v)"
proof -
  have "js_trim (show_cond b) \<noteq> []"
  proof (cases b)
    case (Atom s)
    then have "strip_outer (js_trim s) = Inr s" "s \<noteq> []"
      using assms(1) by (simp_all add: plain_atom_def stripOuterParens_def)
    then show ?thesis using strip_outer_length [of "js_trim s" s] Atom by auto
  next
    case (CNot a)
    then have "js_trim (show_cond b) = show_cond b" by (intro trim_unchanged) simp_all
    then show ?thesis by (simp add: CNot)
  next
    case (CAnd x y)
    then have "js_trim (show_cond b) = show_cond b" by (intro trim_unchanged) simp_all
    then show ?thesis by (simp add: CAnd)
  next
    case (COr x y)
    then have "js_trim (show_cond b) = show_cond b" by (intro trim_unchanged) simp_all
    then show ?thesis by (simp add: COr)
  qed
  with assms show ?thesis by (simp add: evaluateCondition_def evalExpr_show js_or_def)
qed

theorem condition_text_faithful_witness:
  "evaluateCondition (\<lambda>_ _. None)
     (Some (show_cond (CAnd (Atom ''exit_code == 0'') (CNot (Atom ''output contains \"(OR\"'')))))
     (JObj [(''exit_code'', JNum 0), (''output'', JStr ''all (OR nothing'')]) = False"
proof -
  let ?b = "CAnd (Atom ''exit_code == 0'') (CNot (Atom ''output contains \"(OR\"''))"
  let ?ctx = "JObj [(''exit_code'', JNum 0), (''output'', JStr ''all (OR nothing'')]"
  have h: "well_formed ?b" "js_truthy ?ctx" by code_simp+
  have l: "length (show_cond ?b) \<le> MAX_EXPRESSION_LENGTH" by (simp add: MAX_EXPRESSION_LENGTH_def)
  have v: "(case cond_value (\<lambda>_ _. None) ?ctx ?b of Inl _ \<Rightarrow> False | Inr v \<Rightarrow> v) = False" by code_simp
  show ?thesis unfolding condition_text_faithful [OF h(1) l h(2)] by (rule v)
qed

text \<open>Conditions fail closed: text whose quotes or parentheses do not match anywhere, however
  deep, never makes a workflow edge pass.\<close>

theorem malformed_condition_false:
  assumes "scanExpression s = Inl e" and "js_trim s \<noteq> []"
  shows "\<not> evaluateCondition regex (Some s) ctx"
proof -
  have "malformed s" using assms(1) by (simp add: malformed_def balanced_def)
  then obtain e' where "evalExpr regex (js_or ctx (JObj [])) s = Inl e'" using evalExpr_malformed by blast
  with assms(2) show ?thesis by (simp add: evaluateCondition_def)
qed

theorem malformed_condition_false_witness:
  "\<not> evaluateCondition (\<lambda>_ _. None) (Some ''(status == \"completed\") || (x'') (JObj [(''status'', JStr ''completed'')])"
  by (rule malformed_condition_false [of _ Unbalanced_parentheses]) code_simp+

end
