(* ===== verification/Merge_Join.thy ===== *)
theory Merge_Join
  imports Rows
begin

text \<open>
  The join policies of merge nodes, \<open>server/execution/parallel-merge.js\<close>: given the statuses of the
  branches, whether the merge node may start and why.

  Lemmas: the counts partition the branches, and each policy unblocks exactly when it should.
\<close>

record join_dep =
  join_task :: jsval
  join_status :: jsval

datatype join_reason =
    No_dependencies | First_success | No_successful_dependency | Waiting_for_success
  | All_terminal | Waiting_for_all | Unsupported_policy

record join_result =
  join_policy :: string
  unblock :: bool
  join_why :: join_reason
  join_total :: nat
  join_terminal :: nat
  join_successful :: nat
  join_failed :: nat

definition TERMINAL_STATUSES :: "string list" where
  "TERMINAL_STATUSES = [''completed'', ''failed'', ''cancelled'', ''skipped'']"

definition SUCCESS_STATUSES :: "string list" where
  "SUCCESS_STATUSES = [''completed'', ''skipped'']"

definition normalizeDeps :: "join_dep list \<Rightarrow> (jsval \<times> string) list" where
  "normalizeDeps ds = map (\<lambda>dep. (js_or (join_task dep) JNull,
     js_lower (js_trim (js_string (js_or (join_status dep) (JStr []))))))  ds"

definition evaluateMergeJoin :: "string \<Rightarrow> join_dep list \<Rightarrow> join_result" where
  "evaluateMergeJoin policy ds =
     (let normalized = normalizeDeps ds; total = length normalized;
          terminal = count_where (\<lambda>d. snd d \<in> set TERMINAL_STATUSES) normalized;
          successful = count_where (\<lambda>d. snd d \<in> set SUCCESS_STATUSES) normalized;
          failed = count_where (\<lambda>d. snd d = ''failed'' \<or> snd d = ''cancelled'') normalized;
          result = (\<lambda>u why s. \<lparr>join_policy = policy, unblock = u, join_why = why, join_total = total,
             join_terminal = terminal, join_successful = s, join_failed = failed\<rparr>) in
      if total = 0 then result True No_dependencies 0
      else if policy = ''first_success'' then
        (if 0 < successful then result True First_success successful
         else result False (if terminal = total then No_successful_dependency else Waiting_for_success) 0)
      else if policy = ''wait_all'' then
        result (terminal = total) (if terminal = total then All_terminal else Waiting_for_all) successful
      else result False Unsupported_policy successful)"

definition activeFanoutCount :: "db_row list \<Rightarrow> nat" where
  "activeFanoutCount ts = count_where
     (\<lambda>t. col t ''status'' \<in> JStr ` set [''queued'', ''pending'', ''running'', ''pending_provider_switch'']) ts"

section \<open>Laws\<close>

definition branch_status :: "join_dep \<Rightarrow> string" where
  "branch_status dep = js_lower (js_trim (js_string (js_or (join_status dep) (JStr []))))"

lemma count_normalized:
  "count_where (\<lambda>d. P (snd d)) (normalizeDeps ds) = count_where (\<lambda>dep. P (branch_status dep)) ds"
  by (induction ds) (auto simp: normalizeDeps_def branch_status_def)

lemma count_where_all: "count_where P xs = length xs \<longleftrightarrow> (\<forall>x \<in> set xs. P x)"
proof (induction xs)
  case (Cons x xs)
  then show ?case using count_where_le [of P xs] by auto
qed simp

lemma count_where_pos: "0 < count_where P xs \<longleftrightarrow> (\<exists>x \<in> set xs. P x)"
  using count_where_zero [of P xs] by auto

lemma terminal_split:
  "count_where (\<lambda>d. f d \<in> set TERMINAL_STATUSES) xs =
   count_where (\<lambda>d. f d \<in> set SUCCESS_STATUSES) xs + count_where (\<lambda>d. f d = ''failed'' \<or> f d = ''cancelled'') xs"
  by (induction xs) (auto simp: TERMINAL_STATUSES_def SUCCESS_STATUSES_def)

lemma length_normalized [simp]: "length (normalizeDeps ds) = length ds"
  by (simp add: normalizeDeps_def)

lemma normalizeDeps_eq_Nil [simp]: "normalizeDeps ds = [] \<longleftrightarrow> ds = []"
  by (simp add: normalizeDeps_def)

lemma wait_all_unblocks:
  "unblock (evaluateMergeJoin ''wait_all'' ds) \<longleftrightarrow> (\<forall>d \<in> set ds. branch_status d \<in> set TERMINAL_STATUSES)"
  by (cases "ds = []")
    (simp_all add: evaluateMergeJoin_def Let_def count_where_all count_normalized [of "\<lambda>s. s \<in> set TERMINAL_STATUSES" ds])

lemma first_success_unblocks:
  "unblock (evaluateMergeJoin ''first_success'' ds) \<longleftrightarrow> ds = [] \<or> (\<exists>d \<in> set ds. branch_status d \<in> set SUCCESS_STATUSES)"
  by (cases "ds = []")
    (simp_all add: evaluateMergeJoin_def Let_def count_normalized [of "\<lambda>s. s \<in> set SUCCESS_STATUSES" ds] count_where_pos)

lemma unsupported_policy:
  "policy \<noteq> ''wait_all'' \<Longrightarrow> policy \<noteq> ''first_success'' \<Longrightarrow> unblock (evaluateMergeJoin policy ds) \<longleftrightarrow> ds = []"
  by (cases "ds = []") (simp_all add: evaluateMergeJoin_def Let_def)

section \<open>Properties\<close>

text \<open>A merge node waiting for all branches starts exactly when every branch is finished, one
  waiting for a first success exactly when some branch completed or was skipped (or there are no
  branches), and the reported counts partition the finished branches into successful and failed.\<close>

theorem merge_join_decision:
  "(unblock (evaluateMergeJoin ''wait_all'' ds) \<longleftrightarrow> (\<forall>d \<in> set ds. branch_status d \<in> set TERMINAL_STATUSES)) \<and>
   (unblock (evaluateMergeJoin ''first_success'' ds) \<longleftrightarrow> ds = [] \<or> (\<exists>d \<in> set ds. branch_status d \<in> set SUCCESS_STATUSES)) \<and>
   join_terminal (evaluateMergeJoin ''wait_all'' ds) =
     join_successful (evaluateMergeJoin ''wait_all'' ds) + join_failed (evaluateMergeJoin ''wait_all'' ds)"
proof -
  have "join_terminal (evaluateMergeJoin ''wait_all'' ds) =
     join_successful (evaluateMergeJoin ''wait_all'' ds) + join_failed (evaluateMergeJoin ''wait_all'' ds)"
    using terminal_split [of snd "normalizeDeps ds"]
    by (cases ds) (auto simp: evaluateMergeJoin_def Let_def normalizeDeps_def)
  moreover note wait_all_unblocks [of ds]
  moreover note first_success_unblocks [of ds]
  ultimately show ?thesis by blast
qed

definition sample_branches :: "join_dep list" where
  "sample_branches =
     [\<lparr>join_task = JStr ''a'', join_status = JStr ''Completed ''\<rparr>, \<lparr>join_task = JStr ''b'', join_status = JStr ''running''\<rparr>]"

theorem merge_join_decision_witness:
  "\<not> unblock (evaluateMergeJoin ''wait_all'' sample_branches) \<and>
   unblock (evaluateMergeJoin ''first_success'' sample_branches)"
proof -
  have "\<not> (\<forall>d \<in> set sample_branches. branch_status d \<in> set TERMINAL_STATUSES)"
    and "\<exists>d \<in> set sample_branches. branch_status d \<in> set SUCCESS_STATUSES"
    by code_simp+
  then show ?thesis using merge_join_decision [of sample_branches] by blast
qed

end
