(* ===== verification/Workflow_Engine.thy ===== *)
theory Workflow_Engine
  imports Task_Store Condition_Eval Merge_Join
begin

text \<open>
  The workflow engine, \<open>server/db/workflow-engine.js\<close>: the lifecycle of workflow rows, the dependency
  graph of the tasks of a workflow with its cycle check, the edge conditions that unblock a task,
  and the aggregation of the task statuses into the counts and the status of the workflow.

  The state is \<open>tdb\<close>. \<open>next_dep_id\<close> is the AUTOINCREMENT counter of \<open>task_dependencies\<close>. A
  \<open>db.transaction\<close> that throws leaves the state it started from. The RegExp engine is the parameter
  \<open>regex\<close>. \<open>wouldCreateCycle\<close> searches with a recursion depth given by fuel; \<open>None\<close> stands for a
  search that has not ended, and \<open>Workflow_Graph\<close> shows the depth used here is enough.
\<close>

section \<open>Workflow rows\<close>

definition parsed_object :: "jsval \<Rightarrow> jsval" where
  "parsed_object v = (case v of JObj _ \<Rightarrow> v | JArr _ \<Rightarrow> v | _ \<Rightarrow> JNull)"

definition parse_workflow :: "db_row \<Rightarrow> db_row" where
  "parse_workflow r = set_col ''context'' (parsed_object (col r ''context'')) r"

definition getWorkflow :: "string \<Rightarrow> tdb \<Rightarrow> db_row option" where
  "getWorkflow w d = map_option parse_workflow (lookup_row w (workflows d))"

definition createWorkflow :: "int \<Rightarrow> jsobj \<Rightarrow> tdb \<Rightarrow> db_row option db_result" where
  "createWorkflow now workflow d =
     (let f = obj_get workflow; opt = (\<lambda>k. js_or (f k) JNull) in
      if is_nullish (f ''name'') then (Inl (Other_error ''NOT NULL constraint failed: workflows.name''), d)
      else if list_ex (\<lambda>r. sql_eq (col r ''id'') (f ''id'')) (workflows d)
      then (Inl (Other_error ''UNIQUE constraint failed: workflows.id''), d)
      else
        let row = set_cols
              [(''id'', f ''id''), (''name'', f ''name''), (''description'', opt ''description''),
               (''working_directory'', opt ''working_directory''),
               (''status'', js_or (f ''status'') (JStr ''pending'')), (''template_id'', opt ''template_id''),
               (''context'', opt ''context''), (''priority'', js_or (f ''priority'') (JNum 0)),
               (''cost_ceiling_usd'', js_coalesce (f ''cost_ceiling_usd'') JNull),
               (''task_count_ceiling'', js_coalesce (f ''task_count_ceiling'') JNull),
               (''created_at'', iso now), (''total_tasks'', JNum 0), (''completed_tasks'', JNum 0),
               (''failed_tasks'', JNum 0), (''skipped_tasks'', JNum 0)] [];
            d' = d\<lparr>workflows := workflows d @ [row]\<rparr> in
        (Inr (case f ''id'' of JStr w \<Rightarrow> getWorkflow w d' | _ \<Rightarrow> None), d'))"

definition in_workflow :: "string \<Rightarrow> db_row \<Rightarrow> bool" where
  "in_workflow w t = (col t ''workflow_id'' = JStr w)"

definition getWorkflowTaskCount :: "string \<Rightarrow> tdb \<Rightarrow> nat" where
  "getWorkflowTaskCount w d = count_where (in_workflow w) (tasks d)"

definition findEmptyWorkflowPlaceholder :: "string \<Rightarrow> string \<Rightarrow> tdb \<Rightarrow> db_row option" where
  "findEmptyWorkflowPlaceholder name status d =
     (case sort_key (\<lambda>r. - num_of (col r ''created_at''))
         (filter (\<lambda>r. sql_eq (col r ''name'') (JStr name) \<and> sql_eq (col r ''status'') (JStr status) \<and>
            \<not> list_ex (\<lambda>t. sql_eq (col t ''workflow_id'') (col r ''id'')) (tasks d)) (workflows d)) of
        [] \<Rightarrow> None
      | r # _ \<Rightarrow> Some (parse_workflow r))"

definition UPDATABLE_WORKFLOW_COLUMNS :: "string list" where
  "UPDATABLE_WORKFLOW_COLUMNS = [''name'', ''description'', ''status'', ''total_tasks'', ''completed_tasks'',
     ''failed_tasks'', ''skipped_tasks'', ''started_at'', ''completed_at'', ''context'', ''priority'',
     ''economy_policy'']"

definition workflow_updates :: "jsobj \<Rightarrow> (string \<times> jsval) list" where
  "workflow_updates updates = map (\<lambda>c. (c, obj_get updates c))
     (filter (\<lambda>c. obj_get updates c \<noteq> JUndef) UPDATABLE_WORKFLOW_COLUMNS)"

definition updateWorkflow :: "string \<Rightarrow> jsobj \<Rightarrow> tdb \<Rightarrow> db_row option \<times> tdb" where
  "updateWorkflow w updates d =
     (let changed = workflow_updates updates in
      if changed = [] then (getWorkflow w d, d)
      else
        let d' = d\<lparr>workflows := update_row w (set_cols changed) (workflows d)\<rparr> in (getWorkflow w d', d'))"

definition TRANSITION_COLUMNS :: "string list" where
  "TRANSITION_COLUMNS = [''name'', ''description'', ''status'', ''context'', ''economy_policy'',
     ''error_message'', ''completed_at'']"

text \<open>A single source status is the list of that status.\<close>

definition transitionWorkflowStatus :: "string \<Rightarrow> string list \<Rightarrow> string \<Rightarrow> jsobj \<Rightarrow> tdb \<Rightarrow> bool \<times> tdb" where
  "transitionWorkflowStatus w fromStatus toStatus additionalUpdates d =
     (let updates = (''status'', JStr toStatus) # filter (\<lambda>(c, _). c \<in> set TRANSITION_COLUMNS) additionalUpdates;
          hit = (\<lambda>r. has_id w r \<and> col r ''status'' \<in> JStr ` set fromStatus) in
      (0 < count_where hit (workflows d), d\<lparr>workflows := map_where hit (set_cols updates) (workflows d)\<rparr>))"

definition deleteWorkflow :: "string \<Rightarrow> tdb \<Rightarrow> bool \<times> tdb" where
  "deleteWorkflow w d =
     (list_ex (has_id w) (workflows d),
      d\<lparr>tasks := map_where (in_workflow w) (set_cols [(''workflow_id'', JNull)]) (tasks d),
        deps := filter (\<lambda>e. dep_workflow e \<noteq> w) (deps d),
        workflows := filter (\<lambda>r. \<not> has_id w r) (workflows d)\<rparr>)"

definition cleanupOldWorkflows :: "int \<Rightarrow> int \<Rightarrow> tdb \<Rightarrow> nat \<times> tdb" where
  "cleanupOldWorkflows now retentionDays d =
     (let cutoff = now - retentionDays * 86400000;
          old = map (\<lambda>r. str_of (col r ''id'')) (filter (\<lambda>r.
            col r ''status'' \<in> JStr ` set [''completed'', ''failed'', ''cancelled''] \<and>
            before (col r ''created_at'') cutoff) (workflows d)) in
      (length old, fold (\<lambda>w acc. snd (deleteWorkflow w acc)) old d))"

section \<open>Counts and status\<close>

definition TERMINAL_DEPENDENCY_STATUSES :: "string list" where
  "TERMINAL_DEPENDENCY_STATUSES = [''completed'', ''failed'', ''cancelled'', ''skipped'']"

definition count_status :: "string \<Rightarrow> string \<Rightarrow> tdb \<Rightarrow> nat" where
  "count_status w s d = count_where (\<lambda>t. in_workflow w t \<and> col t ''status'' = JStr s) (tasks d)"

definition js_nat :: "nat \<Rightarrow> jsval" where
  "js_nat n = JNum (of_nat n)"

record workflow_counts =
  total_tasks :: nat
  completed_tasks :: nat
  failed_tasks :: nat
  skipped_tasks :: nat

definition counts_patch :: "workflow_counts \<Rightarrow> jsobj" where
  "counts_patch c = [(''total_tasks'', js_nat (total_tasks c)), (''completed_tasks'', js_nat (completed_tasks c)),
     (''failed_tasks'', js_nat (failed_tasks c)), (''skipped_tasks'', js_nat (skipped_tasks c))]"

definition nonterminal_count :: "string \<Rightarrow> tdb \<Rightarrow> nat" where
  "nonterminal_count w d = count_where (\<lambda>t. in_workflow w t \<and>
     col t ''status'' \<notin> JStr ` set TERMINAL_DEPENDENCY_STATUSES) (tasks d)"

definition updateWorkflowCounts :: "int \<Rightarrow> string \<Rightarrow> tdb \<Rightarrow> workflow_counts \<times> tdb" where
  "updateWorkflowCounts now w d =
     (case getWorkflow w d of
        None \<Rightarrow> (\<lparr>total_tasks = 0, completed_tasks = 0, failed_tasks = 0, skipped_tasks = 0\<rparr>, d)
      | Some workflow \<Rightarrow>
          let total = getWorkflowTaskCount w d;
              counts = \<lparr>total_tasks = total, completed_tasks = count_status w ''completed'' d,
                failed_tasks = count_status w ''failed'' d, skipped_tasks = count_status w ''skipped'' d\<rparr> in
          if col workflow ''status'' \<in> JStr ` set [''completed'', ''failed'', ''cancelled''] then (counts, d)
          else
            let d1 = snd (updateWorkflow w (counts_patch counts) d) in
            if nonterminal_count w d = 0 \<and> 0 < total then
              let finalStatus = (if 0 < failed_tasks counts then ''failed''
                    else if count_status w ''cancelled'' d = total then ''cancelled'' else ''completed'') in
              (counts, snd (updateWorkflow w [(''status'', JStr finalStatus), (''completed_at'', iso now)] d1))
            else (counts, d1))"

text \<open>
  \<open>reconcileStaleWorkflows\<close>: \<open>rows\<close> are read once, before the loop.
\<close>

definition stale_final_status :: "string \<Rightarrow> tdb \<Rightarrow> string" where
  "stale_final_status w d =
     (if \<not> (0 < count_status w ''failed'' d \<or> 0 < count_status w ''cancelled'' d) then ''completed''
      else if 0 < count_status w ''completed'' d then ''completed_with_errors'' else ''failed'')"

definition stale_rows :: "string option \<Rightarrow> tdb \<Rightarrow> string list" where
  "stale_rows filter_id d = map (\<lambda>r. str_of (col r ''id'')) (filter (\<lambda>r.
     col r ''status'' \<in> JStr ` set [''pending'', ''running'', ''paused''] \<and>
     (case filter_id of None \<Rightarrow> True | Some w \<Rightarrow> w = [] \<or> has_id w r) \<and>
     0 < getWorkflowTaskCount (str_of (col r ''id'')) d) (workflows d))"

definition reconcileStaleWorkflows :: "int \<Rightarrow> string option \<Rightarrow> tdb \<Rightarrow> nat \<times> tdb" where
  "reconcileStaleWorkflows now filter_id d =
     (let rows = map (\<lambda>w. (w, stale_final_status w d, nonterminal_count w d = 0)) (stale_rows filter_id d) in
      fold (\<lambda>(w, finalStatus, finished) (reconciled, acc).
         if \<not> finished then (reconciled, acc)
         else (reconciled + 1, snd (updateWorkflowCounts now w
           (snd (updateWorkflow w [(''status'', JStr finalStatus), (''completed_at'', iso now)] acc)))))
       rows (0, d))"

section \<open>Workflows that never started\<close>

record dormant_result =
  workflows_cancelled :: nat
  tasks_cancelled :: nat
  workflow_ids :: "string list"
  skipped_reason :: "string option"

definition never_started :: "db_row \<Rightarrow> bool" where
  "never_started t = (col t ''status'' \<in> JStr ` set [''pending'', ''blocked''])"

definition dormant_shape :: "string \<Rightarrow> tdb \<Rightarrow> bool" where
  "dormant_shape w d = (0 < getWorkflowTaskCount w d \<and>
     count_where (\<lambda>t. in_workflow w t \<and> \<not> is_nullish (col t ''status'') \<and> \<not> never_started t) (tasks d) = 0)"

definition is_pending_workflow :: "string \<Rightarrow> db_row \<Rightarrow> bool" where
  "is_pending_workflow w r = (has_id w r \<and> col r ''status'' = JStr ''pending'')"

definition cancel_dormant_tasks :: "int \<Rightarrow> string \<Rightarrow> string \<Rightarrow> tdb \<Rightarrow> nat \<times> tdb" where
  "cancel_dormant_tasks now reason w d =
     (let hit = (\<lambda>t. in_workflow w t \<and> never_started t) in
      (count_where hit (tasks d),
       d\<lparr>tasks := map_where hit (\<lambda>t. set_cols
          [(''status'', JStr ''cancelled''), (''completed_at'', iso now),
           (''cancel_reason'', JStr ''stale_pending_workflow''),
           (''error_output'', JStr ((case col t ''error_output'' of JNull \<Rightarrow> [] | v \<Rightarrow> js_string v @ [CHR 0x0A]) @ reason))]
          t) (tasks d)\<rparr>))"

definition cancel_dormant_workflow :: "int \<Rightarrow> string \<Rightarrow> tdb \<Rightarrow> nat \<times> tdb" where
  "cancel_dormant_workflow now w d =
     (count_where (is_pending_workflow w) (workflows d),
      d\<lparr>workflows := map_where (is_pending_workflow w) (set_cols
         [(''status'', JStr ''cancelled''), (''completed_at'', iso now),
          (''total_tasks'', js_nat (getWorkflowTaskCount w d))]) (workflows d)\<rparr>)"

definition dormant_step :: "int \<Rightarrow> string \<Rightarrow> string \<Rightarrow> dormant_result \<times> tdb \<Rightarrow> dormant_result \<times> tdb" where
  "dormant_step now reason w acc = (case acc of (res, d) \<Rightarrow>
     if \<not> list_ex (is_pending_workflow w) (workflows d) \<or> \<not> dormant_shape w d then (res, d)
     else
       (case cancel_dormant_workflow now w d of (changes, d1) \<Rightarrow>
          if changes = 0 then (res, d1)
          else
            (case cancel_dormant_tasks now reason w d1 of (taskChanges, d2) \<Rightarrow>
               (res\<lparr>workflows_cancelled := workflows_cancelled res + changes,
                  tasks_cancelled := tasks_cancelled res + taskChanges,
                  workflow_ids := workflow_ids res @ [w]\<rparr>, d2))))"

definition dormant_candidates :: "int \<Rightarrow> tdb \<Rightarrow> string list" where
  "dormant_candidates cutoff d = map (\<lambda>r. str_of (col r ''id'')) (filter (\<lambda>r.
     col r ''status'' = JStr ''pending'' \<and> before (col r ''created_at'') cutoff \<and>
     dormant_shape (str_of (col r ''id'')) d) (workflows d))"

definition cleanupDormantPendingWorkflows :: "int \<Rightarrow> jsval \<Rightarrow> tdb \<Rightarrow> dormant_result \<times> tdb" where
  "cleanupDormantPendingWorkflows now ageMinutes d =
     (let none = (\<lambda>why. \<lparr>workflows_cancelled = 0, tasks_cancelled = 0, workflow_ids = [], skipped_reason = why\<rparr>) in
      case parseInt (js_string ageMinutes) of
        None \<Rightarrow> (none (Some ''disabled''), d)
      | Some minutes \<Rightarrow>
          if minutes \<le> 0 then (none (Some ''disabled''), d)
          else
            fold (dormant_step now (''Workflow cancelled: pending for more than '' @ int_string minutes
                @ '' minutes without starting''))
              (dormant_candidates (now - minutes * 60000) d) (none None, d))"

section \<open>The dependency graph\<close>

definition getWorkflowDependencies :: "string \<Rightarrow> tdb \<Rightarrow> dep_row list" where
  "getWorkflowDependencies w d = filter (\<lambda>e. dep_workflow e = w) (deps d)"

text \<open>The adjacency lists, in the order the rows are read.\<close>

definition graph_of :: "dep_row list \<Rightarrow> string \<Rightarrow> string list" where
  "graph_of rows t = map dep_on (filter (\<lambda>e. dep_task e = t) rows)"

definition proposed_graph :: "string \<Rightarrow> string \<Rightarrow> dep_row list \<Rightarrow> string \<Rightarrow> string list" where
  "proposed_graph t dep rows x = (if x = t then graph_of rows x @ [dep] else graph_of rows x)"

text \<open>
  The closure \<open>hasCycle\<close>. \<open>visited\<close> is shared by the whole search, so it is threaded through;
  \<open>inPath\<close> is restored on the way back, so it is an argument.
\<close>

fun hasCycle :: "nat \<Rightarrow> (string \<Rightarrow> string list) \<Rightarrow> string list \<Rightarrow> string list \<Rightarrow> string \<Rightarrow> (bool \<times> string list) option"
  and anyCycle :: "nat \<Rightarrow> (string \<Rightarrow> string list) \<Rightarrow> string list \<Rightarrow> string list \<Rightarrow> string list
     \<Rightarrow> (bool \<times> string list) option" where
  "hasCycle 0 g visited inPath node = None"
| "hasCycle (Suc fuel) g visited inPath node =
     (if node \<in> set inPath then Some (True, visited)
      else if node \<in> set visited then Some (False, visited)
      else anyCycle fuel g (node # visited) (node # inPath) (g node))"
| "anyCycle fuel g visited inPath [] = Some (False, visited)"
| "anyCycle fuel g visited inPath (neighbor # rest) =
     (case hasCycle fuel g visited inPath neighbor of
        None \<Rightarrow> None
      | Some (True, visited') \<Rightarrow> Some (True, visited')
      | Some (False, visited') \<Rightarrow> anyCycle fuel g visited' inPath rest)"

definition search_fuel :: "dep_row list \<Rightarrow> nat" where
  "search_fuel rows = 2 * length rows + 3"

definition wouldCreateCycle :: "string \<Rightarrow> string \<Rightarrow> string \<Rightarrow> tdb \<Rightarrow> bool option" where
  "wouldCreateCycle t dep w d =
     (if t = dep then Some True
      else let allDeps = getWorkflowDependencies w d in
        map_option fst (hasCycle (search_fuel allDeps) (proposed_graph t dep allDeps) [] [] t))"

record dep_request =
  req_workflow :: string
  req_task :: string
  req_on :: string
  req_condition :: "string option"
  req_on_fail :: "string option"
  req_alternate :: "string option"

definition truthy_text :: "string option \<Rightarrow> string option" where
  "truthy_text v = (case v of Some (c # cs) \<Rightarrow> v | _ \<Rightarrow> None)"

text \<open>
  The INSERT is subject to the foreign keys of the schema: the workflow and both tasks exist.
\<close>

definition foreign_keys_hold :: "dep_request \<Rightarrow> tdb \<Rightarrow> bool" where
  "foreign_keys_hold q d = (lookup_row (req_workflow q) (workflows d) \<noteq> None \<and>
     lookup_row (req_task q) (tasks d) \<noteq> None \<and> lookup_row (req_on q) (tasks d) \<noteq> None)"

definition new_dep :: "int \<Rightarrow> dep_request \<Rightarrow> tdb \<Rightarrow> dep_row" where
  "new_dep now q d = \<lparr>dep_id = next_dep_id d, dep_workflow = req_workflow q, dep_task = req_task q,
     dep_on = req_on q, dep_condition = truthy_text (req_condition q),
     dep_on_fail = Some (case truthy_text (req_on_fail q) of None \<Rightarrow> ''skip'' | Some s \<Rightarrow> s),
     dep_alternate = truthy_text (req_alternate q), dep_created = now\<rparr>"

definition addTaskDependency :: "int \<Rightarrow> dep_request \<Rightarrow> tdb \<Rightarrow> nat db_result" where
  "addTaskDependency now q d =
     (if wouldCreateCycle (req_task q) (req_on q) (req_workflow q) d \<noteq> Some False
      then (Inl (Other_error ''Cannot add dependency: would create a circular dependency''), d)
      else if \<not> foreign_keys_hold q d then (Inl (Other_error ''FOREIGN KEY constraint failed''), d)
      else (Inr (next_dep_id d), d\<lparr>deps := deps d @ [new_dep now q d], next_dep_id := next_dep_id d + 1\<rparr>))"

definition getTaskDependencies :: "string \<Rightarrow> tdb \<Rightarrow> (dep_row \<times> db_row option) list" where
  "getTaskDependencies t d =
     map (\<lambda>e. (e, lookup_row (dep_on e) (tasks d))) (filter (\<lambda>e. dep_task e = t) (deps d))"

definition getTaskDependents :: "string \<Rightarrow> tdb \<Rightarrow> (dep_row \<times> jsval) list" where
  "getTaskDependents t d =
     map (\<lambda>e. (e, case lookup_row (dep_task e) (tasks d) of None \<Rightarrow> JNull | Some r \<Rightarrow> col r ''status''))
       (filter (\<lambda>e. dep_on e = t) (deps d))"

definition deleteTaskDependency :: "nat \<Rightarrow> tdb \<Rightarrow> bool \<times> tdb" where
  "deleteTaskDependency n d =
     (list_ex (\<lambda>e. dep_id e = n) (deps d), d\<lparr>deps := filter (\<lambda>e. dep_id e \<noteq> n) (deps d)\<rparr>)"

section \<open>Inserting a review task\<close>

definition mergeContextFrom :: "jsobj \<Rightarrow> string \<Rightarrow> jsval list" where
  "mergeContextFrom metadata nodeId =
     (let existing = filter (\<lambda>v. case v of JStr s \<Rightarrow> s \<noteq> [] | _ \<Rightarrow> False) (arr_of (obj_get metadata ''context_from''))
      in rev (remdups (rev (existing @ [JStr nodeId]))))"

definition add_context_from :: "jsval \<Rightarrow> string \<Rightarrow> jsval" where
  "add_context_from metadata nodeId =
     (let meta = normalizeMetadata metadata in
      JObj (obj_set ''context_from'' (JArr (mergeContextFrom meta nodeId)) meta))"

definition node_task :: "string \<Rightarrow> string \<Rightarrow> tdb \<Rightarrow> db_row option" where
  "node_task w node d = List.find (\<lambda>t. in_workflow w t \<and> col t ''workflow_node_id'' = JStr node) (tasks d)"

definition has_dependency :: "string \<Rightarrow> string \<Rightarrow> string \<Rightarrow> tdb \<Rightarrow> bool" where
  "has_dependency w t dep d = list_ex (\<lambda>e. dep_workflow e = w \<and> dep_task e = t \<and> dep_on e = dep) (deps d)"

definition review_request :: "string \<Rightarrow> string \<Rightarrow> string \<Rightarrow> dep_request" where
  "review_request w t dep = \<lparr>req_workflow = w, req_task = t, req_on = dep, req_condition = None,
     req_on_fail = Some ''continue'', req_alternate = None\<rparr>"

definition ensure_dependency :: "int \<Rightarrow> string \<Rightarrow> string \<Rightarrow> string \<Rightarrow> tdb \<Rightarrow> task_error + tdb" where
  "ensure_dependency now w t dep d =
     (if has_dependency w t dep d then Inr d
      else case addTaskDependency now (review_request w t dep) d of (Inl e, _) \<Rightarrow> Inl e | (Inr _, d') \<Rightarrow> Inr d')"

definition set_task_meta :: "string \<Rightarrow> string \<Rightarrow> tdb \<Rightarrow> tdb" where
  "set_task_meta t nodeId d = (case lookup_row t (tasks d) of None \<Rightarrow> d
     | Some r \<Rightarrow> write_cols t [(''metadata'', add_context_from (col r ''metadata'') nodeId)] d)"

fun gate_downstream :: "int \<Rightarrow> string \<Rightarrow> string \<Rightarrow> string \<Rightarrow> string list \<Rightarrow> tdb \<Rightarrow> task_error + tdb" where
  "gate_downstream now w reviewTaskId reviewNodeId [] d = Inr d"
| "gate_downstream now w reviewTaskId reviewNodeId (t # ts) d =
     (case ensure_dependency now w t reviewTaskId d of
        Inl e \<Rightarrow> Inl e
      | Inr d' \<Rightarrow> gate_downstream now w reviewTaskId reviewNodeId ts (set_task_meta t reviewNodeId d'))"

definition downstream_tasks :: "string \<Rightarrow> string \<Rightarrow> string \<Rightarrow> tdb \<Rightarrow> string list" where
  "downstream_tasks w completed reviewTaskId d = rev (remdups (rev (map dep_task
     (filter (\<lambda>e. dep_workflow e = w \<and> dep_on e = completed \<and> dep_task e \<noteq> reviewTaskId) (deps d)))))"

record review_result =
  review_node_id :: string
  completed_task_id :: string
  downstream_task_ids :: "string list"

definition review_conflict :: "string \<Rightarrow> string \<Rightarrow> string \<Rightarrow> db_row \<Rightarrow> tdb \<Rightarrow> string option" where
  "review_conflict w reviewNodeId reviewTaskId reviewTask d =
     (if js_truthy (col reviewTask ''workflow_id'') \<and> col reviewTask ''workflow_id'' \<noteq> JStr w
      then Some ''review task already belongs to another workflow''
      else if js_truthy (col reviewTask ''workflow_node_id'') \<and> col reviewTask ''workflow_node_id'' \<noteq> JStr reviewNodeId
      then Some ''review task already uses another node''
      else case node_task w reviewNodeId d of
          Some r \<Rightarrow> (if col r ''id'' \<noteq> JStr reviewTaskId then Some ''workflow already has a different task for the node''
                     else None)
        | None \<Rightarrow> None)"

definition inject_transaction :: "int \<Rightarrow> string \<Rightarrow> string \<Rightarrow> string \<Rightarrow> tdb \<Rightarrow> task_error + review_result \<times> tdb" where
  "inject_transaction now w completedNodeId reviewTaskId d =
     (let reviewNodeId = ''review-'' @ completedNodeId in
      case node_task w completedNodeId d of
        None \<Rightarrow> Inl (Other_error ''Cannot inject review dependency: node was not found in workflow'')
      | Some completed \<Rightarrow>
          (case lookup_row reviewTaskId (tasks d) of
             None \<Rightarrow> Inl (Other_error ''Cannot inject review dependency: review task was not found'')
           | Some reviewTask \<Rightarrow>
               (case review_conflict w reviewNodeId reviewTaskId reviewTask d of
                  Some e \<Rightarrow> Inl (Other_error (''Cannot inject review dependency: '' @ e))
                | None \<Rightarrow>
                    let completedId = str_of (col completed ''id'');
                        d1 = write_cols reviewTaskId [(''workflow_id'', JStr w), (''workflow_node_id'', JStr reviewNodeId),
                          (''metadata'', add_context_from (col reviewTask ''metadata'') completedNodeId)] d in
                    case ensure_dependency now w reviewTaskId completedId d1 of
                      Inl e \<Rightarrow> Inl e
                    | Inr d2 \<Rightarrow>
                        let downstream = downstream_tasks w completedId reviewTaskId d2 in
                        (case gate_downstream now w reviewTaskId reviewNodeId downstream d2 of
                           Inl e \<Rightarrow> Inl e
                         | Inr d3 \<Rightarrow> Inr (\<lparr>review_node_id = reviewNodeId, completed_task_id = completedId,
                             downstream_task_ids = downstream\<rparr>, d3)))))"

definition injectReviewDependency :: "int \<Rightarrow> string \<Rightarrow> string \<Rightarrow> string \<Rightarrow> tdb \<Rightarrow> review_result option db_result" where
  "injectReviewDependency now w completedNodeId reviewTaskId d =
     (if w = [] \<or> completedNodeId = [] \<or> reviewTaskId = [] then (Inr None, d)
      else case inject_transaction now w completedNodeId reviewTaskId d of
          Inl e \<Rightarrow> (Inl e, d)
        | Inr (res, d') \<Rightarrow> (Inr (Some res), snd (updateWorkflowCounts now w d')))"

section \<open>Unblocking tasks\<close>

definition parse_listed :: "db_row \<Rightarrow> db_row" where
  "parse_listed t = set_cols
     [(''tags'', case col t ''tags'' of JStr s \<Rightarrow> if s = [] then JStr s else JArr [] | v \<Rightarrow> v),
      (''context'', parsed_object (col t ''context'')),
      (''files_modified'', case col t ''files_modified'' of JStr s \<Rightarrow> if s = [] then JStr s else JArr [] | v \<Rightarrow> v)] t"

definition by_creation :: "db_row list \<Rightarrow> db_row list" where
  "by_creation rows = sort_key (\<lambda>t. num_of (col t ''created_at'')) rows"

definition getWorkflowTasks :: "string \<Rightarrow> tdb \<Rightarrow> db_row list" where
  "getWorkflowTasks w d = map parse_listed (by_creation (filter (in_workflow w) (tasks d)))"

definition getBlockedTasks :: "string option \<Rightarrow> tdb \<Rightarrow> db_row list" where
  "getBlockedTasks w d = map (\<lambda>t. set_cols
       [(''tags'', case col t ''tags'' of JStr s \<Rightarrow> if s = [] then JStr s else JArr [] | v \<Rightarrow> v),
        (''context'', parsed_object (col t ''context''))] t)
     (by_creation (filter (\<lambda>t. col t ''status'' = JStr ''blocked'' \<and>
        (case truthy_text w of None \<Rightarrow> True | Some v \<Rightarrow> in_workflow v t)) (tasks d)))"

definition outcomeFromStatus :: "jsval \<Rightarrow> jsval" where
  "outcomeFromStatus status =
     (if status = JStr ''completed'' then JStr ''success''
      else if status = JStr ''failed'' then JStr ''fail''
      else js_or status (JStr ''unknown''))"

definition duration_seconds :: "db_row \<Rightarrow> int" where
  "duration_seconds dep =
     (if is_nullish (col dep ''started_at'') \<or> is_nullish (col dep ''completed_at'') then 0
      else floor ((num_of (col dep ''completed_at'') - num_of (col dep ''started_at'')) / 1000 + 1 / 2))"

definition buildEdgeConditionContext :: "db_row \<Rightarrow> jsval" where
  "buildEdgeConditionContext dep =
     (let metadata = normalizeMetadata (col dep ''metadata'');
          metadataContext = normalizeMetadata (obj_get metadata ''context'');
          tags = arr_of (col dep ''tags'') in
      JObj [(''outcome'', outcomeFromStatus (col dep ''status'')), (''status'', col dep ''status''),
        (''exit_code'', col dep ''exit_code''), (''output'', js_or (col dep ''output'') (JStr [])),
        (''error_output'', js_or (col dep ''error_output'') (JStr [])),
        (''duration_seconds'', JNum (of_int (duration_seconds dep))),
        (''failure_class'', js_or (obj_get metadata ''failure_class'') JNull),
        (''verify'', js_coalesce (obj_get metadata ''verify'') JNull),
        (''provider'', js_or (obj_get metadata ''intended_provider'') (js_or (col dep ''provider'') JNull)),
        (''context'', JObj (obj_merge (obj_merge [(''tags'', JArr tags)] metadataContext) metadata))])"

definition normalizeConditionContext :: "jsval \<Rightarrow> jsval" where
  "normalizeConditionContext context =
     (case context of
        JObj next \<Rightarrow> JObj (case obj_get next ''status'' of
            JStr s \<Rightarrow> (if is_nullish (obj_get next ''outcome'')
                       then obj_set ''outcome'' (outcomeFromStatus (JStr s)) next else next)
          | _ \<Rightarrow> next)
      | _ \<Rightarrow> JObj [])"

definition evaluateWorkflowCondition :: "(string \<Rightarrow> string \<Rightarrow> bool option) \<Rightarrow> jsval \<Rightarrow> jsval \<Rightarrow> bool" where
  "evaluateWorkflowCondition regex expression context =
     (if \<not> js_truthy expression then True
      else case expression of
          JStr s \<Rightarrow> (if MAX_EXPRESSION_LENGTH < length s then False
                     else evaluateCondition regex (Some s) (normalizeConditionContext context))
        | _ \<Rightarrow> False)"

definition skipTaskBecauseAllConditionsFailed :: "int \<Rightarrow> string \<Rightarrow> tdb \<Rightarrow> tdb" where
  "skipTaskBecauseAllConditionsFailed now t d =
     d\<lparr>tasks := map_where (\<lambda>r. has_id t r \<and> \<not> is_terminal (col r ''status''))
       (\<lambda>r. set_cols [(''status'', JStr ''skipped''),
          (''error_output'', JStr ''Skipped due to dependency condition not met: All dependency conditions evaluated to false''),
          (''completed_at'', js_coalesce (col r ''completed_at'') (iso now))] r) (tasks d)\<rparr>"

definition evaluateMergeJoinIfAvailable :: "db_row \<Rightarrow> db_row list \<Rightarrow> bool option" where
  "evaluateMergeJoinIfAvailable task upstream =
     (let metadata = normalizeMetadata (col task ''metadata'') in
      if obj_get metadata ''kind'' \<noteq> JStr ''merge'' then None
      else Some (unblock (evaluateMergeJoin (str_of (js_or (obj_get metadata ''join_policy'') (JStr ''wait_all'')))
        (map (\<lambda>dep. \<lparr>join_task = col dep ''id'', join_status = col dep ''status''\<rparr>) upstream))))"

definition joined_deps :: "string \<Rightarrow> tdb \<Rightarrow> (dep_row \<times> db_row) list" where
  "joined_deps t d = List.map_filter (\<lambda>e. if dep_task e = t
     then map_option (Pair e) (lookup_row (dep_on e) (tasks d)) else None) (deps d)"

definition is_terminal_dep :: "db_row \<Rightarrow> bool" where
  "is_terminal_dep r = (col r ''status'' \<in> JStr ` set TERMINAL_DEPENDENCY_STATUSES)"

definition condition_failed :: "(string \<Rightarrow> string \<Rightarrow> bool option) \<Rightarrow> dep_row \<times> db_row \<Rightarrow> bool" where
  "condition_failed regex dep =
     (case truthy_text (dep_condition (fst dep)) of
        None \<Rightarrow> False
      | Some expr \<Rightarrow> \<not> evaluateCondition regex (Some expr) (buildEdgeConditionContext (snd dep)))"

definition isTaskUnblockable :: "(string \<Rightarrow> string \<Rightarrow> bool option) \<Rightarrow> int \<Rightarrow> string \<Rightarrow> tdb \<Rightarrow> bool \<times> tdb" where
  "isTaskUnblockable regex now t d =
     (case lookup_row t (tasks d) of
        None \<Rightarrow> (False, d)
      | Some task \<Rightarrow>
          let upstream = joined_deps t d in
          if upstream = [] then (True, d)
          else case evaluateMergeJoinIfAvailable task (map snd upstream) of
              Some b \<Rightarrow> (b, d)
            | None \<Rightarrow>
                if \<not> list_all (is_terminal_dep \<circ> snd) upstream then (False, d)
                else if list_all (condition_failed regex) upstream
                then (False, skipTaskBecauseAllConditionsFailed now t d)
                else (True, d))"

record deps_satisfied =
  satisfied :: bool
  sat_deps :: "(dep_row \<times> db_row option) list"
  waiting_on :: "string option"

definition areTaskDependenciesSatisfied ::
  "(string \<Rightarrow> string \<Rightarrow> bool option) \<Rightarrow> int \<Rightarrow> string \<Rightarrow> tdb \<Rightarrow> deps_satisfied \<times> tdb" where
  "areTaskDependenciesSatisfied regex now t d =
     (let ds = getTaskDependencies t d; res = (\<lambda>b w. \<lparr>satisfied = b, sat_deps = ds, waiting_on = w\<rparr>) in
      if ds = [] then (res True None, d)
      else case List.find (\<lambda>(e, r). \<not> (case r of None \<Rightarrow> False | Some r \<Rightarrow> is_terminal_dep r)) ds of
          Some (e, _) \<Rightarrow> (res False (Some (dep_on e)), d)
        | None \<Rightarrow>
            if list_ex (\<lambda>(e, _). truthy_text (dep_condition e) \<noteq> None) ds
            then (case isTaskUnblockable regex now t d of (b, d') \<Rightarrow> (res b None, d'))
            else (res True None, d))"

section \<open>The status view\<close>

record task_view =
  view_id :: jsval
  view_node :: jsval
  view_status :: jsval
  view_description :: jsval
  view_exit_code :: jsval
  view_progress :: jsval
  view_provider :: jsval
  view_depends_on :: "jsval list"

record workflow_view =
  view_workflow :: db_row
  view_tasks :: "task_view list"
  view_dependencies :: "(string \<times> string \<times> string option \<times> string option) list"
  view_total :: nat
  view_summary :: "(string \<times> nat) list"

definition depends_on_nodes :: "dep_row list \<Rightarrow> db_row list \<Rightarrow> jsval \<Rightarrow> jsval list" where
  "depends_on_nodes dependencies ts t = List.map_filter (\<lambda>e. if JStr (dep_task e) = t
     then map_option (\<lambda>r. col r ''workflow_node_id'') (List.find (has_id (dep_on e)) ts) else None) dependencies"

definition getWorkflowStatus :: "int \<Rightarrow> string \<Rightarrow> tdb \<Rightarrow> workflow_view option \<times> tdb" where
  "getWorkflowStatus now w d =
     (case getWorkflow w d of
        None \<Rightarrow> (None, d)
      | Some workflow \<Rightarrow>
          let d1 = (if col workflow ''status'' \<in> JStr ` set [''pending'', ''running'', ''paused'']
                    then snd (reconcileStaleWorkflows now (Some w) d) else d);
              current = (case getWorkflow w d1 of None \<Rightarrow> workflow | Some r \<Rightarrow> r);
              ts = getWorkflowTasks w d1; dependencies = getWorkflowDependencies w d1 in
          (Some \<lparr>view_workflow = current,
             view_tasks = map (\<lambda>t. \<lparr>view_id = col t ''id'', view_node = col t ''workflow_node_id'',
               view_status = col t ''status'', view_description = col t ''task_description'',
               view_exit_code = col t ''exit_code'', view_progress = col t ''progress_percent'',
               view_provider = js_or (col t ''provider'') JNull,
               view_depends_on = depends_on_nodes dependencies ts (col t ''id'')\<rparr>) ts,
             view_dependencies = map (\<lambda>e. (dep_on e, dep_task e, dep_condition e, dep_on_fail e)) dependencies,
             view_total = length ts,
             view_summary = map (\<lambda>s. (s, count_where (\<lambda>t. col t ''status'' = JStr s) ts))
               [''completed'', ''failed'', ''running'', ''blocked'', ''pending'', ''skipped'']\<rparr>, d1))"

end
