(* ===== verification/Workflow_Graph.thy ===== *)
theory Workflow_Graph
  imports Workflow_Engine
begin

text \<open>
  The cycle check of the dependency graph. \<open>edges g\<close> is the relation of an adjacency function,
  \<open>dep_edges w d\<close> the one stored for a workflow.

  Lemmas: a positive search has found a cycle (every node of the path reaches the current one); a
  negative one leaves the explored nodes closed under successors and free of cycles; the recursion
  is never deeper than the number of nodes. Together: the check answers, and it refuses exactly the
  dependencies that would close a cycle, so every history of additions keeps the graph acyclic.
\<close>

definition edges :: "(string \<Rightarrow> string list) \<Rightarrow> (string \<times> string) set" where
  "edges g = {(x, y). y \<in> set (g x)}"

definition dep_edges :: "string \<Rightarrow> tdb \<Rightarrow> (string \<times> string) set" where
  "dep_edges w d = (\<lambda>e. (dep_task e, dep_on e)) ` set (getWorkflowDependencies w d)"

section \<open>A positive answer is a cycle\<close>

lemma search_sound:
  "hasCycle fuel g vis path node = Some (True, vis') \<Longrightarrow> (\<And>p. p \<in> set path \<Longrightarrow> (p, node) \<in> (edges g)\<^sup>+)
     \<Longrightarrow> \<exists>c. (c, c) \<in> (edges g)\<^sup>+ \<and> (node, c) \<in> (edges g)\<^sup>*"
  "anyCycle fuel g vis path ns = Some (True, vis') \<Longrightarrow> (\<And>p n. p \<in> set path \<Longrightarrow> n \<in> set ns \<Longrightarrow> (p, n) \<in> (edges g)\<^sup>+)
     \<Longrightarrow> \<exists>c n. n \<in> set ns \<and> (c, c) \<in> (edges g)\<^sup>+ \<and> (n, c) \<in> (edges g)\<^sup>*"
proof (induction fuel g vis path node and fuel g vis path ns arbitrary: vis' and vis' rule: hasCycle_anyCycle.induct)
  case (2 fuel g vis path node)
  show ?case
  proof (cases "node \<in> set path")
    case True
    with 2 show ?thesis by blast
  next
    case False
    with "2.prems"(1) have nv: "node \<notin> set vis"
      and run: "anyCycle fuel g (node # vis) (node # path) (g node) = Some (True, vis')"
      by (auto split: if_splits)
    have "(p, n) \<in> (edges g)\<^sup>+" if p: "p \<in> set (node # path)" and n: "n \<in> set (g node)" for p n
    proof -
      have step: "(node, n) \<in> edges g" using n by (simp add: edges_def)
      from p "2.prems"(2) have "p = node \<or> (p, node) \<in> (edges g)\<^sup>+" by auto
      with step show ?thesis by (auto intro: trancl_into_trancl)
    qed
    from "2.IH" [OF False nv run this] obtain c n
      where "n \<in> set (g node)" "(c, c) \<in> (edges g)\<^sup>+" "(n, c) \<in> (edges g)\<^sup>*" by blast
    moreover from this have "(node, n) \<in> edges g" by (simp add: edges_def)
    ultimately show ?thesis by (meson converse_rtrancl_into_rtrancl)
  qed
next
  case (4 fuel g vis path n rest)
  show ?case
  proof (cases "hasCycle fuel g vis path n")
    case None
    with 4 show ?thesis by simp
  next
    case (Some res)
    obtain b v where res: "res = (b, v)" by (cases res)
    show ?thesis
    proof (cases b)
      case True
      with "4.IH"(1) [of v] Some res "4.prems"(2) show ?thesis by auto
    next
      case False
      with "4.prems"(1) Some res have "anyCycle fuel g v path rest = Some (True, vis')" by simp
      with "4.IH"(2) [of "(b, v)" b v vis'] Some res False "4.prems"(2) show ?thesis by auto
    qed
  qed
qed simp_all

section \<open>A negative answer excludes cycles\<close>

definition explored :: "(string \<Rightarrow> string list) \<Rightarrow> string set \<Rightarrow> bool" where
  "explored g B \<longleftrightarrow> (\<forall>b \<in> B. set (g b) \<subseteq> B \<and> (b, b) \<notin> (edges g)\<^sup>+)"

lemma explored_closed: "explored g B \<Longrightarrow> b \<in> B \<Longrightarrow> (b, c) \<in> (edges g)\<^sup>* \<Longrightarrow> c \<in> B"
  by (rotate_tac 2, induction rule: rtrancl_induct) (auto simp: explored_def edges_def)

lemma explored_insert:
  assumes "explored g B" and "set (g node) \<subseteq> B" and "node \<notin> B"
  shows "explored g (insert node B)"
proof -
  have "(node, node) \<notin> (edges g)\<^sup>+"
  proof
    assume "(node, node) \<in> (edges g)\<^sup>+"
    then obtain n where "(node, n) \<in> edges g" "(n, node) \<in> (edges g)\<^sup>*" by (meson tranclD)
    with assms explored_closed [of g B n node] show False by (auto simp: edges_def)
  qed
  with assms show ?thesis by (auto simp: explored_def)
qed

lemma search_complete:
  "hasCycle fuel g vis path node = Some (False, vis') \<Longrightarrow> explored g (set vis - set path) \<Longrightarrow> set path \<subseteq> set vis
     \<Longrightarrow> set vis \<subseteq> set vis' \<and> node \<in> set vis' - set path \<and> explored g (set vis' - set path)"
  "anyCycle fuel g vis path ns = Some (False, vis') \<Longrightarrow> explored g (set vis - set path) \<Longrightarrow> set path \<subseteq> set vis
     \<Longrightarrow> set vis \<subseteq> set vis' \<and> set ns \<subseteq> set vis' - set path \<and> explored g (set vis' - set path)"
proof (induction fuel g vis path node and fuel g vis path ns arbitrary: vis' and vis' rule: hasCycle_anyCycle.induct)
  case (2 fuel g vis path node)
  from "2.prems"(1) have np: "node \<notin> set path" by (auto split: if_splits)
  show ?case
  proof (cases "node \<in> set vis")
    case True
    with 2 np show ?thesis by auto
  next
    case False
    with "2.prems"(1) np have run: "anyCycle fuel g (node # vis) (node # path) (g node) = Some (False, vis')" by simp
    have "set (node # vis) - set (node # path) = set vis - set path" using False by auto
    with "2.IH" [OF np False run] "2.prems" have ih: "set (node # vis) \<subseteq> set vis'"
        "set (g node) \<subseteq> set vis' - set (node # path)" "explored g (set vis' - set (node # path))"
      by auto
    have "set vis' - set path = insert node (set vis' - set (node # path))" using ih(1) np by auto
    with explored_insert [OF ih(3,2)] ih(1) np show ?thesis by auto
  qed
next
  case (4 fuel g vis path n rest)
  from "4.prems"(1) obtain v where first: "hasCycle fuel g vis path n = Some (False, v)"
    and rest: "anyCycle fuel g v path rest = Some (False, vis')"
    by (auto split: option.splits bool.splits)
  from "4.IH"(1) [OF first "4.prems"(2,3)]
  have one: "set vis \<subseteq> set v" "n \<in> set v - set path" "explored g (set v - set path)" by auto
  from "4.IH"(2) [OF first refl _ rest one(3)] one "4.prems"(3)
  have "set v \<subseteq> set vis'" "set rest \<subseteq> set vis' - set path" "explored g (set vis' - set path)" by auto
  with one show ?case by auto
qed auto

section \<open>The search ends\<close>

lemma search_total:
  "finite U \<Longrightarrow> (\<forall>u. set (g u) \<subseteq> U) \<Longrightarrow> node \<in> U \<Longrightarrow> distinct path \<Longrightarrow> set path \<subseteq> U
     \<Longrightarrow> card U < fuel + length path \<Longrightarrow> hasCycle fuel g vis path node \<noteq> None"
  "finite U \<Longrightarrow> (\<forall>u. set (g u) \<subseteq> U) \<Longrightarrow> set ns \<subseteq> U \<Longrightarrow> distinct path \<Longrightarrow> set path \<subseteq> U
     \<Longrightarrow> card U < fuel + length path \<Longrightarrow> anyCycle fuel g vis path ns \<noteq> None"
proof (induction fuel g vis path node and fuel g vis path ns rule: hasCycle_anyCycle.induct)
  case (1 g vis path node)
  have "length path \<le> card U" using 1 by (metis card_mono distinct_card)
  with 1 show ?case by simp
next
  case (2 fuel g vis path node)
  have "anyCycle fuel g (node # vis) (node # path) (g node) \<noteq> None" if "node \<notin> set path" "node \<notin> set vis"
    by (rule "2.IH" [OF that]) (use 2 that in auto)
  then show ?case by auto
next
  case (4 fuel g vis path n rest)
  have "hasCycle fuel g vis path n \<noteq> None" by (rule "4.IH"(1)) (use 4 in auto)
  then obtain b v where first: "hasCycle fuel g vis path n = Some (b, v)" by auto
  have "anyCycle fuel g v path rest \<noteq> None" if "b = False"
    by (rule "4.IH"(2) [OF first refl]) (use 4 that in auto)
  with first show ?case by (cases b) auto
qed simp


section \<open>The check on the stored graph\<close>

lemma edges_proposed:
  "edges (proposed_graph t dep (getWorkflowDependencies w d)) = insert (t, dep) (dep_edges w d)"
  by (auto simp: edges_def proposed_graph_def graph_of_def dep_edges_def split: if_splits)

lemma wouldCreateCycle_answer:
  assumes "t \<noteq> dep"
  shows "wouldCreateCycle t dep w d = Some (\<exists>c. (t, c) \<in> (insert (t, dep) (dep_edges w d))\<^sup>* \<and>
    (c, c) \<in> (insert (t, dep) (dep_edges w d))\<^sup>+)"
proof -
  define rows where "rows = getWorkflowDependencies w d"
  define g where "g = proposed_graph t dep rows"
  define U where "U = insert t (insert dep (dep_on ` set rows))"
  have E: "edges g = insert (t, dep) (dep_edges w d)" by (simp add: g_def rows_def edges_proposed)
  have U: "finite U" "\<forall>u. set (g u) \<subseteq> U" "t \<in> U"
    by (auto simp: U_def g_def proposed_graph_def graph_of_def)
  have "card U \<le> Suc (Suc (card (dep_on ` set rows)))" by (simp add: U_def card_insert_if)
  moreover have "card (dep_on ` set rows) \<le> length rows"
    by (meson card_image_le card_length finite_set le_trans)
  ultimately have "card U < search_fuel rows + length []" by (simp add: search_fuel_def)
  from search_total(1) [OF U(1,2,3) _ _ this, of "[]"]
  obtain b v where run: "hasCycle (search_fuel rows) g [] [] t = Some (b, v)" by auto
  have "wouldCreateCycle t dep w d = Some b"
    using assms run by (simp add: wouldCreateCycle_def g_def rows_def Let_def)
  moreover have "b \<longleftrightarrow> (\<exists>c. (t, c) \<in> (edges g)\<^sup>* \<and> (c, c) \<in> (edges g)\<^sup>+)"
  proof (cases b)
    case True
    with search_sound(1) [of _ g "[]" "[]" t v] run show ?thesis by fastforce
  next
    case False
    with run have "hasCycle (search_fuel rows) g [] [] t = Some (False, v)" by simp
    from search_complete(1) [OF this] have "t \<in> set v" "explored g (set v)" by (auto simp: explored_def)
    then show ?thesis using False explored_closed [of g "set v" t] by (auto simp: explored_def)
  qed
  ultimately show ?thesis by (simp add: E)
qed

definition deps_acyclic :: "tdb \<Rightarrow> bool" where
  "deps_acyclic d \<longleftrightarrow> (\<forall>w. acyclic (dep_edges w d))"

lemma cycle_check:
  assumes "acyclic (dep_edges w d)"
  shows "wouldCreateCycle t dep w d = Some ((dep, t) \<in> (dep_edges w d)\<^sup>*)"
proof (cases "t = dep")
  case True
  then show ?thesis by (simp add: wouldCreateCycle_def)
next
  case False
  let ?E = "dep_edges w d" and ?E' = "insert (t, dep) (dep_edges w d)"
  have "(\<exists>c. (t, c) \<in> ?E'\<^sup>* \<and> (c, c) \<in> ?E'\<^sup>+) \<longleftrightarrow> (dep, t) \<in> ?E\<^sup>*"
  proof
    assume "\<exists>c. (t, c) \<in> ?E'\<^sup>* \<and> (c, c) \<in> ?E'\<^sup>+"
    then have "\<not> acyclic ?E'" by (auto simp: acyclic_def)
    with assms show "(dep, t) \<in> ?E\<^sup>*" by (simp add: acyclic_insert)
  next
    assume "(dep, t) \<in> ?E\<^sup>*"
    then have "(dep, t) \<in> ?E'\<^sup>*" by (meson rtrancl_mono subsetD subset_insertI)
    then have "(t, t) \<in> ?E'\<^sup>+" by (meson insertI1 rtrancl_into_trancl2)
    then show "\<exists>c. (t, c) \<in> ?E'\<^sup>* \<and> (c, c) \<in> ?E'\<^sup>+" by blast
  qed
  with wouldCreateCycle_answer [OF False] show ?thesis by simp
qed

section \<open>Histories of the graph\<close>

lemma dep_edges_add:
  "fst (addTaskDependency now q d) = Inr n \<Longrightarrow>
     dep_edges w (snd (addTaskDependency now q d)) =
       (if w = req_workflow q then insert (req_task q, req_on q) (dep_edges w d) else dep_edges w d)"
proof -
  assume "fst (addTaskDependency now q d) = Inr n"
  then have "deps (snd (addTaskDependency now q d)) = deps d @ [new_dep now q d]"
    by (auto simp: addTaskDependency_def split: if_splits)
  moreover have "dep_task (new_dep now q d) = req_task q" "dep_on (new_dep now q d) = req_on q"
    "dep_workflow (new_dep now q d) = req_workflow q" by (simp_all add: new_dep_def)
  ultimately show ?thesis by (simp add: dep_edges_def getWorkflowDependencies_def)
qed

lemma add_refused: "fst (addTaskDependency now q d) = Inl e \<Longrightarrow> snd (addTaskDependency now q d) = d"
  by (auto simp: addTaskDependency_def split: if_splits)

lemma add_acyclic:
  assumes "deps_acyclic d"
  shows "deps_acyclic (snd (addTaskDependency now q d))"
proof (cases "fst (addTaskDependency now q d)")
  case (Inl e)
  with assms add_refused show ?thesis by simp
next
  case (Inr n)
  then have "wouldCreateCycle (req_task q) (req_on q) (req_workflow q) d = Some False"
    by (auto simp: addTaskDependency_def split: if_splits)
  moreover from assms have a: "acyclic (dep_edges w d)" for w by (simp add: deps_acyclic_def)
  ultimately have "(req_on q, req_task q) \<notin> (dep_edges (req_workflow q) d)\<^sup>*"
    using cycle_check [OF a, of "req_task q" "req_on q" "req_workflow q"] by simp
  with a show ?thesis by (auto simp: deps_acyclic_def dep_edges_add [OF Inr] acyclic_insert)
qed

lemma subset_acyclic:
  assumes "deps_acyclic d" and "set (deps d') \<subseteq> set (deps d)"
  shows "deps_acyclic d'"
proof -
  have "dep_edges w d' \<subseteq> dep_edges w d" for w
    using assms(2) by (auto simp: dep_edges_def getWorkflowDependencies_def)
  with assms(1) show ?thesis unfolding deps_acyclic_def by (meson acyclic_subset)
qed

lemma ensure_acyclic: "deps_acyclic d \<Longrightarrow> ensure_dependency now w t dep d = Inr d' \<Longrightarrow> deps_acyclic d'"
  using add_acyclic [of d now "review_request w t dep"]
  by (auto simp: ensure_dependency_def split: if_splits sum.splits prod.splits)

lemma deps_write_cols [simp]: "deps (write_cols i us d) = deps d"
  by (simp add: write_cols_def)

lemma deps_set_task_meta [simp]: "deps (set_task_meta t n d) = deps d"
  by (simp add: set_task_meta_def split: option.split)

lemma same_deps_acyclic: "deps d' = deps d \<Longrightarrow> deps_acyclic d' \<longleftrightarrow> deps_acyclic d"
  by (simp add: deps_acyclic_def dep_edges_def getWorkflowDependencies_def)

lemma gate_acyclic:
  "deps_acyclic d \<Longrightarrow> gate_downstream now w rt rn ts d = Inr d' \<Longrightarrow> deps_acyclic d'"
proof (induction ts arbitrary: d)
  case (Cons t ts)
  from Cons.prems obtain d1 where e: "ensure_dependency now w t rt d = Inr d1"
    and g: "gate_downstream now w rt rn ts (set_task_meta t rn d1) = Inr d'" by (auto split: sum.splits)
  from ensure_acyclic [OF Cons.prems(1) e] have "deps_acyclic (set_task_meta t rn d1)"
    by (simp add: same_deps_acyclic [of "set_task_meta t rn d1" d1])
  from Cons.IH [OF this g] show ?case .
qed simp

lemma updateWorkflow_deps [simp]: "deps (snd (updateWorkflow w us d)) = deps d"
  by (simp add: updateWorkflow_def Let_def)

lemma updateWorkflowCounts_deps [simp]: "deps (snd (updateWorkflowCounts now w d)) = deps d"
  by (simp add: updateWorkflowCounts_def Let_def split: option.split)

lemma inject_acyclic:
  assumes "deps_acyclic d"
  shows "deps_acyclic (snd (injectReviewDependency now w cn rt d))"
proof -
  have "deps_acyclic d'" if run: "inject_transaction now w cn rt d = Inr (res, d')" for res d'
  proof -
    from run obtain completed reviewTask where
      c: "node_task w cn d = Some completed" "lookup_row rt (tasks d) = Some reviewTask"
        "review_conflict w (''review-'' @ cn) rt reviewTask d = None"
      unfolding inject_transaction_def Let_def by (auto split: option.splits)
    define rv where "rv = str_of (col completed ''id'')"
    define d1 where "d1 = write_cols rt [(''workflow_id'', JStr w), (''workflow_node_id'', JStr (''review-'' @ cn)),
      (''metadata'', add_context_from (col reviewTask ''metadata'') cn)] d"
    from run c obtain d2 where e: "ensure_dependency now w rt rv d1 = Inr d2"
      by (cases "ensure_dependency now w rt rv d1") (auto simp: inject_transaction_def rv_def d1_def Let_def)
    with run c have g: "gate_downstream now w rt (''review-'' @ cn) (downstream_tasks w rv rt d2) d2 = Inr d'"
      by (auto simp: inject_transaction_def rv_def d1_def Let_def split: sum.splits)
    have d1: "deps d1 = deps d" by (simp add: d1_def)
    from assms d1 have "deps_acyclic d1" by (simp add: same_deps_acyclic [OF d1])
    from gate_acyclic [OF ensure_acyclic [OF this e] g] show ?thesis .
  qed
  with assms show ?thesis
    by (auto simp: injectReviewDependency_def same_deps_acyclic [OF updateWorkflowCounts_deps] split: sum.splits)
qed

datatype graph_op =
    Add_dependency dep_request
  | Delete_dependency nat
  | Inject_review string string string
  | Delete_workflow string
  | Delete_task string

fun graph_step :: "int \<times> graph_op \<Rightarrow> tdb \<Rightarrow> tdb" where
  "graph_step (now, Add_dependency q) d = snd (addTaskDependency now q d)"
| "graph_step (now, Delete_dependency n) d = snd (deleteTaskDependency n d)"
| "graph_step (now, Inject_review w cn rt) d = snd (injectReviewDependency now w cn rt d)"
| "graph_step (now, Delete_workflow w) d = snd (deleteWorkflow w d)"
| "graph_step (now, Delete_task t) d = snd (deleteTask t d)"

lemma graph_step_acyclic:
  assumes "deps_acyclic d"
  shows "deps_acyclic (graph_step e d)"
proof -
  obtain now g where e: "e = (now, g)" by (cases e)
  show ?thesis
    by (cases g) (auto simp: e add_acyclic inject_acyclic assms deleteTaskDependency_def deleteWorkflow_def
      deleteTask_def deleteTaskRowsByIds_def Let_def intro: subset_acyclic [OF assms] split: option.splits)
qed

interpretation graph: invariant_machine graph_step deps_acyclic
  by unfold_locales (rule graph_step_acyclic)

end
