(* ===== verification/Workflow_Claims.thy ===== *)
theory Workflow_Claims
  imports Workflow_Graph
begin

text \<open>
  The properties of the workflow engine: what the cycle check answers, that the dependency graph
  stays acyclic, that an unfinished task always has an unfinished task below it that can be
  decided, what a review injection adds, and how counts and status of a workflow follow from the
  statuses of its tasks.
\<close>

section \<open>Progress\<close>

text \<open>Dependencies join tasks of their own workflow.\<close>

definition deps_local :: "tdb \<Rightarrow> bool" where
  "deps_local d \<longleftrightarrow> (\<forall>e \<in> set (deps d).
     (\<forall>r. lookup_row (dep_task e) (tasks d) = Some r \<longrightarrow> in_workflow (dep_workflow e) r) \<and>
     (\<forall>r. lookup_row (dep_on e) (tasks d) = Some r \<longrightarrow> in_workflow (dep_workflow e) r))"

definition unfinished :: "tdb \<Rightarrow> string \<Rightarrow> bool" where
  "unfinished d t = (case lookup_row t (tasks d) of None \<Rightarrow> False | Some r \<Rightarrow> \<not> is_terminal_dep r)"

lemma terminal_branch:
  assumes "is_terminal_dep r"
  obtains s where "col r ''status'' = JStr s" and "s \<in> set TERMINAL_STATUSES"
    and "\<And>i. branch_status \<lparr>join_task = i, join_status = col r ''status''\<rparr> = s"
proof -
  have "set TERMINAL_STATUSES = set TERMINAL_DEPENDENCY_STATUSES"
    by (simp add: TERMINAL_STATUSES_def TERMINAL_DEPENDENCY_STATUSES_def)
  with assms obtain s where s: "col r ''status'' = JStr s" "s \<in> set TERMINAL_STATUSES"
    by (auto simp: is_terminal_dep_def)
  have "list_all (\<lambda>s. js_lower (js_trim (js_string (js_or (JStr s) (JStr [])))) = s) TERMINAL_STATUSES"
    by code_simp
  with s show thesis by (intro that [of s]) (simp_all add: branch_status_def list_all_iff)
qed

text \<open>
  A merge node that no finished branch will ever start: it waits for a first success and every branch failed or was
  cancelled, or it names a policy the code does not know.
\<close>

definition join_policy_of :: "db_row \<Rightarrow> string" where
  "join_policy_of r = str_of (js_or (obj_get (normalizeMetadata (col r ''metadata'')) ''join_policy'') (JStr ''wait_all''))"

definition dead_merge :: "tdb \<Rightarrow> string \<Rightarrow> bool" where
  "dead_merge d t = (case lookup_row t (tasks d) of None \<Rightarrow> False | Some r \<Rightarrow>
     obj_get (normalizeMetadata (col r ''metadata'')) ''kind'' = JStr ''merge'' \<and> joined_deps t d \<noteq> [] \<and>
     (join_policy_of r \<notin> {''wait_all'', ''first_success''} \<or>
      join_policy_of r = ''first_success'' \<and>
        list_all (\<lambda>x. col (snd x) ''status'' \<in> {JStr ''failed'', JStr ''cancelled''}) (joined_deps t d)))"

lemma joined_member:
  "(e, r) \<in> set (joined_deps t d) \<longleftrightarrow> e \<in> set (deps d) \<and> dep_task e = t \<and> lookup_row (dep_on e) (tasks d) = Some r"
  by (auto simp: joined_deps_def map_filter_def split: if_splits intro!: image_eqI [where x = e])

text \<open>With all dependencies finished, a task is unblocked or skipped, dead merge nodes apart.\<close>

lemma merge_decided:
  assumes row: "lookup_row t (tasks d) = Some r" and fin: "list_all (is_terminal_dep \<circ> snd) (joined_deps t d)"
    and "joined_deps t d \<noteq> []" and merge: "evaluateMergeJoinIfAvailable r (map snd (joined_deps t d)) = Some b"
  shows "b \<longleftrightarrow> \<not> dead_merge d t"
proof -
  let ?up = "joined_deps t d"
  let ?ds = "map (\<lambda>dep. \<lparr>join_task = col dep ''id'', join_status = col dep ''status''\<rparr>) (map snd ?up)"
  from merge have kind: "obj_get (normalizeMetadata (col r ''metadata'')) ''kind'' = JStr ''merge''"
    and b: "b = unblock (evaluateMergeJoin (join_policy_of r) ?ds)"
    by (auto simp: evaluateMergeJoinIfAvailable_def join_policy_of_def Let_def split: if_splits)
  have status: "branch_status \<lparr>join_task = col (snd x) ''id'', join_status = col (snd x) ''status''\<rparr> \<in> set TERMINAL_STATUSES \<and>
      (branch_status \<lparr>join_task = col (snd x) ''id'', join_status = col (snd x) ''status''\<rparr> \<in> set SUCCESS_STATUSES
       \<longleftrightarrow> col (snd x) ''status'' \<notin> {JStr ''failed'', JStr ''cancelled''})" if "x \<in> set ?up" for x
  proof -
    have "is_terminal_dep (snd x)" using fin that by (simp add: list_all_iff)
    then show ?thesis by (rule terminal_branch) (auto simp: TERMINAL_STATUSES_def SUCCESS_STATUSES_def)
  qed
  consider "join_policy_of r = ''wait_all''" | "join_policy_of r = ''first_success''" |
    "join_policy_of r \<notin> {''wait_all'', ''first_success''}" by blast
  then show ?thesis
  proof cases
    case 1
    then show ?thesis using status kind row by (auto simp: b wait_all_unblocks dead_merge_def)
  next
    case 2
    then show ?thesis
      using status kind row assms(3) by (auto simp: b first_success_unblocks dead_merge_def list_all_iff)
  next
    case 3
    then show ?thesis using kind row assms(3) by (simp add: b unsupported_policy dead_merge_def)
  qed
qed

lemma decided:
  assumes row: "lookup_row t (tasks d) = Some r" and open_task: "\<not> is_terminal_dep r"
    and done_deps: "\<And>e q. (e, q) \<in> set (joined_deps t d) \<Longrightarrow> is_terminal_dep q"
  shows "if dead_merge d t then isTaskUnblockable regex now t d = (False, d)
    else (case isTaskUnblockable regex now t d of (b, d') \<Rightarrow> b \<or> (\<exists>q. lookup_row t (tasks d') = Some q \<and> col q ''status'' = JStr ''skipped''))"
proof -
  let ?up = "joined_deps t d"
  have fin: "list_all (is_terminal_dep \<circ> snd) ?up" using done_deps by (auto simp: list_all_iff)
  have dead: "dead_merge d t \<Longrightarrow> ?up \<noteq> [] \<and> evaluateMergeJoinIfAvailable r (map snd ?up) \<noteq> None"
    using row by (auto simp: dead_merge_def evaluateMergeJoinIfAvailable_def Let_def)
  note merge = merge_decided [OF row fin]
  have hit: "has_id t r" using lookup_row_Some [OF row] by (simp add: has_id_def)
  have "\<not> is_terminal (col r ''status'')"
    using open_task by (simp add: is_terminal_def is_terminal_dep_def TERMINAL_TASK_STATUS_VALUES_def TERMINAL_DEPENDENCY_STATUSES_def)
  moreover have keeps: "keeps_id (\<lambda>r. set_cols [(''status'', JStr ''skipped''),
      (''error_output'', JStr ''Skipped due to dependency condition not met: All dependency conditions evaluated to false''),
      (''completed_at'', js_coalesce (col r ''completed_at'') (iso now))] r)"
    by (simp add: keeps_id_def)
  ultimately have "\<exists>q. lookup_row t (tasks (skipTaskBecauseAllConditionsFailed now t d)) = Some q \<and> col q ''status'' = JStr ''skipped''"
    using hit row by (simp add: skipTaskBecauseAllConditionsFailed_def lookup_map_where)
  then show ?thesis using fin merge dead
    by (auto simp: isTaskUnblockable_def row Let_def split: option.split)
qed

lemma minimal_unfinished:
  assumes ac: "deps_acyclic d" and loc: "deps_local d" and t: "unfinished d t"
  obtains u where "unfinished d u" and "\<forall>(e, q) \<in> set (joined_deps u d). is_terminal_dep q"
    and "\<exists>w. (t, u) \<in> (dep_edges w d)\<^sup>*"
proof -
  from t obtain r where r: "lookup_row t (tasks d) = Some r" by (auto simp: unfinished_def split: option.splits)
  define w where "w = str_of (col r ''workflow_id'')"
  let ?E = "dep_edges w d"
  define S where "S = {u. (t, u) \<in> ?E\<^sup>* \<and> unfinished d u}"
  have "finite ?E" by (simp add: dep_edges_def)
  then have "wf (?E\<inverse>)" using ac by (simp add: deps_acyclic_def finite_acyclic_wf_converse)
  moreover have "t \<in> S" using t by (simp add: S_def)
  ultimately obtain u where u: "u \<in> S" and min: "\<And>v. (u, v) \<in> ?E \<Longrightarrow> v \<notin> S"
    by (metis converse_iff wfE_min)
  have same: "dep_workflow e = w" if e: "e \<in> set (deps d)" "dep_task e = u" for e
  proof -
    from u obtain ru where ru: "lookup_row u (tasks d) = Some ru" by (auto simp: S_def unfinished_def split: option.splits)
    with e loc have here: "in_workflow (dep_workflow e) ru" by (auto simp: deps_local_def)
    from u have "(t, u) \<in> ?E\<^sup>*" by (simp add: S_def)
    then show ?thesis
    proof (cases rule: rtranclE)
      case base
      with ru r here show ?thesis by (simp add: in_workflow_def w_def str_of_def)
    next
      case (step y)
      then obtain f where "f \<in> set (deps d)" "dep_workflow f = w" "dep_on f = u"
        by (auto simp: dep_edges_def getWorkflowDependencies_def)
      with loc ru have "in_workflow w ru" by (auto simp: deps_local_def)
      with here show ?thesis by (simp add: in_workflow_def)
    qed
  qed
  show thesis
  proof (rule that [of u])
    show "unfinished d u" using u by (simp add: S_def)
    show "\<exists>w. (t, u) \<in> (dep_edges w d)\<^sup>*" using u by (auto simp: S_def)
    have "is_terminal_dep q" if "(e, q) \<in> set (joined_deps u d)" for e q
    proof -
    from that have e: "e \<in> set (deps d)" "dep_task e = u" "lookup_row (dep_on e) (tasks d) = Some q"
      by (auto simp: joined_member)
    with same have "(u, dep_on e) \<in> ?E" by (force simp: dep_edges_def getWorkflowDependencies_def)
    with min u have "\<not> unfinished d (dep_on e)" by (auto simp: S_def intro: rtrancl_into_rtrancl)
    with e show "is_terminal_dep q" by (simp add: unfinished_def)
    qed
    then show "\<forall>(e, q) \<in> set (joined_deps u d). is_terminal_dep q" by blast
  qed
qed


section \<open>Workflow rows\<close>

lemma map_of_keyed: "map_of (map (\<lambda>c. (c, f c)) cs) c = (if c \<in> set cs then Some (f c) else None)"
  by (induction cs) auto

lemma col_workflow_updates [simp]:
  "col (set_cols (workflow_updates us) r) c =
     (if c \<in> set UPDATABLE_WORKFLOW_COLUMNS \<and> obj_get us c \<noteq> JUndef then obj_get us c else col r c)"
  by (simp add: col_set_cols workflow_updates_def rev_map map_of_keyed sql_value_def)

lemma lookup_updateWorkflow:
  "lookup_row v (workflows (snd (updateWorkflow w us d))) =
     (if v = w then map_option (set_cols (workflow_updates us)) (lookup_row v (workflows d)) else lookup_row v (workflows d))"
proof -
  have "''id'' \<notin> set UPDATABLE_WORKFLOW_COLUMNS" by code_simp
  then have "keeps_id (set_cols (workflow_updates us))"
    by (intro keeps_id_set_cols) (auto simp: workflow_updates_def)
  moreover have "map_option (set_cols []) x = x" for x by (cases x) simp_all
  ultimately show ?thesis by (simp add: updateWorkflow_def Let_def lookup_update_row)
qed

lemma updateWorkflow_tasks [simp]: "tasks (snd (updateWorkflow w us d)) = tasks d"
  by (simp add: updateWorkflow_def Let_def)

lemma updateWorkflowCounts_tasks [simp]: "tasks (snd (updateWorkflowCounts now w d)) = tasks d"
  by (simp add: updateWorkflowCounts_def Let_def split: option.split)

lemma counts_same_tasks:
  assumes "tasks d' = tasks d"
  shows "getWorkflowTaskCount w d' = getWorkflowTaskCount w d" "count_status w s d' = count_status w s d"
    "nonterminal_count w d' = nonterminal_count w d"
  using assms by (simp_all add: getWorkflowTaskCount_def count_status_def nonterminal_count_def)

lemma count_where_split: "count_where P xs = count_where (\<lambda>x. P x \<and> Q x) xs + count_where (\<lambda>x. P x \<and> \<not> Q x) xs"
  by (induction xs) auto

lemma count_where_values:
  "distinct vs \<Longrightarrow> count_where P xs =
     (\<Sum>v \<leftarrow> vs. count_where (\<lambda>x. P x \<and> f x = v) xs) + count_where (\<lambda>x. P x \<and> f x \<notin> set vs) xs"
proof (induction vs)
  case (Cons v vs)
  have "count_where (\<lambda>x. P x \<and> f x \<notin> set vs) xs =
      count_where (\<lambda>x. P x \<and> f x = v) xs + count_where (\<lambda>x. P x \<and> f x \<notin> set (v # vs)) xs"
  proof -
    from Cons.prems have "(P x \<and> f x \<notin> set vs) \<and> f x = v \<longleftrightarrow> P x \<and> f x = v" for x by auto
    moreover have "(P x \<and> f x \<notin> set vs) \<and> f x \<noteq> v \<longleftrightarrow> P x \<and> f x \<notin> set (v # vs)" for x by auto
    ultimately show ?thesis
      using count_where_split [of "\<lambda>x. P x \<and> f x \<notin> set vs" xs "\<lambda>x. f x = v"] by presburger
  qed
  with Cons show ?case by simp
qed (simp add: count_where_def)

lemma count_split:
  "getWorkflowTaskCount w d = count_status w ''completed'' d + count_status w ''failed'' d +
     count_status w ''skipped'' d + count_status w ''cancelled'' d + nonterminal_count w d"
proof -
  have "distinct (map JStr TERMINAL_DEPENDENCY_STATUSES)" by code_simp
  from count_where_values [OF this, of "in_workflow w" "tasks d" "\<lambda>t. col t ''status''"] show ?thesis
    by (simp add: getWorkflowTaskCount_def count_status_def nonterminal_count_def TERMINAL_DEPENDENCY_STATUSES_def)
qed

definition CLOSED_WORKFLOW :: "string list" where
  "CLOSED_WORKFLOW = [''completed'', ''failed'', ''cancelled'']"

definition aggregate_status :: "string \<Rightarrow> tdb \<Rightarrow> string" where
  "aggregate_status w d = (if 0 < count_status w ''failed'' d then ''failed''
     else if count_status w ''cancelled'' d = getWorkflowTaskCount w d then ''cancelled'' else ''completed'')"

lemma counts_patch_get:
  "obj_get (counts_patch c) ''total_tasks'' = js_nat (total_tasks c)"
  "obj_get (counts_patch c) ''completed_tasks'' = js_nat (completed_tasks c)"
  "obj_get (counts_patch c) ''failed_tasks'' = js_nat (failed_tasks c)"
  "obj_get (counts_patch c) ''skipped_tasks'' = js_nat (skipped_tasks c)"
  "obj_get (counts_patch c) ''status'' = JUndef"
  by (simp_all add: counts_patch_def obj_get_def)

lemma status_patch_get:
  "obj_get [(''status'', s), (''completed_at'', t)] ''status'' = s"
  "c \<noteq> ''status'' \<Longrightarrow> c \<noteq> ''completed_at'' \<Longrightarrow> obj_get [(''status'', s), (''completed_at'', t)] c = JUndef"
  by (simp_all add: obj_get_def)

lemma updatable [simp]:
  "''status'' \<in> set UPDATABLE_WORKFLOW_COLUMNS" "''total_tasks'' \<in> set UPDATABLE_WORKFLOW_COLUMNS"
  "''completed_tasks'' \<in> set UPDATABLE_WORKFLOW_COLUMNS" "''failed_tasks'' \<in> set UPDATABLE_WORKFLOW_COLUMNS"
  "''skipped_tasks'' \<in> set UPDATABLE_WORKFLOW_COLUMNS" "''completed_at'' \<in> set UPDATABLE_WORKFLOW_COLUMNS"
  by code_simp+

lemma js_nat_defined [simp]: "js_nat n \<noteq> JUndef"
  by (simp add: js_nat_def)

definition updated_counts :: "int \<Rightarrow> string \<Rightarrow> tdb \<Rightarrow> db_row \<Rightarrow> db_row" where
  "updated_counts now w d r =
     (let counts = \<lparr>total_tasks = getWorkflowTaskCount w d, completed_tasks = count_status w ''completed'' d,
            failed_tasks = count_status w ''failed'' d, skipped_tasks = count_status w ''skipped'' d\<rparr>;
          counted = set_cols (workflow_updates (counts_patch counts)) r in
      if col r ''status'' \<in> JStr ` set CLOSED_WORKFLOW then r
      else if nonterminal_count w d = 0 \<and> 0 < getWorkflowTaskCount w d
      then set_cols (workflow_updates [(''status'', JStr (aggregate_status w d)), (''completed_at'', iso now)]) counted
      else counted)"

lemma lookup_updateWorkflowCounts:
  "lookup_row v (workflows (snd (updateWorkflowCounts now w d))) =
     (if v = w then map_option (updated_counts now w d) (lookup_row v (workflows d)) else lookup_row v (workflows d))"
proof (cases "lookup_row w (workflows d)")
  case None
  then show ?thesis by (simp add: updateWorkflowCounts_def getWorkflow_def)
next
  case (Some r)
  have "col (parse_workflow r) ''status'' = col r ''status''" by (simp add: parse_workflow_def)
  with Some show ?thesis
    by (simp add: updateWorkflowCounts_def getWorkflow_def Let_def lookup_updateWorkflow updated_counts_def
      aggregate_status_def CLOSED_WORKFLOW_def del: set_cols_append)
qed


section \<open>Reconciliation\<close>

definition reconcile_one :: "int \<Rightarrow> string \<Rightarrow> string \<Rightarrow> tdb \<Rightarrow> tdb" where
  "reconcile_one now w finalStatus d = snd (updateWorkflowCounts now w
     (snd (updateWorkflow w [(''status'', JStr finalStatus), (''completed_at'', iso now)] d)))"

definition reconcile_plan :: "string option \<Rightarrow> tdb \<Rightarrow> (string \<times> string) list" where
  "reconcile_plan f d = map (\<lambda>w. (w, stale_final_status w d)) (filter (\<lambda>w. nonterminal_count w d = 0) (stale_rows f d))"

lemma reconcile_fold:
  "reconcileStaleWorkflows now f d =
     (length (reconcile_plan f d), fold (\<lambda>(w, s). reconcile_one now w s) (reconcile_plan f d) d)"
proof -
  have "fold (\<lambda>(w, finalStatus, finished) (n, acc). if \<not> finished then (n, acc)
         else (n + 1, snd (updateWorkflowCounts now w
           (snd (updateWorkflow w [(''status'', JStr finalStatus), (''completed_at'', iso now)] acc)))))
        (map (\<lambda>w. (w, fs w, fin w)) ws) (n, acc) =
      (n + length (filter fin ws), fold (\<lambda>(w, s). reconcile_one now w s) (map (\<lambda>w. (w, fs w)) (filter fin ws)) acc)"
    for fs fin ws n acc
    by (induction ws arbitrary: n acc) (auto simp: reconcile_one_def)
  from this [of "\<lambda>w. stale_final_status w d" "\<lambda>w. nonterminal_count w d = 0" "stale_rows f d" 0 d]
  show ?thesis by (simp add: reconcileStaleWorkflows_def reconcile_plan_def Let_def)
qed

text \<open>The status the loop leaves: the one of the aggregation, unless the first write closed the workflow.\<close>

definition reconciled_status :: "string \<Rightarrow> tdb \<Rightarrow> string" where
  "reconciled_status w d =
     (if 0 < count_status w ''failed'' d then ''failed''
      else if 0 < count_status w ''completed'' d \<or> count_status w ''cancelled'' d = 0 then ''completed'' else ''failed'')"

lemma reconcile_one_tasks [simp]: "tasks (reconcile_one now w s d) = tasks d"
  by (simp add: reconcile_one_def)

lemma reconcile_one_other: "v \<noteq> w \<Longrightarrow> lookup_row v (workflows (reconcile_one now w s d)) = lookup_row v (workflows d)"
  by (simp add: reconcile_one_def lookup_updateWorkflowCounts lookup_updateWorkflow)

lemma reconcile_one_row:
  assumes "lookup_row w (workflows d) = Some r"
  shows "\<exists>r'. lookup_row w (workflows (reconcile_one now w s d)) = Some r' \<and> col r' ''status'' =
    JStr (if s \<in> set CLOSED_WORKFLOW \<or> nonterminal_count w d \<noteq> 0 \<or> getWorkflowTaskCount w d = 0 then s else aggregate_status w d)"
  using assms
  by (auto simp: reconcile_one_def lookup_updateWorkflowCounts lookup_updateWorkflow updated_counts_def Let_def
    aggregate_status_def counts_same_tasks [OF updateWorkflow_tasks] counts_patch_get status_patch_get(1))

lemma reconcile_fold_other:
  "v \<notin> fst ` set plan \<Longrightarrow> lookup_row v (workflows (fold (\<lambda>(w, s). reconcile_one now w s) plan d)) = lookup_row v (workflows d)"
proof (induction plan arbitrary: d)
  case (Cons p plan)
  obtain w s where p: "p = (w, s)" by (cases p)
  with Cons.prems have "v \<noteq> w" "v \<notin> fst ` set plan" by auto
  with Cons.IH [of "reconcile_one now w s d"] p show ?case by (simp add: reconcile_one_other)
qed simp

lemma reconcile_fold_hit:
  "distinct (map fst plan) \<Longrightarrow> (w, s) \<in> set plan \<Longrightarrow>
     \<exists>d'. tasks d' = tasks d \<and> lookup_row w (workflows d') = lookup_row w (workflows d) \<and>
       lookup_row w (workflows (fold (\<lambda>(w, s). reconcile_one now w s) plan d)) = lookup_row w (workflows (reconcile_one now w s d'))"
proof (induction plan arbitrary: d)
  case (Cons p plan)
  obtain v u where p: "p = (v, u)" by (cases p)
  show ?case
  proof (cases "(w, s) = p")
    case True
    with Cons.prems have "w \<notin> fst ` set plan" by (auto simp: p)
    from reconcile_fold_other [OF this, of now "reconcile_one now w s d"] True show ?thesis by (auto simp: p)
  next
    case False
    with Cons.prems have "(w, s) \<in> set plan" "distinct (map fst plan)" by (auto simp: p)
    moreover from this Cons.prems have "w \<noteq> v" by (auto simp: p image_iff)
    ultimately show ?thesis
      using Cons.IH [of "reconcile_one now v u d"] by (auto simp: p reconcile_one_other)
  qed
qed simp

lemma stale_distinct:
  assumes "distinct (row_ids (workflows d))" and "\<forall>r \<in> set (workflows d). \<exists>i. col r ''id'' = JStr i"
  shows "distinct (map fst (reconcile_plan f d))"
proof -
  have "\<forall>v \<in> set (row_ids (workflows d)). JStr (str_of v) = v" using assms(2) by (auto simp: row_ids_def str_of_def)
  then have "inj_on str_of (set (row_ids (workflows d)))" by (metis inj_onI)
  with assms(1) have "distinct (map str_of (row_ids (workflows d)))" by (simp add: distinct_map)
  then have "distinct (map (\<lambda>r. str_of (col r ''id'')) (workflows d))"
    by (simp add: row_ids_def comp_def)
  then show ?thesis
    by (simp add: reconcile_plan_def stale_rows_def comp_def distinct_map_filter)
qed

lemma reconciled_final:
  assumes "nonterminal_count w d = 0" and "0 < getWorkflowTaskCount w d"
  shows "(if stale_final_status w d \<in> set CLOSED_WORKFLOW then stale_final_status w d else aggregate_status w d) = reconciled_status w d"
  using assms count_split [of w d]
  by (auto simp: stale_final_status_def reconciled_status_def aggregate_status_def CLOSED_WORKFLOW_def)


section \<open>Review injection\<close>

lemma has_dependency_mono: "set (deps d) \<subseteq> set (deps d') \<Longrightarrow> has_dependency w t p d \<Longrightarrow> has_dependency w t p d'"
  by (auto simp: has_dependency_def list_ex_iff)

lemma ensure_adds:
  assumes "ensure_dependency now w t p d = Inr d'"
  shows "has_dependency w t p d' \<and> set (deps d) \<subseteq> set (deps d') \<and> tasks d' = tasks d"
  using assms
  by (auto simp: ensure_dependency_def addTaskDependency_def has_dependency_def new_dep_def review_request_def split: if_splits)

lemma gate_adds:
  "gate_downstream now w rt rn ts d = Inr d' \<Longrightarrow>
     set (deps d) \<subseteq> set (deps d') \<and> (\<forall>t \<in> set ts. has_dependency w t rt d')"
proof (induction ts arbitrary: d)
  case (Cons t ts)
  from Cons.prems obtain d1 where e: "ensure_dependency now w t rt d = Inr d1"
    and g: "gate_downstream now w rt rn ts (set_task_meta t rn d1) = Inr d'" by (auto split: sum.splits)
  from Cons.IH [OF g] ensure_adds [OF e] has_dependency_mono [of d1 d' w t rt]
  show ?case by auto
qed simp

lemma has_dependency_deps: "deps d' = deps d \<Longrightarrow> has_dependency w t p d' = has_dependency w t p d"
  by (simp add: has_dependency_def)

lemma inject_effect:
  assumes run: "inject_transaction now w cn rt d = Inr (res, d')"
  shows "has_dependency w rt (completed_task_id res) d' \<and> set (deps d) \<subseteq> set (deps d') \<and>
    (\<forall>t. has_dependency w t (completed_task_id res) d \<and> t \<noteq> rt \<longrightarrow> has_dependency w t rt d')"
proof -
  from run obtain completed reviewTask where
    c: "node_task w cn d = Some completed" "lookup_row rt (tasks d) = Some reviewTask"
      "review_conflict w (''review-'' @ cn) rt reviewTask d = None"
    unfolding inject_transaction_def Let_def by (auto split: option.splits)
  define rv where "rv = str_of (col completed ''id'')"
  define d1 where "d1 = write_cols rt [(''workflow_id'', JStr w), (''workflow_node_id'', JStr (''review-'' @ cn)),
    (''metadata'', add_context_from (col reviewTask ''metadata'') cn)] d"
  from run c obtain d2 where e: "ensure_dependency now w rt rv d1 = Inr d2"
    by (cases "ensure_dependency now w rt rv d1") (auto simp: inject_transaction_def rv_def d1_def Let_def)
  with run c have g: "gate_downstream now w rt (''review-'' @ cn) (downstream_tasks w rv rt d2) d2 = Inr d'"
    and res: "completed_task_id res = rv"
    by (auto simp: inject_transaction_def rv_def d1_def Let_def split: sum.splits)
  have d1: "deps d1 = deps d" by (simp add: d1_def)
  note up = ensure_adds [OF e] gate_adds [OF g]
  have "t \<in> set (downstream_tasks w rv rt d2)" if "has_dependency w t rv d" "t \<noteq> rt" for t
  proof -
    have "has_dependency w t rv d2" using has_dependency_mono [of d d2] that(1) up(1) d1 by simp
    with that(2) show ?thesis
      by (auto simp: downstream_tasks_def has_dependency_def list_ex_iff image_iff)
  qed
  with up d1 res has_dependency_mono [of d2 d' w rt rv] show ?thesis by auto
qed

lemma injected:
  assumes "fst (injectReviewDependency now w cn rt d) = Inr (Some res)"
  obtains d' where "inject_transaction now w cn rt d = Inr (res, d')"
    and "deps (snd (injectReviewDependency now w cn rt d)) = deps d'"
  using assms by (auto simp: injectReviewDependency_def split: if_splits sum.splits)

section \<open>Properties\<close>

definition flow_db :: tdb where
  "flow_db = \<lparr>tasks =
     [[(''id'', JStr ''a''), (''status'', JStr ''completed''), (''workflow_id'', JStr ''w''), (''workflow_node_id'', JStr ''build'')],
      [(''id'', JStr ''b''), (''status'', JStr ''failed''), (''workflow_id'', JStr ''w''), (''workflow_node_id'', JStr ''ship'')],
      [(''id'', JStr ''c''), (''status'', JStr ''blocked'')]],
     deps = [\<lparr>dep_id = 1, dep_workflow = ''w'', dep_task = ''b'', dep_on = ''a'', dep_condition = None,
       dep_on_fail = Some ''skip'', dep_alternate = None, dep_created = 0\<rparr>], next_dep_id = 2,
     workflows = [[(''id'', JStr ''w''), (''name'', JStr ''W''), (''status'', JStr ''running'')]],
     project_config = [], factory_projects = [], task_events = [], dbClosed = False, terminalGuards = [], terminalPending = []\<rparr>"

lemma flow_db_edges: "dep_edges v flow_db = (if v = ''w'' then {(''b'', ''a'')} else {})"
  by (auto simp: dep_edges_def getWorkflowDependencies_def flow_db_def)

lemma flow_db_acyclic: "acyclic (dep_edges v flow_db)"
proof -
  have "acyclic {}" by (simp add: acyclic_def)
  then show ?thesis by (simp add: flow_db_edges acyclic_insert)
qed

text \<open>C14: On an acyclic dependency graph the cycle check always ends, and it refuses a dependency
  exactly when the task is already reachable from what it would depend on.\<close>

theorem cycle_check_exact:
  assumes "acyclic (dep_edges w d)"
  shows "wouldCreateCycle t dep w d = Some ((dep, t) \<in> (dep_edges w d)\<^sup>*)"
  using assms by (rule cycle_check)

theorem cycle_check_exact_witness:
  "wouldCreateCycle ''a'' ''b'' ''w'' flow_db = Some True"
  using cycle_check_exact [OF flow_db_acyclic, of "''a''" "''b''" "''w''"] by (auto simp: flow_db_edges)

text \<open>C15: No history of additions, deletions, review injections, workflow deletions and task
  deletions makes the dependency graph of any workflow cyclic.\<close>

theorem graph_stays_acyclic:
  assumes "\<forall>w. acyclic (dep_edges w d)"
  shows "acyclic (dep_edges w (fold graph_step es d))"
  using graph.inv_run [of d es] assms by (simp add: deps_acyclic_def)

theorem graph_stays_acyclic_witness:
  "acyclic (dep_edges ''w'' (fold graph_step [(1, Inject_review ''w'' ''build'' ''c''),
     (2, Add_dependency \<lparr>req_workflow = ''w'', req_task = ''a'', req_on = ''b'', req_condition = None,
       req_on_fail = None, req_alternate = None\<rparr>)] flow_db))"
  by (rule graph_stays_acyclic) (simp add: flow_db_acyclic)

text \<open>C16: What can hold a workflow up. If its dependencies are acyclic and join tasks of one workflow, then below
  every unfinished task (the task itself included) there is an unfinished task whose fate is decided now: the unblock
  check lets it run or marks it as skipped, unless it is a dead merge node, one that waits for a first
  success among branches that all failed or were cancelled, or whose join policy is unknown; the check never starts a
  dead merge node. So without such merge nodes no workflow deadlocks on its dependencies.\<close>

theorem some_task_can_proceed:
  assumes "\<forall>w. acyclic (dep_edges w d)" and "deps_local d" and "unfinished d t"
  shows "\<exists>w u. (t, u) \<in> (dep_edges w d)\<^sup>* \<and> unfinished d u \<and>
    (if dead_merge d u then isTaskUnblockable regex now u d = (False, d)
     else (case isTaskUnblockable regex now u d of (b, d') \<Rightarrow>
       b \<or> (\<exists>q. lookup_row u (tasks d') = Some q \<and> col q ''status'' = JStr ''skipped'')))"
proof -
  from assms(1) have "deps_acyclic d" by (simp add: deps_acyclic_def)
  then obtain u w where u: "unfinished d u" and path: "(t, u) \<in> (dep_edges w d)\<^sup>*"
    and fin: "\<forall>(e, q) \<in> set (joined_deps u d). is_terminal_dep q"
    using minimal_unfinished [OF _ assms(2,3)] by metis
  from u obtain r where r: "lookup_row u (tasks d) = Some r" "\<not> is_terminal_dep r"
    by (auto simp: unfinished_def split: option.splits)
  have "if dead_merge d u then isTaskUnblockable regex now u d = (False, d)
     else (case isTaskUnblockable regex now u d of (b, d') \<Rightarrow>
       b \<or> (\<exists>q. lookup_row u (tasks d') = Some q \<and> col q ''status'' = JStr ''skipped''))"
    by (rule decided [OF r]) (use fin in blast)
  with u path show ?thesis by (intro exI [where x = w] exI [where x = u] conjI)
qed

theorem some_task_can_proceed_witness:
  "\<exists>w u. (''c'', u) \<in> (dep_edges w flow_db)\<^sup>* \<and> unfinished flow_db u \<and>
    (if dead_merge flow_db u then isTaskUnblockable (\<lambda>_ _. None) 5 u flow_db = (False, flow_db)
     else (case isTaskUnblockable (\<lambda>_ _. None) 5 u flow_db of (b, d') \<Rightarrow>
       b \<or> (\<exists>q. lookup_row u (tasks d') = Some q \<and> col q ''status'' = JStr ''skipped'')))"
proof (rule some_task_can_proceed)
  show "\<forall>w. acyclic (dep_edges w flow_db)" by (simp add: flow_db_acyclic)
  have "list_all (\<lambda>e. (case lookup_row (dep_task e) (tasks flow_db) of None \<Rightarrow> True | Some r \<Rightarrow> in_workflow (dep_workflow e) r) \<and>
      (case lookup_row (dep_on e) (tasks flow_db) of None \<Rightarrow> True | Some r \<Rightarrow> in_workflow (dep_workflow e) r)) (deps flow_db)"
    by code_simp
  then show "deps_local flow_db" by (auto simp: deps_local_def list_all_iff split: option.splits)
  show "unfinished flow_db ''c''" by code_simp
qed

text \<open>C17: A successful review injection keeps all dependencies, makes the review task depend on the
  reviewed one, and makes every task that depended on the reviewed one depend on the review.\<close>

theorem review_gates_downstream:
  assumes "fst (injectReviewDependency now w node rt d) = Inr (Some res)"
  shows "set (deps d) \<subseteq> set (deps (snd (injectReviewDependency now w node rt d))) \<and>
    has_dependency w rt (completed_task_id res) (snd (injectReviewDependency now w node rt d)) \<and>
    (\<forall>t. has_dependency w t (completed_task_id res) d \<and> t \<noteq> rt \<longrightarrow>
       has_dependency w t rt (snd (injectReviewDependency now w node rt d)))"
proof -
  from assms obtain d' where i: "inject_transaction now w node rt d = Inr (res, d')"
    "deps (snd (injectReviewDependency now w node rt d)) = deps d'" by (rule injected)
  from inject_effect [OF i(1)] i(2) show ?thesis by (simp add: has_dependency_deps [OF i(2)])
qed

theorem review_gates_downstream_witness:
  "has_dependency ''w'' ''b'' ''c'' (snd (injectReviewDependency 1 ''w'' ''build'' ''c'' flow_db))"
proof -
  have run: "fst (injectReviewDependency 1 ''w'' ''build'' ''c'' flow_db) = Inr (Some \<lparr>review_node_id = ''review-build'',
      completed_task_id = ''a'', downstream_task_ids = [''b'']\<rparr>)" by code_simp
  have "has_dependency ''w'' ''b'' ''a'' flow_db" by code_simp
  with review_gates_downstream [OF run] show ?thesis by simp
qed

text \<open>C7: Refreshing the counts of an open workflow stores the number of its tasks and of those
  completed, failed and skipped; it closes the workflow exactly when it has tasks and all are
  finished, as failed when one failed, as cancelled when all were cancelled, else as completed.
  No task and no other workflow changes, and a closed workflow keeps its row.\<close>

theorem workflow_counts_and_status:
  assumes "lookup_row w (workflows d) = Some r" and "d' = snd (updateWorkflowCounts now w d)"
  shows "tasks d' = tasks d \<and> (\<forall>v. v \<noteq> w \<longrightarrow> lookup_row v (workflows d') = lookup_row v (workflows d)) \<and>
    (\<exists>r'. lookup_row w (workflows d') = Some r' \<and>
      (if col r ''status'' \<in> JStr ` set CLOSED_WORKFLOW then r' = r
       else col r' ''total_tasks'' = js_nat (getWorkflowTaskCount w d) \<and>
         col r' ''completed_tasks'' = js_nat (count_status w ''completed'' d) \<and>
         col r' ''failed_tasks'' = js_nat (count_status w ''failed'' d) \<and>
         col r' ''skipped_tasks'' = js_nat (count_status w ''skipped'' d) \<and>
         col r' ''status'' = (if nonterminal_count w d = 0 \<and> 0 < getWorkflowTaskCount w d
           then JStr (if 0 < count_status w ''failed'' d then ''failed''
             else if count_status w ''cancelled'' d = getWorkflowTaskCount w d then ''cancelled'' else ''completed'')
           else col r ''status'')))"
proof -
  let ?u = "updated_counts now w d r"
  have row: "lookup_row w (workflows d') = Some ?u" using assms by (simp add: lookup_updateWorkflowCounts)
  have "if col r ''status'' \<in> JStr ` set CLOSED_WORKFLOW then ?u = r
    else col ?u ''total_tasks'' = js_nat (getWorkflowTaskCount w d) \<and>
      col ?u ''completed_tasks'' = js_nat (count_status w ''completed'' d) \<and>
      col ?u ''failed_tasks'' = js_nat (count_status w ''failed'' d) \<and>
      col ?u ''skipped_tasks'' = js_nat (count_status w ''skipped'' d) \<and>
      col ?u ''status'' = (if nonterminal_count w d = 0 \<and> 0 < getWorkflowTaskCount w d
           then JStr (if 0 < count_status w ''failed'' d then ''failed''
             else if count_status w ''cancelled'' d = getWorkflowTaskCount w d then ''cancelled'' else ''completed'')
           else col r ''status'')"
    by (simp add: updated_counts_def Let_def aggregate_status_def counts_patch_get status_patch_get)
  then show ?thesis using row assms(2)
    by (intro conjI allI impI exI [where x = ?u]) (simp_all add: lookup_updateWorkflowCounts)
qed

theorem workflow_counts_and_status_witness:
  "\<exists>r'. lookup_row ''w'' (workflows (snd (updateWorkflowCounts 7 ''w'' flow_db))) = Some r' \<and>
     col r' ''status'' = JStr ''failed'' \<and> col r' ''total_tasks'' = JNum 2"
proof -
  have r: "lookup_row ''w'' (workflows flow_db) = Some (hd (workflows flow_db))" by code_simp
  have c: "col (hd (workflows flow_db)) ''status'' \<notin> JStr ` set CLOSED_WORKFLOW" by code_simp
  have n: "nonterminal_count ''w'' flow_db = 0" "getWorkflowTaskCount ''w'' flow_db = 2"
    "count_status ''w'' ''failed'' flow_db = 1" by code_simp+
  show ?thesis using workflow_counts_and_status [OF r refl, of 7] c by (auto simp: n js_nat_def)
qed

text \<open>C18: Reconciliation closes every open workflow whose tasks are all finished: as failed when a
  task failed or when all that ended was cancelled, else as completed. The status
  completed_with_errors it first writes never survives the refresh of the counts that follows.\<close>

theorem reconcile_outcome:
  assumes "distinct (row_ids (workflows d))" and "\<forall>r \<in> set (workflows d). \<exists>i. col r ''id'' = JStr i"
    and "lookup_row w (workflows d) = Some r" and "w \<in> set (stale_rows filter_id d)" and "nonterminal_count w d = 0"
  shows "\<exists>r'. lookup_row w (workflows (snd (reconcileStaleWorkflows now filter_id d))) = Some r' \<and>
    col r' ''status'' = JStr (if 0 < count_status w ''failed'' d then ''failed''
      else if 0 < count_status w ''completed'' d \<or> count_status w ''cancelled'' d = 0 then ''completed'' else ''failed'')"
proof -
  have pos: "0 < getWorkflowTaskCount w d" using assms(4) by (auto simp: stale_rows_def)
  have "(w, stale_final_status w d) \<in> set (reconcile_plan filter_id d)"
    using assms(4,5) by (simp add: reconcile_plan_def)
  from reconcile_fold_hit [OF stale_distinct [OF assms(1,2)] this, of d now]
  obtain d1 where d1: "tasks d1 = tasks d" "lookup_row w (workflows d1) = lookup_row w (workflows d)"
    and fin: "lookup_row w (workflows (snd (reconcileStaleWorkflows now filter_id d))) =
      lookup_row w (workflows (reconcile_one now w (stale_final_status w d) d1))"
    by (auto simp: reconcile_fold)
  from d1(2) assms(3) have "lookup_row w (workflows d1) = Some r" by simp
  from reconcile_one_row [OF this, of now "stale_final_status w d"] fin
  moreover have "aggregate_status w d1 = aggregate_status w d"
    by (simp add: aggregate_status_def counts_same_tasks [OF d1(1)])
  ultimately have "\<exists>r'. lookup_row w (workflows (snd (reconcileStaleWorkflows now filter_id d))) = Some r' \<and>
      col r' ''status'' = JStr (reconciled_status w d)"
    using reconciled_final [OF assms(5) pos] assms(5) pos
    by (auto simp: counts_same_tasks [OF d1(1)] split: if_splits)
  then show ?thesis by (simp add: reconciled_status_def)
qed

theorem reconcile_outcome_witness:
  "\<exists>r'. lookup_row ''w'' (workflows (snd (reconcileStaleWorkflows 7 None flow_db))) = Some r' \<and> col r' ''status'' = JStr ''failed''"
proof -
  have r: "lookup_row ''w'' (workflows flow_db) = Some (hd (workflows flow_db))" by code_simp
  have h: "distinct (row_ids (workflows flow_db))" "''w'' \<in> set (stale_rows None flow_db)"
    "nonterminal_count ''w'' flow_db = 0" "0 < count_status ''w'' ''failed'' flow_db" by code_simp+
  have "\<forall>r \<in> set (workflows flow_db). \<exists>i. col r ''id'' = JStr i" by (simp add: flow_db_def col_def)
  from reconcile_outcome [OF h(1) this r h(2,3), of 7] h(4) show ?thesis by simp
qed

end
