(* ===== verification/Coord_Locks.thy ===== *)
theory Coord_Locks
  imports Prelude
begin

text \<open>
  The lock daemon of \<open>server/coord/state.js\<close> and its reaper \<open>server/coord/reaper.js\<close>: one lock per project,
  a global bound on the number of locks, heartbeats with a bounded output buffer, release with
  notification of the subscribers, and the release of locks whose holder stopped reporting.

  The state is \<open>lock_store\<close>: the closure's three Maps, the file the locks are persisted to, and the
  log of events handed to subscribers. The random identifier of a new lock and the clock are
  arguments. A callback is a number; what it does with an event is not part of the store.
\<close>

section \<open>State\<close>

record lock =
  lock_id :: string
  project :: string
  sha :: string
  suite :: string
  holder :: jsval
  created_at :: int
  last_heartbeat_at :: int
  output_buffer :: string
  crashed :: bool

datatype lock_file = No_file | Unreadable string | Saved "lock list"

datatype lock_event =
    Released jsval jsval string lock
  | Holder_crashed string lock

record lock_store =
  locks :: "(string \<times> lock) list"
  byProject :: "(string \<times> string) list"
  subscribers :: "(string \<times> nat list) list"
  notified :: "(nat \<times> lock_event) list"
  disk :: lock_file

record lock_config =
  max_concurrent_runs :: nat
  persist_path :: bool
  writable :: bool

definition OUTPUT_BUFFER_CAP_BYTES :: nat where
  "OUTPUT_BUFFER_CAP_BYTES = 1024 * 1024"

definition createStateStore :: "lock_file \<Rightarrow> lock_store" where
  "createStateStore f = \<lparr>locks = [], byProject = [], subscribers = [], notified = [], disk = f\<rparr>"

section \<open>Operations\<close>

definition listActive :: "lock_store \<Rightarrow> lock list" where
  "listActive s = map snd (locks s)"

definition getLock :: "string \<Rightarrow> lock_store \<Rightarrow> lock option" where
  "getLock i s = map_of (locks s) i"

text \<open>Persistence is best effort: without a path or on a failing disk the file stays as it is.\<close>

definition persistLocks :: "lock_config \<Rightarrow> lock_store \<Rightarrow> lock_store" where
  "persistLocks cfg s = (if persist_path cfg \<and> writable cfg then s\<lparr>disk := Saved (listActive s)\<rparr> else s)"

record restore_result =
  crashed_count :: nat
  restore_error :: "string option"

definition restoreFromFile :: "lock_config \<Rightarrow> lock_store \<Rightarrow> restore_result \<times> lock_store" where
  "restoreFromFile cfg s =
     (if \<not> persist_path cfg then (\<lparr>crashed_count = 0, restore_error = None\<rparr>, s)
      else case disk s of
          No_file \<Rightarrow> (\<lparr>crashed_count = 0, restore_error = None\<rparr>, s)
        | Unreadable e \<Rightarrow> (\<lparr>crashed_count = 0, restore_error = Some e\<rparr>, s)
        | Saved stale \<Rightarrow> (\<lparr>crashed_count = length stale, restore_error = None\<rparr>,
            persistLocks cfg (s\<lparr>locks := [], byProject := []\<rparr>)))"

datatype acquire_result =
    Acquired string
  | Project_held string
  | Global_semaphore_full

record acquire_request =
  req_project :: string
  req_sha :: string
  req_suite :: string
  req_holder :: jsval

definition new_lock :: "int \<Rightarrow> string \<Rightarrow> acquire_request \<Rightarrow> lock" where
  "new_lock now i q = \<lparr>lock_id = i, project = req_project q, sha = req_sha q, suite = req_suite q,
     holder = req_holder q, created_at = now, last_heartbeat_at = now, output_buffer = [], crashed = False\<rparr>"

definition acquire :: "lock_config \<Rightarrow> int \<Rightarrow> string \<Rightarrow> acquire_request \<Rightarrow> lock_store \<Rightarrow> acquire_result \<times> lock_store" where
  "acquire cfg now newLockId q s =
     (case map_of (byProject s) (req_project q) of
        Some i \<Rightarrow> (Project_held i, s)
      | None \<Rightarrow>
          if max_concurrent_runs cfg \<le> length (locks s) then (Global_semaphore_full, s)
          else (Acquired newLockId, persistLocks cfg (s\<lparr>
            locks := AList.update newLockId (new_lock now newLockId q) (locks s),
            byProject := AList.update (req_project q) newLockId (byProject s)\<rparr>)))"

text \<open>\<open>at'\<close> is the caller's \<open>now\<close>, when it gives one.\<close>

definition beat :: "int \<Rightarrow> int option \<Rightarrow> string \<Rightarrow> lock \<Rightarrow> lock" where
  "beat now at' log_chunk l =
     (let l1 = l\<lparr>last_heartbeat_at := (case at' of None \<Rightarrow> now | Some t \<Rightarrow> if t = 0 then now else t)\<rparr>;
          combined = output_buffer l @ log_chunk in
      if log_chunk = [] then l1
      else l1\<lparr>output_buffer := (if OUTPUT_BUFFER_CAP_BYTES < length combined
        then drop (length combined - OUTPUT_BUFFER_CAP_BYTES) combined else combined)\<rparr>)"

definition heartbeat :: "lock_config \<Rightarrow> int \<Rightarrow> string \<Rightarrow> string \<Rightarrow> int option \<Rightarrow> lock_store \<Rightarrow> bool \<times> lock_store" where
  "heartbeat cfg now i log_chunk at' s =
     (case map_of (locks s) i of
        None \<Rightarrow> (False, s)
      | Some l \<Rightarrow> (True, persistLocks cfg (s\<lparr>locks := AList.update i (beat now at' log_chunk l) (locks s)\<rparr>)))"

definition notify :: "string \<Rightarrow> lock_event \<Rightarrow> lock_store \<Rightarrow> lock_store" where
  "notify i ev s =
     (case map_of (subscribers s) i of
        None \<Rightarrow> s
      | Some cbs \<Rightarrow> s\<lparr>notified := notified s @ map (\<lambda>cb. (cb, ev)) cbs,
          subscribers := AList.delete i (subscribers s)\<rparr>)"

definition drop_lock :: "lock_config \<Rightarrow> lock \<Rightarrow> string \<Rightarrow> lock_store \<Rightarrow> lock_store" where
  "drop_lock cfg l i s = persistLocks cfg (s\<lparr>locks := AList.delete i (locks s),
     byProject := AList.delete (project l) (byProject s)\<rparr>)"

record release_payload =
  exit_code :: jsval
  suite_status :: jsval
  output_tail :: "string option"

definition tail_of :: "release_payload \<Rightarrow> lock \<Rightarrow> string" where
  "tail_of p l = (case output_tail p of Some (c # cs) \<Rightarrow> c # cs
     | _ \<Rightarrow> slice_last OUTPUT_BUFFER_CAP_BYTES (output_buffer l))"

definition release :: "lock_config \<Rightarrow> string \<Rightarrow> release_payload \<Rightarrow> lock_store \<Rightarrow> lock option \<times> lock_store" where
  "release cfg i payload s =
     (case map_of (locks s) i of
        None \<Rightarrow> (None, s)
      | Some l \<Rightarrow> (Some l, notify i (Released (exit_code payload) (suite_status payload) (tail_of payload l) l)
          (drop_lock cfg l i s)))"

definition forceRelease :: "lock_config \<Rightarrow> string \<Rightarrow> string \<Rightarrow> lock_store \<Rightarrow> lock option \<times> lock_store" where
  "forceRelease cfg i reason s =
     (case map_of (locks s) i of
        None \<Rightarrow> (None, s)
      | Some l \<Rightarrow> (let l' = l\<lparr>crashed := True\<rparr> in
          (Some l', notify i (Holder_crashed reason l') (drop_lock cfg l' i s))))"

definition subscribe :: "string \<Rightarrow> nat \<Rightarrow> lock_store \<Rightarrow> lock_store" where
  "subscribe i cb s =
     (let cbs = (case map_of (subscribers s) i of None \<Rightarrow> [] | Some cbs \<Rightarrow> cbs) in
      s\<lparr>subscribers := AList.update i (if cb \<in> set cbs then cbs else cbs @ [cb]) (subscribers s)\<rparr>)"

definition unsubscribe :: "string \<Rightarrow> nat \<Rightarrow> lock_store \<Rightarrow> lock_store" where
  "unsubscribe i cb s =
     (case map_of (subscribers s) i of
        None \<Rightarrow> s
      | Some cbs \<Rightarrow> (let rest = removeAll cb cbs in
          s\<lparr>subscribers := (if rest = [] then AList.delete i (subscribers s)
            else AList.update i rest (subscribers s))\<rparr>))"

section \<open>The reaper\<close>

definition reap_one :: "lock_config \<Rightarrow> int \<Rightarrow> int \<Rightarrow> lock \<Rightarrow> string list \<times> lock_store \<Rightarrow> string list \<times> lock_store" where
  "reap_one cfg threshold now l acc =
     (if threshold < now - last_heartbeat_at l
      then (fst acc @ [lock_id l], snd (forceRelease cfg (lock_id l) ''stale_heartbeat'' (snd acc)))
      else acc)"

definition reapStaleLocks :: "lock_config \<Rightarrow> int \<Rightarrow> int \<Rightarrow> lock_store \<Rightarrow> string list \<times> lock_store" where
  "reapStaleLocks cfg threshold now s = fold (reap_one cfg threshold now) (listActive s) ([], s)"

end
