(* ===== verification/Coord_Laws.thy ===== *)
theory Coord_Laws
  imports Coord_Locks
begin

text \<open>
  What the lock daemon promises. The abstract service is a lease table: a partial function from
  projects to the identifier of the holder's lock and the time of its last heartbeat, with at most
  \<open>max_concurrent_runs\<close> entries. The daemon's Maps refine it step by step, which gives mutual exclusion
  per project, the global bound and the effect of the reaper.
\<close>

section \<open>The invariant\<close>

definition linked :: "(string \<Rightarrow> lock option) \<Rightarrow> (string \<Rightarrow> string option) \<Rightarrow> bool" where
  "linked M B \<longleftrightarrow>
     (\<forall>i l. M i = Some l \<longrightarrow> lock_id l = i \<and> B (project l) = Some i \<and>
        length (output_buffer l) \<le> OUTPUT_BUFFER_CAP_BYTES) \<and>
     (\<forall>p i. B p = Some i \<longrightarrow> (\<exists>l. M i = Some l \<and> project l = p))"

definition lock_inv :: "lock_config \<Rightarrow> lock_store \<Rightarrow> bool" where
  "lock_inv cfg s \<longleftrightarrow> distinct (map fst (locks s)) \<and> distinct (map fst (byProject s)) \<and>
     linked (map_of (locks s)) (map_of (byProject s)) \<and> length (locks s) \<le> max_concurrent_runs cfg"

lemma linkedD:
  assumes "linked M B" and "M i = Some l"
  shows "lock_id l = i" "B (project l) = Some i" "length (output_buffer l) \<le> OUTPUT_BUFFER_CAP_BYTES"
  using assms by (auto simp: linked_def)

lemma linkedB: "linked M B \<Longrightarrow> B p = Some i \<Longrightarrow> \<exists>l. M i = Some l \<and> project l = p"
  unfolding linked_def by blast

lemma linkedI:
  assumes "\<And>i l. M i = Some l \<Longrightarrow> lock_id l = i \<and> B (project l) = Some i \<and> length (output_buffer l) \<le> OUTPUT_BUFFER_CAP_BYTES"
    and "\<And>p i. B p = Some i \<Longrightarrow> \<exists>l. M i = Some l \<and> project l = p"
  shows "linked M B"
  unfolding linked_def using assms by blast

lemma linked_drop:
  assumes "linked M B" and "M i = Some l"
  shows "linked (M(i := None)) (B(project l := None))"
proof -
  have "project m \<noteq> project l" if "M j = Some m" "j \<noteq> i" for j m
    using linkedD(2) [OF assms(1) that(1)] linkedD(2) [OF assms] that(2) by auto
  moreover have "j \<noteq> i" if "B p = Some j" "p \<noteq> project l" for p j
    using linkedB [OF assms(1) that(1)] assms(2) that(2) by auto
  ultimately show ?thesis
    using linkedD [OF assms(1)] linkedB [OF assms(1)] by (intro linkedI) (auto split: if_splits)
qed

lemma linked_replace:
  assumes "linked M B" and "M i = Some l" and "lock_id l' = i" and "project l' = project l"
    and "length (output_buffer l') \<le> OUTPUT_BUFFER_CAP_BYTES"
  shows "linked (M(i \<mapsto> l')) B"
proof (rule linkedI)
  fix j m
  assume "(M(i \<mapsto> l')) j = Some m"
  then show "lock_id m = j \<and> B (project m) = Some j \<and> length (output_buffer m) \<le> OUTPUT_BUFFER_CAP_BYTES"
    using assms(3-5) linkedD(2) [OF assms(1,2)] linkedD [OF assms(1)] by (cases "j = i") simp_all
next
  fix p j
  assume "B p = Some j"
  from linkedB [OF assms(1) this] assms(2,4) show "\<exists>m. (M(i \<mapsto> l')) j = Some m \<and> project m = p"
    by (cases "j = i") simp_all
qed

lemma linked_insert:
  assumes "linked M B" and "M i = None" and "B (project l) = None" and "lock_id l = i" and "output_buffer l = []"
  shows "linked (M(i \<mapsto> l)) (B(project l \<mapsto> i))"
proof -
  have "project m \<noteq> project l" if "M j = Some m" for j m
    using linkedD(2) [OF assms(1) that] assms(3) by auto
  moreover have "j \<noteq> i" if "B p = Some j" for p j using linkedB [OF assms(1) that] assms(2) by auto
  ultimately show ?thesis
    using assms(3-5) linkedD [OF assms(1)] linkedB [OF assms(1)] by (intro linkedI) (auto split: if_splits)
qed

lemma persistLocks_frame [simp]:
  "locks (persistLocks cfg s) = locks s" "byProject (persistLocks cfg s) = byProject s"
  "subscribers (persistLocks cfg s) = subscribers s" "notified (persistLocks cfg s) = notified s"
  by (simp_all add: persistLocks_def)

lemma notify_frame [simp]:
  "locks (notify i ev s) = locks s" "byProject (notify i ev s) = byProject s"
  by (simp_all add: notify_def split: option.split)

lemma drop_lock_frame [simp]:
  "locks (drop_lock cfg l i s) = AList.delete i (locks s)"
  "byProject (drop_lock cfg l i s) = AList.delete (project l) (byProject s)"
  "subscribers (drop_lock cfg l i s) = subscribers s" "notified (drop_lock cfg l i s) = notified s"
  by (simp_all add: drop_lock_def)

lemma lock_inv_cong: "locks s' = locks s \<Longrightarrow> byProject s' = byProject s \<Longrightarrow> lock_inv cfg s' = lock_inv cfg s"
  by (simp add: lock_inv_def)

lemmas inv_linked = lock_inv_def [THEN iffD1, THEN conjunct2, THEN conjunct2, THEN conjunct1]

lemma inv_project:
  assumes "lock_inv cfg s" and "map_of (byProject s) p = Some i"
  obtains l where "map_of (locks s) i = Some l" "project l = p"
  using inv_linked [OF assms(1)] assms(2) unfolding linked_def by blast

lemmas inv_lock = linkedD [OF inv_linked]

lemma length_delete: "length (AList.delete k al) \<le> length al"
  by (induction al) auto

lemma length_update_known: "map_of al k = Some v \<Longrightarrow> length (AList.update k w al) = length al"
  by (induction al) (auto split: if_splits)

lemma length_update_le: "length (AList.update k w al) \<le> Suc (length al)"
  by (induction al) auto

lemma map_of_update: "map_of (AList.update k v al) = (map_of al)(k \<mapsto> v)"
  by (simp add: update_conv')

lemma map_of_delete: "map_of (AList.delete k al) = (map_of al)(k := None)"
  by (simp add: delete_conv')

lemma lock_inv_drop:
  assumes inv: "lock_inv cfg s" and l: "map_of (locks s) i = Some l" and p: "project l' = project l"
  shows "lock_inv cfg (drop_lock cfg l' i s)"
  unfolding lock_inv_def drop_lock_frame map_of_delete p
proof (intro conjI)
  show "linked ((map_of (locks s))(i := None)) ((map_of (byProject s))(project l := None))"
    by (rule linked_drop [OF inv_linked [OF inv] l])
  show "length (AList.delete i (locks s)) \<le> max_concurrent_runs cfg"
    using inv length_delete [of i "locks s"] by (simp add: lock_inv_def)
qed (use inv in \<open>simp_all add: lock_inv_def distinct_delete\<close>)

lemma length_beat:
  "length (output_buffer l) \<le> OUTPUT_BUFFER_CAP_BYTES \<Longrightarrow> length (output_buffer (beat now t chunk l)) \<le> OUTPUT_BUFFER_CAP_BYTES"
  by (auto simp: beat_def Let_def)

lemma beat_frame [simp]: "lock_id (beat now t chunk l) = lock_id l" "project (beat now t chunk l) = project l"
  by (simp_all add: beat_def Let_def)

lemma lock_inv_heartbeat:
  assumes inv: "lock_inv cfg s"
  shows "lock_inv cfg (snd (heartbeat cfg now i chunk t s))"
proof (cases "map_of (locks s) i")
  case None
  with inv show ?thesis by (simp add: heartbeat_def)
next
  case (Some l)
  note l = inv_lock [OF inv Some]
  have "linked ((map_of (locks s))(i \<mapsto> beat now t chunk l)) (map_of (byProject s))"
    by (rule linked_replace [OF inv_linked [OF inv] Some]) (simp_all add: l length_beat)
  moreover have "length (AList.update i (beat now t chunk l) (locks s)) \<le> max_concurrent_runs cfg"
    using inv by (simp add: length_update_known [OF Some] lock_inv_def)
  ultimately show ?thesis using inv
    unfolding lock_inv_def heartbeat_def Some by (simp add: map_of_update distinct_update)
qed

lemma lock_inv_acquire:
  assumes inv: "lock_inv cfg s" and fresh: "map_of (locks s) i = None"
  shows "lock_inv cfg (snd (acquire cfg now i q s))"
proof (cases "map_of (byProject s) (req_project q) = None \<and> length (locks s) < max_concurrent_runs cfg")
  case True
  let ?l = "new_lock now i q"
  have p: "project ?l = req_project q" by (simp add: new_lock_def)
  have "linked ((map_of (locks s))(i \<mapsto> ?l)) ((map_of (byProject s))(project ?l \<mapsto> i))"
    by (rule linked_insert [OF inv_linked [OF inv] fresh]) (use True in \<open>simp_all add: new_lock_def\<close>)
  moreover have "length (AList.update i ?l (locks s)) \<le> max_concurrent_runs cfg"
    using length_update_le [of i ?l "locks s"] True by linarith
  ultimately show ?thesis using inv True
    unfolding lock_inv_def acquire_def by (simp add: map_of_update distinct_update p)
next
  case False
  with inv show ?thesis by (auto simp: acquire_def split: option.split)
qed

lemma lock_inv_release: "lock_inv cfg s \<Longrightarrow> lock_inv cfg (snd (release cfg i p s))"
  by (auto simp: release_def lock_inv_cong [OF notify_frame] intro: lock_inv_drop split: option.split)

lemma lock_inv_force: "lock_inv cfg s \<Longrightarrow> lock_inv cfg (snd (forceRelease cfg i r s))"
  by (auto simp: forceRelease_def Let_def lock_inv_cong [OF notify_frame] intro: lock_inv_drop split: option.split)

section \<open>The abstract service\<close>

type_synonym lease_table = "string \<Rightarrow> (string \<times> int) option"

definition leases :: "lock_store \<Rightarrow> lease_table" where
  "leases s p = (case map_of (byProject s) p of None \<Rightarrow> None
     | Some i \<Rightarrow> map_option (\<lambda>l. (i, last_heartbeat_at l)) (map_of (locks s) i))"

datatype lock_op =
    Acquire int string acquire_request
  | Heartbeat int string string "int option"
  | Release string release_payload
  | Force_release string string
  | Reap int int
  | Subscribe string nat
  | Unsubscribe string nat

fun lock_step :: "lock_config \<Rightarrow> lock_op \<Rightarrow> lock_store \<Rightarrow> lock_store" where
  "lock_step cfg (Acquire now i q) s = snd (acquire cfg now i q s)"
| "lock_step cfg (Heartbeat now i chunk t) s = snd (heartbeat cfg now i chunk t s)"
| "lock_step cfg (Release i p) s = snd (release cfg i p s)"
| "lock_step cfg (Force_release i r) s = snd (forceRelease cfg i r s)"
| "lock_step cfg (Reap threshold now) s = snd (reapStaleLocks cfg threshold now s)"
| "lock_step cfg (Subscribe i cb) s = subscribe i cb s"
| "lock_step cfg (Unsubscribe i cb) s = unsubscribe i cb s"

text \<open>The random identifier of a new lock is not in use.\<close>

fun fresh_id :: "lock_op \<Rightarrow> lock_store \<Rightarrow> bool" where
  "fresh_id (Acquire now i q) s = (map_of (locks s) i = None)"
| "fresh_id _ s = True"

definition revoke :: "(string \<times> int \<Rightarrow> bool) \<Rightarrow> lease_table \<Rightarrow> lease_table" where
  "revoke P m p = (case m p of None \<Rightarrow> None | Some x \<Rightarrow> if P x then None else Some x)"

fun lease_step :: "nat \<Rightarrow> lock_op \<Rightarrow> lease_table \<Rightarrow> lease_table" where
  "lease_step mx (Acquire now i q) m =
     (if m (req_project q) \<noteq> None \<or> mx \<le> card (dom m) then m else m(req_project q \<mapsto> (i, now)))"
| "lease_step mx (Heartbeat now i chunk t) m =
     (\<lambda>p. map_option (\<lambda>(j, last). (j, if j = i then (case t of None \<Rightarrow> now | Some t' \<Rightarrow> if t' = 0 then now else t') else last)) (m p))"
| "lease_step mx (Release i r) m = revoke (\<lambda>(j, _). j = i) m"
| "lease_step mx (Force_release i r) m = revoke (\<lambda>(j, _). j = i) m"
| "lease_step mx (Reap threshold now) m = revoke (\<lambda>(_, last). threshold < now - last) m"
| "lease_step mx _ m = m"

lemma leases_iff:
  assumes "lock_inv cfg s"
  shows "leases s p = Some (i, t) \<longleftrightarrow> (\<exists>l. map_of (locks s) i = Some l \<and> project l = p \<and> last_heartbeat_at l = t)"
  using inv_lock(2) [OF assms] by (auto simp: leases_def elim: inv_project [OF assms] split: option.splits)

lemma leases_None: "lock_inv cfg s \<Longrightarrow> leases s p = None \<longleftrightarrow> map_of (byProject s) p = None"
  by (auto simp: leases_def elim: inv_project split: option.splits)

lemma card_dom_distinct: "distinct (map fst al) \<Longrightarrow> card (dom (map_of al)) = length al"
  by (metis distinct_card dom_map_of_conv_image_fst length_map list.set_map)

lemma card_leases:
  assumes inv: "lock_inv cfg s"
  shows "card (dom (leases s)) = length (locks s)"
proof -
  let ?f = "\<lambda>i. project (the (map_of (locks s) i))"
  have "bij_betw ?f (dom (map_of (locks s))) (dom (leases s))"
  proof (rule bij_betw_imageI)
    show "inj_on ?f (dom (map_of (locks s)))"
      using inv_lock(2) [OF inv] by (auto intro!: inj_onI) (metis option.inject)
    show "?f ` dom (map_of (locks s)) = dom (leases s)"
      using leases_iff [OF inv] by (force simp: dom_def image_iff)
  qed
  then have "card (dom (leases s)) = card (dom (map_of (locks s)))" by (rule bij_betw_same_card [symmetric])
  with inv show ?thesis by (simp add: card_dom_distinct lock_inv_def)
qed

lemma leases_drop:
  assumes inv: "lock_inv cfg s" and l: "map_of (locks s) i = Some l" and p: "project l' = project l"
  shows "leases (drop_lock cfg l' i s) = revoke (\<lambda>(j, _). j = i) (leases s)"
proof
  fix x
  show "leases (drop_lock cfg l' i s) x = revoke (\<lambda>(j, _). j = i) (leases s) x"
  proof (cases "x = project l")
    case True
    with inv_lock(2) [OF inv l] l show ?thesis by (simp add: leases_def revoke_def p map_of_delete)
  next
    case False
    then have "map_of (byProject s) x \<noteq> Some i"
      using l by (auto elim!: inv_project [OF inv])
    with False show ?thesis by (auto simp: leases_def revoke_def p map_of_delete split: option.split)
  qed
qed

lemma leases_cong: "locks s' = locks s \<Longrightarrow> byProject s' = byProject s \<Longrightarrow> leases s' = leases s"
  by (rule ext) (simp add: leases_def split: option.split)

lemma leases_notify [simp]: "leases (notify i ev s) = leases s"
  by (rule leases_cong) simp_all

lemma leases_unknown: "lock_inv cfg s \<Longrightarrow> map_of (locks s) i = None \<Longrightarrow> revoke (\<lambda>(j, _). j = i) (leases s) = leases s"
  by (auto simp: revoke_def leases_def fun_eq_iff elim: inv_project split: option.splits)

lemma leases_force:
  "lock_inv cfg s \<Longrightarrow> leases (snd (forceRelease cfg i r s)) = revoke (\<lambda>(j, _). j = i) (leases s)"
  by (auto simp: forceRelease_def Let_def leases_unknown leases_drop split: option.split)

lemma leases_release:
  "lock_inv cfg s \<Longrightarrow> leases (snd (release cfg i r s)) = revoke (\<lambda>(j, _). j = i) (leases s)"
  by (auto simp: release_def leases_unknown leases_drop split: option.split)


lemma leases_acquire:
  assumes inv: "lock_inv cfg s" and fresh: "map_of (locks s) i = None"
  shows "leases (snd (acquire cfg now i q s)) = lease_step (max_concurrent_runs cfg) (Acquire now i q) (leases s)"
proof (cases "map_of (byProject s) (req_project q) = None \<and> length (locks s) < max_concurrent_runs cfg")
  case True
  let ?s' = "s\<lparr>locks := AList.update i (new_lock now i q) (locks s), byProject := AList.update (req_project q) i (byProject s)\<rparr>"
  have "leases ?s' x = ((leases s)(req_project q \<mapsto> (i, now))) x" for x
  proof (cases "x = req_project q")
    case True
    then show ?thesis by (simp add: leases_def map_of_update new_lock_def)
  next
    case False
    have "map_of (byProject s) x \<noteq> Some i" using fresh by (auto elim!: inv_project [OF inv])
    with False show ?thesis by (auto simp: leases_def map_of_update split: option.split)
  qed
  then have "leases ?s' = (leases s)(req_project q \<mapsto> (i, now))" ..
  moreover have "leases (persistLocks cfg ?s') = leases ?s'" by (rule leases_cong) simp_all
  ultimately show ?thesis using True inv by (simp add: acquire_def leases_None card_leases)
next
  case False
  with inv show ?thesis by (auto simp: acquire_def leases_None card_leases not_less split: option.split)
qed

lemma leases_heartbeat:
  assumes inv: "lock_inv cfg s"
  shows "leases (snd (heartbeat cfg now i chunk t s)) = lease_step mx (Heartbeat now i chunk t) (leases s)"
proof (cases "map_of (locks s) i")
  case None
  have "map_option (\<lambda>(j, last). (j, if j = i then u else last)) (leases s p) = leases s p" for u p
  proof (cases "leases s p")
    case (Some x)
    with leases_iff [OF inv, of p "fst x" "snd x"] None have "fst x \<noteq> i" by auto
    with Some show ?thesis by (simp add: case_prod_beta)
  qed simp
  with None show ?thesis by (simp add: heartbeat_def fun_eq_iff)
next
  case (Some l)
  have "last_heartbeat_at (beat now t chunk l) = (case t of None \<Rightarrow> now | Some t' \<Rightarrow> if t' = 0 then now else t')"
    by (simp add: beat_def Let_def)
  then show ?thesis using Some
    by (auto simp: heartbeat_def leases_def map_of_update fun_eq_iff option.map_comp comp_def split: option.split)
qed

section \<open>The reaper\<close>

definition stale :: "int \<Rightarrow> int \<Rightarrow> lock \<Rightarrow> bool" where
  "stale threshold now l \<longleftrightarrow> threshold < now - last_heartbeat_at l"

lemma reap_fold:
  assumes "lock_inv cfg s"
  shows "lock_inv cfg (snd (fold (reap_one cfg th now) ls (ids, s))) \<and>
    leases (snd (fold (reap_one cfg th now) ls (ids, s))) =
      revoke (\<lambda>(j, _). j \<in> lock_id ` {l \<in> set ls. stale th now l}) (leases s) \<and>
    fst (fold (reap_one cfg th now) ls (ids, s)) = ids @ map lock_id (filter (stale th now) ls)"
  using assms
proof (induction ls arbitrary: ids s)
  case Nil
  have "revoke (\<lambda>_. False) m = m" for m
    by (auto simp: revoke_def fun_eq_iff split: option.split)
  with Nil show ?case by simp
next
  case (Cons l ls)
  have comp: "revoke (\<lambda>(j, _). j \<in> A) (revoke (\<lambda>(j, _). j = i) m) = revoke (\<lambda>(j, _). j \<in> insert i A) m" for A i m
    by (auto simp: revoke_def fun_eq_iff split: option.split)
  show ?case
  proof (cases "stale th now l")
    case True
    let ?s1 = "snd (forceRelease cfg (lock_id l) ''stale_heartbeat'' s)"
    have one: "reap_one cfg th now l (ids, s) = (ids @ [lock_id l], ?s1)" using True by (simp add: reap_one_def stale_def)
    have "lock_id ` {x \<in> set (l # ls). stale th now x} = insert (lock_id l) (lock_id ` {x \<in> set ls. stale th now x})"
      using True by auto
    with Cons.IH [OF lock_inv_force [OF Cons.prems], of "ids @ [lock_id l]" "lock_id l" "''stale_heartbeat''"] True
    show ?thesis by (simp add: one comp leases_force [OF Cons.prems])
  next
    case False
    then have "{x \<in> set (l # ls). stale th now x} = {x \<in> set ls. stale th now x}" by auto
    moreover have "reap_one cfg th now l (ids, s) = (ids, s)" using False by (simp add: reap_one_def stale_def)
    ultimately show ?thesis using Cons.IH [OF Cons.prems, of ids] False by simp
  qed
qed

lemma active_iff:
  assumes inv: "lock_inv cfg s"
  shows "l \<in> set (listActive s) \<longleftrightarrow> map_of (locks s) (lock_id l) = Some l"
proof -
  have d: "distinct (map fst (locks s))" using inv unfolding lock_inv_def by blast
  have "l \<in> set (listActive s) \<longleftrightarrow> (\<exists>i. (i, l) \<in> set (locks s))" by (force simp: listActive_def)
  also have "\<dots> \<longleftrightarrow> (\<exists>i. map_of (locks s) i = Some l)" using d by simp
  finally show ?thesis using inv_lock(1) [OF inv] by metis
qed

lemma leases_reap:
  assumes inv: "lock_inv cfg s"
  shows "leases (snd (reapStaleLocks cfg th now s)) = lease_step mx (Reap th now) (leases s)"
proof -
  have "(i \<in> lock_id ` {l \<in> set (listActive s). stale th now l}) = (th < now - t)" if "leases s p = Some (i, t)" for p i t
  proof -
    from that leases_iff [OF inv] obtain l where l: "map_of (locks s) i = Some l" "last_heartbeat_at l = t" by auto
    have i: "lock_id l = i" by (rule inv_lock [OF inv l(1)])
    show ?thesis
    proof
      assume "i \<in> lock_id ` {l \<in> set (listActive s). stale th now l}"
      then obtain x where "map_of (locks s) i = Some x" "stale th now x" by (auto simp: active_iff [OF inv])
      with l show "th < now - t" by (simp add: stale_def)
    next
      assume "th < now - t"
      with l i have "l \<in> {l \<in> set (listActive s). stale th now l}" by (simp add: active_iff [OF inv] stale_def)
      with i show "i \<in> lock_id ` {l \<in> set (listActive s). stale th now l}" by blast
    qed
  qed
  then have "revoke (\<lambda>(j, _). j \<in> lock_id ` {l \<in> set (listActive s). stale th now l}) (leases s) p =
      revoke (\<lambda>(_, last). th < now - last) (leases s) p" for p
    unfolding revoke_def by (cases "leases s p") auto
  then have "revoke (\<lambda>(j, _). j \<in> lock_id ` {l \<in> set (listActive s). stale th now l}) (leases s) =
      revoke (\<lambda>(_, last). th < now - last) (leases s)" ..
  with reap_fold [OF inv, of th now "listActive s" "[]"] show ?thesis by (simp add: reapStaleLocks_def)
qed

lemma subscribe_frame [simp]:
  "locks (subscribe i cb s) = locks s" "byProject (subscribe i cb s) = byProject s"
  "locks (unsubscribe i cb s) = locks s" "byProject (unsubscribe i cb s) = byProject s"
  by (simp_all add: subscribe_def unsubscribe_def Let_def split: option.split)

lemma lock_step_inv: "lock_inv cfg s \<Longrightarrow> fresh_id op s \<Longrightarrow> lock_inv cfg (lock_step cfg op s)"
  by (cases op) (auto simp: lock_inv_acquire lock_inv_heartbeat lock_inv_release lock_inv_force reap_fold
    reapStaleLocks_def lock_inv_cong [OF subscribe_frame(1,2)] lock_inv_cong [OF subscribe_frame(3,4)])

lemma lock_step_leases:
  "lock_inv cfg s \<Longrightarrow> fresh_id op s \<Longrightarrow>
     leases (lock_step cfg op s) = lease_step (max_concurrent_runs cfg) op (leases s)"
  by (cases op) (auto simp: leases_acquire leases_heartbeat leases_release leases_force leases_reap
    leases_cong [OF subscribe_frame(1,2)] leases_cong [OF subscribe_frame(3,4)]
    simp del: lease_step.simps(1,2,5))

interpretation coord: refined_machine "lock_step cfg" fresh_id "lock_inv cfg" leases "lease_step (max_concurrent_runs cfg)" for cfg
  by unfold_locales (rule lock_step_inv lock_step_leases; assumption)+

lemma initial_inv: "lock_inv cfg (createStateStore f)"
  by (simp add: lock_inv_def createStateStore_def linked_def)


section \<open>Properties\<close>

definition sample_config :: lock_config where
  "sample_config = \<lparr>max_concurrent_runs = 2, persist_path = True, writable = True\<rparr>"

definition sample_request :: "string \<Rightarrow> acquire_request" where
  "sample_request p = \<lparr>req_project = p, req_sha = ''s'', req_suite = ''all'', req_holder = JNull\<rparr>"

definition sample_history :: "lock_op list" where
  "sample_history = [Acquire 10 ''i1'' (sample_request ''p''), Acquire 11 ''i2'' (sample_request ''p''),
     Acquire 12 ''i3'' (sample_request ''q''), Acquire 13 ''i4'' (sample_request ''r''),
     Heartbeat 50 ''i1'' [] None, Reap 20 60]"

lemma sample_legal: "legal_run (lock_step sample_config) fresh_id sample_history (createStateStore No_file)"
  by code_simp

text \<open>C19: After every history of the daemon (identifiers fresh) at most one lock is held per project, at
  most the configured number in all, and no output buffer exceeds its cap. The project index and the lock
  table agree both ways: the index leads from a project to an identifier exactly when a lock of that project with
  that identifier is held, so no held lock is missing from it and no released one is left behind.\<close>

theorem locks_exclusive:
  assumes "legal_run (lock_step cfg) fresh_id ops (createStateStore f)"
    and "s = fold (lock_step cfg) ops (createStateStore f)"
  shows "length (locks s) \<le> max_concurrent_runs cfg \<and>
    (\<forall>a \<in> set (listActive s). \<forall>b \<in> set (listActive s). project a = project b \<longrightarrow> a = b) \<and>
    (\<forall>p i. map_of (byProject s) p = Some i \<longleftrightarrow> (\<exists>a \<in> set (listActive s). project a = p \<and> lock_id a = i)) \<and>
    (\<forall>a \<in> set (listActive s). length (output_buffer a) \<le> OUTPUT_BUFFER_CAP_BYTES)"
proof -
  from coord.guarded_run [OF initial_inv assms(1)] assms(2) have inv: "lock_inv cfg s" by simp
  have index: "map_of (byProject s) p = Some i \<longleftrightarrow> (\<exists>a \<in> set (listActive s). project a = p \<and> lock_id a = i)" for p i
  proof
    assume "map_of (byProject s) p = Some i"
    then obtain l where "map_of (locks s) i = Some l" "project l = p" by (rule inv_project [OF inv])
    with inv_lock(1) [OF inv] show "\<exists>a \<in> set (listActive s). project a = p \<and> lock_id a = i"
      by (metis active_iff [OF inv])
  qed (use inv_lock(2) [OF inv] in \<open>auto simp: active_iff [OF inv]\<close>)
  have "a = b" if "a \<in> set (listActive s)" "b \<in> set (listActive s)" "project a = project b" for a b
    using that index [of "project a" "lock_id a"] index [of "project b" "lock_id b"]
    by (metis active_iff [OF inv] option.inject)
  moreover have "length (locks s) \<le> max_concurrent_runs cfg" using inv by (simp add: lock_inv_def)
  moreover have "length (output_buffer a) \<le> OUTPUT_BUFFER_CAP_BYTES" if "a \<in> set (listActive s)" for a
    using that inv_lock(3) [OF inv] by (simp add: active_iff [OF inv])
  ultimately show ?thesis using index by blast
qed

theorem locks_exclusive_witness:
  "length (locks (fold (lock_step sample_config) sample_history (createStateStore No_file))) \<le> 2"
proof -
  have "max_concurrent_runs sample_config = 2" by (simp add: sample_config_def)
  with locks_exclusive [OF sample_legal refl, THEN conjunct1] show ?thesis by metis
qed

text \<open>C20: The daemon implements a lease table: what every history leaves (which project is held by which
  lock, and when it was last heard of) is what the abstract service computes, in which a project is
  granted exactly when it is free and the bound is not reached, a heartbeat renews one lease, a
  release revokes one, and the reaper revokes exactly those older than the threshold.\<close>

theorem daemon_refines_leases:
  assumes "legal_run (lock_step cfg) fresh_id ops (createStateStore f)"
  shows "leases (fold (lock_step cfg) ops (createStateStore f)) =
    fold (lease_step (max_concurrent_runs cfg)) ops (\<lambda>_. None)"
proof -
  have "leases (createStateStore f) = (\<lambda>_. None)" by (rule ext) (simp add: leases_def createStateStore_def)
  with coord.refined_run [OF initial_inv assms] show ?thesis by simp
qed

theorem daemon_refines_leases_witness:
  "leases (fold (lock_step sample_config) sample_history (createStateStore No_file)) ''p'' = Some (''i1'', 50) \<and>
   fold (lease_step 2) sample_history (\<lambda>_. None) ''p'' = Some (''i1'', 50)"
proof -
  have "leases (fold (lock_step sample_config) sample_history (createStateStore No_file)) ''p'' = Some (''i1'', 50)"
    by code_simp
  moreover have "max_concurrent_runs sample_config = 2" by (simp add: sample_config_def)
  ultimately show ?thesis using daemon_refines_leases [OF sample_legal] by metis
qed

text \<open>The reaper releases and reports exactly the locks whose last heartbeat is older than the
  threshold, in their order; every other lock stays as it was.\<close>

theorem reaper_releases_stale:
  assumes "lock_inv cfg s"
  shows "fst (reapStaleLocks cfg threshold now s) =
      map lock_id (filter (\<lambda>l. threshold < now - last_heartbeat_at l) (listActive s)) \<and>
    set (listActive (snd (reapStaleLocks cfg threshold now s))) =
      {l \<in> set (listActive s). now - last_heartbeat_at l \<le> threshold}"
proof -
  let ?s' = "snd (reapStaleLocks cfg threshold now s)"
  have ids: "fst (reapStaleLocks cfg threshold now s) = map lock_id (filter (stale threshold now) (listActive s))"
    and inv: "lock_inv cfg ?s'"
    using reap_fold [OF assms, of threshold now "listActive s" "[]"] by (simp_all add: reapStaleLocks_def)
  have keeps: "map_of (locks (snd (fold (reap_one cfg threshold now) ls (is, t)))) i =
      (if i \<in> lock_id ` {l \<in> set ls. stale threshold now l} then None else map_of (locks t) i)" for ls "is" t i
  proof (induction ls arbitrary: "is" t)
    case (Cons l ls)
    have "map_of (locks (snd (forceRelease cfg j r t))) i = (if i = j then None else map_of (locks t) i)" for j r
      by (auto simp: forceRelease_def Let_def map_of_delete split: option.split)
    with Cons.IH show ?case by (auto simp: reap_one_def stale_def)
  qed simp
  have "l \<in> set (listActive ?s') \<longleftrightarrow> l \<in> set (listActive s) \<and> \<not> stale threshold now l" for l
  proof -
    let ?C = "lock_id l \<in> lock_id ` {x \<in> set (listActive s). stale threshold now x}"
    have K: "map_of (locks ?s') (lock_id l) = (if ?C then None else map_of (locks s) (lock_id l))"
      using keeps [of "listActive s" "[]" s "lock_id l"] by (simp add: reapStaleLocks_def)
    have C: "?C \<longleftrightarrow> stale threshold now l" if l: "map_of (locks s) (lock_id l) = Some l"
    proof
      assume ?C
      then obtain x where "map_of (locks s) (lock_id x) = Some x" "lock_id l = lock_id x" "stale threshold now x"
        unfolding active_iff [OF assms] by blast
      with l show "stale threshold now l" by (metis option.inject)
    next
      assume "stale threshold now l"
      with l show ?C unfolding active_iff [OF assms] by blast
    qed
    show ?thesis unfolding active_iff [OF inv] active_iff [OF assms]
    proof
      assume L: "map_of (locks ?s') (lock_id l) = Some l"
      with K have "\<not> ?C" by (metis option.distinct(1))
      with K L C show "map_of (locks s) (lock_id l) = Some l \<and> \<not> stale threshold now l" by metis
    next
      assume R: "map_of (locks s) (lock_id l) = Some l \<and> \<not> stale threshold now l"
      with C have "\<not> ?C" by blast
      with K R show "map_of (locks ?s') (lock_id l) = Some l" by metis
    qed
  qed
  then have "set (listActive ?s') = {l \<in> set (listActive s). \<not> stale threshold now l}" by blast
  moreover have "stale threshold now = (\<lambda>l. threshold < now - last_heartbeat_at l)" by (rule ext) (simp add: stale_def)
  ultimately show ?thesis using ids by (simp add: not_less)
qed

theorem reaper_releases_stale_witness:
  "fst (reapStaleLocks sample_config 20 60 (fold (lock_step sample_config) (take 5 sample_history) (createStateStore No_file))) = [''i3'']"
proof -
  let ?s = "fold (lock_step sample_config) (take 5 sample_history) (createStateStore No_file)"
  have "legal_run (lock_step sample_config) fresh_id (take 5 sample_history) (createStateStore No_file)" by code_simp
  from coord.guarded_run [OF initial_inv this] have "lock_inv sample_config ?s" .
  moreover have "map lock_id (filter (\<lambda>l. 20 < 60 - last_heartbeat_at l) (listActive ?s)) = [''i3'']" by code_simp
  ultimately show ?thesis using reaper_releases_stale [of sample_config ?s 20 60, THEN conjunct1] by metis
qed

end
