(* ===== verification/Coord_Service.thy ===== *)
theory Coord_Service
  imports Coord_Laws
begin

text \<open>
  The service around the lock store: the results of passing test runs kept for reuse
  (\<open>server/coord/result-store.js\<close>) and the request handlers (\<open>server/coord/http.js\<close>).

  A handler maps the parsed body and the state to a status code, a reply and the new state. The
  fields of a request are strings, absent ones \<open>None\<close>; a body that is no JSON is \<open>None\<close>. Result
  files are keyed by their path components. \<open>release\<close> of the store finishes before the result is
  written, as in the code, which runs both without giving up control.
\<close>

section \<open>The result store\<close>

record run_result =
  res_project :: string
  res_sha :: string
  res_suite :: string
  res_exit_code :: jsval
  res_suite_status :: jsval
  res_output_tail :: string
  res_hashes :: jsval
  completed_at :: "int option"

datatype result_file = Corrupt | Result run_result

type_synonym result_store = "((string \<times> string \<times> string) \<times> result_file) list"

definition component_char :: "char \<Rightarrow> bool" where
  "component_char c = (is_alpha_char c \<or> is_digit_char c \<or> c \<in> set ''._-'')"

definition SAFE_COMPONENT :: "string \<Rightarrow> bool" where
  "SAFE_COMPONENT s = (s \<noteq> [] \<and> list_all component_char s \<and> s \<noteq> ''.'' \<and> s \<noteq> ''..'')"

record run_record =
  run_project :: string
  run_sha :: string
  run_suite :: string
  run_exit_code :: jsval
  run_suite_status :: jsval
  run_output_tail :: "string option"
  run_hashes :: jsval
  run_crashed :: bool

definition hasSafePathComponents :: "run_record \<Rightarrow> bool" where
  "hasSafePathComponents r = (SAFE_COMPONENT (run_project r) \<and> SAFE_COMPONENT (run_sha r) \<and> SAFE_COMPONENT (run_suite r))"

definition writeResult :: "int \<Rightarrow> run_record \<Rightarrow> result_store \<Rightarrow> result_store" where
  "writeResult now r rs =
     (if run_crashed r then rs
      else if run_exit_code r \<noteq> JNum 0 \<or> run_suite_status r \<noteq> JStr ''pass'' then rs
      else if \<not> hasSafePathComponents r then rs
      else AList.update (run_project r, run_sha r, run_suite r)
        (Result \<lparr>res_project = run_project r, res_sha = run_sha r, res_suite = run_suite r,
           res_exit_code = run_exit_code r, res_suite_status = run_suite_status r,
           res_output_tail = (case run_output_tail r of None \<Rightarrow> [] | Some t \<Rightarrow> t),
           res_hashes = js_or (run_hashes r) (JObj []), completed_at = Some now\<rparr>) rs)"

definition getResult :: "int \<Rightarrow> int \<Rightarrow> string \<Rightarrow> string \<Rightarrow> string \<Rightarrow> result_store \<Rightarrow> run_result option" where
  "getResult ttlMs now p h u rs =
     (case map_of rs (p, h, u) of
        Some (Result r) \<Rightarrow> (case completed_at r of None \<Rightarrow> None
          | Some t \<Rightarrow> if ttlMs < now - t then None else Some r)
      | _ \<Rightarrow> None)"

section \<open>Requests\<close>

text \<open>
  \<open>getRequestPath\<close>: the query is cut off; an absolute target loses its scheme and authority.
\<close>

definition scheme_char :: "char \<Rightarrow> bool" where
  "scheme_char c = (is_alpha_char c \<or> is_digit_char c \<or> c \<in> set ''+.-'')"

definition absolute_target :: "string \<Rightarrow> string option" where
  "absolute_target s =
     (let scheme = takeWhile scheme_char s; rest = dropWhile scheme_char s in
      if scheme \<noteq> [] \<and> is_alpha_char (hd scheme) \<and> starts_with ''://'' rest
      then Some (dropWhile (\<lambda>c. c \<noteq> CHR ''/'') (drop 3 rest)) else None)"

definition getRequestPath :: "string \<Rightarrow> string" where
  "getRequestPath rawUrl =
     (let text = (if rawUrl = [] then ''/'' else rawUrl);
          withoutQuery = takeWhile (\<lambda>c. c \<noteq> CHR ''?'') text;
          nonempty = (\<lambda>s. if s = [] then ''/'' else s) in
      if starts_with ''/'' withoutQuery then nonempty withoutQuery
      else case absolute_target withoutQuery of
          Some rest \<Rightarrow> nonempty rest
        | None \<Rightarrow> nonempty withoutQuery)"

definition lastLine :: "string \<Rightarrow> string" where
  "lastLine buffer =
     (let trimmed = (if ends_with [CHR 0x0A] buffer then butlast buffer else buffer) in
      rev (takeWhile (\<lambda>c. c \<noteq> CHR 0x0A) (rev trimmed)))"

datatype reply =
    Error_reply string
  | Acquire_reply acquire_result
  | Heartbeat_reply bool
  | Release_reply bool
  | Result_reply run_result
  | No_result
  | Active_reply "lock list"
  | Health_reply nat
  | Progress string int string

record service =
  store :: lock_store
  results :: result_store

record service_config =
  lock_cfg :: lock_config
  ttl :: int
  uses_results :: bool

definition given :: "string option \<Rightarrow> bool" where
  "given v = (case v of Some (c # cs) \<Rightarrow> True | _ \<Rightarrow> False)"

record acquire_body =
  body_project :: "string option"
  body_sha :: "string option"
  body_suite :: "string option"
  body_holder :: jsval

definition handleAcquire :: "service_config \<Rightarrow> int \<Rightarrow> string \<Rightarrow> acquire_body option \<Rightarrow> service \<Rightarrow> (nat \<times> reply) \<times> service" where
  "handleAcquire cfg now newId body s =
     (case body of
        None \<Rightarrow> ((400, Error_reply ''invalid_json''), s)
      | Some b \<Rightarrow>
          if \<not> given (body_project b) \<or> \<not> given (body_sha b) \<or> \<not> given (body_suite b) \<or> \<not> js_truthy (body_holder b)
          then ((400, Error_reply ''missing_fields''), s)
          else
            let (result, st) = acquire (lock_cfg cfg) now newId
                  \<lparr>req_project = the (body_project b), req_sha = the (body_sha b), req_suite = the (body_suite b),
                   req_holder = body_holder b\<rparr> (store s) in
            ((case result of Acquired _ \<Rightarrow> 200 | _ \<Rightarrow> 202, Acquire_reply result), s\<lparr>store := st\<rparr>))"

record heartbeat_body =
  hb_lock_id :: "string option"
  hb_log_chunk :: "string option"

definition handleHeartbeat :: "service_config \<Rightarrow> int \<Rightarrow> heartbeat_body option \<Rightarrow> service \<Rightarrow> (nat \<times> reply) \<times> service" where
  "handleHeartbeat cfg now body s =
     (case body of
        None \<Rightarrow> ((400, Error_reply ''invalid_json''), s)
      | Some b \<Rightarrow>
          if \<not> given (hb_lock_id b) then ((400, Error_reply ''missing_lock_id''), s)
          else
            let (ok, st) = heartbeat (lock_cfg cfg) now (the (hb_lock_id b))
                  (case hb_log_chunk b of None \<Rightarrow> [] | Some c \<Rightarrow> c) None (store s) in
            ((if ok then 200 else 404, Heartbeat_reply ok), s\<lparr>store := st\<rparr>))"

record release_body =
  rel_lock_id :: "string option"
  rel_payload :: release_payload
  rel_hashes :: jsval

definition handleRelease :: "service_config \<Rightarrow> int \<Rightarrow> release_body option \<Rightarrow> service \<Rightarrow> (nat \<times> reply) \<times> service" where
  "handleRelease cfg now body s =
     (case body of
        None \<Rightarrow> ((400, Error_reply ''invalid_json''), s)
      | Some b \<Rightarrow>
          if \<not> given (rel_lock_id b) then ((400, Error_reply ''missing_lock_id''), s)
          else
            (case release (lock_cfg cfg) (the (rel_lock_id b)) (rel_payload b) (store s) of
               (None, st) \<Rightarrow> ((404, Release_reply False), s\<lparr>store := st\<rparr>)
             | (Some l, st) \<Rightarrow>
                 ((200, Release_reply True), s\<lparr>store := st, results :=
                    (if uses_results cfg then writeResult now
                       \<lparr>run_project = project l, run_sha = sha l, run_suite = suite l,
                        run_exit_code = exit_code (rel_payload b), run_suite_status = suite_status (rel_payload b),
                        run_output_tail = output_tail (rel_payload b), run_hashes = rel_hashes b,
                        run_crashed = False\<rparr> (results s) else results s)\<rparr>)))"

fun split_path :: "string \<Rightarrow> string list" where
  "split_path [] = [[]]"
| "split_path (c # cs) = (if c = CHR ''/'' then [] # split_path cs
     else case split_path cs of p # ps \<Rightarrow> (c # p) # ps | [] \<Rightarrow> [[c]])"

definition handleResults :: "service_config \<Rightarrow> int \<Rightarrow> string list \<Rightarrow> service \<Rightarrow> nat \<times> reply" where
  "handleResults cfg now parts s =
     (if length parts < 5 then (400, Error_reply ''bad_path'')
      else
        let p = parts ! 2; h = parts ! 3; u = parts ! 4 in
        if \<not> SAFE_COMPONENT p \<or> \<not> SAFE_COMPONENT h \<or> \<not> SAFE_COMPONENT u
        then (400, Error_reply ''bad_path_component'')
        else case getResult (ttl cfg) now p h u (results s) of
            None \<Rightarrow> (404, No_result)
          | Some r \<Rightarrow> (200, Result_reply r))"

text \<open>
  \<open>handleWait\<close> replies with a first progress event and subscribes the connection, whose callback is
  the number \<open>conn\<close>.
\<close>

definition handleWait :: "int \<Rightarrow> nat \<Rightarrow> string list \<Rightarrow> service \<Rightarrow> (nat \<times> reply) \<times> service" where
  "handleWait now conn parts s =
     (if length parts \<le> 2 \<or> parts ! 2 = [] then ((400, Error_reply ''missing_lock_id''), s)
      else case getLock (parts ! 2) (store s) of
          None \<Rightarrow> ((404, Error_reply ''unknown_lock''), s)
        | Some l \<Rightarrow> ((200, Progress (parts ! 2) (now - created_at l) (lastLine (output_buffer l))),
            s\<lparr>store := subscribe (parts ! 2) conn (store s)\<rparr>))"

datatype request =
    Get string
  | Post_acquire string "acquire_body option"
  | Post_heartbeat "heartbeat_body option"
  | Post_release "release_body option"

text \<open>
  The routing on method and first path component; a POST carries the body of its route. Anything
  else is an unknown route.
\<close>

fun route :: "service_config \<Rightarrow> int \<Rightarrow> nat \<Rightarrow> request \<Rightarrow> service \<Rightarrow> (nat \<times> reply) \<times> service" where
  "route cfg now conn (Post_acquire newId b) s = handleAcquire cfg now newId b s"
| "route cfg now conn (Post_heartbeat b) s = handleHeartbeat cfg now b s"
| "route cfg now conn (Post_release b) s = handleRelease cfg now b s"
| "route cfg now conn (Get url) s =
     (let parts = split_path (getRequestPath url); head = (if 1 < length parts then parts ! 1 else []) in
      if head = ''health'' then ((200, Health_reply (length (listActive (store s)))), s)
      else if head = ''results'' then (handleResults cfg now parts s, s)
      else if head = ''active'' then ((200, Active_reply (listActive (store s))), s)
      else if head = ''wait'' then handleWait now conn parts s
      else ((404, Error_reply ''unknown_route''), s))"

section \<open>Histories of the service\<close>

datatype service_event = Request int nat request | Tick int int

fun service_step :: "service_config \<Rightarrow> service_event \<Rightarrow> service \<Rightarrow> service" where
  "service_step cfg (Request now conn q) s = snd (route cfg now conn q s)"
| "service_step cfg (Tick threshold now) s = s\<lparr>store := snd (reapStaleLocks (lock_cfg cfg) threshold now (store s))\<rparr>"

definition passing :: "string \<times> string \<times> string \<Rightarrow> result_file \<Rightarrow> bool" where
  "passing key f = (case f of Corrupt \<Rightarrow> True | Result r \<Rightarrow>
     key = (res_project r, res_sha r, res_suite r) \<and> res_exit_code r = JNum 0 \<and> res_suite_status r = JStr ''pass'')"

definition stored_passing :: "result_store \<Rightarrow> bool" where
  "stored_passing rs \<longleftrightarrow> (\<forall>key f. map_of rs key = Some f \<longrightarrow> passing key f)"

abbreviation results_passing :: "service \<Rightarrow> bool" where
  "results_passing s \<equiv> stored_passing (results s)"

lemma write_passing: "stored_passing rs \<Longrightarrow> stored_passing (writeResult now r rs)"
  by (auto simp: stored_passing_def writeResult_def map_of_update passing_def)

lemma release_results: "results_passing s \<Longrightarrow> results_passing (snd (handleRelease cfg now b s))"
  by (auto simp: handleRelease_def write_passing split: option.split prod.split)

lemma acquire_results: "results (snd (handleAcquire cfg now i b s)) = results s"
  by (auto simp: handleAcquire_def Let_def split: option.split prod.split)

lemma heartbeat_results: "results (snd (handleHeartbeat cfg now b s)) = results s"
  by (auto simp: handleHeartbeat_def Let_def split: option.split prod.split)

lemma wait_results: "results (snd (handleWait now conn parts s)) = results s"
  by (auto simp: handleWait_def split: option.split)

lemma service_step_results: "results_passing s \<Longrightarrow> results_passing (service_step cfg e s)"
proof (cases e)
  case (Request now conn q)
  assume "results_passing s"
  then show ?thesis
    by (cases q) (simp_all add: Request release_results acquire_results heartbeat_results wait_results Let_def)
qed simp

interpretation service: invariant_machine "service_step cfg" "\<lambda>s. results_passing s" for cfg
  by unfold_locales (rule service_step_results)

section \<open>Properties\<close>

definition sample_service :: service_config where
  "sample_service = \<lparr>lock_cfg = sample_config, ttl = 1000, uses_results = True\<rparr>"

definition empty_service :: service where
  "empty_service = \<lparr>store = createStateStore No_file, results = []\<rparr>"

definition pass_history :: "service_event list" where
  "pass_history = [Request 1 0 (Post_acquire ''i1'' (Some \<lparr>body_project = Some ''p'', body_sha = Some ''s'',
       body_suite = Some ''u'', body_holder = JStr ''h''\<rparr>)),
     Request 5 0 (Post_release (Some \<lparr>rel_lock_id = Some ''i1'', rel_payload = \<lparr>exit_code = JNum 0,
       suite_status = JStr ''pass'', output_tail = Some ''t''\<rparr>, rel_hashes = JNull\<rparr>))]"

text \<open>C21: Whatever requests and reaper ticks the daemon has handled since it started without stored
  results, a result it serves for reuse is one of a passing run (exit code 0, status pass) of exactly the
  requested project, commit and suite, and it is not older than the time to live.\<close>

theorem reused_results_passed:
  assumes "results s0 = []" and "s = fold (service_step cfg) es s0"
    and "handleResults cfg now parts s = (200, Result_reply r)"
  shows "res_exit_code r = JNum 0 \<and> res_suite_status r = JStr ''pass'' \<and>
    res_project r = parts ! 2 \<and> res_sha r = parts ! 3 \<and> res_suite r = parts ! 4 \<and>
    (\<exists>t. completed_at r = Some t \<and> now - t \<le> ttl cfg)"
proof -
  have "results_passing s0" using assms(1) by (simp add: stored_passing_def)
  from service.inv_run [OF this] assms(2) have inv: "results_passing s" by simp
  from assms(3) have g: "getResult (ttl cfg) now (parts ! 2) (parts ! 3) (parts ! 4) (results s) = Some r"
    by (auto simp: handleResults_def Let_def split: if_splits option.splits)
  then obtain t where m: "map_of (results s) (parts ! 2, parts ! 3, parts ! 4) = Some (Result r)"
    and t: "completed_at r = Some t" "now - t \<le> ttl cfg"
    by (auto simp: getResult_def split: option.splits result_file.splits if_splits)
  from inv m have "passing (parts ! 2, parts ! 3, parts ! 4) (Result r)" unfolding stored_passing_def by blast
  with t show ?thesis by (simp add: passing_def)
qed

theorem reused_results_passed_witness:
  "\<exists>r. handleResults sample_service 50 (split_path ''/results/p/s/u'')
       (fold (service_step sample_service) pass_history empty_service) = (200, Result_reply r) \<and>
     res_suite_status r = JStr ''pass''"
proof -
  let ?s = "fold (service_step sample_service) pass_history empty_service"
  have "case handleResults sample_service 50 (split_path ''/results/p/s/u'') ?s of
      (c, Result_reply r) \<Rightarrow> c = 200 | _ \<Rightarrow> False" by code_simp
  then obtain r where r: "handleResults sample_service 50 (split_path ''/results/p/s/u'') ?s = (200, Result_reply r)"
    by (auto split: prod.splits reply.splits)
  have "results empty_service = []" by (simp add: empty_service_def)
  from reused_results_passed [OF this refl r] r show ?thesis by blast
qed

end
