(* ===== verification/Loop_States.thy ===== *)
theory Loop_States
  imports Prelude
begin

text \<open>
  The stages of the factory loop and their approval gates, \<open>server/factory/loop-states.js\<close>.

  States, trust levels and approval statuses are the strings of the code, so that its validation is
  part of the model: an operation returns \<open>Inl\<close> the \<open>TypeError\<close>, or \<open>Inr\<close> a state, where \<open>None\<close>
  stands for \<open>undefined\<close> (no forward transition) or \<open>null\<close> (no gate).

  Lemmas: the tables range over valid states; evaluation on the finitely many valid arguments.
\<close>

section \<open>Tables\<close>

definition LOOP_STATES :: "string list" where
  "LOOP_STATES = [''SENSE'', ''PRIORITIZE'', ''PLAN'', ''PLAN_REVIEW'', ''EXECUTE'', ''VERIFY'', ''LEARN'',
     ''IDLE'', ''PAUSED'', ''STARVED'']"

definition FORWARD_TRANSITIONS :: "string \<Rightarrow> string option" where
  "FORWARD_TRANSITIONS = map_of [(''SENSE'', ''PRIORITIZE''), (''PRIORITIZE'', ''PLAN''), (''PLAN'', ''EXECUTE''),
     (''EXECUTE'', ''VERIFY''), (''VERIFY'', ''LEARN''), (''LEARN'', ''IDLE'')]"

definition APPROVAL_GATES :: "string \<Rightarrow> string list option" where
  "APPROVAL_GATES = map_of [(''supervised'', [''PRIORITIZE'', ''PLAN'', ''VERIFY'', ''LEARN'']),
     (''guided'', [''PLAN'', ''LEARN'']), (''autonomous'', [''LEARN'']), (''dark'', [])]"

definition EXIT_GATED_STATES :: "string \<Rightarrow> string list option" where
  "EXIT_GATED_STATES = map_of [(''supervised'', [''VERIFY'']), (''guided'', []), (''autonomous'', []), (''dark'', [])]"

definition VALID_APPROVAL_STATUSES :: "string list" where
  "VALID_APPROVAL_STATUSES = [''approved'', ''pending'', ''rejected'']"

datatype loop_error = Invalid_state | Invalid_trust_level | Invalid_approval_status

type_synonym 'a checked = "loop_error + 'a"

section \<open>Validation\<close>

definition isValidState :: "string \<Rightarrow> bool" where
  "isValidState s = (s \<in> set LOOP_STATES)"

definition isValidTrustLevel :: "string \<Rightarrow> bool" where
  "isValidTrustLevel t = (APPROVAL_GATES t \<noteq> None)"

definition isValidApprovalStatus :: "string option \<Rightarrow> bool" where
  "isValidApprovalStatus a = (case a of None \<Rightarrow> True | Some s \<Rightarrow> s \<in> set VALID_APPROVAL_STATUSES)"

definition assertValid :: "string \<Rightarrow> string \<Rightarrow> 'a \<Rightarrow> 'a checked" where
  "assertValid s t result = (if \<not> isValidState s then Inl Invalid_state
     else if \<not> isValidTrustLevel t then Inl Invalid_trust_level else Inr result)"

definition getGatesForTrustLevel :: "string \<Rightarrow> string list checked" where
  "getGatesForTrustLevel t = (case APPROVAL_GATES t of None \<Rightarrow> Inl Invalid_trust_level | Some gs \<Rightarrow> Inr gs)"

section \<open>Gates and transitions\<close>

definition gates :: "string \<Rightarrow> string list" where
  "gates t = (case APPROVAL_GATES t of None \<Rightarrow> [] | Some gs \<Rightarrow> gs)"

definition exit_gated :: "string \<Rightarrow> string \<Rightarrow> bool" where
  "exit_gated stage t = (case EXIT_GATED_STATES t of None \<Rightarrow> False | Some gs \<Rightarrow> stage \<in> set gs)"

definition isExitGatedStage :: "string \<Rightarrow> string \<Rightarrow> bool checked" where
  "isExitGatedStage stage t = assertValid stage t (exit_gated stage t)"

definition resting :: "string \<Rightarrow> bool" where
  "resting s = (s = ''IDLE'' \<or> s = ''PAUSED'' \<or> s = ''STARVED'')"

definition pending_gate :: "string \<Rightarrow> string \<Rightarrow> string option" where
  "pending_gate s t =
     (if resting s then None
      else if exit_gated s t then Some s
      else case FORWARD_TRANSITIONS s of
          None \<Rightarrow> None
        | Some n \<Rightarrow> if n \<in> set (gates t) \<and> \<not> exit_gated n t then Some n else None)"

definition getPendingGateStage :: "string \<Rightarrow> string \<Rightarrow> string option checked" where
  "getPendingGateStage s t = assertValid s t (pending_gate s t)"

definition getResumeStateForApprovedGate :: "string \<Rightarrow> string \<Rightarrow> string checked" where
  "getResumeStateForApprovedGate stage t = assertValid stage t
     (if stage = ''PLAN_REVIEW'' then ''EXECUTE''
      else if exit_gated stage t then (case FORWARD_TRANSITIONS stage of None \<Rightarrow> stage | Some n \<Rightarrow> n)
      else stage)"

definition getNextState :: "string \<Rightarrow> string \<Rightarrow> string option \<Rightarrow> string option checked" where
  "getNextState s t approval =
     (if \<not> isValidState s then Inl Invalid_state
      else if \<not> isValidTrustLevel t then Inl Invalid_trust_level
      else if \<not> isValidApprovalStatus approval then Inl Invalid_approval_status
      else if resting s then Inr (Some s)
      else if approval = Some ''rejected'' then Inr (Some ''IDLE'')
      else if pending_gate s t \<noteq> None \<and> approval \<noteq> Some ''approved'' then Inr (Some ''PAUSED'')
      else Inr (FORWARD_TRANSITIONS s))"

section \<open>Evaluation on valid arguments\<close>

definition TRUST_LEVELS :: "string list" where
  "TRUST_LEVELS = [''supervised'', ''guided'', ''autonomous'', ''dark'']"

lemma valid_trust: "isValidTrustLevel t \<longleftrightarrow> t \<in> set TRUST_LEVELS"
  by (simp add: isValidTrustLevel_def APPROVAL_GATES_def TRUST_LEVELS_def map_of_eq_None_iff)

lemma every_valid:
  assumes "list_all (\<lambda>s. list_all (P s) TRUST_LEVELS) LOOP_STATES" and "isValidState s" and "isValidTrustLevel t"
  shows "P s t"
  using assms by (simp add: list_all_iff isValidState_def valid_trust)

lemma checked: "isValidState s \<Longrightarrow> isValidTrustLevel t \<Longrightarrow> assertValid s t v = Inr v"
  by (simp add: assertValid_def)

lemma next_valid:
  "isValidState s \<Longrightarrow> isValidTrustLevel t \<Longrightarrow> isValidApprovalStatus a \<Longrightarrow> getNextState s t a =
     (if resting s then Inr (Some s) else if a = Some ''rejected'' then Inr (Some ''IDLE'')
      else if pending_gate s t \<noteq> None \<and> a \<noteq> Some ''approved'' then Inr (Some ''PAUSED'') else Inr (FORWARD_TRANSITIONS s))"
  by (simp add: getNextState_def)

text \<open>One approved pass: the state after \<open>n\<close> approved steps.\<close>

fun approved_pass :: "nat \<Rightarrow> string \<Rightarrow> string \<Rightarrow> string option" where
  "approved_pass 0 t s = Some s"
| "approved_pass (Suc n) t s = (case getNextState s t (Some ''approved'') of
     Inr (Some s') \<Rightarrow> approved_pass n t s' | _ \<Rightarrow> None)"

section \<open>Walks\<close>

text \<open>A walk is a sequence of steps, each with the approval status it is given; a step is (stage, approval, next stage).\<close>

fun trail :: "string \<Rightarrow> string \<Rightarrow> string option list \<Rightarrow> (string \<times> string option \<times> string) list" where
  "trail t s [] = []"
| "trail t s (a # as) = (case getNextState s t a of Inr (Some n) \<Rightarrow> (s, a, n) # trail t n as | _ \<Rightarrow> [])"

fun walk :: "string \<Rightarrow> string \<Rightarrow> string option list \<Rightarrow> string option" where
  "walk t s [] = Some s"
| "walk t s (a # as) = (case getNextState s t a of Inr (Some n) \<Rightarrow> walk t n as | _ \<Rightarrow> None)"

text \<open>
  A step passes the gate of \<open>g\<close> when it goes forward into \<open>g\<close>, or, if \<open>g\<close> is gated at its exit, when it goes
  forward out of \<open>g\<close>.
\<close>

definition clears :: "string \<Rightarrow> string \<Rightarrow> string \<times> string option \<times> string \<Rightarrow> bool" where
  "clears t g x = (case x of (s, a, n) \<Rightarrow>
     FORWARD_TRANSITIONS s = Some n \<and> (if exit_gated g t then s = g else n = g))"

definition APPROVALS :: "string option list" where
  "APPROVALS = None # map Some VALID_APPROVAL_STATUSES"

lemma valid_approval: "isValidApprovalStatus a \<longleftrightarrow> a \<in> set APPROVALS"
  by (cases a) (auto simp: isValidApprovalStatus_def APPROVALS_def)

lemma every_step:
  assumes "list_all (\<lambda>s. list_all (\<lambda>t. list_all (\<lambda>a. case getNextState s t a of Inr (Some n) \<Rightarrow> P t (s, a, n) | _ \<Rightarrow> True)
      APPROVALS) TRUST_LEVELS) LOOP_STATES"
    and "isValidState s" and "isValidTrustLevel t" and "isValidApprovalStatus a" and "getNextState s t a = Inr (Some n)"
  shows "P t (s, a, n)"
  using every_valid [OF assms(1-3)] assms(4,5) by (auto simp: list_all_iff valid_approval)

definition good_step :: "string \<Rightarrow> string \<times> string option \<times> string \<Rightarrow> bool" where
  "good_step t x = (case x of (s, a, n) \<Rightarrow> isValidState n \<and>
     list_all (\<lambda>g. clears t g x \<longrightarrow> a = Some ''approved'') (gates t) \<and>
     (\<not> resting s \<longrightarrow> a = Some ''rejected'' \<longrightarrow> n = ''IDLE'') \<and>
     (\<not> resting s \<longrightarrow> a \<noteq> Some ''rejected'' \<longrightarrow> a \<noteq> Some ''approved'' \<longrightarrow>
        (n = ''PAUSED'' \<longleftrightarrow> getPendingGateStage s t \<noteq> Inr None)))"

lemma step_good:
  "isValidState s \<Longrightarrow> isValidTrustLevel t \<Longrightarrow> isValidApprovalStatus a \<Longrightarrow> getNextState s t a = Inr (Some n) \<Longrightarrow>
   good_step t (s, a, n)"
  by (rule every_step [where P = good_step]) code_simp

lemma trail_good:
  "isValidState s \<Longrightarrow> isValidTrustLevel t \<Longrightarrow> \<forall>a \<in> set as. isValidApprovalStatus a \<Longrightarrow> x \<in> set (trail t s as) \<Longrightarrow>
   good_step t x"
proof (induction as arbitrary: s)
  case (Cons a as)
  then obtain n where n: "getNextState s t a = Inr (Some n)"
    by (cases "getNextState s t a") (auto split: option.splits)
  then have good: "good_step t (s, a, n)" using Cons.prems by (intro step_good) simp_all
  then have "isValidState n" by (simp add: good_step_def)
  then show ?case using Cons good n by auto
qed simp

text \<open>The gates that are still ahead of a stage.\<close>

definition stages_after :: "string \<Rightarrow> string list" where
  "stages_after s = List.map_filter (\<lambda>n. approved_pass n ''dark'' s) [1..<7]"

definition gate_ahead :: "string \<Rightarrow> string \<Rightarrow> string \<Rightarrow> bool" where
  "gate_ahead t s g = (\<not> resting s \<and> (g \<in> set (stages_after s) \<or> exit_gated g t \<and> s = g))"

definition gates_left :: "string \<Rightarrow> string \<times> string option \<times> string \<Rightarrow> bool" where
  "gates_left t x = (case x of (s, a, n) \<Rightarrow> a = Some ''rejected'' \<or> n = ''PAUSED'' \<or> isValidState n \<and>
     list_all (\<lambda>g. gate_ahead t s g \<longrightarrow> clears t g x \<or> gate_ahead t n g) (gates t))"

lemma step_gates:
  "isValidState s \<Longrightarrow> isValidTrustLevel t \<Longrightarrow> isValidApprovalStatus a \<Longrightarrow> getNextState s t a = Inr (Some n) \<Longrightarrow>
   gates_left t (s, a, n)"
  by (rule every_step [where P = gates_left]) code_simp

lemma walk_paused: "isValidTrustLevel t \<Longrightarrow> \<forall>a \<in> set as. isValidApprovalStatus a \<Longrightarrow> walk t ''PAUSED'' as = Some ''PAUSED''"
proof (induction as)
  case (Cons a as)
  have "isValidState ''PAUSED''" by code_simp
  then have "getNextState ''PAUSED'' t a = Inr (Some ''PAUSED'')"
    using Cons.prems by (simp add: next_valid resting_def)
  with Cons show ?case by simp
qed simp

lemma gates_passed:
  assumes "isValidTrustLevel t" and "\<forall>a \<in> set as. isValidApprovalStatus a \<and> a \<noteq> Some ''rejected''"
    and "isValidState s" and "walk t s as = Some ''IDLE''" and "g \<in> set (gates t)" and "gate_ahead t s g"
  shows "\<exists>x \<in> set (trail t s as). clears t g x"
  using assms(2-6)
proof (induction as arbitrary: s)
  case Nil
  then show ?case by (simp add: gate_ahead_def resting_def)
next
  case (Cons a as)
  from Cons.prems(3) obtain n where n: "getNextState s t a = Inr (Some n)" "walk t n as = Some ''IDLE''"
    by (auto split: sum.splits option.splits)
  then have "n \<noteq> ''PAUSED''" using walk_paused [OF assms(1), of as] Cons.prems(1) by auto
  moreover have "gates_left t (s, a, n)" using Cons.prems assms(1) n(1) by (intro step_gates) simp_all
  ultimately have "isValidState n" "clears t g (s, a, n) \<or> gate_ahead t n g"
    using Cons.prems by (auto simp: gates_left_def list_all_iff)
  then show ?case using Cons n by auto
qed

section \<open>Properties\<close>

text \<open>C22: No walk of the loop passes a gate without approval. In any walk, with any approval status at each
  step: a step that goes forward into a stage gated at its entry, or forward out of a stage gated at its exit (VERIFY at
  trust level supervised, which is entered without approval), was approved; a working stage goes to IDLE when the step
  is rejected, and without a decision it pauses exactly when a gate is pending. And a walk from SENSE that ends
  in IDLE without a rejection has passed every gate of its trust level.\<close>

theorem gates_respected:
  assumes "isValidState s" and "isValidTrustLevel t" and "\<forall>a \<in> set as. isValidApprovalStatus a"
  shows "(\<forall>(x, a, n) \<in> set (trail t s as).
      (\<forall>g \<in> set (gates t). clears t g (x, a, n) \<longrightarrow> a = Some ''approved'') \<and>
      (\<not> resting x \<longrightarrow> a = Some ''rejected'' \<longrightarrow> n = ''IDLE'') \<and>
      (\<not> resting x \<longrightarrow> a \<noteq> Some ''rejected'' \<longrightarrow> a \<noteq> Some ''approved'' \<longrightarrow>
         (n = ''PAUSED'' \<longleftrightarrow> getPendingGateStage x t \<noteq> Inr None))) \<and>
    (s = ''SENSE'' \<and> walk t s as = Some ''IDLE'' \<and> Some ''rejected'' \<notin> set as \<longrightarrow>
      (\<forall>g \<in> set (gates t). \<exists>x \<in> set (trail t s as). clears t g x))"
proof (intro conjI impI ballI)
  fix x assume "x \<in> set (trail t s as)"
  then have "good_step t x" by (rule trail_good [OF assms])
  then show "case x of (x, a, n) \<Rightarrow>
      (\<forall>g \<in> set (gates t). clears t g (x, a, n) \<longrightarrow> a = Some ''approved'') \<and>
      (\<not> resting x \<longrightarrow> a = Some ''rejected'' \<longrightarrow> n = ''IDLE'') \<and>
      (\<not> resting x \<longrightarrow> a \<noteq> Some ''rejected'' \<longrightarrow> a \<noteq> Some ''approved'' \<longrightarrow>
         (n = ''PAUSED'' \<longleftrightarrow> getPendingGateStage x t \<noteq> Inr None))"
    by (auto simp: good_step_def list_all_iff)
next
  fix g assume run: "s = ''SENSE'' \<and> walk t s as = Some ''IDLE'' \<and> Some ''rejected'' \<notin> set as" and g: "g \<in> set (gates t)"
  have "list_all (\<lambda>s. list_all (\<lambda>t. list_all (gate_ahead t ''SENSE'') (gates t)) TRUST_LEVELS) LOOP_STATES" by code_simp
  from every_valid [OF this assms(1,2)] g have "gate_ahead t s g" using run by (simp add: list_all_iff)
  then show "\<exists>x \<in> set (trail t s as). clears t g x"
    using gates_passed [OF assms(2) _ assms(1) _ g] assms(3) run by blast
qed

theorem gates_respected_witness:
  "\<exists>x \<in> set (trail ''supervised'' ''SENSE'' (replicate 3 (Some ''approved'') @ [None] @ replicate 2 (Some ''approved''))).
     clears ''supervised'' ''VERIFY'' x"
proof -
  let ?as = "replicate 3 (Some ''approved'') @ [None] @ replicate 2 (Some ''approved'') :: string option list"
  have h: "isValidState ''SENSE''" "isValidTrustLevel ''supervised''" by code_simp+
  have "list_all isValidApprovalStatus ?as" by code_simp
  then have ok: "\<forall>a \<in> set ?as. isValidApprovalStatus a" by (simp only: list_all_iff)
  have run: "walk ''supervised'' ''SENSE'' ?as = Some ''IDLE''" "Some ''rejected'' \<notin> set ?as"
    "''VERIFY'' \<in> set (gates ''supervised'')" by code_simp+
  show ?thesis
    using gates_respected [OF h ok, THEN conjunct2] run by blast
qed

text \<open>Approving a pending gate resumes the loop in the stage it would have reached had the
  step been approved in the first place, for every stage and trust level.\<close>

theorem resume_matches_approval:
  assumes "isValidState s" and "isValidTrustLevel t" and "getPendingGateStage s t = Inr (Some gate)"
  shows "\<exists>n. getResumeStateForApprovedGate gate t = Inr n \<and> getNextState s t (Some ''approved'') = Inr (Some n)"
proof -
  have "list_all (\<lambda>s. list_all (\<lambda>t. case pending_gate s t of None \<Rightarrow> True
      | Some gate \<Rightarrow> (case (getResumeStateForApprovedGate gate t, getNextState s t (Some ''approved'')) of
          (Inr n, Inr (Some m)) \<Rightarrow> n = m | _ \<Rightarrow> False)) TRUST_LEVELS) LOOP_STATES" by code_simp
  from every_valid [OF this assms(1,2)] assms(3) show ?thesis
    by (auto simp: getPendingGateStage_def checked [OF assms(1,2)] split: option.splits sum.splits)
qed

theorem resume_matches_approval_witness:
  "\<exists>n. getResumeStateForApprovedGate ''VERIFY'' ''supervised'' = Inr n \<and>
     getNextState ''VERIFY'' ''supervised'' (Some ''approved'') = Inr (Some n)"
  by (rule resume_matches_approval) code_simp+

text \<open>With every gate approved the loop finishes a pass from any working stage: after at most
  six steps it is in IDLE, except from PLAN_REVIEW, which has no forward transition.\<close>

theorem approved_pass_ends:
  assumes "isValidState s" and "isValidTrustLevel t" and "\<not> resting s" and "s \<noteq> ''PLAN_REVIEW''"
  shows "approved_pass 6 t s = Some ''IDLE''"
proof -
  have "list_all (\<lambda>s. list_all (\<lambda>t. resting s \<or> s = ''PLAN_REVIEW'' \<or> approved_pass 6 t s = Some ''IDLE'')
      TRUST_LEVELS) LOOP_STATES" by code_simp
  from every_valid [OF this assms(1,2)] assms(3,4) show ?thesis by simp
qed

theorem approved_pass_ends_witness: "approved_pass 6 ''guided'' ''SENSE'' = Some ''IDLE''"
  by (rule approved_pass_ends) code_simp+

end
