(* ===== verification/Output_Injection.thy ===== *)
theory Output_Injection
  imports Workflow_Engine
begin

text \<open>
  The injection of upstream outputs into task descriptions, from \<open>server/execution/workflow-runtime.js\<close>
  with \<open>stripAnsiEscapes\<close> of \<open>server/utils/sanitize.js\<close>: templates like \<open>{{node.output}}\<close> are replaced
  by sanitised text, and the outputs listed in \<open>context_from\<close> are prepended.

  A regular expression of the code is the function that matches it at the start of a text and
  returns what follows; a global replacement walks over the text with the length of the text as
  fuel, each step consuming at least one character. The em dash is its three UTF-8 bytes. A node
  called \<open>__proto__\<close>, whose assignment would change the prototype instead, is not modelled.

  Lemmas: closing braces of escaped text never follow a word character, so escaped text holds no
  template.
\<close>

section \<open>Sanitising\<close>

fun replace_all :: "nat \<Rightarrow> (string \<Rightarrow> (string \<times> string) option) \<Rightarrow> string \<Rightarrow> string" where
  "replace_all n m [] = []"
| "replace_all 0 m (c # cs) = c # cs"
| "replace_all (Suc n) m (c # cs) = (case m (c # cs) of
     None \<Rightarrow> c # replace_all n m cs
   | Some (new, rest) \<Rightarrow> new @ replace_all n m rest)"

definition ESC :: char where "ESC = CHR 0x1B"

definition csi_escape :: "string \<Rightarrow> (string \<times> string) option" where
  "csi_escape s = (if starts_with [ESC, CHR ''[''] s then
     (case dropWhile (\<lambda>c. is_digit_char c \<or> c = CHR '';'') (drop 2 s) of
        l # rest \<Rightarrow> if is_alpha_char l then Some ([], rest) else None
      | [] \<Rightarrow> None) else None)"

definition osc_escape :: "string \<Rightarrow> (string \<times> string) option" where
  "osc_escape s = (if starts_with [ESC, CHR '']''] s then
     (case dropWhile (\<lambda>c. c \<noteq> CHR 0x07) (drop 2 s) of _ # rest \<Rightarrow> Some ([], rest) | [] \<Rightarrow> None) else None)"

definition charset_escape :: "string \<Rightarrow> (string \<times> string) option" where
  "charset_escape s = (case s of
     e # p # c # rest \<Rightarrow> if e = ESC \<and> p \<in> set ''()'' \<and> c \<in> set ''AB012'' then Some ([], rest) else None
   | _ \<Rightarrow> None)"

definition replace_in :: "(string \<Rightarrow> (string \<times> string) option) \<Rightarrow> string \<Rightarrow> string" where
  "replace_in m s = replace_all (length s) m s"

definition stripAnsiEscapes :: "string \<Rightarrow> string" where
  "stripAnsiEscapes s = replace_in charset_escape (replace_in osc_escape (replace_in csi_escape s))"

text \<open>\<open>replace(/bb/g, 'b b')\<close>\<close>

fun space_pairs :: "char \<Rightarrow> string \<Rightarrow> string" where
  "space_pairs b (x # y # r) = (if x = b \<and> y = b then b # CHR '' '' # b # space_pairs b r
     else x # space_pairs b (y # r))"
| "space_pairs b s = s"

definition readable :: "char \<Rightarrow> bool" where
  "readable c = (c \<in> set [CHR 0x0A, CHR 0x0D, CHR 0x09] \<or> (0x20 \<le> (of_char c :: nat) \<and> c \<noteq> CHR 0x7F))"

definition escape_braces :: "string \<Rightarrow> string" where
  "escape_braces s = space_pairs CHR ''}'' (space_pairs CHR ''{'' s)"

definition sanitizeInjectedOutput :: "jsval \<Rightarrow> nat \<Rightarrow> string" where
  "sanitizeInjectedOutput text maxLen =
     (if \<not> js_truthy text then []
      else filter readable (stripAnsiEscapes (escape_braces (take maxLen (js_string text)))))"

definition OUTPUT_CAP_BYTES :: nat where
  "OUTPUT_CAP_BYTES = 5120"

section \<open>Templates\<close>

record dep_output =
  out_output :: jsval
  out_error :: jsval
  out_exit :: jsval
  out_status :: jsval

definition name_char :: "char \<Rightarrow> bool" where
  "name_char c = (is_word_char c \<or> c = CHR ''-'')"

definition strip_prefix :: "string \<Rightarrow> string \<Rightarrow> string option" where
  "strip_prefix p s = (if starts_with p s then Some (drop (length p) s) else None)"

fun first_field :: "string list \<Rightarrow> string \<Rightarrow> (string \<times> string) option" where
  "first_field [] s = None"
| "first_field (f # fs) s = (case strip_prefix (f @ ''}}'') s of
     Some rest \<Rightarrow> Some (f, rest) | None \<Rightarrow> first_field fs s)"

definition TEMPLATE_FIELDS :: "string list" where
  "TEMPLATE_FIELDS = [''output'', ''error_output'', ''exit_code'']"

definition match_template :: "string \<Rightarrow> (string \<times> string \<times> string) option" where
  "match_template s = (case strip_prefix ''{{'' s of
     None \<Rightarrow> None
   | Some r \<Rightarrow>
       (let nodeId = takeWhile name_char r in
        case dropWhile name_char r of
          c # r' \<Rightarrow> (if nodeId \<noteq> [] \<and> c = CHR ''.'' then
              map_option (\<lambda>(field, rest). (nodeId, field, rest)) (first_field TEMPLATE_FIELDS r') else None)
        | [] \<Rightarrow> None))"

definition em_dash :: string where
  "em_dash = [CHR 0xE2, CHR 0x80, CHR 0x94]"

text \<open>
  \<open>depTasks\<close> is a plain object, so the names every object inherits are found too; none of the
  inherited members has one of the four fields.
\<close>

definition OBJECT_MEMBERS :: "string list" where
  "OBJECT_MEMBERS = [''constructor'', ''toString'', ''toLocaleString'', ''valueOf'', ''hasOwnProperty'', ''isPrototypeOf'',
     ''propertyIsEnumerable'', ''__proto__'', ''__defineGetter__'', ''__defineSetter__'', ''__lookupGetter__'', ''__lookupSetter__'']"

definition dep_named :: "(string \<times> dep_output) list \<Rightarrow> string \<Rightarrow> dep_output option" where
  "dep_named depTasks nodeId =
     (case map_of depTasks nodeId of
        Some dep \<Rightarrow> Some dep
      | None \<Rightarrow> if nodeId \<in> set OBJECT_MEMBERS
          then Some \<lparr>out_output = JUndef, out_error = JUndef, out_exit = JUndef, out_status = JUndef\<rparr> else None)"

definition template_value :: "(string \<times> dep_output) list \<Rightarrow> string \<Rightarrow> string \<Rightarrow> string" where
  "template_value depTasks nodeId field =
     (case dep_named depTasks nodeId of
        None \<Rightarrow> ''[ERROR: output unavailable from node '' @ [CHR 0x27] @ nodeId @ [CHR 0x27] @ '' '' @ em_dash
          @ '' dependency missing or failed]''
      | Some dep \<Rightarrow>
          if field = ''exit_code'' then
            sanitizeInjectedOutput (JStr (js_string (js_coalesce (out_exit dep) (JNum 0)))) OUTPUT_CAP_BYTES
          else
            let rawValue = (if field = ''output'' then out_output dep else out_error dep) in
            if (is_nullish rawValue \<or> rawValue = JStr []) \<and> js_truthy (out_status dep)
               \<and> out_status dep \<notin> {JStr ''completed'', JStr ''skipped''}
            then ''[no output '' @ em_dash @ '' dependency '' @ [CHR 0x27] @ nodeId @ [CHR 0x27] @ '' ''
              @ js_string (out_status dep) @ '']''
            else sanitizeInjectedOutput (js_coalesce rawValue (JStr [])) OUTPUT_CAP_BYTES)"

definition injectDependencyOutputs :: "string \<Rightarrow> (string \<times> dep_output) list \<Rightarrow> string" where
  "injectDependencyOutputs description depTasks =
     replace_in (\<lambda>s. case match_template s of None \<Rightarrow> None
       | Some (nodeId, field, rest) \<Rightarrow> Some (template_value depTasks nodeId field, rest)) description"

definition newline :: string where
  "newline = [CHR 0x0A]"

definition context_section :: "(string \<times> dep_output) list \<Rightarrow> jsval \<Rightarrow> string option" where
  "context_section depTasks node =
     (case dep_named depTasks (js_string node) of None \<Rightarrow> None
      | Some dep \<Rightarrow> (let output = sanitizeInjectedOutput (js_coalesce (out_output dep) (JStr [])) OUTPUT_CAP_BYTES in
          if output = [] then None else Some (''### '' @ js_string node @ newline @ output)))"

definition applyContextFrom :: "string \<Rightarrow> jsval list \<Rightarrow> (string \<times> dep_output) list \<Rightarrow> string" where
  "applyContextFrom description contextFrom depTasks =
     (let sections = List.map_filter (context_section depTasks) contextFrom in
      if description = [] \<or> sections = [] then description
      else ''Prior step results:'' @ newline @ newline @ join_with (newline @ newline) sections
        @ newline @ newline @ ''---'' @ newline @ newline @ description)"

section \<open>The dependencies of a task\<close>

definition node_of_listed :: "db_row list \<Rightarrow> string \<Rightarrow> string option" where
  "node_of_listed ts t = (case List.find (\<lambda>r. has_id t r \<and> js_truthy (col r ''workflow_node_id'')) ts of
     None \<Rightarrow> None | Some r \<Rightarrow> Some (js_string (col r ''workflow_node_id'')))"

definition dep_output_of :: "db_row option \<Rightarrow> dep_output" where
  "dep_output_of r = (let c = (\<lambda>k. case r of None \<Rightarrow> JNull | Some t \<Rightarrow> col t k) in
     \<lparr>out_output = js_or (c ''output'') (JStr []), out_error = js_or (c ''error_output'') (JStr []),
      out_exit = c ''exit_code'', out_status = js_or (c ''status'') JNull\<rparr>)"

definition buildDepTasksMap :: "string \<Rightarrow> string \<Rightarrow> tdb \<Rightarrow> (string \<times> dep_output) list" where
  "buildDepTasksMap w t d =
     foldl (\<lambda>acc (e, r). case node_of_listed (getWorkflowTasks w d) (dep_on e) of
         None \<Rightarrow> acc
       | Some nodeId \<Rightarrow> AList.update nodeId (dep_output_of r) acc) [] (getTaskDependencies t d)"

definition injected_description :: "db_row \<Rightarrow> (string \<times> dep_output) list \<Rightarrow> jsval" where
  "injected_description task depTasks =
     (case col task ''task_description'' of
        JStr description \<Rightarrow>
          (let injected = injectDependencyOutputs description depTasks in
           JStr (case obj_get (normalizeMetadata (col task ''metadata'')) ''context_from'' of
               JArr contextFrom \<Rightarrow> applyContextFrom injected contextFrom depTasks
             | _ \<Rightarrow> injected))
      | v \<Rightarrow> js_or v (JStr []))"

definition applyOutputInjection :: "string \<Rightarrow> string \<Rightarrow> tdb \<Rightarrow> unit db_result" where
  "applyOutputInjection t w d =
     (case getTask t d of
        Inl e \<Rightarrow> (Inl e, d)
      | Inr None \<Rightarrow> (Inr (), d)
      | Inr (Some task) \<Rightarrow>
          if \<not> js_truthy (col task ''workflow_id'') then (Inr (), d)
          else
            let depTasks = buildDepTasksMap w t d; description = injected_description task depTasks in
            if depTasks = [] \<or> description = col task ''task_description'' then (Inr (), d)
            else (Inr (), write_cols t [(''task_description'', description)] d))"


section \<open>Escaped text holds no template\<close>

fun safe_braces :: "string \<Rightarrow> bool" where
  "safe_braces (x # y # z # r) =
     ((y = CHR ''}'' \<and> z = CHR ''}'' \<longrightarrow> x = CHR '' '' \<or> x = CHR ''}'') \<and> safe_braces (y # z # r))"
| "safe_braces _ = True"

lemma hd_space_pairs: "s \<noteq> [] \<Longrightarrow> space_pairs b s \<noteq> [] \<and> hd (space_pairs b s) = hd s"
  by (cases "(b, s)" rule: space_pairs.cases) auto

lemma space_pairs_Cons: "\<exists>r'. space_pairs b (y # r) = y # r'"
  using hd_space_pairs [of "y # r" b] by (cases "space_pairs b (y # r)") auto

lemma safe_Cons:
  "safe_braces t \<Longrightarrow> (\<And>r. t = CHR ''}'' # CHR ''}'' # r \<Longrightarrow> x = CHR '' '' \<or> x = CHR ''}'') \<Longrightarrow> safe_braces (x # t)"
  by (cases t rule: safe_braces.cases) auto

lemma no_pair_front:
  assumes "space_pairs CHR ''}'' (y # r) = CHR ''}'' # CHR ''}'' # r'"
  shows False
proof (cases r)
  case Nil
  with assms show False by simp
next
  case (Cons z r'')
  show False
  proof (cases "y = CHR ''}'' \<and> z = CHR ''}''")
    case True
    with assms Cons show False by simp
  next
    case False
    obtain t where "space_pairs CHR ''}'' (z # r'') = z # t" using space_pairs_Cons [of "CHR ''}''" z r''] by auto
    with False assms Cons show False by (auto split: if_splits)
  qed
qed

lemma safe_space_pairs: "safe_braces (space_pairs CHR ''}'' s)"
proof (induction "CHR ''}''" s rule: space_pairs.induct)
  case (1 x y r)
  show ?case
  proof (cases "x = CHR ''}'' \<and> y = CHR ''}''")
    case True
    with 1 have "safe_braces (space_pairs CHR ''}'' r)" by simp
    then have "safe_braces (CHR '' '' # CHR ''}'' # space_pairs CHR ''}'' r)" by (intro safe_Cons) auto
    with True show ?thesis by (simp add: safe_Cons)
  next
    case False
    with 1 have "safe_braces (space_pairs CHR ''}'' (y # r))" by simp
    then have "safe_braces (x # space_pairs CHR ''}'' (y # r))" by (rule safe_Cons) (use no_pair_front in blast)
    moreover have "space_pairs CHR ''}'' (x # y # r) = x # space_pairs CHR ''}'' (y # r)" using False by auto
    ultimately show ?thesis by simp
  qed
qed auto

lemma safe_suffix: "safe_braces (p @ s) \<Longrightarrow> safe_braces s"
proof (induction p)
  case (Cons c p)
  then have "safe_braces (p @ s)" by (cases "p @ s" rule: safe_braces.cases) auto
  with Cons show ?case by blast
qed simp

lemma first_field_shape:
  "first_field fs s = Some (f, rest) \<Longrightarrow> f \<in> set fs \<and> s = f @ ''}}'' @ rest"
  by (induction fs) (auto simp: strip_prefix_def elim!: starts_withE split: if_splits)

lemma safe_no_template:
  assumes "safe_braces s"
  shows "match_template s = None"
proof (rule ccontr)
  assume "match_template s \<noteq> None"
  then obtain r r' f rest where s: "s = ''{{'' @ r" and r: "dropWhile name_char r = CHR ''.'' # r'"
    and f: "first_field TEMPLATE_FIELDS r' = Some (f, rest)"
    by (auto simp: match_template_def Let_def strip_prefix_def elim!: starts_withE split: option.splits list.splits if_splits)
  from first_field_shape [OF f] obtain g x where g: "f = g @ [x]" "x \<noteq> CHR '' ''" "x \<noteq> CHR ''}''"
    by (auto simp: TEMPLATE_FIELDS_def)
  have "r = takeWhile name_char r @ CHR ''.'' # r'" using r by (metis takeWhile_dropWhile_id)
  then obtain p where "s = p @ x # CHR ''}'' # CHR ''}'' # rest"
    using s g first_field_shape [OF f] that [of "''{{'' @ takeWhile name_char r @ [CHR ''.''] @ g"] by auto
  with safe_suffix [of p] assms have "safe_braces (x # CHR ''}'' # CHR ''}'' # rest)" by blast
  with g show False by simp
qed

lemma replace_all_none: "(\<And>p t. s = p @ t \<Longrightarrow> t \<noteq> [] \<Longrightarrow> m t = None) \<Longrightarrow> replace_all n m s = s"
proof (induction n m s rule: replace_all.induct)
  case (3 n m c cs)
  from "3.prems" [of "[]" "c # cs"] have "m (c # cs) = None" by simp
  with "3.IH"(1) "3.prems" show ?case by (auto intro: "3.prems" [of "c # _"])
qed auto

lemma no_escape:
  assumes "ESC \<notin> set s" and "\<And>t. m t \<noteq> None \<Longrightarrow> ESC \<in> set t"
  shows "replace_in m s = s"
  unfolding replace_in_def
proof (rule replace_all_none)
  fix p t
  assume "s = p @ t"
  with assms(1) have "ESC \<notin> set t" by simp
  with assms(2) show "m t = None" by blast
qed

lemma escapes_start:
  "csi_escape t \<noteq> None \<Longrightarrow> ESC \<in> set t" "osc_escape t \<noteq> None \<Longrightarrow> ESC \<in> set t" "charset_escape t \<noteq> None \<Longrightarrow> ESC \<in> set t"
  by (auto simp: csi_escape_def osc_escape_def charset_escape_def elim!: starts_withE split: if_splits list.splits)

lemma strip_plain: "ESC \<notin> set s \<Longrightarrow> stripAnsiEscapes s = s"
  by (simp add: stripAnsiEscapes_def no_escape escapes_start)

lemma set_space_pairs: "set (space_pairs b s) \<subseteq> insert CHR '' '' (set s)"
  by (induction b s rule: space_pairs.induct) auto

lemma readable_ESC: "\<not> readable ESC" "readable CHR '' ''"
  by code_simp+

lemma sanitize_readable:
  assumes "list_all readable s" and "s \<noteq> []"
  shows "sanitizeInjectedOutput (JStr s) n = escape_braces (take n s)"
proof -
  have "\<forall>c \<in> set (escape_braces (take n s)). readable c"
    using assms(1) set_space_pairs [of "CHR ''}''" "space_pairs CHR ''{'' (take n s)"]
      set_space_pairs [of "CHR ''{''" "take n s"] set_take_subset [of n s] readable_ESC(2)
    by (auto simp: escape_braces_def list_all_iff)
  moreover from this readable_ESC(1) have "ESC \<notin> set (escape_braces (take n s))" by auto
  ultimately show ?thesis using assms(2) by (simp add: sanitizeInjectedOutput_def strip_plain)
qed

section \<open>Properties\<close>

text \<open>
  The control characters are removed only after the braces were separated, so the claim needs
  readable text: with a NUL between the braces a template reappears.
\<close>

lemma control_characters_reopen_templates:
  "sanitizeInjectedOutput (JStr ([CHR ''{'', CHR 0x00, CHR ''{''] @ ''a.output'' @ [CHR ''}'', CHR 0x00, CHR ''}''])) 100 =
     ''{{a.output}}''"
  by code_simp

text \<open>C23: Readable text injected into a description is inert: injecting outputs again leaves it
  unchanged, whatever the dependencies.\<close>

theorem injected_text_inert:
  assumes "list_all readable s"
  shows "injectDependencyOutputs (sanitizeInjectedOutput (JStr s) n) depTasks = sanitizeInjectedOutput (JStr s) n"
proof (cases "s = []")
  case True
  then show ?thesis by (simp add: sanitizeInjectedOutput_def injectDependencyOutputs_def replace_in_def)
next
  case False
  have "injectDependencyOutputs t depTasks = t" if "safe_braces t" for t
    unfolding injectDependencyOutputs_def replace_in_def
    by (rule replace_all_none) (use safe_suffix safe_no_template that in auto)
  moreover have "safe_braces (escape_braces (take n s))" by (simp add: escape_braces_def safe_space_pairs)
  ultimately show ?thesis by (simp add: sanitize_readable [OF assms False])
qed

theorem injected_text_inert_witness:
  "injectDependencyOutputs (sanitizeInjectedOutput (JStr ''{{a.output}}'') 100) [] = ''{ {a.output} }''"
proof -
  have "list_all readable ''{{a.output}}''" by code_simp
  moreover have "sanitizeInjectedOutput (JStr ''{{a.output}}'') 100 = ''{ {a.output} }''" by code_simp
  ultimately show ?thesis using injected_text_inert [of "''{{a.output}}''" 100 "[]"] by simp
qed

end
