(* ===== verification/Workflow_Runtime.thy ===== *)
theory Workflow_Runtime
  imports Output_Injection
begin

text \<open>
  The workflow runtime, first part of \<open>server/execution/workflow-runtime.js\<close>: the contexts edge
  conditions are evaluated in, the state of the dependencies of a task, the blocker snapshots kept
  in the context column of blocked tasks, fan-out limits and the deadlock diagnosis.

  A run returns \<open>Inl\<close> when the code throws, with the state it leaves, or \<open>Inr\<close> a value;
  \<open>Out_of_fuel\<close> is a run cut off by the fuel of the model and is never caught. \<open>rt_env\<close> holds what
  comes from outside: the clock, the RegExp engine, the redaction of secrets by regular expressions,
  the running processes, the queue scheduler, the conflict resolver and the file system; its
  \<open>cancel_running\<close> is \<open>cancelTask\<close>, tied in \<open>Task_Cancellation\<close>. Logging, dashboard
  notifications and fire-and-forget work (bundles, retrospectives, audit aggregation) do not touch
  the tables and are left out.
\<close>

section \<open>Runs\<close>

datatype halt = Thrown task_error | Out_of_fuel

type_synonym 'a run = "(halt + 'a) \<times> tdb"

fun lift_run :: "'a db_result \<Rightarrow> 'a run" where
  "lift_run (Inl e, d) = (Inl (Thrown e), d)"
| "lift_run (Inr x, d) = (Inr x, d)"

fun then_run :: "'a run \<Rightarrow> ('a \<Rightarrow> tdb \<Rightarrow> 'b run) \<Rightarrow> 'b run" where
  "then_run (Inl e, d) f = (Inl e, d)"
| "then_run (Inr x, d) f = f x d"

text \<open>A read that may throw, and a loop over a list threading a value.\<close>

definition read_run :: "task_error + 'a \<Rightarrow> tdb \<Rightarrow> ('a \<Rightarrow> 'b run) \<Rightarrow> 'b run" where
  "read_run r d f = (case r of Inl e \<Rightarrow> (Inl (Thrown e), d) | Inr x \<Rightarrow> f x)"

primrec loop_run :: "('a \<Rightarrow> 's \<Rightarrow> tdb \<Rightarrow> 's run) \<Rightarrow> 'a list \<Rightarrow> 's \<Rightarrow> tdb \<Rightarrow> 's run" where
  "loop_run f [] s d = (Inr s, d)"
| "loop_run f (x # xs) s d = then_run (f x s d) (loop_run f xs)"

primrec traverse :: "('a \<Rightarrow> 'e + 'b) \<Rightarrow> 'a list \<Rightarrow> 'e + 'b list" where
  "traverse f [] = Inr []"
| "traverse f (x # xs) = (case f x of Inl e \<Rightarrow> Inl e
     | Inr y \<Rightarrow> (case traverse f xs of Inl e \<Rightarrow> Inl e | Inr ys \<Rightarrow> Inr (y # ys)))"

record live_process =
  live_output :: string
  live_error :: string

record rt_env =
  rt_now :: int
  rt_regex :: "string \<Rightarrow> string \<Rightarrow> bool option"
  redact :: "string \<Rightarrow> string"
  cancel_running :: "string \<Rightarrow> string \<Rightarrow> tdb \<Rightarrow> (halt + bool) \<times> tdb"
  running_process :: "string \<Rightarrow> tdb \<Rightarrow> live_process option"
  process_queue :: "tdb \<Rightarrow> tdb"
  resolveConflicts :: "string \<Rightarrow> tdb \<Rightarrow> jsval list \<times> jsval list"
  dir_exists :: "string \<Rightarrow> bool"

section \<open>Condition contexts\<close>

definition MAX_SANITIZE_LENGTH :: nat where
  "MAX_SANITIZE_LENGTH = 100000"

definition sanitizeOutputForCondition :: "rt_env \<Rightarrow> string \<Rightarrow> string" where
  "sanitizeOutputForCondition env text =
     redact env (if MAX_SANITIZE_LENGTH < length text
       then take MAX_SANITIZE_LENGTH text @ newline @ ''[OUTPUT TRUNCATED FOR SECURITY SCANNING]'' else text)"

definition resolveWorkflowNodeId :: "db_row \<Rightarrow> string \<Rightarrow> tdb \<Rightarrow> jsval" where
  "resolveWorkflowNodeId task w d =
     (if js_truthy (col task ''workflow_node_id'') then col task ''workflow_node_id''
      else if w = [] \<or> \<not> js_truthy (col task ''id'') then JNull
      else case List.find (\<lambda>r. col r ''id'' = col task ''id'') (getWorkflowTasks w d) of
          None \<Rightarrow> JNull
        | Some r \<Rightarrow> js_or (col r ''workflow_node_id'') JNull)"

definition outcomeFromTaskStatus :: "string \<Rightarrow> jsval" where
  "outcomeFromTaskStatus status =
     (if status = ''completed'' then JStr ''success'' else if status = ''failed'' then JStr ''fail''
      else if status = [] then JStr ''unknown'' else JStr status)"

definition task_col :: "db_row option \<Rightarrow> string \<Rightarrow> jsval" where
  "task_col task k = (case task of None \<Rightarrow> JUndef | Some t \<Rightarrow> col t k)"

definition buildMetadataConditionContext :: "jsobj \<Rightarrow> db_row option \<Rightarrow> jsobj" where
  "buildMetadataConditionContext metadata task =
     [(''failure_class'', js_or (obj_get metadata ''failure_class'') JNull),
      (''verify'', js_coalesce (obj_get metadata ''verify'') JNull),
      (''provider'', js_or (obj_get metadata ''intended_provider'') (js_or (task_col task ''provider'') JNull)),
      (''context'', JObj (obj_merge (obj_merge [(''tags'', JArr (arr_of (task_col task ''tags'')))]
         (normalizeMetadata (obj_get metadata ''context''))) metadata))]"

definition seconds_between :: "jsval \<Rightarrow> jsval \<Rightarrow> int" where
  "seconds_between startedAt completedAt =
     (if is_nullish startedAt \<or> is_nullish completedAt then 0
      else floor ((num_of completedAt - num_of startedAt) / 1000 + 1 / 2))"

definition tail_for_condition :: "rt_env \<Rightarrow> nat \<Rightarrow> jsval \<Rightarrow> jsval" where
  "tail_for_condition env n v = JStr (sanitizeOutputForCondition env (slice_last n (str_of v)))"

definition buildDependencyConditionContext :: "rt_env \<Rightarrow> db_row option \<Rightarrow> db_row option \<Rightarrow> string \<Rightarrow> jsval" where
  "buildDependencyConditionContext env joined depTask depStatus =
     (let c = (\<lambda>k. case joined of None \<Rightarrow> JNull | Some r \<Rightarrow> col r k);
          either = (\<lambda>k. js_coalesce (c k) (js_coalesce (task_col depTask k) JNull)) in
      JObj ([(''outcome'', outcomeFromTaskStatus depStatus), (''exit_code'', c ''exit_code''),
        (''output'', tail_for_condition env 10240 (c ''output'')),
        (''error_output'', tail_for_condition env 5120 (c ''error_output'')),
        (''duration_seconds'', JNum (of_int (seconds_between (either ''started_at'') (either ''completed_at'')))),
        (''status'', JStr depStatus)]
        @ buildMetadataConditionContext (normalizeMetadata (task_col depTask ''metadata'')) depTask))"

section \<open>Dependency states\<close>

record dep_state =
  ds_task :: jsval
  ds_node :: jsval
  ds_status :: string
  ds_satisfied :: bool
  ds_terminal :: bool
  ds_on_fail :: string
  ds_condition :: "string option"
  ds_passed :: "bool option"
  ds_unmet :: "string option"
  ds_alternate :: "string option"

definition is_finished :: "string \<Rightarrow> bool" where
  "is_finished s = (s \<in> set [''completed'', ''failed'', ''cancelled'', ''skipped''])"

definition dep_status_text :: "db_row option \<Rightarrow> db_row option \<Rightarrow> string" where
  "dep_status_text depTask joined = js_lower (js_string
     (js_or (task_col depTask ''status'') (js_or (task_col joined ''status'') (JStr ''unknown''))))"

definition on_fail_or_skip :: "dep_row \<Rightarrow> string" where
  "on_fail_or_skip dep = (case truthy_text (dep_on_fail dep) of None \<Rightarrow> ''skip'' | Some s \<Rightarrow> s)"

definition unmet_reason :: "dep_row \<Rightarrow> string \<Rightarrow> bool option \<Rightarrow> string option" where
  "unmet_reason dep depStatus conditionPassed =
     (if dep_on dep = [] then Some ''missing_dependency''
      else if \<not> is_finished depStatus then Some ''dependency_not_terminal''
      else if depStatus \<notin> {''completed'', ''skipped''} \<and>
        \<not> (depStatus \<in> {''failed'', ''cancelled''} \<and> on_fail_or_skip dep = ''continue'')
      then Some ''dependency_failed''
      else if truthy_text (dep_condition dep) \<noteq> None \<and> conditionPassed = Some False then Some ''condition_failed''
      else None)"

definition dep_state_of :: "rt_env \<Rightarrow> dep_row \<Rightarrow> db_row option \<Rightarrow> db_row option \<Rightarrow> dep_state" where
  "dep_state_of env dep joined depTask =
     (let depStatus = dep_status_text depTask joined;
          conditionPassed = (case truthy_text (dep_condition dep) of
              Some expr \<Rightarrow> (if is_finished depStatus then Some (evaluateWorkflowCondition (rt_regex env) (JStr expr)
                  (buildDependencyConditionContext env joined depTask depStatus)) else None)
            | None \<Rightarrow> None);
          unmet = unmet_reason dep depStatus conditionPassed;
          taskId = js_or (JStr (dep_on dep)) JNull in
      \<lparr>ds_task = taskId, ds_node = js_or (task_col depTask ''workflow_node_id'') taskId, ds_status = depStatus,
       ds_satisfied = (unmet = None), ds_terminal = is_finished depStatus, ds_on_fail = on_fail_or_skip dep,
       ds_condition = truthy_text (dep_condition dep), ds_passed = conditionPassed, ds_unmet = unmet,
       ds_alternate = truthy_text (dep_alternate dep)\<rparr>)"

definition evaluateTaskDependencyState :: "rt_env \<Rightarrow> dep_row \<times> db_row option \<Rightarrow> tdb \<Rightarrow> task_error + dep_state" where
  "evaluateTaskDependencyState env dep d =
     (case (if dep_on (fst dep) = [] then Inr None else getTask (dep_on (fst dep)) d) of
        Inl e \<Rightarrow> Inl e
      | Inr depTask \<Rightarrow> Inr (dep_state_of env (fst dep) (snd dep) depTask))"

definition getTaskDependencyStates :: "rt_env \<Rightarrow> string \<Rightarrow> tdb \<Rightarrow> task_error + dep_state list" where
  "getTaskDependencyStates env t d = traverse (\<lambda>dep. evaluateTaskDependencyState env dep d) (getTaskDependencies t d)"

section \<open>Fan-out limits and deadlocks\<close>

definition getFanoutLimit :: "db_row option \<Rightarrow> nat option" where
  "getFanoutLimit task =
     (let metadata = normalizeMetadata (task_col task ''metadata'') in
      if obj_get metadata ''kind'' \<noteq> JStr ''parallel_fanout'' then None
      else case parseInt (js_string (obj_get metadata ''max_parallel'')) of
          Some n \<Rightarrow> if 0 < n then Some (nat n) else None
        | None \<Rightarrow> None)"

definition ACTIVE_BRANCH :: "string list" where
  "ACTIVE_BRANCH = [''queued'', ''pending'', ''running'', ''pending_provider_switch'']"

definition active_branches :: "string \<Rightarrow> string \<Rightarrow> tdb \<Rightarrow> task_error + nat" where
  "active_branches parentId dependentTaskId d =
     (case traverse (\<lambda>t. getTask t d)
         (filter (\<lambda>t. t \<noteq> dependentTaskId) (map (dep_task \<circ> fst) (getTaskDependents parentId d))) of
        Inl e \<Rightarrow> Inl e
      | Inr found \<Rightarrow> Inr (count_where (\<lambda>r. task_col r ''status'' \<in> JStr ` set ACTIVE_BRANCH) found))"

definition shouldHoldForFanoutLimit :: "string \<Rightarrow> string \<Rightarrow> nat option \<Rightarrow> tdb \<Rightarrow> task_error + bool" where
  "shouldHoldForFanoutLimit parentId dependentTaskId maxParallel d =
     (case maxParallel of None \<Rightarrow> Inr False
      | Some mx \<Rightarrow> (case active_branches parentId dependentTaskId d of Inl e \<Rightarrow> Inl e | Inr n \<Rightarrow> Inr (mx \<le> n)))"

record stuck_parent =
  parentTaskId :: string
  parentNodeId :: jsval
  parentStatus :: string

definition deadlock_status :: "db_row option \<Rightarrow> db_row option \<Rightarrow> string" where
  "deadlock_status depTask joined = js_lower (js_string
     (js_or (task_col joined ''status'') (js_or (task_col depTask ''status'') (JStr ''unknown''))))"

text \<open>The loop: \<open>None\<close> when some dependency can still progress.\<close>

fun stuck_loop :: "string \<Rightarrow> tdb \<Rightarrow> (dep_row \<times> db_row option) list \<Rightarrow> stuck_parent option \<Rightarrow> stuck_parent list
     \<Rightarrow> task_error + stuck_parent option" where
  "stuck_loop failing d [] failingCandidate stuck = Inr (case failingCandidate of Some c \<Rightarrow> Some c
     | None \<Rightarrow> (case stuck of [] \<Rightarrow> None | c # _ \<Rightarrow> Some c))"
| "stuck_loop failing d ((dep, joined) # rest) failingCandidate stuck =
     (case (if dep_on dep = [] then Inr None else getTask (dep_on dep) d) of
        Inl e \<Rightarrow> Inl e
      | Inr depTask \<Rightarrow>
          let depStatus = deadlock_status depTask joined;
              candidate = \<lparr>parentTaskId = dep_on dep,
                parentNodeId = js_or (task_col depTask ''workflow_node_id'') (JStr (dep_on dep)), parentStatus = depStatus\<rparr> in
          if is_finished depStatus then stuck_loop failing d rest failingCandidate stuck
          else if depStatus \<in> {''running'', ''queued'', ''pending'', ''pending_provider_switch''} then Inr None
          else if dep_on dep = failing then stuck_loop failing d rest (Some candidate) stuck
          else stuck_loop failing d rest failingCandidate (stuck @ [candidate]))"

definition detectContinueDeadlock :: "string \<Rightarrow> string \<Rightarrow> string \<Rightarrow> tdb \<Rightarrow> task_error + stuck_parent option" where
  "detectContinueDeadlock t failing w d =
     (let ds = getTaskDependencies t d in
      if ds = [] then Inr None
      else if list_ex (\<lambda>r. col r ''status'' \<in> {JStr ''running'', JStr ''queued'', JStr ''pending_provider_switch''})
          (getWorkflowTasks w d) then Inr None
      else stuck_loop failing d ds None [])"

section \<open>Blocker snapshots\<close>

definition formatBlockedDependencyList :: "dep_state list \<Rightarrow> string" where
  "formatBlockedDependencyList dependencies =
     (let labels = map (\<lambda>s. js_string (js_or (ds_node s) (js_or (ds_task s) (JStr ''unknown'')))) dependencies in
      case labels of
        [] \<Rightarrow> ''unknown dependencies''
      | [a] \<Rightarrow> a
      | [a, b] \<Rightarrow> a @ '' and '' @ b
      | a # b # rest \<Rightarrow> a @ '', '' @ b @ '' and '' @ nat_string (length rest) @ '' more'')"

definition js_opt :: "string option \<Rightarrow> jsval" where
  "js_opt v = (case v of None \<Rightarrow> JNull | Some s \<Rightarrow> JStr s)"

definition dep_state_json :: "dep_state \<Rightarrow> jsval" where
  "dep_state_json s = JObj [(''task_id'', ds_task s), (''node_id'', ds_node s), (''status'', JStr (ds_status s)),
     (''satisfied'', JBool (ds_satisfied s)), (''terminal'', JBool (ds_terminal s)),
     (''on_fail'', JStr (ds_on_fail s)), (''condition_expr'', js_opt (ds_condition s)),
     (''condition_passed'', case ds_passed s of None \<Rightarrow> JNull | Some b \<Rightarrow> JBool b),
     (''unmet_reason'', js_opt (ds_unmet s)), (''alternate_task_id'', js_opt (ds_alternate s))]"

definition with_reason :: "string \<Rightarrow> dep_state list \<Rightarrow> dep_state list" where
  "with_reason r unmet = filter (\<lambda>s. ds_unmet s = Some r) unmet"

definition blocker_reason :: "bool \<Rightarrow> jsval \<Rightarrow> dep_state list \<Rightarrow> dep_state list \<Rightarrow> string \<times> string" where
  "blocker_reason waiting workflowStatus states unmet =
     (if workflowStatus = JStr ''paused'' then (''workflow_paused'',
        if unmet \<noteq> [] then ''Workflow is paused while '' @ formatBlockedDependencyList unmet @ '' remain unresolved.''
        else ''Workflow is paused, so this task cannot be scheduled yet.'')
      else if workflowStatus = JStr ''failed'' then (''workflow_failed'',
        if unmet \<noteq> [] then ''Workflow failed while '' @ formatBlockedDependencyList unmet @ '' remained unresolved.''
        else ''Workflow failed before this task could become runnable.'')
      else if workflowStatus = JStr ''cancelled''
      then (''workflow_cancelled'', ''Workflow was cancelled before this task could become runnable.'')
      else if states = [] then (''missing_dependencies'',
        if waiting then ''Task is waiting with no persisted dependency records.''
        else ''Task is blocked with no persisted dependency records.'')
      else if with_reason ''dependency_not_terminal'' unmet \<noteq> [] then (''waiting_on_dependencies'',
        ''Waiting on '' @ formatBlockedDependencyList (with_reason ''dependency_not_terminal'' unmet) @ '' to reach a terminal state.'')
      else if with_reason ''condition_failed'' unmet \<noteq> [] then (''dependency_condition_failed'',
        ''Dependency conditions are not satisfied for '' @ formatBlockedDependencyList (with_reason ''condition_failed'' unmet) @ ''.'')
      else if with_reason ''dependency_failed'' unmet \<noteq> [] then (''dependency_failed'',
        ''Dependencies finished in a non-runnable state for '' @ formatBlockedDependencyList (with_reason ''dependency_failed'' unmet) @ ''.'')
      else if with_reason ''missing_dependency'' unmet \<noteq> []
      then (''missing_dependencies'', ''A dependency record could not be resolved to a task.'')
      else if waiting then (''waiting_for_scheduler'', ''Task is still waiting to be promoted to queued.'')
      else (''evaluation_pending'', ''All dependencies appear satisfied, but the task has not been promoted to queued yet.''))"

definition snapshot_json :: "db_row \<Rightarrow> jsval \<Rightarrow> jsval \<Rightarrow> dep_state list \<Rightarrow> jsval" where
  "snapshot_json task nodeId workflowStatus states =
     (let unmet = filter (\<lambda>s. \<not> ds_satisfied s) states;
          (code, reason) = blocker_reason (col task ''status'' = JStr ''waiting'') workflowStatus states unmet in
      JObj [(''task_id'', col task ''id''), (''node_id'', nodeId), (''state'', col task ''status''),
        (''runnable'', JBool False), (''workflow_status'', js_or workflowStatus JNull),
        (''reason_code'', JStr code), (''reason'', JStr reason), (''dependency_count'', js_nat (length states)),
        (''satisfied_dependency_count'', js_nat (length states - length unmet)),
        (''unmet_dependency_count'', js_nat (length unmet)),
        (''unmet_dependencies'', JArr (map dep_state_json unmet)),
        (''dependency_states'', JArr (map dep_state_json states)),
        (''failure_actions'', JArr (map (\<lambda>s. JObj [(''task_id'', ds_task s), (''node_id'', ds_node s),
           (''on_fail'', JStr (ds_on_fail s)), (''alternate_task_id'', js_opt (ds_alternate s)),
           (''blocking'', JBool (\<not> ds_satisfied s))]) states))])"

text \<open>\<open>JNull\<close> is the absent snapshot; \<open>workflow\<close> is the row the caller read, if it passes one.\<close>

definition buildTaskBlockerSnapshot :: "rt_env \<Rightarrow> db_row option \<Rightarrow> string \<Rightarrow> db_row option \<Rightarrow> tdb \<Rightarrow> task_error + jsval" where
  "buildTaskBlockerSnapshot env task workflowId workflow d =
     (case task of
        None \<Rightarrow> Inr JNull
      | Some r \<Rightarrow>
          if col r ''status'' \<notin> {JStr ''blocked'', JStr ''waiting''} then Inr JNull
          else
            let effectiveId = (if workflowId \<noteq> [] then workflowId else str_of (col r ''workflow_id''));
                wf = (case workflow of Some x \<Rightarrow> Some x
                  | None \<Rightarrow> if effectiveId = [] then None else getWorkflow effectiveId d) in
            case getTaskDependencyStates env (str_of (col r ''id'')) d of
              Inl e \<Rightarrow> Inl e
            | Inr states \<Rightarrow> Inr (snapshot_json r (resolveWorkflowNodeId r effectiveId d) (task_col wf ''status'') states))"

definition WORKFLOW_BLOCKER_CONTEXT_KEY :: string where
  "WORKFLOW_BLOCKER_CONTEXT_KEY = ''workflow_blocker''"

definition getPersistedTaskBlockerSnapshot :: "db_row \<Rightarrow> jsval" where
  "getPersistedTaskBlockerSnapshot task =
     (case obj_get (normalizeMetadata (col task ''context'')) WORKFLOW_BLOCKER_CONTEXT_KEY of
        JObj o' \<Rightarrow> JObj o' | _ \<Rightarrow> JNull)"

definition buildWorkflowBlockerContext :: "db_row \<Rightarrow> jsval \<Rightarrow> jsval" where
  "buildWorkflowBlockerContext task snapshot =
     (let current = normalizeMetadata (col task ''context'');
          nextContext = (if js_truthy snapshot then obj_set WORKFLOW_BLOCKER_CONTEXT_KEY snapshot current
            else obj_delete WORKFLOW_BLOCKER_CONTEXT_KEY current) in
      if nextContext = [] then JNull else JObj nextContext)"

definition persistTaskBlockerSnapshot ::
  "rt_env \<Rightarrow> string \<Rightarrow> jsval \<Rightarrow> string option \<Rightarrow> jsobj \<Rightarrow> tdb \<Rightarrow> db_row option run" where
  "persistTaskBlockerSnapshot env t snapshot status extra d =
     read_run (getTask t d) d (\<lambda>found. case found of
        None \<Rightarrow> (Inr None, d)
      | Some task \<Rightarrow>
          let fields1 = (if getPersistedTaskBlockerSnapshot task \<noteq> snapshot
                then obj_set ''context'' (buildWorkflowBlockerContext task snapshot) extra else extra) in
          (case status of
             None \<Rightarrow> if fields1 = [] then (Inr (Some task), d) else lift_run (updateTask t (JObj fields1) d)
           | Some s \<Rightarrow> lift_run (updateTaskStatus (rt_now env) t s fields1 d)))"

definition clearTaskBlockerSnapshot :: "rt_env \<Rightarrow> string \<Rightarrow> string \<Rightarrow> jsobj \<Rightarrow> tdb \<Rightarrow> db_row option run" where
  "clearTaskBlockerSnapshot env t status extra d = persistTaskBlockerSnapshot env t JNull (Some status) extra d"

definition persist_snapshot_of :: "rt_env \<Rightarrow> string \<Rightarrow> string \<Rightarrow> tdb \<Rightarrow> unit run" where
  "persist_snapshot_of env t w d =
     read_run (getTask t d) d (\<lambda>task.
       read_run (buildTaskBlockerSnapshot env task w None d) d (\<lambda>snapshot.
         then_run (persistTaskBlockerSnapshot env t snapshot None [] d) (\<lambda>_ d'. (Inr (), d'))))"

definition refresh_one :: "rt_env \<Rightarrow> string \<Rightarrow> db_row option \<Rightarrow> db_row \<Rightarrow> nat \<Rightarrow> tdb \<Rightarrow> nat run" where
  "refresh_one env w workflow task n d =
     read_run (if col task ''status'' \<in> {JStr ''blocked'', JStr ''waiting''}
         then buildTaskBlockerSnapshot env (Some task) w workflow d else Inr JNull) d (\<lambda>snapshot.
       if getPersistedTaskBlockerSnapshot task = snapshot then (Inr n, d)
       else then_run (persistTaskBlockerSnapshot env (str_of (col task ''id'')) snapshot None [] d)
         (\<lambda>_ d'. (Inr (n + 1), d')))"

definition refreshWorkflowBlockerSnapshots :: "rt_env \<Rightarrow> string \<Rightarrow> db_row option \<Rightarrow> tdb \<Rightarrow> nat run" where
  "refreshWorkflowBlockerSnapshots env w workflow d =
     (if w = [] then (Inr 0, d)
      else loop_run (refresh_one env w (case workflow of Some x \<Rightarrow> Some x | None \<Rightarrow> getWorkflow w d))
        (getWorkflowTasks w d) 0 d)"

end
