(* ===== verification/Workflow_Evaluate.thy ===== *)
theory Workflow_Evaluate
  imports Workflow_Runtime
begin

text \<open>
  The workflow runtime, second part of \<open>server/execution/workflow-runtime.js\<close>: what happens when a task
  has finished. Its dependents are unblocked or get their failure action, which may skip, fail or
  replace them and evaluate their dependents in turn; then the workflow is closed when it is
  finished or stuck. The reconciliation at start-up is built on the same operations.

  The recursion (a skipped task is evaluated like a finished one) is bounded by fuel. \<open>_skipDepth\<close> is
  never passed on by the code, so its limit is not reached and the argument is left out.
\<close>

section \<open>Unblocking and cascades\<close>

text \<open>A try block: a thrown error keeps the state and is handled, exhausted fuel is not.\<close>

fun catch_run :: "'a run \<Rightarrow> 'a \<Rightarrow> 'a run" where
  "catch_run (Inl (Thrown e), d) x = (Inr x, d)"
| "catch_run (Inl Out_of_fuel, d) x = (Inl Out_of_fuel, d)"
| "catch_run (Inr y, d) x = (Inr y, d)"

definition is_held :: "db_row \<Rightarrow> bool" where
  "is_held r = (col r ''status'' \<in> {JStr ''blocked'', JStr ''waiting''})"

definition unblockTask :: "rt_env \<Rightarrow> string \<Rightarrow> tdb \<Rightarrow> bool run" where
  "unblockTask env t d =
     read_run (getTask t d) d (\<lambda>found. case found of
        None \<Rightarrow> (Inr False, d)
      | Some task \<Rightarrow>
          if \<not> is_held task then (Inr False, d)
          else catch_run (then_run (clearTaskBlockerSnapshot env t ''queued'' [] d) (\<lambda>_ d1.
            (Inr True, emit_event Queue_changed
               (emit_event (Workflow_event (str_of (col task ''workflow_id'')) ''WORKFLOW_DEPENDENCY_UNBLOCKED'') d1)))) False)"

definition CASCADED :: "string list" where
  "CASCADED = [''pending'', ''blocked'', ''queued'', ''pending_provider_switch'']"

text \<open>
  \<open>cancelDependentTasks\<close>, threading the visited set. An error of \<open>cancelTask\<close> is caught, one of a
  transition is not.
\<close>

definition cascade_to ::
  "rt_env \<Rightarrow> (string \<Rightarrow> string list \<Rightarrow> tdb \<Rightarrow> string list run) \<Rightarrow> string \<Rightarrow> dep_row \<times> jsval \<Rightarrow> string list \<Rightarrow> tdb \<Rightarrow> string list run" where
  "cascade_to env rec reason dep visited d =
     (let t = dep_task (fst dep) in
      read_run (getTask t d) d (\<lambda>found. case found of
         None \<Rightarrow> (Inr visited, d)
       | Some task \<Rightarrow>
           if col task ''status'' = JStr ''running'' then
             then_run (catch_run (cancel_running env t reason d) False) (\<lambda>_ d1. rec t visited d1)
           else if col task ''status'' \<in> JStr ` set CASCADED then
             then_run (clearTaskBlockerSnapshot env t ''failed'' [(''error_output'', JStr reason)] d) (\<lambda>_ d1. rec t visited d1)
           else (Inr visited, d)))"

primrec cancelDependentTasks :: "nat \<Rightarrow> rt_env \<Rightarrow> string \<Rightarrow> string \<Rightarrow> string list \<Rightarrow> tdb \<Rightarrow> string list run" where
  "cancelDependentTasks 0 env reason t visited d = (Inl Out_of_fuel, d)"
| "cancelDependentTasks (Suc n) env reason t visited d =
     (if t \<in> set visited then (Inr visited, d)
      else loop_run (cascade_to env (cancelDependentTasks n env reason) reason) (getTaskDependents t d) (t # visited) d)"

section \<open>Failure actions\<close>

definition all_satisfied :: "rt_env \<Rightarrow> string \<Rightarrow> tdb \<Rightarrow> task_error + bool" where
  "all_satisfied env t d = (case getTaskDependencyStates env t d of Inl e \<Rightarrow> Inl e | Inr ss \<Rightarrow> Inr (list_all ds_satisfied ss))"

definition inject_and_unblock :: "rt_env \<Rightarrow> string \<Rightarrow> string \<Rightarrow> tdb \<Rightarrow> unit run" where
  "inject_and_unblock env t w d =
     then_run (lift_run (applyOutputInjection t w d)) (\<lambda>_ d1. then_run (unblockTask env t d1) (\<lambda>_ d2. (Inr (), d2)))"

definition skip_task :: "rt_env \<Rightarrow> (string \<Rightarrow> tdb \<Rightarrow> unit run) \<Rightarrow> string \<Rightarrow> string \<Rightarrow> tdb \<Rightarrow> unit run" where
  "skip_task env rec t note d =
     then_run (clearTaskBlockerSnapshot env t ''skipped'' [(''error_output'', JStr note)] d) (\<lambda>_ d1. rec t d1)"

definition applyFailureAction ::
  "nat \<Rightarrow> rt_env \<Rightarrow> (string \<Rightarrow> tdb \<Rightarrow> unit run) \<Rightarrow> string \<Rightarrow> string option \<Rightarrow> string option \<Rightarrow> string \<Rightarrow> tdb \<Rightarrow> unit run" where
  "applyFailureAction n env rec t action alternate w d =
     (if action = Some ''cancel'' then
        then_run (clearTaskBlockerSnapshot env t ''failed'' [(''error_output'', JStr ''Failed due to dependency failure'')] d)
          (\<lambda>_ d1. then_run (cancelDependentTasks n env ''Dependency cancelled'' t [] d1) (\<lambda>_ d2. (Inr (), d2)))
      else if action = Some ''continue'' then
        read_run (all_satisfied env t d) d (\<lambda>ok.
          if ok then inject_and_unblock env t w d else persist_snapshot_of env t w d)
      else if action = Some ''run_alternate'' then
        then_run (clearTaskBlockerSnapshot env t ''skipped'' [(''error_output'', JStr ''Skipped - running alternate task'')] d)
          (\<lambda>_ d1. then_run (case truthy_text alternate of None \<Rightarrow> (Inr False, d1) | Some a \<Rightarrow> unblockTask env a d1)
            (\<lambda>_ d2. rec t d2))
      else skip_task env rec t ''Skipped due to dependency condition not met'' d)"

section \<open>Completion\<close>

definition is_superseded :: "db_row \<Rightarrow> bool" where
  "is_superseded t = (col t ''status'' = JStr ''cancelled'' \<and>
     js_truthy (obj_get (normalizeMetadata (col t ''metadata'')) ''resubmitted_as''))"

definition with_status :: "string \<Rightarrow> db_row list \<Rightarrow> nat" where
  "with_status s ts = count_where (\<lambda>t. col t ''status'' = JStr s) ts"

definition findGoalGateViolations :: "db_row list \<Rightarrow> jsval list" where
  "findGoalGateViolations ts = map (\<lambda>t. JObj
       [(''task_id'', col t ''id''), (''node_id'', js_or (col t ''workflow_node_id'') (js_or (col t ''node_id'') JNull)),
        (''status'', col t ''status''),
        (''failure_class'', js_or (obj_get (normalizeMetadata (col t ''metadata'')) ''failure_class'') JNull)])
     (filter (\<lambda>t. obj_get (normalizeMetadata (col t ''metadata'')) ''goal_gate'' = JBool True \<and>
        col t ''status'' \<notin> {JStr ''completed'', JStr ''skipped''}) ts)"

definition final_status :: "db_row list \<Rightarrow> string" where
  "final_status ts =
     (let effective = filter (\<lambda>t. \<not> is_superseded t) ts in
      if with_status ''failed'' effective = 0 \<and> with_status ''cancelled'' effective = 0 then ''completed''
      else if findGoalGateViolations effective \<noteq> [] then ''failed''
      else if 0 < with_status ''completed'' effective then ''completed_with_errors''
      else ''failed'')"

definition terminal_tasks_of :: "db_row list \<Rightarrow> nat" where
  "terminal_tasks_of ts = with_status ''completed'' ts + with_status ''failed'' ts + with_status ''cancelled'' ts + with_status ''skipped'' ts"

definition runnable_tasks :: "db_row list \<Rightarrow> nat" where
  "runnable_tasks ts = count_where (\<lambda>t. col t ''status'' \<in> JStr ` set [''running'', ''queued'', ''pending'', ''pending_provider_switch'']) ts"

definition counters :: "db_row list \<Rightarrow> jsobj" where
  "counters ts = [(''total_tasks'', js_nat (length ts)), (''completed_tasks'', js_nat (with_status ''completed'' ts)),
     (''failed_tasks'', js_nat (with_status ''failed'' ts)), (''skipped_tasks'', js_nat (with_status ''skipped'' ts))]"

definition drop_guard :: "string \<Rightarrow> tdb \<Rightarrow> tdb" where
  "drop_guard w d = d\<lparr>terminalGuards := removeAll w (terminalGuards d), terminalPending := AList.delete w (terminalPending d)\<rparr>"

definition context_with :: "db_row option \<Rightarrow> jsobj \<Rightarrow> jsval" where
  "context_with workflow extra = JObj (obj_merge
     (case task_col workflow ''context'' of JObj o' \<Rightarrow> o'
        | JArr xs \<Rightarrow> zip (map nat_string [0..<length xs]) xs | _ \<Rightarrow> []) extra)"

definition final_event :: "string \<Rightarrow> string \<Rightarrow> tdb \<Rightarrow> tdb" where
  "final_event w status d = emit_event (Workflow_event w
     (if status = ''completed'' then ''WORKFLOW_COMPLETED'' else ''WORKFLOW_FAILED'')) d"

definition store_conflicts :: "rt_env \<Rightarrow> string \<Rightarrow> string \<Rightarrow> tdb \<Rightarrow> tdb" where
  "store_conflicts env w status d =
     (case resolveConflicts env w d of (conflicts, merged) \<Rightarrow>
        if status \<notin> {''completed'', ''completed_with_errors''} \<or> conflicts = [] then d
        else snd (updateWorkflow w [(''context'', context_with (getWorkflow w d)
          [(''unresolved_conflicts'', JArr conflicts), (''auto_merged'', JArr merged)])] d))"

definition finish_workflow :: "rt_env \<Rightarrow> string \<Rightarrow> db_row \<Rightarrow> db_row list \<Rightarrow> tdb \<Rightarrow> tdb" where
  "finish_workflow env w workflow ts d =
     (let status = final_status ts; violations = findGoalGateViolations (filter (\<lambda>t. \<not> is_superseded t) ts);
          next_fields = [(''status'', JStr status), (''completed_at'', iso (rt_now env))];
          d1 = (if violations = [] then snd (updateWorkflow w next_fields d)
                else snd (updateWorkflow w (next_fields @
                    [(''context'', context_with (Some workflow) [(''goal_gate_violations'', JArr violations)])])
                  (emit_event (Workflow_event w ''GOAL_GATE_EVALUATED'') d))) in
      drop_guard w (store_conflicts env w status (final_event w status d1)))"

definition checkWorkflowCompletion :: "rt_env \<Rightarrow> string \<Rightarrow> tdb \<Rightarrow> unit run" where
  "checkWorkflowCompletion env w d =
     (case getWorkflow w d of
        None \<Rightarrow> (Inr (), d)
      | Some workflow \<Rightarrow>
          if col workflow ''status'' \<in> JStr ` set [''completed'', ''completed_with_errors'', ''failed'', ''cancelled'']
          then (Inr (), d)
          else then_run (refreshWorkflowBlockerSnapshots env w (Some workflow) d) (\<lambda>_ d1.
            let ts = getWorkflowTasks w d1; d2 = snd (updateWorkflow w (counters ts) d1) in
            if length ts \<le> terminal_tasks_of ts then (Inr (), finish_workflow env w workflow ts d2)
            else if runnable_tasks ts = 0 then
              let d3 = final_event w ''failed'' (snd (updateWorkflow w
                    [(''status'', JStr ''failed''), (''completed_at'', iso (rt_now env))] d2)) in
              then_run (refreshWorkflowBlockerSnapshots env w (getWorkflow w d3) d3) (\<lambda>_ d4. (Inr (), drop_guard w d4))
            else (Inr (), d2)))"

section \<open>Evaluating the dependents of a finished task\<close>

definition completed_context :: "rt_env \<Rightarrow> db_row \<Rightarrow> jsval" where
  "completed_context env task = JObj
     ([(''outcome'', outcomeFromTaskStatus (str_of (col task ''status''))), (''exit_code'', js_or (col task ''exit_code'') (JNum 0)),
       (''output'', tail_for_condition env 10240 (col task ''output'')),
       (''error_output'', tail_for_condition env 5120 (col task ''error_output'')),
       (''duration_seconds'', JNum (of_int (seconds_between (col task ''started_at'') (col task ''completed_at'')))),
       (''status'', col task ''status'')]
      @ buildMetadataConditionContext (normalizeMetadata (col task ''metadata'')) (Some task))"

definition edge_passed :: "rt_env \<Rightarrow> db_row \<Rightarrow> dep_row \<Rightarrow> bool" where
  "edge_passed env task dep =
     (case truthy_text (dep_condition dep) of
        Some expr \<Rightarrow> evaluateWorkflowCondition (rt_regex env) (JStr expr) (completed_context env task)
      | None \<Rightarrow> col task ''status'' \<in> {JStr ''completed'', JStr ''skipped''})"

definition inject_review :: "rt_env \<Rightarrow> db_row \<Rightarrow> string \<Rightarrow> tdb \<Rightarrow> unit run" where
  "inject_review env task w d =
     (let metadata = normalizeMetadata (col task ''metadata''); reviewId = obj_get metadata ''adversarial_review_task_id'';
          nodeId = resolveWorkflowNodeId task w d in
      if w \<noteq> [] \<and> js_truthy (obj_get metadata ''adversarial_review_pending'') \<and> js_truthy reviewId \<and> js_truthy nodeId
      then then_run (lift_run (injectReviewDependency (rt_now env) w (str_of nodeId) (str_of reviewId) d)) (\<lambda>_ d1. (Inr (), d1))
      else (Inr (), d))"

definition advance_dependent :: "rt_env \<Rightarrow> db_row \<Rightarrow> string \<Rightarrow> string \<Rightarrow> tdb \<Rightarrow> unit run" where
  "advance_dependent env completedTask t w d =
     (case isTaskUnblockable (rt_regex env) (rt_now env) t d of
        (False, d1) \<Rightarrow> (Inr (), d1)
      | (True, d1) \<Rightarrow>
          read_run (shouldHoldForFanoutLimit (str_of (col completedTask ''id'')) t (getFanoutLimit (Some completedTask)) d1) d1
            (\<lambda>hold. if hold then persist_snapshot_of env t w d1 else inject_and_unblock env t w d1))"

definition deadlock_note :: "stuck_parent \<Rightarrow> string" where
  "deadlock_note s = ''Dependency continue deadlock on node '' @ [CHR 0x27] @ js_string (parentNodeId s) @ [CHR 0x27]
     @ '' ('' @ parentStatus s @ '') '' @ em_dash
     @ '' forcing unblock because no running/queued workflow work can resolve it.''"

definition force_unblock :: "rt_env \<Rightarrow> stuck_parent \<Rightarrow> string \<Rightarrow> string \<Rightarrow> tdb \<Rightarrow> unit run" where
  "force_unblock env stuck t w d =
     read_run (getTask t d) d (\<lambda>dependentTask.
       let holdStatus = (case dependentTask of Some r \<Rightarrow> if is_held r then str_of (col r ''status'') else ''blocked''
             | None \<Rightarrow> ''blocked'') in
       then_run (lift_run (updateTaskStatus (rt_now env) t holdStatus [(''error_output'', JStr (deadlock_note stuck))] d))
         (\<lambda>_ d1. inject_and_unblock env t w d1))"

definition fail_dependent :: "nat \<Rightarrow> rt_env \<Rightarrow> (string \<Rightarrow> tdb \<Rightarrow> unit run) \<Rightarrow> string \<Rightarrow> dep_row \<Rightarrow> string \<Rightarrow> tdb \<Rightarrow> unit run" where
  "fail_dependent n env rec completedId dep w d =
     read_run (if dep_on_fail dep = Some ''continue'' then detectContinueDeadlock (dep_task dep) completedId w d else Inr None) d
       (\<lambda>stuckParent. case stuckParent of
          Some stuck \<Rightarrow> force_unblock env stuck (dep_task dep) w d
        | None \<Rightarrow> applyFailureAction n env rec (dep_task dep) (dep_on_fail dep) (dep_alternate dep) w d)"

definition evaluate_dependent ::
  "nat \<Rightarrow> rt_env \<Rightarrow> (string \<Rightarrow> tdb \<Rightarrow> unit run) \<Rightarrow> string \<Rightarrow> db_row \<Rightarrow> dep_row \<times> jsval \<Rightarrow> unit \<Rightarrow> tdb \<Rightarrow> unit run" where
  "evaluate_dependent n env rec w completedTask dep u d =
     (if edge_passed env completedTask (fst dep) then advance_dependent env completedTask (dep_task (fst dep)) w d
      else fail_dependent n env rec (str_of (col completedTask ''id'')) (fst dep) w d)"

definition release_parent :: "(string \<Rightarrow> tdb \<Rightarrow> unit run) \<Rightarrow> dep_row \<times> db_row option \<Rightarrow> unit \<Rightarrow> tdb \<Rightarrow> unit run" where
  "release_parent rec dep u d = read_run (getTask (dep_on (fst dep)) d) d (\<lambda>parentTask.
     if getFanoutLimit parentTask \<noteq> None then rec (str_of (task_col parentTask ''id'')) d else (Inr (), d))"

definition releaseFanoutParentsForCompletedBranch :: "(string \<Rightarrow> tdb \<Rightarrow> unit run) \<Rightarrow> db_row \<Rightarrow> string \<Rightarrow> tdb \<Rightarrow> unit run" where
  "releaseFanoutParentsForCompletedBranch rec completedTask w d =
     (if \<not> js_truthy (col completedTask ''id'') \<or> w = [] then (Inr (), d)
      else loop_run (release_parent rec) (getTaskDependencies (str_of (col completedTask ''id'')) d) () d)"

primrec evaluateWorkflowDependencies :: "nat \<Rightarrow> rt_env \<Rightarrow> string \<Rightarrow> string \<Rightarrow> tdb \<Rightarrow> unit run" where
  "evaluateWorkflowDependencies 0 env w t d = (Inl Out_of_fuel, d)"
| "evaluateWorkflowDependencies (Suc n) env w t d =
     (case getWorkflow w d of
        None \<Rightarrow> (Inr (), d)
      | Some workflow \<Rightarrow>
          if col workflow ''status'' \<in> JStr ` set [''completed'', ''failed'', ''cancelled''] then (Inr (), d)
          else if col workflow ''status'' = JStr ''paused'' then
            then_run (refreshWorkflowBlockerSnapshots env w (Some workflow) d) (\<lambda>_ d1. (Inr (), d1))
          else read_run (getTask t d) d (\<lambda>found. case found of
              None \<Rightarrow> (Inr (), d)
            | Some completedTask \<Rightarrow>
                then_run (inject_review env completedTask w d) (\<lambda>_ d1.
                then_run (loop_run (evaluate_dependent n env (evaluateWorkflowDependencies n env w) w completedTask)
                    (getTaskDependents t d1) () d1) (\<lambda>_ d2.
                then_run (if col completedTask ''status'' = JStr ''completed''
                    then releaseFanoutParentsForCompletedBranch (evaluateWorkflowDependencies n env w) completedTask w d2
                    else (Inr (), d2)) (\<lambda>_ d3.
                then_run (refreshWorkflowBlockerSnapshots env w (Some workflow) d3) (\<lambda>_ d4.
                  checkWorkflowCompletion env w d4))))))"

section \<open>Termination of a task\<close>

definition add_pending :: "string \<Rightarrow> string \<Rightarrow> tdb \<Rightarrow> tdb" where
  "add_pending w t d = (let waiting = (case map_of (terminalPending d) w of None \<Rightarrow> [] | Some ts \<Rightarrow> ts) in
     d\<lparr>terminalPending := AList.update w (if t \<in> set waiting then waiting else waiting @ [t]) (terminalPending d)\<rparr>)"

primrec drain_pending :: "nat \<Rightarrow> rt_env \<Rightarrow> string \<Rightarrow> tdb \<Rightarrow> unit run" where
  "drain_pending 0 env w d = (Inl Out_of_fuel, d)"
| "drain_pending (Suc n) env w d =
     (case map_of (terminalPending d) w of
        Some (t # ts) \<Rightarrow>
          then_run (evaluateWorkflowDependencies n env w t (d\<lparr>terminalPending :=
              (if ts = [] then AList.delete w (terminalPending d) else AList.update w ts (terminalPending d))\<rparr>))
            (\<lambda>_ d1. drain_pending n env w d1)
      | _ \<Rightarrow> (Inr (), d))"

definition handleWorkflowTermination :: "nat \<Rightarrow> rt_env \<Rightarrow> string \<Rightarrow> tdb \<Rightarrow> unit run" where
  "handleWorkflowTermination n env t d =
     catch_run (read_run (getTask t d) d (\<lambda>task.
       let w = str_of (task_col task ''workflow_id'') in
       if w = [] then (Inr (), d)
       else case getWorkflow w d of
           None \<Rightarrow> (Inr (), d)
         | Some workflow \<Rightarrow>
             if col workflow ''status'' \<in> JStr ` set [''completed'', ''failed'', ''cancelled''] then (Inr (), d)
             else if col workflow ''status'' = JStr ''paused'' then
               then_run (refreshWorkflowBlockerSnapshots env w (Some workflow) d) (\<lambda>_ d1. (Inr (), d1))
             else if w \<in> set (terminalGuards d) then (Inr (), add_pending w t d)
             else
               (case then_run (evaluateWorkflowDependencies n env w t (d\<lparr>terminalGuards := w # terminalGuards d\<rparr>))
                     (\<lambda>_ d1. drain_pending n env w d1) of
                  (result, d1) \<Rightarrow> (result, drop_guard w d1)))) ()"

end
