(* ===== verification/Task_Utils.thy ===== *)
theory Task_Utils
  imports Output_Injection
begin

text \<open>
  The pure helpers of \<open>server/execution/task-utils.js\<close>: the token estimate of a task, shell quoting
  and the clean-up of the output a provider prints. Metadata is kept parsed, as everywhere.

  Lemma: a shell reads an escaped argument back as one word, the argument itself.
\<close>

section \<open>Token estimates\<close>

definition TOKEN_KEYS :: "string list" where
  "TOKEN_KEYS = [''contextTokens'', ''context_tokens'', ''contextTokenEstimate'', ''context_token_estimate'',
     ''estimatedContextTokens'', ''estimated_context_tokens'', ''totalContextTokens'', ''total_context_tokens'',
     ''inputTokens'', ''input_tokens'']"

definition positive_int :: "jsval \<Rightarrow> int option" where
  "positive_int v = (case parseInt (js_string v) of Some n \<Rightarrow> if 0 < n then Some n else None | None \<Rightarrow> None)"

definition getTaskContextTokenEstimate :: "jsobj \<Rightarrow> string option \<Rightarrow> int option" where
  "getTaskContextTokenEstimate metadata contextText =
     (case List.map_filter (\<lambda>k. positive_int (obj_get metadata k)) TOKEN_KEYS of
        n # _ \<Rightarrow> Some n
      | [] \<Rightarrow> (case contextText of
          Some text \<Rightarrow> if 40000 \<le> length text then Some ((int (length text) + 2) div 4) else None
        | None \<Rightarrow> None))"

section \<open>Shell quoting\<close>

definition QUOTE :: char where "QUOTE = CHR 0x27"

definition BACKSLASH :: char where "BACKSLASH = CHR 0x5C"

definition quote_char :: "char \<Rightarrow> string" where
  "quote_char c = (if c = QUOTE then [QUOTE, BACKSLASH, QUOTE, QUOTE] else [c])"

definition shellEscape :: "jsval \<Rightarrow> string" where
  "shellEscape arg = (if is_nullish arg then [QUOTE, QUOTE]
     else [QUOTE] @ concat (map quote_char (js_string arg)) @ [QUOTE])"

text \<open>
  A POSIX shell reading one word: inside single quotes every character stands for itself, outside
  them only an escaped character is accepted, anything else could be special.
\<close>

fun shell_word :: "bool \<Rightarrow> string \<Rightarrow> string option" where
  "shell_word quoted [] = (if quoted then None else Some [])"
| "shell_word True (c # r) = (if c = QUOTE then shell_word False r else map_option (Cons c) (shell_word True r))"
| "shell_word False (c # r) =
     (if c = QUOTE then shell_word True r
      else if c = BACKSLASH then (case r of [] \<Rightarrow> None | x # r' \<Rightarrow> map_option (Cons x) (shell_word False r'))
      else None)"

lemma shell_quoted: "shell_word True (concat (map quote_char s) @ QUOTE # r) = map_option ((@) s) (shell_word False r)"
proof (induction s)
  case (Cons c s)
  have "QUOTE \<noteq> BACKSLASH" by (simp add: QUOTE_def BACKSLASH_def)
  with Cons show ?case by (simp add: quote_char_def option.map_comp comp_def)
qed (simp add: option.map_ident)

section \<open>Output of a provider\<close>

fun find_match :: "(string \<Rightarrow> string option) \<Rightarrow> nat \<Rightarrow> string \<Rightarrow> (nat \<times> string) option" where
  "find_match m i [] = None"
| "find_match m i (c # cs) = (case m (c # cs) of Some rest \<Rightarrow> Some (i, rest) | None \<Rightarrow> find_match m (Suc i) cs)"

definition think_block :: "string \<Rightarrow> (string \<times> string) option" where
  "think_block s = (case strip_prefix ''<think>'' s of
     None \<Rightarrow> None
   | Some body \<Rightarrow> map_option (\<lambda>(_, rest). ([], trim_start rest)) (find_match (strip_prefix ''</think>'') 0 body))"

definition repo_map :: "string \<Rightarrow> string option" where
  "repo_map s = (case strip_prefix ''Repo-map:'' s of
     None \<Rightarrow> None | Some r \<Rightarrow> strip_prefix (newline @ newline) (dropWhile (\<lambda>c. c \<noteq> CHR 0x0A) r))"

definition DUMB_TERMINAL :: string where
  "DUMB_TERMINAL = ''Detected dumb terminal, disabling fancy input and pretty output.'' @ newline"

definition error_line :: "string \<Rightarrow> bool" where
  "error_line s = (starts_with ''OllamaError:'' s \<or> starts_with ''For more information check:'' s)"

function drop_error_lines :: "string \<Rightarrow> string" where
  "drop_error_lines s = (if \<not> error_line s then s
     else case dropWhile (\<lambda>c. c \<noteq> CHR 0x0A) s of [] \<Rightarrow> s | _ # rest \<Rightarrow> drop_error_lines rest)"
  by auto

termination
proof (relation "measure length")
  fix s :: string and c rest
  assume "dropWhile (\<lambda>c. c \<noteq> CHR 0x0A) s = c # rest"
  then have "length (c # rest) \<le> length s" using length_dropWhile_le [of "\<lambda>c. c \<noteq> CHR 0x0A" s] by simp
  then show "(rest, s) \<in> measure length" by simp
qed simp

definition sanitizeTaskOutput :: "string \<Rightarrow> string" where
  "sanitizeTaskOutput output =
     (let text = replace_in think_block output in
      case find_match repo_map 0 text of
        Some (i, rest) \<Rightarrow> if i < 1000 then rest else trim_start (case strip_prefix DUMB_TERMINAL text of
            None \<Rightarrow> text | Some r \<Rightarrow> drop_error_lines r)
      | None \<Rightarrow> trim_start (case strip_prefix DUMB_TERMINAL text of None \<Rightarrow> text | Some r \<Rightarrow> drop_error_lines r))"

section \<open>Properties\<close>

text \<open>C24: A shell reads an escaped argument as exactly one word, the argument itself, whatever
  characters it has: nothing of it is interpreted.\<close>

theorem escaped_argument_is_one_word:
  "shell_word False (shellEscape (JStr s)) = Some s"
  using shell_quoted [of s "[]"] by (simp add: shellEscape_def)

end
