(* ===== verification/Task_Cancellation.thy ===== *)
theory Task_Cancellation
  imports Workflow_Evaluate Task_Utils
begin

text \<open>
  Cancellation of a task, from \<open>server/execution/task-cancellation.js\<close>: the terminal state follows from
  the reason and the options, the error output is combined, the row is closed and the workflow is
  told. \<open>runtime_env\<close> ties the knot between the cascade of the workflow runtime, which cancels
  running tasks, and the cancellation, which re-enters the runtime; its fuel bounds the nesting.

  The process table is a parameter (\<open>running_process\<close>); signals, timers, abort controllers, host
  slots, file locks, webhooks and hook events are outside the tables of the model.
\<close>

section \<open>The terminal state\<close>

definition timeout_words :: "(string \<times> string) list" where
  "timeout_words = [(''timed'', ''out''), (''timing'', ''out''), (''time'', ''out'')]"

text \<open>The alternatives: two words with white space (or nothing) between, or \<open>timed-out\<close>.\<close>

definition after_timeout_word :: "string \<Rightarrow> string list" where
  "after_timeout_word s =
     List.map_filter (\<lambda>(a, b). case strip_prefix a s of None \<Rightarrow> None | Some r \<Rightarrow> strip_prefix b (dropWhile is_space r)) timeout_words
     @ (case strip_prefix ''timed-out'' s of None \<Rightarrow> [] | Some r \<Rightarrow> [r])"

definition word_ends :: "string \<Rightarrow> bool" where
  "word_ends r = (case r of [] \<Rightarrow> True | c # _ \<Rightarrow> \<not> is_word_char c)"

fun timeout_from :: "bool \<Rightarrow> string \<Rightarrow> bool" where
  "timeout_from boundary [] = False"
| "timeout_from boundary (c # cs) =
     (boundary \<and> list_ex word_ends (after_timeout_word (c # cs)) \<or> timeout_from (\<not> is_word_char c) cs)"

definition isTimeoutReason :: "jsval \<Rightarrow> bool" where
  "isTimeoutReason reason = timeout_from True (js_lower (js_string (js_or reason (JStr []))))"

definition INTERNAL_FAILURE_CANCEL_REASONS :: "string list" where
  "INTERNAL_FAILURE_CANCEL_REASONS = [''timeout'', ''stall'', ''queue_ttl'', ''policy_block'', ''host_failover'',
     ''factory_verify_unrecoverable'', ''worktree_reclaim'', ''workflow_cascade'', ''fallback_retry_exhausted'',
     ''task_not_found'']"

definition shouldKeepCancelledState :: "string \<Rightarrow> bool" where
  "shouldKeepCancelledState cancelReason = (cancelReason \<notin> set INTERNAL_FAILURE_CANCEL_REASONS)"

record cancel_options =
  opt_reason :: "string option"
  opt_terminal :: "string option"
  opt_force :: bool
  opt_abandon :: bool

definition resolveCancellationTerminalState :: "string \<Rightarrow> string \<Rightarrow> cancel_options \<Rightarrow> string" where
  "resolveCancellationTerminalState cancelReason reason options =
     (if opt_terminal options = Some ''cancelled'' then ''cancelled''
      else if opt_terminal options = Some ''failed'' then ''failed''
      else if opt_terminal options = Some ''skipped'' then ''skipped''
      else if isTimeoutReason (JStr reason) then ''failed''
      else if shouldKeepCancelledState cancelReason then ''cancelled'' else ''failed'')"

definition cancel_reason_of :: "string \<Rightarrow> cancel_options \<Rightarrow> string" where
  "cancel_reason_of reason options =
     (case truthy_text (opt_reason options) of
        Some r \<Rightarrow> r
      | None \<Rightarrow> if opt_abandon options then ''abandon'' else if opt_force options then ''force''
                else if isTimeoutReason (JStr reason) then ''timeout'' else ''user'')"

definition combineErrorForCancel :: "jsval \<Rightarrow> string \<Rightarrow> string option \<Rightarrow> string \<Rightarrow> string" where
  "combineErrorForCancel priorErrorOutput reason extraNote terminalStatus =
     (let prior = str_of priorErrorOutput;
          suffix = (case extraNote of None \<Rightarrow> reason | Some note \<Rightarrow> reason @ newline @ note) in
      if prior = [] then suffix else prior @ newline @ ''['' @ terminalStatus @ ''] '' @ suffix)"

section \<open>Cancelling\<close>

definition CANCELLABLE :: "string list" where
  "CANCELLABLE = [''queued'', ''blocked'', ''pending'', ''pending_approval'', ''retry_scheduled'']"

definition LOST_PROCESS :: string where
  "LOST_PROCESS = ''Note: Process was not found in memory (likely exited without cleanup)''"

text \<open>The row is closed and the workflow is told.\<close>

definition close_task ::
  "rt_env \<Rightarrow> (string \<Rightarrow> tdb \<Rightarrow> unit run) \<Rightarrow> string \<Rightarrow> string \<Rightarrow> jsobj \<Rightarrow> tdb \<Rightarrow> unit run" where
  "close_task env terminate fullId terminalStatus patch d =
     then_run (lift_run (updateTaskStatus (rt_now env) fullId terminalStatus patch d)) (\<lambda>_ d1. terminate fullId d1)"

definition then_queue :: "rt_env \<Rightarrow> unit run \<Rightarrow> bool run" where
  "then_queue env m = then_run m (\<lambda>_ d. (Inr True, process_queue env d))"

definition kill_process ::
  "rt_env \<Rightarrow> (string \<Rightarrow> tdb \<Rightarrow> unit run) \<Rightarrow> string \<Rightarrow> string \<Rightarrow> jsobj \<Rightarrow> tdb \<Rightarrow> bool run" where
  "kill_process env terminate fullId terminalStatus patch d =
     then_queue env (terminate fullId (snd (updateTaskStatus (rt_now env) fullId terminalStatus patch d)))"

definition cancelTask ::
  "rt_env \<Rightarrow> (string \<Rightarrow> tdb \<Rightarrow> unit run) \<Rightarrow> string \<Rightarrow> string \<Rightarrow> cancel_options \<Rightarrow> tdb \<Rightarrow> bool run" where
  "cancelTask env terminate taskId reason options d =
     (let cancelReason = cancel_reason_of reason options;
          terminalStatus = resolveCancellationTerminalState cancelReason reason options;
          closing = (\<lambda>prior note. [(''error_output'', JStr (combineErrorForCancel prior reason note terminalStatus)),
            (''cancel_reason'', JStr cancelReason)]) in
      read_run (resolveTaskId taskId d) d (\<lambda>resolved. case resolved of
        None \<Rightarrow> (Inl (Thrown (Other_error (''No task found matching ID prefix: '' @ taskId))), d)
      | Some fullId \<Rightarrow>
          (case running_process env fullId d of
             Some proc \<Rightarrow> kill_process env terminate fullId terminalStatus
               ((''output'', JStr (sanitizeTaskOutput (live_output proc))) # closing (JStr (live_error proc)) None) d
           | None \<Rightarrow> read_run (getTask fullId d) d (\<lambda>task.
               let status = task_col task ''status''; prior = task_col task ''error_output'' in
               if task = None then (Inr False, d)
               else if status \<in> JStr ` set CANCELLABLE then
                 then_run (close_task env terminate fullId terminalStatus (closing prior None) d) (\<lambda>_ d1. (Inr True, d1))
               else if status = JStr ''running'' then
                 then_queue env (close_task env terminate fullId terminalStatus (closing prior (Some LOST_PROCESS)) d)
               else (Inr False, d)))))"

definition workflow_cascade :: cancel_options where
  "workflow_cascade = \<lparr>opt_reason = Some ''workflow_cascade'', opt_terminal = None, opt_force = False, opt_abandon = False\<rparr>"

primrec runtime_env :: "nat \<Rightarrow> rt_env \<Rightarrow> rt_env" where
  "runtime_env 0 env = env\<lparr>cancel_running := \<lambda>t reason d. (Inl Out_of_fuel, d)\<rparr>"
| "runtime_env (Suc k) env = env\<lparr>cancel_running := \<lambda>t reason d.
     cancelTask env (handleWorkflowTermination k (runtime_env k env)) t reason workflow_cascade d\<rparr>"

end
