(* ===== verification/Runtime_Laws.thy ===== *)
theory Runtime_Laws
  imports Task_Cancellation Workflow_Claims Task_Store_Laws
begin

text \<open>
  Frame laws of the workflow runtime. \<open>frame\<close> is a reflexive and transitive relation between the
  states before and after an operation; \<open>runtime_frame\<close> asks that it contain the writes the runtime
  makes, and then it contains every run of the runtime, whatever the fuel and however it ends. The
  interpretations: finished tasks keep their status, no task is created or deleted and no graph
  becomes cyclic. \<open>only_context\<close> is the finer frame of the snapshot refresh.
\<close>

section \<open>Frames of runs\<close>

locale frame =
  fixes R :: "tdb \<Rightarrow> tdb \<Rightarrow> bool"
  assumes frame_refl: "R d d" and frame_trans: "R d1 d2 \<Longrightarrow> R d2 d3 \<Longrightarrow> R d1 d3"
begin

lemma then_frame: "R d (snd m) \<Longrightarrow> (\<And>x d1. m = (Inr x, d1) \<Longrightarrow> R d1 (snd (f x d1))) \<Longrightarrow> R d (snd (then_run m f))"
  by (cases "(m, f)" rule: then_run.cases) (auto intro: frame_trans)

lemma read_frame: "(\<And>x. r = Inr x \<Longrightarrow> R d (snd (f x))) \<Longrightarrow> R d (snd (read_run r d f))"
  by (cases r) (auto simp: read_run_def intro: frame_refl)

lemma loop_frame: "(\<And>x s d. x \<in> set xs \<Longrightarrow> R d (snd (f x s d))) \<Longrightarrow> R d (snd (loop_run f xs s d))"
proof (induction xs arbitrary: s d)
  case Nil
  then show ?case by (simp add: frame_refl)
next
  case (Cons x xs)
  have "R d (snd (f x s d))" using Cons.prems by simp
  moreover have "R d1 (snd (loop_run f xs s1 d1))" for s1 d1 by (rule Cons.IH) (use Cons.prems in auto)
  ultimately show ?case by (simp add: then_frame)
qed

lemma catch_frame: "R d (snd m) \<Longrightarrow> R d (snd (catch_run m x))"
  by (cases "(m, x)" rule: catch_run.cases) auto

lemma lift_frame: "R d (snd m) \<Longrightarrow> R d (snd (lift_run m))"
  by (cases m rule: lift_run.cases) auto

end

section \<open>Reading a task by its full id\<close>

lemma col_parse_task_row [simp]:
  "c \<notin> {''auto_approve'', ''files_modified'', ''tags'', ''metadata''} \<Longrightarrow> col (parse_task_row r) c = col r c"
  by (simp add: parse_task_row_def)

lemma getTask_row:
  assumes "getTask t d = Inr (Some r')" and "row_of d t = Some r"
  shows "r' = parse_task_row r"
proof -
  have r: "r \<in> set (tasks d)" "has_id t r" using lookup_row_Some assms(2) by (auto simp: row_of_def has_id_def)
  show ?thesis
  proof (cases "length t < 36")
    case False
    with assms show ?thesis by (auto simp: getTask_def row_of_def split: if_splits)
  next
    case True
    have m: "r \<in> set (filter (\<lambda>r. starts_with (js_lower t) (js_lower (str_of (col r ''id'')))) (tasks d))"
      using r by (simp add: has_id_def str_of_def starts_with_def)
    from assms(1) True obtain i where "resolveTaskId t d = Inr (Some i)" and
      i: "map_option parse_task_row (lookup_row i (tasks d)) = Some r'"
      by (auto simp: getTask_def split: if_splits sum.splits option.splits)
    with True obtain x where x: "filter (\<lambda>r. starts_with (js_lower t) (js_lower (str_of (col r ''id'')))) (tasks d) = [x]"
      "i = str_of (col x ''id'')"
      by (auto simp: resolveTaskId_def split: if_splits list.splits)
    with m have "x = r" by simp
    with x r(2) have "i = t" by (simp add: has_id_def str_of_def)
    with i assms(2) show ?thesis by (auto simp: row_of_def)
  qed
qed

lemma held_row: "getTask t d = Inr (Some r') \<Longrightarrow> row_of d t = Some r \<Longrightarrow> is_held r = is_held r'"
  using getTask_row [of t d r' r] by (auto simp: is_held_def)

section \<open>The frame of the runtime\<close>

definition plain_patch :: "jsobj \<Rightarrow> bool" where
  "plain_patch p \<longleftrightarrow> \<not> obj_has p ''id'' \<and> \<not> obj_has p ''status''"

lemma plain_patches [simp]:
  "plain_patch []" "plain_patch [(''error_output'', v)]" "plain_patch (obj_set ''context'' v p) = plain_patch p"
  by (auto simp: plain_patch_def obj_has_def obj_set_def update_conv')

definition may_write :: "string \<Rightarrow> string \<Rightarrow> tdb \<Rightarrow> bool" where
  "may_write t s d \<longleftrightarrow> (reopens s \<longrightarrow> (\<forall>r. row_of d t = Some r \<longrightarrow> is_held r))"

lemma may_write_closed [simp]: "may_write t ''failed'' d" "may_write t ''skipped'' d" "may_write t ''blocked'' d"
  by (simp_all add: may_write_def reopens_def)

locale runtime_frame = frame +
  assumes status_write: "plain_patch p \<Longrightarrow> may_write t s d \<Longrightarrow> R d (snd (updateTaskStatus now t s p d))"
    and patch_write: "plain_patch p \<Longrightarrow> R d (snd (updateTask t (JObj p) d))"
    and describe: "R d (write_cols t [(''task_description'', v)] d)"
    and skip_write: "R d (skipTaskBecauseAllConditionsFailed now t d)"
    and review_write: "R d (snd (injectReviewDependency now w node review d))"
    and elsewhere: "tasks d' = tasks d \<Longrightarrow> deps d' = deps d \<Longrightarrow> R d d'"
begin

lemma persist_frame:
  assumes "plain_patch extra" and "\<And>s. status = Some s \<Longrightarrow> may_write t s d"
  shows "R d (snd (persistTaskBlockerSnapshot env t snapshot status extra d))"
  unfolding persistTaskBlockerSnapshot_def
  by (rule read_frame)
    (use assms in \<open>auto simp: Let_def frame_refl split: option.split intro!: lift_frame status_write patch_write\<close>)

lemma clear_frame: "plain_patch extra \<Longrightarrow> may_write t s d \<Longrightarrow> R d (snd (clearTaskBlockerSnapshot env t s extra d))"
  unfolding clearTaskBlockerSnapshot_def by (rule persist_frame) auto

lemma unit_frame: "R d (snd m) \<Longrightarrow> R d (snd (then_run m (\<lambda>_ d1. (Inr x, d1))))"
  by (rule then_frame) (auto intro: frame_refl)

lemma snapshot_frame: "R d (snd (persist_snapshot_of env t w d))"
  unfolding persist_snapshot_of_def by (intro read_frame unit_frame persist_frame) auto

lemma refresh_frame: "R d (snd (refreshWorkflowBlockerSnapshots env w workflow d))"
  by (auto simp: refreshWorkflowBlockerSnapshots_def refresh_one_def frame_refl
      intro!: loop_frame read_frame unit_frame persist_frame)

lemma emit_frame: "R d (emit_event ev d)"
  by (rule elsewhere) (simp_all add: emit_event_def)

lemma unblock_frame: "R d (snd (unblockTask env t d))"
  unfolding unblockTask_def
proof (rule read_frame)
  fix found
  assume g: "getTask t d = Inr found"
  show "R d (snd (case found of None \<Rightarrow> (Inr False, d)
      | Some task \<Rightarrow>
          if \<not> is_held task then (Inr False, d)
          else catch_run (then_run (clearTaskBlockerSnapshot env t ''queued'' [] d) (\<lambda>_ d1.
            (Inr True, emit_event Queue_changed
               (emit_event (Workflow_event (str_of (col task ''workflow_id'')) ''WORKFLOW_DEPENDENCY_UNBLOCKED'') d1)))) False))"
  proof (cases "\<exists>task. found = Some task \<and> is_held task")
    case True
    then have "may_write t ''queued'' d"
      using g by (auto simp: may_write_def dest: held_row)
    with True show ?thesis
      by (auto intro!: catch_frame then_frame clear_frame frame_trans [OF emit_frame emit_frame])
  qed (auto simp: frame_refl split: option.split)
qed

lemma injection_frame: "R d (snd (applyOutputInjection t w d))"
  by (auto simp: applyOutputInjection_def Let_def frame_refl describe split: sum.split option.split)

lemma inject_unblock_frame: "R d (snd (inject_and_unblock env t w d))"
  unfolding inject_and_unblock_def by (intro then_frame lift_frame injection_frame unit_frame unblock_frame)

lemma unblockable_frame: "R d (snd (isTaskUnblockable regex now t d))"
  by (auto simp: isTaskUnblockable_def Let_def frame_refl skip_write split: option.split)

lemma review_frame: "R d (snd (inject_review env task w d))"
  by (auto simp: inject_review_def Let_def frame_refl intro!: unit_frame lift_frame review_write)

lemma cascade_frame:
  assumes "\<And>t r d. R d (snd (cancel_running env t r d))"
  shows "R d (snd (cancelDependentTasks n env reason t visited d))"
proof (induction n arbitrary: t visited d)
  case (Suc n)
  have "R d (snd (cascade_to env (cancelDependentTasks n env reason) reason dep visited d))" for dep visited d
    using assms Suc.IH
    by (auto simp: cascade_to_def Let_def frame_refl split: option.split
        intro!: read_frame then_frame catch_frame clear_frame)
  then show ?case by (simp add: frame_refl loop_frame)
qed (simp add: frame_refl)

lemma failure_frame:
  assumes cancel: "\<And>t r d. R d (snd (cancel_running env t r d))" and rec: "\<And>t d. R d (snd (rec t d))"
  shows "R d (snd (applyFailureAction n env rec t action alternate w d))"
proof -
  have cleared: "R d (snd (then_run (clearTaskBlockerSnapshot env t s [(''error_output'', v)] d) f))"
    if "s = ''failed'' \<or> s = ''skipped''" "\<And>x d1. R d1 (snd (f x d1))" for s v and f :: "db_row option \<Rightarrow> tdb \<Rightarrow> unit run"
    by (rule then_frame [OF clear_frame]) (use that in auto)
  have alternate: "R d1 (snd (case truthy_text alternate of None \<Rightarrow> (Inr False, d1) | Some a \<Rightarrow> unblockTask env a d1))" for d1
    by (simp add: frame_refl unblock_frame split: option.split)
  have continued: "R d (snd (read_run (all_satisfied env t d) d (\<lambda>ok.
          if ok then inject_and_unblock env t w d else persist_snapshot_of env t w d)))"
    by (rule read_frame) (simp add: inject_unblock_frame snapshot_frame)
  show ?thesis
    unfolding applyFailureAction_def skip_task_def
    by (simp add: continued cleared rec unit_frame cascade_frame [OF cancel] then_frame [OF alternate])
qed

lemma force_frame: "R d (snd (force_unblock env stuck t w d))"
proof -
  have "may_write t (case found of Some r \<Rightarrow> if is_held r then str_of (col r ''status'') else ''blocked'' | None \<Rightarrow> ''blocked'') d"
    if "getTask t d = Inr found" for found
    using that held_row [of t d] by (auto simp: may_write_def reopens_def split: option.splits)
  then show ?thesis
    unfolding force_unblock_def Let_def
    by (intro read_frame then_frame lift_frame status_write inject_unblock_frame) auto
qed

lemma dependent_frame:
  assumes "\<And>t r d. R d (snd (cancel_running env t r d))" and "\<And>t d. R d (snd (rec t d))"
  shows "R d (snd (evaluate_dependent n env rec w task dep u d))"
proof -
  have "R d (snd (advance_dependent env task t w d))" for t
  proof -
    obtain b d1 where u: "isTaskUnblockable (rt_regex env) (rt_now env) t d = (b, d1)" by fastforce
    then have "R d d1" using unblockable_frame [of d "rt_regex env" "rt_now env" t] by simp
    moreover have "R d1 (snd (read_run r d1 (\<lambda>hold. if hold then persist_snapshot_of env t w d1
        else inject_and_unblock env t w d1)))" for r
      by (rule read_frame) (simp add: inject_unblock_frame snapshot_frame)
    ultimately show ?thesis using u by (cases b) (auto simp: advance_dependent_def intro: frame_trans)
  qed
  moreover have "R d (snd (fail_dependent n env rec i e w d))" for i e
    unfolding fail_dependent_def
    by (rule read_frame) (auto split: option.split intro: force_frame failure_frame assms)
  ultimately show ?thesis by (simp add: evaluate_dependent_def)
qed

lemma update_workflow_frame: "R d (snd (updateWorkflow w us d))"
  by (rule elsewhere) simp_all

lemma drop_guard_frame: "R d (drop_guard w d)"
  by (rule elsewhere) (simp_all add: drop_guard_def)

lemma final_event_frame: "R d (final_event w s d)"
  by (simp add: final_event_def emit_frame)

lemma conflicts_frame: "R d (store_conflicts env w s d)"
  by (simp add: store_conflicts_def frame_refl update_workflow_frame split: prod.split)

lemma finish_frame: "R d (finish_workflow env w workflow ts d)"
  unfolding finish_workflow_def Let_def
proof (rule frame_trans [OF frame_trans [OF frame_trans [OF _ final_event_frame] conflicts_frame] drop_guard_frame])
  show "R d (if b then snd (updateWorkflow w us d) else snd (updateWorkflow w vs (emit_event ev d)))" for b us vs ev
    by (simp add: update_workflow_frame frame_trans [OF emit_frame update_workflow_frame])
qed

lemma completion_frame: "R d (snd (checkWorkflowCompletion env w d))"
proof -
  have closed: "R d1 (snd (then_run (refreshWorkflowBlockerSnapshots env w v d3) (\<lambda>_ d4. (Inr (), drop_guard w d4))))"
    if "R d1 d3" for v d1 d3
    by (rule frame_trans [OF that then_frame [OF refresh_frame]]) (simp add: drop_guard_frame)
  have counted: "R d1 (f (snd (updateWorkflow w us d1)))" if "\<And>d. R d (f d)" for f us d1
    by (rule frame_trans [OF update_workflow_frame that])
  have stuck: "R d1 (final_event w ''failed'' (snd (updateWorkflow w vs (snd (updateWorkflow w us d1)))))" for vs us d1
    by (rule counted [of "\<lambda>d. final_event w ''failed'' (snd (updateWorkflow w vs d))"])
      (rule counted [of "final_event w ''failed''", OF final_event_frame])
  show ?thesis
    unfolding checkWorkflowCompletion_def
    by (auto simp: Let_def frame_refl update_workflow_frame closed [OF stuck] counted [of "finish_workflow env w _ _", OF finish_frame]
        split: option.split intro!: then_frame [OF refresh_frame])
qed

lemma release_frame:
  assumes "\<And>t d. R d (snd (rec t d))"
  shows "R d (snd (releaseFanoutParentsForCompletedBranch rec task w d))"
  using assms by (auto simp: releaseFanoutParentsForCompletedBranch_def release_parent_def frame_refl
      intro!: loop_frame read_frame)

lemma evaluate_frame:
  assumes cancel: "\<And>t r d. R d (snd (cancel_running env t r d))"
  shows "R d (snd (evaluateWorkflowDependencies n env w t d))"
proof (induction n arbitrary: t d)
  case (Suc n)
  have dependents: "R d1 (snd (loop_run (evaluate_dependent n env (evaluateWorkflowDependencies n env w) w task) es () d1))"
    for task es d1 by (intro loop_frame dependent_frame) (use cancel Suc.IH in auto)
  have closing: "R d3 (snd (then_run (refreshWorkflowBlockerSnapshots env w v d3) (\<lambda>_ d4. checkWorkflowCompletion env w d4)))"
    for v d3 by (intro then_frame refresh_frame completion_frame)
  have released: "R d2 (snd (if b then releaseFanoutParentsForCompletedBranch (evaluateWorkflowDependencies n env w) task w d2
      else (Inr (), d2)))" for b task d2
    using release_frame [OF Suc.IH] by (simp add: frame_refl)
  have paused: "R d (snd (then_run (refreshWorkflowBlockerSnapshots env w v d) (\<lambda>_ d1. (Inr (), d1))))" for v
    by (intro unit_frame refresh_frame)
  show ?case
    by (auto simp: frame_refl paused split: option.split
        intro!: read_frame then_frame [OF review_frame] then_frame [OF dependents] then_frame [OF released] closing)
qed (simp add: frame_refl)

lemma drain_frame:
  assumes "\<And>t r d. R d (snd (cancel_running env t r d))"
  shows "R d (snd (drain_pending n env w d))"
proof (induction n arbitrary: d)
  case (Suc n)
  have "R d (snd (evaluateWorkflowDependencies n env w t (d\<lparr>terminalPending := ps\<rparr>)))" for t ps
    by (rule frame_trans [OF elsewhere evaluate_frame [OF assms]]) simp_all
  with Suc.IH show ?case
    by (auto simp: frame_refl split: option.split list.split intro!: then_frame)
qed (simp add: frame_refl)

lemma termination_frame:
  assumes "\<And>t r d. R d (snd (cancel_running env t r d))"
  shows "R d (snd (handleWorkflowTermination n env t d))"
proof -
  have run: "R d (snd (then_run (evaluateWorkflowDependencies n env w t (d\<lparr>terminalGuards := g\<rparr>))
      (\<lambda>_ d1. drain_pending n env w d1)))" for w g
    by (rule frame_trans [OF elsewhere then_frame [OF evaluate_frame [OF assms] drain_frame [OF assms]]]) simp_all
  have guarded: "R d (snd (case then_run (evaluateWorkflowDependencies n env w t (d\<lparr>terminalGuards := g\<rparr>))
      (\<lambda>_ d1. drain_pending n env w d1) of (result, d1) \<Rightarrow> (result, drop_guard w d1)))" for w g
    using run [of w g] drop_guard_frame by (auto split: prod.split intro: frame_trans)
  have pending: "R d (add_pending w t d)" for w by (rule elsewhere) (simp_all add: add_pending_def Let_def)
  show ?thesis
    unfolding handleWorkflowTermination_def Let_def
    by (auto simp: frame_refl pending guarded split: option.split intro!: catch_frame read_frame unit_frame refresh_frame)
qed

end

section \<open>The frame of a cancellation\<close>

lemma terminal_state_cases: "resolveCancellationTerminalState c r options \<in> {''cancelled'', ''failed'', ''skipped''}"
  by (simp add: resolveCancellationTerminalState_def)

lemma terminal_state_closes: "may_write t (resolveCancellationTerminalState c r options) d"
  using terminal_state_cases [of c r options] by (auto simp: may_write_def reopens_def)

lemma closing_patches [simp]:
  "plain_patch [(''error_output'', v), (''cancel_reason'', u)]"
  "plain_patch [(''output'', x), (''error_output'', v), (''cancel_reason'', u)]"
  by (simp_all add: plain_patch_def obj_has_def)

context runtime_frame
begin

lemma cancel_frame:
  assumes "\<And>t d. R d (snd (terminate t d))" and "\<And>d. R d (process_queue env d)"
  shows "R d (snd (cancelTask env terminate t reason options d))"
proof -
  let ?s = "resolveCancellationTerminalState (cancel_reason_of reason options) reason options"
  have closed: "R d (snd (close_task env terminate i ?s patch d))" if "plain_patch patch" for i patch
    unfolding close_task_def
    by (intro then_frame lift_frame status_write terminal_state_closes that assms(1))
  have queued: "R d (snd (then_queue env m))" if "R d (snd m)" for m
    unfolding then_queue_def by (rule then_frame [OF that]) (simp add: assms(2))
  have killed: "R d (snd (kill_process env terminate i ?s patch d))" if "plain_patch patch" for i patch
    unfolding kill_process_def
    by (rule queued) (rule frame_trans [OF status_write [OF that terminal_state_closes] assms(1)])
  show ?thesis
    unfolding cancelTask_def Let_def
    by (rule read_frame) (auto simp: frame_refl killed closed queued split: option.split intro!: read_frame unit_frame)
qed

text \<open>The nested runtime: only the queue scheduler is left to keep the frame.\<close>

lemma tied_frame:
  assumes "\<And>d. R d (process_queue env d)"
  shows "R d (snd (cancel_running (runtime_env k env) t reason d))"
proof (induction k arbitrary: t reason d)
  case (Suc k)
  show ?case by (simp add: cancel_frame assms termination_frame [OF Suc.IH])
qed (simp add: frame_refl)

lemma runtime_run_frame:
  assumes "\<And>d. R d (process_queue env d)"
  shows "R d (snd (handleWorkflowTermination n (runtime_env k env) t d))"
  by (rule termination_frame [OF tied_frame]) (rule assms)

end

section \<open>Finished tasks are kept\<close>

definition kept :: "tdb \<Rightarrow> tdb \<Rightarrow> bool" where
  "kept d d' \<longleftrightarrow> row_ids (tasks d') = row_ids (tasks d) \<and> (\<forall>i s. finished i s d \<longrightarrow> finished i s d')"

definition lawful :: "db_row \<Rightarrow> (string \<times> jsval) list \<Rightarrow> bool" where
  "lawful r us \<longleftrightarrow> no_id us \<and> (is_terminal (col r ''status'') \<longrightarrow> status_writes (col r ''status'') us)"

lemma finished_row:
  "finished i s d \<longleftrightarrow> s \<in> set TERMINAL_TASK_STATUS_VALUES \<and> (\<exists>r. row_of d i = Some r \<and> col r ''status'' = JStr s)"
  by (auto simp: finished_def status_of_def)

lemma finished_terminal: "finished i s d \<Longrightarrow> row_of d i = Some r \<Longrightarrow> is_terminal (col r ''status'')"
  by (auto simp: finished_row is_terminal_def)

lemma terminal_not_held: "is_terminal (col r ''status'') \<Longrightarrow> \<not> is_held r"
  by (auto simp: is_terminal_def is_held_def TERMINAL_TASK_STATUS_VALUES_def)

lemma lawful_kept:
  assumes "rewritten lawful d d'"
  shows "kept d d'"
proof -
  have "finished i s d'" if f: "finished i s d" for i s
  proof -
    from f obtain r where r: "row_of d i = Some r" "col r ''status'' = JStr s" by (auto simp: finished_row)
    with rewritten_row [OF assms _ r(1)] obtain us where
      us: "row_of d' i = Some (set_cols us r)" "us = [] \<or> lawful r us" by (auto simp: lawful_def)
    have "col (set_cols us r) ''status'' = JStr s"
      using us(2) finished_terminal [OF f r(1)] r(2) status_writes_col [of r us] by (auto simp: lawful_def)
    with f us(1) show ?thesis by (simp add: finished_row)
  qed
  moreover have "rewritten (\<lambda>r us. no_id us) d d'" by (rule rewritten_mono [OF assms]) (simp add: lawful_def)
  ultimately show ?thesis by (simp add: kept_def rewritten_ids)
qed

lemma kept_same: "tasks d' = tasks d \<Longrightarrow> kept d d'"
  by (simp add: kept_def finished_def status_of_def row_of_def)

lemma kept_trans: "kept d1 d2 \<Longrightarrow> kept d2 d3 \<Longrightarrow> kept d1 d3"
  by (simp add: kept_def)

lemma write_cols_kept: "no_id us \<Longrightarrow> ''status'' \<notin> fst ` set us \<Longrightarrow> kept d (write_cols t us d)"
  by (rule lawful_kept [OF update_row_rewritten [of _ t "\<lambda>_. us"]]) (force simp: lawful_def status_writes_def)+

lemma status_kept:
  assumes "plain_patch p" and "may_write t s d"
  shows "kept d (snd (updateTaskStatus now t s p d))" (is "kept d ?d")
proof -
  let ?Q = "\<lambda>r us. has_id t r \<and> (is_terminal (col r ''status'') \<longrightarrow> reopens s) \<and> no_id us"
  have Q: "rewritten ?Q d ?d"
    by (rule rewritten_mono [OF updateTaskStatus_rewritten [where p = p]]) (use assms(1) in \<open>auto simp: plain_patch_def\<close>)
  have "finished i v ?d" if f: "finished i v d" for i v
  proof -
    from f obtain r where r: "row_of d i = Some r" "col r ''status'' = JStr v" by (auto simp: finished_row)
    note t = finished_terminal [OF f r(1)]
    from rewritten_row [OF Q _ r(1)] obtain us where
      us: "row_of ?d i = Some (set_cols us r)" "us = [] \<or> ?Q r us" by auto
    have "\<not> ?Q r us"
    proof
      assume q: "?Q r us"
      with r(1) have "i = t" using lookup_row_Some by (fastforce simp: row_of_def has_id_def)
      with q t r(1) assms(2) terminal_not_held show False by (auto simp: may_write_def)
    qed
    with us r f show ?thesis by (auto simp: finished_row)
  qed
  moreover have "rewritten (\<lambda>r us. no_id us) d ?d" by (rule rewritten_mono [OF Q]) simp
  ultimately show ?thesis by (simp add: kept_def rewritten_ids)
qed

lemma patch_kept:
  assumes "plain_patch p"
  shows "kept d (snd (updateTask t (JObj p) d))"
proof -
  from updateTask_tasks [of t "JObj p" d] consider
      "tasks (snd (updateTask t (JObj p) d)) = tasks d"
    | q where "tasks (snd (updateTask t (JObj p) d)) = update_row t (set_cols q) (tasks d)"
        "\<not> obj_has q ''status''" "\<not> obj_has q ''id''"
    using assms by (auto simp: plain_patch_def)
  then show ?thesis
  proof cases
    case 1
    then show ?thesis by (rule kept_same)
  next
    case 2
    then have "lawful r q" for r by (force simp: lawful_def no_id_def status_writes_def obj_has_fst)
    with 2(1) show ?thesis by (intro lawful_kept update_row_rewritten [of _ t "\<lambda>_. q"]) auto
  qed
qed

lemma skip_kept: "kept d (skipTaskBecauseAllConditionsFailed now t d)"
proof -
  let ?g = "\<lambda>r. [(''status'', JStr ''skipped''),
    (''error_output'', JStr ''Skipped due to dependency condition not met: All dependency conditions evaluated to false''),
    (''completed_at'', js_coalesce (col r ''completed_at'') (iso now))]"
  have "tasks (skipTaskBecauseAllConditionsFailed now t d) =
      map_where (\<lambda>r. has_id t r \<and> \<not> is_terminal (col r ''status'')) (\<lambda>r. set_cols (?g r) r) (tasks d)"
    by (simp add: skipTaskBecauseAllConditionsFailed_def)
  from lawful_kept [OF rewrittenI [OF this]] show ?thesis by (simp add: lawful_def no_id_def)
qed

lemma gate_kept: "gate_downstream now w rt rn ts d = Inr d' \<Longrightarrow> kept d d'"
proof (induction ts arbitrary: d)
  case (Cons t ts)
  from Cons.prems obtain d1 where e: "ensure_dependency now w t rt d = Inr d1"
    and g: "gate_downstream now w rt rn ts (set_task_meta t rn d1) = Inr d'" by (auto split: sum.splits)
  have "kept d1 (set_task_meta t rn d1)"
    by (auto simp: set_task_meta_def no_id_def kept_same split: option.split intro!: write_cols_kept)
  with Cons.IH [OF g] kept_same [of d1 d] ensure_adds [OF e] show ?case by (metis kept_trans)
qed (simp add: kept_same)

lemma review_kept: "kept d (snd (injectReviewDependency now w cn rt d))"
proof -
  have "kept d d'" if run: "inject_transaction now w cn rt d = Inr (res, d')" for res d'
  proof -
    from run obtain us c ts d2 where e: "ensure_dependency now w rt c (write_cols rt us d) = Inr d2"
      and g: "gate_downstream now w rt (''review-'' @ cn) ts d2 = Inr d'"
      and us: "no_id us" "''status'' \<notin> fst ` set us"
      unfolding inject_transaction_def Let_def
      by (auto simp: no_id_def split: option.splits sum.splits)
    have "kept (write_cols rt us d) d2" using ensure_adds [OF e] by (simp add: kept_same)
    with gate_kept [OF g] write_cols_kept [OF us] show ?thesis by (metis kept_trans)
  qed
  then show ?thesis
    by (auto simp: injectReviewDependency_def kept_same split: sum.split intro: kept_trans)
qed

interpretation kept: runtime_frame kept
proof
  show "kept d (write_cols t [(''task_description'', v)] d)" for d t v by (rule write_cols_kept) (simp_all add: no_id_def)
  show "kept d1 d3" if "kept d1 d2" "kept d2 d3" for d1 d2 d3 using that by (rule kept_trans)
qed (simp_all add: kept_same status_kept patch_kept skip_kept review_kept)

section \<open>Acyclic graphs\<close>

definition acyclic_after :: "tdb \<Rightarrow> tdb \<Rightarrow> bool" where
  "acyclic_after d d' \<longleftrightarrow> (deps_acyclic d \<longrightarrow> deps_acyclic d')"

lemma updateTask_deps [simp]: "deps (snd (updateTask t (JObj p) d)) = deps d"
  by (simp only: updateTask_def Let_def jsval.case if_distrib [of snd] if_distrib [of deps] snd_conv write_cols_frame
      if_cancel split: option.split prod.split) simp

lemma acyclic_same: "deps d' = deps d \<Longrightarrow> acyclic_after d d'"
  using same_deps_acyclic [of d' d] by (simp add: acyclic_after_def)

interpretation graphs: runtime_frame acyclic_after
proof
  show "acyclic_after d1 d3" if "acyclic_after d1 d2" "acyclic_after d2 d3" for d1 d2 d3
    using that by (simp add: acyclic_after_def)
  show "acyclic_after d (snd (injectReviewDependency now w cn rt d))" for d now w cn rt
    by (simp add: acyclic_after_def inject_acyclic)
qed (rule acyclic_same; simp add: skipTaskBecauseAllConditionsFailed_def)+

end
