(* ===== verification/Completion_Laws.thy ===== *)
theory Completion_Laws
  imports Runtime_Laws
begin

text \<open>
  The completion check of a workflow. Refreshing the blocker snapshots changes nothing but the
  context column, and does not throw when the ids are full ones, so the decision can be read off
  the tasks before the check.
\<close>

section \<open>The snapshot refresh\<close>

definition same_row :: "db_row \<Rightarrow> db_row \<Rightarrow> bool" where
  "same_row r r' \<longleftrightarrow> (\<forall>c. c \<noteq> ''context'' \<longrightarrow> col r' c = col r c)"

definition only_context :: "tdb \<Rightarrow> tdb \<Rightarrow> bool" where
  "only_context d d' \<longleftrightarrow> list_all2 same_row (tasks d) (tasks d') \<and> deps d' = deps d \<and> workflows d' = workflows d"

lemma same_row_refl [simp]: "same_row r r"
  by (simp add: same_row_def)

lemma same_row_trans: "same_row r1 r2 \<Longrightarrow> same_row r2 r3 \<Longrightarrow> same_row r1 r3"
  by (simp add: same_row_def)

interpretation snapshots: frame only_context
proof
  show "only_context d d" for d by (simp add: only_context_def list_all2_refl)
  show "only_context d1 d3" if "only_context d1 d2" "only_context d2 d3" for d1 d2 d3
    using that list_all2_trans [of same_row same_row same_row, OF same_row_trans] by (auto simp: only_context_def)
qed

lemma updateTask_context:
  "snd (updateTask t (JObj [(''context'', v)]) d) = (if dbClosed d then d else write_cols t [(''context'', v)] d)"
proof -
  have "''context'' \<in> set ALLOWED_TASK_COLUMNS" by code_simp
  then show ?thesis by (simp add: updateTask_def obj_has_def Let_def)
qed

lemma write_context: "only_context d (write_cols t [(''context'', v)] d)"
proof -
  have "list_all2 same_row rows (update_row t (set_cols [(''context'', v)]) rows)" for rows
    by (induction rows) (auto simp: update_row_def same_row_def)
  then show ?thesis by (simp add: only_context_def)
qed

lemma obj_set_empty [simp]: "obj_set k v [] = [(k, v)]"
  by (simp add: obj_set_def)

definition context_patch :: "db_row \<Rightarrow> jsval \<Rightarrow> jsobj" where
  "context_patch task snapshot = (if getPersistedTaskBlockerSnapshot task \<noteq> snapshot
     then [(''context'', buildWorkflowBlockerContext task snapshot)] else [])"

lemma persist_snapshot:
  "persistTaskBlockerSnapshot env t snapshot None [] d =
     read_run (getTask t d) d (\<lambda>found. case found of None \<Rightarrow> (Inr None, d)
       | Some task \<Rightarrow> if context_patch task snapshot = [] then (Inr (Some task), d)
           else lift_run (updateTask t (JObj (context_patch task snapshot)) d))"
  by (simp add: persistTaskBlockerSnapshot_def Let_def context_patch_def cong: option.case_cong if_cong)

lemma persist_only_context: "only_context d (snd (persistTaskBlockerSnapshot env t snapshot None [] d))"
  unfolding persist_snapshot
  by (rule snapshots.read_frame)
    (auto simp: context_patch_def updateTask_context write_context snapshots.frame_refl split: option.split
      intro!: snapshots.lift_frame)

lemma refresh_only_context: "only_context d (snd (refreshWorkflowBlockerSnapshots env w workflow d))"
proof -
  have "only_context d (snd (refresh_one env w v task n d))" for v task n d
    unfolding refresh_one_def
    by (rule snapshots.read_frame)
      (auto simp: snapshots.frame_refl intro!: snapshots.then_frame persist_only_context)
  then show ?thesis
    by (simp add: refreshWorkflowBlockerSnapshots_def snapshots.frame_refl snapshots.loop_frame)
qed

section \<open>Full ids\<close>

text \<open>A full id (a UUID has 36 characters) is read directly; a shorter one may be ambiguous.\<close>

definition full_id :: "string \<Rightarrow> bool" where
  "full_id i \<longleftrightarrow> i = [] \<or> 36 \<le> length i"

definition full_ids :: "tdb \<Rightarrow> bool" where
  "full_ids d \<longleftrightarrow> (\<forall>r \<in> set (tasks d). full_id (str_of (col r ''id''))) \<and> (\<forall>e \<in> set (deps d). full_id (dep_on e))"

lemma full_getTask: "full_id t \<Longrightarrow> \<exists>found. getTask t d = Inr found"
  by (auto simp: full_id_def getTask_def)

lemma traverse_returns: "(\<And>x. x \<in> set xs \<Longrightarrow> \<exists>y. f x = Inr y) \<Longrightarrow> \<exists>ys. traverse f xs = Inr ys"
proof (induction xs)
  case (Cons x xs)
  from Cons.IH Cons.prems obtain ys where "traverse f xs = Inr ys" by fastforce
  moreover obtain y where "f x = Inr y" using Cons.prems by fastforce
  ultimately show ?case by simp
qed simp

lemma dependencies_of: "x \<in> set (getTaskDependencies t d) \<Longrightarrow> fst x \<in> set (deps d)"
  by (auto simp: getTaskDependencies_def)

lemma states_return:
  assumes "\<forall>e \<in> set (deps d). full_id (dep_on e)"
  shows "\<exists>ss. getTaskDependencyStates env t d = Inr ss"
  unfolding getTaskDependencyStates_def
proof (rule traverse_returns)
  fix x
  assume "x \<in> set (getTaskDependencies t d)"
  with assms dependencies_of have "full_id (dep_on (fst x))" by blast
  then obtain found where "getTask (dep_on (fst x)) d = Inr found" using full_getTask by blast
  then show "\<exists>y. evaluateTaskDependencyState env x d = Inr y"
    by (simp add: evaluateTaskDependencyState_def)
qed

lemma snapshot_returns:
  assumes "\<forall>e \<in> set (deps d). full_id (dep_on e)"
  shows "\<exists>snapshot. buildTaskBlockerSnapshot env (Some task) w v d = Inr snapshot"
proof -
  obtain ss where "getTaskDependencyStates env (str_of (col task ''id'')) d = Inr ss"
    using states_return [OF assms] by blast
  then show ?thesis by (simp add: buildTaskBlockerSnapshot_def Let_def)
qed

lemma persist_returns:
  assumes "full_id t"
  shows "\<exists>x d'. persistTaskBlockerSnapshot env t snapshot None [] d = (Inr x, d') \<and> only_context d d'"
proof -
  obtain found where f: "getTask t d = Inr found" using full_getTask [OF assms] by blast
  have "\<exists>x. fst (updateTask t (JObj [(''context'', v)]) d) = Inr x" for v
  proof -
    have "''context'' \<in> set ALLOWED_TASK_COLUMNS" by code_simp
    with full_getTask [OF assms, of "write_cols t [(''context'', v)] d"] show ?thesis
      by (auto simp: updateTask_def obj_has_def Let_def)
  qed
  then have "\<exists>x. fst (lift_run (updateTask t (JObj [(''context'', v)]) d)) = Inr x" for v
    by (metis lift_run.simps(2) fst_conv prod.collapse)
  with f have "\<exists>x. fst (persistTaskBlockerSnapshot env t snapshot None [] d) = Inr x"
    by (auto simp: persist_snapshot read_run_def context_patch_def split: option.split)
  with persist_only_context [of d env t snapshot] show ?thesis by (metis prod.collapse)
qed

lemma loop_returns:
  assumes "\<And>x s d'. x \<in> set xs \<Longrightarrow> only_context d d' \<Longrightarrow> \<exists>s' d''. f x s d' = (Inr s', d'') \<and> only_context d' d''"
    and "only_context d d1"
  shows "\<exists>s'. fst (loop_run f xs s d1) = Inr s'"
  using assms
proof (induction xs arbitrary: s d1)
  case (Cons x xs)
  obtain s2 d2 where x: "f x s d1 = (Inr s2, d2)" "only_context d1 d2" using Cons.prems by fastforce
  with Cons.prems(2) have "only_context d d2" by (metis snapshots.frame_trans)
  with Cons.IH [of d2 s2] Cons.prems(1) x(1) show ?case by simp
qed simp

lemma listed_id: "task \<in> set (getWorkflowTasks w d) \<Longrightarrow> full_ids d \<Longrightarrow> full_id (str_of (col task ''id''))"
  by (auto simp: getWorkflowTasks_def by_creation_def full_ids_def parse_listed_def)

lemma refresh_returns:
  assumes "full_ids d"
  shows "\<exists>n. fst (refreshWorkflowBlockerSnapshots env w workflow d) = Inr n"
proof -
  have step: "\<exists>n' d''. refresh_one env w v task n d' = (Inr n', d'') \<and> only_context d' d''"
    if "task \<in> set (getWorkflowTasks w d)" "only_context d d'" for v task n d'
  proof -
    have "\<forall>e \<in> set (deps d'). full_id (dep_on e)" using assms that(2) by (auto simp: full_ids_def only_context_def)
    from snapshot_returns [OF this, of env task w v] obtain snapshot where
      "(if col task ''status'' \<in> {JStr ''blocked'', JStr ''waiting''}
         then buildTaskBlockerSnapshot env (Some task) w v d' else Inr JNull) = Inr snapshot"
      by (cases "col task ''status'' \<in> {JStr ''blocked'', JStr ''waiting''}") auto
    moreover from persist_returns [OF listed_id [OF that(1) assms]] obtain x d'' where
      "persistTaskBlockerSnapshot env (str_of (col task ''id'')) snapshot None [] d' = (Inr x, d'')" "only_context d' d''"
      by blast
    ultimately show ?thesis by (auto simp: refresh_one_def read_run_def snapshots.frame_refl)
  qed
  have "\<exists>n. fst (loop_run (refresh_one env w v) (getWorkflowTasks w d) 0 d) = Inr n" for v
    by (rule loop_returns [where d = d]) (use step snapshots.frame_refl in auto)
  then show ?thesis by (simp add: refreshWorkflowBlockerSnapshots_def)
qed

section \<open>The decision\<close>

lemma col_parse_listed [simp]:
  "c \<notin> {''tags'', ''context'', ''files_modified''} \<Longrightarrow> col (parse_listed t) c = col t c"
  by (simp add: parse_listed_def)

lemma same_listed: "same_row r r' \<Longrightarrow> same_row (parse_listed r) (parse_listed r')"
  by (simp add: same_row_def parse_listed_def)

lemma all2_filter: "list_all2 P xs ys \<Longrightarrow> (\<And>x y. P x y \<Longrightarrow> Q x = Q y) \<Longrightarrow> list_all2 P (filter Q xs) (filter Q ys)"
  by (induction rule: list_all2_induct) auto

lemma all2_insort:
  "list_all2 P xs ys \<Longrightarrow> P x y \<Longrightarrow> (\<And>x y. P x y \<Longrightarrow> k x = k y) \<Longrightarrow> list_all2 P (insort_key k x xs) (insort_key k y ys)"
  by (induction rule: list_all2_induct) auto

lemma all2_sort:
  "list_all2 P xs ys \<Longrightarrow> (\<And>x y. P x y \<Longrightarrow> k x = k y) \<Longrightarrow> list_all2 P (sort_key k xs) (sort_key k ys)"
  by (induction rule: list_all2_induct) (auto simp: all2_insort)

lemma all2_map_eq: "list_all2 P xs ys \<Longrightarrow> (\<And>x y. P x y \<Longrightarrow> f x = f y) \<Longrightarrow> map f xs = map f ys"
  by (induction rule: list_all2_induct) auto

lemma same_tasks:
  assumes "only_context d d'"
  shows "list_all2 same_row (getWorkflowTasks w d) (getWorkflowTasks w d')"
proof -
  have "list_all2 same_row (filter (in_workflow w) (tasks d)) (filter (in_workflow w) (tasks d'))"
    by (rule all2_filter) (use assms in \<open>auto simp: only_context_def same_row_def in_workflow_def\<close>)
  then have "list_all2 same_row (by_creation (filter (in_workflow w) (tasks d))) (by_creation (filter (in_workflow w) (tasks d')))"
    unfolding by_creation_def by (rule all2_sort) (simp add: same_row_def)
  then show ?thesis
    by (simp add: getWorkflowTasks_def list_all2_map1 list_all2_map2 list_all2_mono [OF _ same_listed])
qed

lemma all2_count: "list_all2 P xs ys \<Longrightarrow> (\<And>x y. P x y \<Longrightarrow> Q x = Q y) \<Longrightarrow> count_where Q xs = count_where Q ys"
  by (induction rule: list_all2_induct) auto

lemma same_counts:
  assumes "list_all2 same_row ts ts'"
  shows "with_status s ts' = with_status s ts" "runnable_tasks ts' = runnable_tasks ts"
    "terminal_tasks_of ts' = terminal_tasks_of ts" "length ts' = length ts" "counters ts' = counters ts"
proof -
  show w: "with_status s ts' = with_status s ts" for s
    unfolding with_status_def by (rule all2_count [OF assms, symmetric]) (simp add: same_row_def)
  show "runnable_tasks ts' = runnable_tasks ts"
    unfolding runnable_tasks_def by (rule all2_count [OF assms, symmetric]) (simp add: same_row_def)
  show "length ts' = length ts" by (rule list_all2_lengthD [OF assms, symmetric])
  with w show "terminal_tasks_of ts' = terminal_tasks_of ts" "counters ts' = counters ts"
    by (simp_all add: terminal_tasks_of_def counters_def)
qed

lemma same_violations:
  assumes "list_all2 same_row ts ts'"
  shows "findGoalGateViolations ts' = findGoalGateViolations ts"
  unfolding findGoalGateViolations_def
  by (rule all2_map_eq [OF all2_filter [OF assms], symmetric]) (auto simp: same_row_def)

lemma same_final:
  assumes "list_all2 same_row ts ts'"
  shows "final_status ts' = final_status ts"
proof -
  have "list_all2 same_row (filter (\<lambda>t. \<not> is_superseded t) ts) (filter (\<lambda>t. \<not> is_superseded t) ts')"
    by (rule all2_filter [OF assms]) (simp add: same_row_def is_superseded_def)
  from same_counts(1) [OF this] same_violations [OF this] show ?thesis by (simp add: final_status_def Let_def)
qed

section \<open>Verdicts\<close>

definition ended :: "db_row \<Rightarrow> bool" where
  "ended t \<longleftrightarrow> col t ''status'' \<in> JStr ` set TERMINAL_DEPENDENCY_STATUSES"

lemma terminal_count: "terminal_tasks_of ts = count_where ended ts"
proof -
  have "distinct (map JStr TERMINAL_DEPENDENCY_STATUSES)" by code_simp
  from count_where_values [OF this, of ended ts "\<lambda>t. col t ''status''"]
  have "count_where ended ts = (\<Sum>v \<leftarrow> map JStr TERMINAL_DEPENDENCY_STATUSES. count_where (\<lambda>t. ended t \<and> col t ''status'' = v) ts)
      + count_where (\<lambda>t. ended t \<and> col t ''status'' \<notin> set (map JStr TERMINAL_DEPENDENCY_STATUSES)) ts" .
  moreover have "(\<lambda>t. ended t \<and> col t ''status'' \<notin> set (map JStr TERMINAL_DEPENDENCY_STATUSES)) = (\<lambda>t. False)"
    by (auto simp: ended_def)
  moreover have "(\<lambda>t. ended t \<and> col t ''status'' = JStr s) = (\<lambda>t. col t ''status'' = JStr s)"
    if "s \<in> set TERMINAL_DEPENDENCY_STATUSES" for s using that by (auto simp: ended_def)
  ultimately show ?thesis
    by (simp add: terminal_tasks_of_def with_status_def TERMINAL_DEPENDENCY_STATUSES_def count_where_def)
qed

lemma all_ended: "length ts \<le> terminal_tasks_of ts \<longleftrightarrow> (\<forall>t \<in> set ts. ended t)"
  using count_where_le [of ended ts] count_where_all [of ended ts] by (auto simp: terminal_count)

lemma none_runnable: "runnable_tasks ts = 0 \<longleftrightarrow>
    (\<forall>t \<in> set ts. col t ''status'' \<notin> JStr ` set [''running'', ''queued'', ''pending'', ''pending_provider_switch''])"
  by (simp add: runnable_tasks_def count_where_zero)

lemma final_completed:
  assumes "\<forall>t \<in> set ts. ended t"
  shows "final_status ts = ''completed'' \<longleftrightarrow>
    (\<forall>t \<in> set ts. col t ''status'' \<in> JStr ` {''completed'', ''skipped''} \<or> is_superseded t)"
proof -
  have "with_status s ts' = 0 \<longleftrightarrow> (\<forall>t \<in> set ts'. col t ''status'' \<noteq> JStr s)" for s ts'
    by (simp add: with_status_def count_where_zero)
  then have "final_status ts = ''completed'' \<longleftrightarrow>
      (\<forall>t \<in> set ts. is_superseded t \<or> col t ''status'' \<notin> JStr ` {''failed'', ''cancelled''})"
    by (auto simp: final_status_def Let_def)
  also have "\<dots> \<longleftrightarrow> (\<forall>t \<in> set ts. col t ''status'' \<in> JStr ` {''completed'', ''skipped''} \<or> is_superseded t)"
    using assms by (fastforce simp: ended_def TERMINAL_DEPENDENCY_STATUSES_def)
  finally show ?thesis .
qed

text \<open>A task marked as a goal gate that did not reach its goal.\<close>

definition missed_gate :: "db_row \<Rightarrow> bool" where
  "missed_gate t = (obj_get (normalizeMetadata (col t ''metadata'')) ''goal_gate'' = JBool True \<and>
     col t ''status'' \<notin> {JStr ''completed'', JStr ''skipped''} \<and> \<not> is_superseded t)"

lemma final_status_cases:
  assumes "\<forall>t \<in> set ts. ended t"
  shows "final_status ts =
    (if \<forall>t \<in> set ts. col t ''status'' \<in> JStr ` {''completed'', ''skipped''} \<or> is_superseded t then ''completed''
     else if (\<exists>t \<in> set ts. missed_gate t) \<or> (\<forall>t \<in> set ts. col t ''status'' \<noteq> JStr ''completed'') then ''failed''
     else ''completed_with_errors'')"
proof -
  let ?effective = "filter (\<lambda>t. \<not> is_superseded t) ts"
  have gates: "findGoalGateViolations ?effective \<noteq> [] \<longleftrightarrow> (\<exists>t \<in> set ts. missed_gate t)"
    by (auto simp: findGoalGateViolations_def missed_gate_def filter_empty_conv)
  have goals: "0 < with_status ''completed'' ?effective \<longleftrightarrow> (\<exists>t \<in> set ts. col t ''status'' = JStr ''completed'')"
    using count_where_zero [of "\<lambda>t. col t ''status'' = JStr ''completed''" ?effective]
    by (auto simp: with_status_def is_superseded_def)
  have "final_status ts = (if final_status ts = ''completed'' then ''completed''
      else if \<exists>t \<in> set ts. missed_gate t then ''failed''
      else if \<exists>t \<in> set ts. col t ''status'' = JStr ''completed'' then ''completed_with_errors'' else ''failed'')"
    unfolding gates [symmetric] goals [symmetric] by (simp add: final_status_def Let_def)
  then show ?thesis unfolding final_completed [OF assms] by (auto split: if_splits)
qed

section \<open>The workflow row after the check\<close>

definition wf_col :: "string \<Rightarrow> string \<Rightarrow> tdb \<Rightarrow> jsval option" where
  "wf_col w c d = map_option (\<lambda>r. col r c) (lookup_row w (workflows d))"

lemma wf_col_update [simp]:
  "wf_col w c (snd (updateWorkflow w us d)) =
     (if c \<in> set UPDATABLE_WORKFLOW_COLUMNS \<and> obj_get us c \<noteq> JUndef
      then map_option (\<lambda>_. obj_get us c) (wf_col w c d) else wf_col w c d)"
  by (cases "lookup_row w (workflows d)") (simp_all add: wf_col_def lookup_updateWorkflow)

lemma wf_col_frames [simp]:
  "wf_col w c (emit_event ev d) = wf_col w c d" "wf_col w c (drop_guard v d) = wf_col w c d"
  "wf_col w c (final_event v s d) = wf_col w c d"
  by (simp_all add: wf_col_def drop_guard_def final_event_def)

lemma wf_col_conflicts [simp]: "c \<noteq> ''context'' \<Longrightarrow> wf_col w c (store_conflicts env w s d) = wf_col w c d"
  by (simp add: store_conflicts_def obj_get_def split: prod.split)

lemma wf_col_only_context: "only_context d d' \<Longrightarrow> wf_col w c d' = wf_col w c d"
  by (simp add: only_context_def wf_col_def)

lemma wf_col_finish:
  assumes "wf_col w ''status'' d = Some v"
  shows "wf_col w ''status'' (finish_workflow env w workflow ts d) = Some (JStr (final_status ts))"
    "c \<notin> {''status'', ''completed_at'', ''context''} \<Longrightarrow> wf_col w c (finish_workflow env w workflow ts d) = wf_col w c d"
  using assms by (auto simp: finish_workflow_def Let_def obj_get_def)

lemma full_ids_only_context:
  assumes "only_context d d'" and "full_ids d"
  shows "full_ids d'"
proof -
  have "\<forall>r' \<in> set ys. full_id (str_of (col r' ''id''))"
    if "list_all2 same_row xs ys" "\<forall>r \<in> set xs. full_id (str_of (col r ''id''))" for xs ys
    using that by (induction rule: list_all2_induct) (auto simp: same_row_def)
  with assms show ?thesis by (auto simp: only_context_def full_ids_def)
qed

lemma full_ids_same: "full_ids d \<Longrightarrow> tasks d' = tasks d \<Longrightarrow> deps d' = deps d \<Longrightarrow> full_ids d'"
  by (simp add: full_ids_def)

lemma closing_tasks:
  "tasks (drop_guard w d) = tasks d" "tasks (final_event w s d) = tasks d" "tasks (store_conflicts env w s d) = tasks d"
  by (simp_all add: drop_guard_def final_event_def store_conflicts_def split: prod.split)

lemma finish_tasks [simp]: "tasks (finish_workflow env w workflow ts d) = tasks d"
  by (simp only: finish_workflow_def Let_def closing_tasks if_distrib [of tasks] updateWorkflow_tasks
      emit_event_frame if_cancel)

lemma counters_get:
  "obj_get (counters ts) ''total_tasks'' = js_nat (length ts)"
  "obj_get (counters ts) ''completed_tasks'' = js_nat (with_status ''completed'' ts)"
  "obj_get (counters ts) ''failed_tasks'' = js_nat (with_status ''failed'' ts)"
  "obj_get (counters ts) ''skipped_tasks'' = js_nat (with_status ''skipped'' ts)"
  "obj_get (counters ts) ''status'' = JUndef"
  by (simp_all add: counters_def obj_get_def)

definition verdict :: "db_row list \<Rightarrow> jsval \<Rightarrow> jsval" where
  "verdict ts open_status =
     (if \<forall>t \<in> set ts. ended t then JStr (final_status ts)
      else if \<forall>t \<in> set ts. col t ''status'' \<notin> JStr ` set [''running'', ''queued'', ''pending'', ''pending_provider_switch'']
      then JStr ''failed'' else open_status)"

lemma verdict_counts:
  "verdict ts v = (if length ts \<le> terminal_tasks_of ts then JStr (final_status ts)
     else if runnable_tasks ts = 0 then JStr ''failed'' else v)"
  by (simp only: verdict_def all_ended none_runnable)

definition COUNTED :: "string list" where
  "COUNTED = [''total_tasks'', ''completed_tasks'', ''failed_tasks'', ''skipped_tasks'']"

lemma check_result:
  assumes "full_ids d" and "getWorkflow w d = Some workflow"
    and "col workflow ''status'' \<notin> JStr ` set [''completed'', ''completed_with_errors'', ''failed'', ''cancelled'']"
  shows "\<exists>d'. checkWorkflowCompletion env w d = (Inr (), d') \<and>
    list_all2 same_row (tasks d) (tasks d') \<and>
    wf_col w ''status'' d' = Some (verdict (getWorkflowTasks w d) (col workflow ''status'')) \<and>
    (\<forall>c \<in> set COUNTED. wf_col w c d' = Some (obj_get (counters (getWorkflowTasks w d)) c))"
proof -
  let ?ts = "getWorkflowTasks w d"
  obtain n d1 where r1: "refreshWorkflowBlockerSnapshots env w (Some workflow) d = (Inr n, d1)" and c1: "only_context d d1"
    using refresh_returns [OF assms(1)] refresh_only_context by (metis prod.collapse)
  let ?ts1 = "getWorkflowTasks w d1" let ?d2 = "snd (updateWorkflow w (counters ?ts1) d1)"
  note s = same_counts [OF same_tasks [OF c1, of w]] same_final [OF same_tasks [OF c1, of w]]
  obtain r where r: "lookup_row w (workflows d) = Some r" "col workflow ''status'' = col r ''status''"
    using assms(2) by (auto simp: getWorkflow_def parse_workflow_def)
  have st: "wf_col w c d1 = Some (col r c)" for c unfolding wf_col_only_context [OF c1] using r(1) by (simp add: wf_col_def)
  have st2: "wf_col w ''status'' ?d2 = Some (col workflow ''status'')" using st r(2) by (simp add: counters_get)
  have n2: "\<forall>c \<in> set COUNTED. wf_col w c ?d2 = Some (obj_get (counters ?ts) c)"
    using st s(5) by (auto simp: COUNTED_def counters_get)
  consider (all) "length ?ts1 \<le> terminal_tasks_of ?ts1"
    | (stuck) "\<not> length ?ts1 \<le> terminal_tasks_of ?ts1" "runnable_tasks ?ts1 = 0"
    | (live) "\<not> length ?ts1 \<le> terminal_tasks_of ?ts1" "runnable_tasks ?ts1 \<noteq> 0" by blast
  then show ?thesis
  proof cases
    case all
    let ?d' = "finish_workflow env w workflow ?ts1 ?d2"
    have "checkWorkflowCompletion env w d = (Inr (), ?d')"
      using assms(2,3) all r1 by (simp add: checkWorkflowCompletion_def Let_def)
    moreover have "wf_col w c ?d' = wf_col w c ?d2" if "c \<in> set COUNTED" for c
      by (rule wf_col_finish(2) [OF st2]) (use that in \<open>auto simp: COUNTED_def\<close>)
    moreover have "verdict ?ts (col workflow ''status'') = JStr (final_status ?ts1)"
      using all by (simp add: verdict_counts s)
    ultimately show ?thesis
      using wf_col_finish(1) [OF st2, of env workflow ?ts1] n2 c1
      by (intro exI [of _ ?d']) (simp add: only_context_def)
  next
    case stuck
    let ?d3 = "final_event w ''failed'' (snd (updateWorkflow w
                    [(''status'', JStr ''failed''), (''completed_at'', iso (rt_now env))] ?d2))"
    have same: "tasks ?d3 = tasks d1" "deps ?d3 = deps d1" by (simp_all add: final_event_def)
    have "full_ids ?d3" by (rule full_ids_same [OF full_ids_only_context [OF c1 assms(1)] same])
    then obtain m d4 where r4: "refreshWorkflowBlockerSnapshots env w (getWorkflow w ?d3) ?d3 = (Inr m, d4)"
      and c4: "only_context ?d3 d4"
      using refresh_returns refresh_only_context by (metis prod.collapse)
    have "checkWorkflowCompletion env w d = (Inr (), drop_guard w d4)"
      using assms(2,3) stuck r1 r4 by (simp add: checkWorkflowCompletion_def Let_def)
    moreover have "verdict ?ts (col workflow ''status'') = JStr ''failed''"
      using stuck by (simp add: verdict_counts s)
    moreover have "wf_col w ''status'' ?d3 = Some (JStr ''failed'')" using st2 by (simp add: obj_get_def)
    moreover have "\<forall>c \<in> set COUNTED. wf_col w c ?d3 = wf_col w c ?d2" by (simp add: COUNTED_def obj_get_def)
    moreover have "list_all2 same_row (tasks d) (tasks (drop_guard w d4))"
      using c1 c4 same list_all2_trans [of same_row same_row same_row, OF same_row_trans]
      by (fastforce simp: only_context_def drop_guard_def)
    ultimately show ?thesis using n2 by (intro exI [of _ "drop_guard w d4"]) (simp add: wf_col_only_context [OF c4])
  next
    case live
    have "checkWorkflowCompletion env w d = (Inr (), ?d2)"
      using assms(2,3) live r1 by (simp add: checkWorkflowCompletion_def Let_def)
    moreover have "verdict ?ts (col workflow ''status'') = col workflow ''status''"
      using live by (simp add: verdict_counts s)
    ultimately show ?thesis using st2 n2 c1 by (intro exI [of _ ?d2]) (simp add: only_context_def)
  qed
qed

end
