(* ===== verification/Runtime_Claims.thy ===== *)
theory Runtime_Claims
  imports Completion_Laws Task_Claims
begin

text \<open>
  The properties of the workflow runtime: finished tasks stay finished whatever a run does, the
  completion check decides as it should, and a dependent that is already finished aborts the
  evaluation of the task that finished after it.
\<close>

section \<open>Examples\<close>

definition still_env :: rt_env where
  "still_env = \<lparr>rt_now = 7, rt_regex = \<lambda>_ _. None, redact = \<lambda>s. s, cancel_running = \<lambda>_ _ d. (Inr False, d),
     running_process = \<lambda>_ _. None, process_queue = \<lambda>d. d, resolveConflicts = \<lambda>_ _. ([], []), dir_exists = \<lambda>_. True\<rparr>"

definition uid :: "char \<Rightarrow> string" where
  "uid c = replicate 36 c"

definition mixed_flow :: "string \<Rightarrow> string \<Rightarrow> tdb" where
  "mixed_flow s1 s2 = flow_db\<lparr>tasks :=
     [[(''id'', JStr (uid CHR ''a'')), (''status'', JStr s1), (''workflow_id'', JStr ''w'')],
      [(''id'', JStr (uid CHR ''b'')), (''status'', JStr s2), (''workflow_id'', JStr ''w'')]], deps := []\<rparr>"

section \<open>Refused transitions\<close>

lemma prepare_plain:
  assumes "s \<noteq> ''cancelled''" and "s \<noteq> ''queued''"
    and "obj_delete ''_provider_switch_reason'' p = p" "obj_delete ''cancel_reason'' p = p" "obj_delete ''_preserveProvider'' p = p"
    "obj_delete ''_softFail'' p = p" "\<not> obj_has p ''provider''"
  shows "prepare_fields now i s p d = p"
  using assms by (simp add: prepare_fields_def Let_def)

lemma refused_transition:
  assumes "\<not> dbClosed d" and "row_of d u = Some r" and "is_terminal (col r ''status'')"
    and "s = ''skipped'' \<or> s = ''failed''" and "p = [(''error_output'', v)] \<or> p = [(''error_output'', v), (''context'', c)]"
  shows "updateTaskStatus now u s p d = (Inl (Cannot_transition u (str_of (col r ''status'')) s), d)"
proof -
  have s: "s \<noteq> ''cancelled''" "s \<noteq> ''queued''" "\<not> reopens s" "p \<noteq> []" using assms(4,5) by (auto simp: reopens_def)
  have patch: "prepare_fields now u s p d = p"
    by (rule prepare_plain [OF s(1,2)]) (use assms(5) in \<open>auto simp: obj_delete_def obj_has_def\<close>)
  have "''error_output'' \<in> set ALLOWED_TASK_COLUMNS" "''context'' \<in> set ALLOWED_TASK_COLUMNS" by code_simp+
  then have allowed: "List.find (\<lambda>(c, _). c \<notin> set ALLOWED_TASK_COLUMNS) p = None"
    using assms(5) by auto
  have soft: "\<not> js_truthy (obj_get p ''_softFail'')" using assms(5) by (auto simp: obj_get_def)
  from s(3,4) assms(1-3) soft show ?thesis
    unfolding updateTaskStatus_def Let_def patch allowed
    by (simp add: write_transition_def row_of_def)
qed

text \<open>The error a transition of a task raises, and the state it leaves.\<close>

definition refusal :: "string \<Rightarrow> jsval \<Rightarrow> string \<Rightarrow> tdb \<Rightarrow> 'a run" where
  "refusal u v s d = (Inl (Thrown (Cannot_transition u (str_of v) s)), d)"

lemma refusal_then [simp]: "then_run (refusal u v s d) f = refusal u v s d"
  by (simp add: refusal_def)


lemma clear_refused:
  assumes "\<not> dbClosed d" and "row_of d u = Some r" and "is_terminal (col r ''status'')" and "getTask u d = Inr (Some r')"
    and "s = ''skipped'' \<or> s = ''failed''"
  shows "clearTaskBlockerSnapshot env u s [(''error_output'', v)] d = refusal u (col r ''status'') s d"
  using assms(4) refused_transition [OF assms(1-3,5)]
  by (simp add: clearTaskBlockerSnapshot_def persistTaskBlockerSnapshot_def read_run_def refusal_def obj_set_def)

lemma action_refused:
  assumes "\<not> dbClosed d" and "row_of d u = Some r" and "is_terminal (col r ''status'')" and "getTask u d = Inr (Some r')"
    and "action \<noteq> Some ''continue''"
  shows "applyFailureAction n env rec u action alternate w d =
    refusal u (col r ''status'') (if action = Some ''cancel'' then ''failed'' else ''skipped'') d"
  using assms(5) clear_refused [OF assms(1-4), of "''failed''"] clear_refused [OF assms(1-4), of "''skipped''"]
  by (simp add: applyFailureAction_def skip_task_def)

lemma dependent_refused:
  assumes "\<not> dbClosed d" and "row_of d u = Some r" and "is_terminal (col r ''status'')" and "getTask u d = Inr (Some r')"
    and "dep_on_fail (fst dep) \<noteq> Some ''continue''" and "dep_task (fst dep) = u" and "\<not> edge_passed env task (fst dep)"
  shows "evaluate_dependent n env rec w task dep () d =
    refusal u (col r ''status'') (if dep_on_fail (fst dep) = Some ''cancel'' then ''failed'' else ''skipped'') d"
  using assms(5-7) action_refused [OF assms(1-5)]
  by (simp add: evaluate_dependent_def fail_dependent_def read_run_def)

text \<open>The first dependent of the task is \<open>u\<close>, and it is to be moved to \<open>s\<close>.\<close>

definition stopped_by :: "rt_env \<Rightarrow> string \<Rightarrow> db_row \<Rightarrow> string \<Rightarrow> string \<Rightarrow> tdb \<Rightarrow> bool" where
  "stopped_by env t task u s d \<longleftrightarrow> (case getTaskDependents t d of [] \<Rightarrow> False
     | dep # _ \<Rightarrow> dep_task (fst dep) = u \<and> \<not> edge_passed env task (fst dep) \<and> dep_on_fail (fst dep) \<noteq> Some ''continue'' \<and>
         s = (if dep_on_fail (fst dep) = Some ''cancel'' then ''failed'' else ''skipped''))"

definition reviewed :: "db_row \<Rightarrow> bool" where
  "reviewed task \<longleftrightarrow> js_truthy (obj_get (normalizeMetadata (col task ''metadata'')) ''adversarial_review_pending'')"

lemma evaluation_refused:
  assumes "\<not> dbClosed d" and "row_of d u = Some r" and "is_terminal (col r ''status'')" and "getTask u d = Inr (Some r')"
    and "getWorkflow w d = Some workflow" and "col workflow ''status'' = JStr ''running''"
    and "getTask t d = Inr (Some task)" and "\<not> reviewed task" and "stopped_by env t task u s d"
  shows "evaluateWorkflowDependencies (Suc n) env w t d = refusal u (col r ''status'') s d"
proof -
  obtain dep rest where dep: "getTaskDependents t d = dep # rest" "dep_task (fst dep) = u"
    "\<not> edge_passed env task (fst dep)" "dep_on_fail (fst dep) \<noteq> Some ''continue''"
    "s = (if dep_on_fail (fst dep) = Some ''cancel'' then ''failed'' else ''skipped'')"
    using assms(9) by (auto simp: stopped_by_def split: list.splits)
  have "inject_review env task w d = (Inr (), d)" using assms(8) by (simp add: inject_review_def reviewed_def Let_def)
  moreover note dependent_refused [OF assms(1-4) dep(4,2,3)]
  ultimately show ?thesis using assms(5-7) dep(1,5) by (simp add: read_run_def)
qed

section \<open>Properties\<close>

text \<open>C25: Whatever fuel it has and however it ends, the handling of a finished task, the failure
  actions, cascades and cancellations it starts included, never changes the status of a task that
  had finished, and never creates or deletes a task, as long as the queue scheduler it calls does neither. (Other
  columns of a finished task, its description or its snapshot, may be written.)\<close>

theorem runtime_keeps_finished:
  assumes "\<forall>d. kept d (process_queue env d)" and "finished i s d"
  shows "finished i s (snd (handleWorkflowTermination n (runtime_env k env) t d)) \<and>
    row_ids (tasks (snd (handleWorkflowTermination n (runtime_env k env) t d))) = row_ids (tasks d)"
proof -
  have "kept d (snd (handleWorkflowTermination n (runtime_env k env) t d))"
    by (rule kept.runtime_run_frame) (use assms(1) in blast)
  with assms(2) show ?thesis by (simp add: kept_def)
qed

theorem runtime_keeps_finished_witness:
  "finished ''b'' ''failed'' (snd (handleWorkflowTermination 9 (runtime_env 2 still_env) ''a'' flow_db))"
proof -
  have "\<forall>d. kept d (process_queue still_env d)" by (simp add: still_env_def kept_same)
  moreover have "finished ''b'' ''failed'' flow_db"
    by (simp add: finished_def status_of_def row_of_def flow_db_def TERMINAL_TASK_STATUS_VALUES_def has_id_def col_def)
  ultimately show ?thesis using runtime_keeps_finished [where i = "''b''" and d = flow_db and env = still_env] by blast
qed

text \<open>C26: The completion check of an open workflow returns, keeps the tasks but for their snapshots, stores the
  four counts, and leaves exactly this status. When every task has ended: completed if each was completed,
  skipped or superseded; otherwise failed if a goal gate was missed or no task completed, and completed_with_errors in the
  remaining cases. When some task has not ended: failed if no task is running, queued, pending or
  switching its provider, and otherwise the workflow stays as it was.\<close>

theorem completion_decision:
  assumes "full_ids d" and "getWorkflow w d = Some workflow"
    and "col workflow ''status'' \<notin> JStr ` set [''completed'', ''completed_with_errors'', ''failed'', ''cancelled'']"
    and "ts = getWorkflowTasks w d"
  shows "\<exists>d'. checkWorkflowCompletion env w d = (Inr (), d') \<and> list_all2 same_row (tasks d) (tasks d') \<and>
    wf_col w ''total_tasks'' d' = Some (js_nat (length ts)) \<and>
    wf_col w ''completed_tasks'' d' = Some (js_nat (with_status ''completed'' ts)) \<and>
    wf_col w ''failed_tasks'' d' = Some (js_nat (with_status ''failed'' ts)) \<and>
    wf_col w ''skipped_tasks'' d' = Some (js_nat (with_status ''skipped'' ts)) \<and>
    wf_col w ''status'' d' = Some
      (if \<forall>t \<in> set ts. ended t then
         (if \<forall>t \<in> set ts. col t ''status'' \<in> JStr ` {''completed'', ''skipped''} \<or> is_superseded t then JStr ''completed''
          else if (\<exists>t \<in> set ts. missed_gate t) \<or> (\<forall>t \<in> set ts. col t ''status'' \<noteq> JStr ''completed'') then JStr ''failed''
          else JStr ''completed_with_errors'')
       else if \<exists>t \<in> set ts. col t ''status'' \<in> JStr ` {''running'', ''queued'', ''pending'', ''pending_provider_switch''}
       then col workflow ''status'' else JStr ''failed'')"
proof -
  obtain d' where d': "checkWorkflowCompletion env w d = (Inr (), d')" "list_all2 same_row (tasks d) (tasks d')"
    "wf_col w ''status'' d' = Some (verdict ts (col workflow ''status''))"
    "\<forall>c \<in> set COUNTED. wf_col w c d' = Some (obj_get (counters ts) c)"
    using check_result [OF assms(1-3)] assms(4) by blast
  have verdict: "verdict ts v =
      (if \<forall>t \<in> set ts. ended t then
         (if \<forall>t \<in> set ts. col t ''status'' \<in> JStr ` {''completed'', ''skipped''} \<or> is_superseded t then JStr ''completed''
          else if (\<exists>t \<in> set ts. missed_gate t) \<or> (\<forall>t \<in> set ts. col t ''status'' \<noteq> JStr ''completed'') then JStr ''failed''
          else JStr ''completed_with_errors'')
       else if \<exists>t \<in> set ts. col t ''status'' \<in> JStr ` {''running'', ''queued'', ''pending'', ''pending_provider_switch''}
       then v else JStr ''failed'')" for v
  proof (cases "\<forall>t \<in> set ts. ended t")
    case True
    then show ?thesis by (simp add: verdict_def final_status_cases [OF True])
  next
    case False
    have "(\<forall>t \<in> set ts. col t ''status'' \<notin> JStr ` set [''running'', ''queued'', ''pending'', ''pending_provider_switch'']) \<longleftrightarrow>
        \<not> (\<exists>t \<in> set ts. col t ''status'' \<in> JStr ` {''running'', ''queued'', ''pending'', ''pending_provider_switch''})"
      by (simp only: list.set) blast
    then show ?thesis by (simp only: verdict_def False if_False if_not_P split: if_split) blast
  qed
  show ?thesis unfolding verdict [symmetric]
    by (intro exI [of _ d'] conjI) (use d' in \<open>simp_all add: COUNTED_def counters_get\<close>)
qed

theorem completion_decision_witness:
  "\<exists>d'. checkWorkflowCompletion still_env ''w'' (mixed_flow ''completed'' ''failed'') = (Inr (), d') \<and>
     wf_col ''w'' ''status'' d' = Some (JStr ''completed_with_errors'')"
proof -
  let ?d = "mixed_flow ''completed'' ''failed''" let ?w = "hd (workflows flow_db)"
  have f: "full_ids ?d" by (simp add: full_ids_def full_id_def mixed_flow_def uid_def col_def str_of_def)
  have g: "getWorkflow ''w'' ?d = Some (parse_workflow ?w)" by code_simp
  have o: "col (parse_workflow ?w) ''status'' \<notin> JStr ` set [''completed'', ''completed_with_errors'', ''failed'', ''cancelled'']"
    by code_simp
  have e: "\<forall>t \<in> set (getWorkflowTasks ''w'' ?d). ended t" unfolding ended_def by code_simp
  have b: "\<not> (\<forall>t \<in> set (getWorkflowTasks ''w'' ?d). col t ''status'' \<in> JStr ` {''completed'', ''skipped''} \<or> is_superseded t)"
    by code_simp
  have c: "\<not> ((\<exists>t \<in> set (getWorkflowTasks ''w'' ?d). missed_gate t) \<or>
      (\<forall>t \<in> set (getWorkflowTasks ''w'' ?d). col t ''status'' \<noteq> JStr ''completed''))"
    unfolding missed_gate_def by code_simp
  from completion_decision [OF f g o refl, of still_env, unfolded if_P [OF e] if_not_P [OF b] if_not_P [OF c]]
  show ?thesis by blast
qed

text \<open>C27: When a failed task has a dependent that is already finished and whose failure action is to
  skip, fail or replace it, the evaluation throws at that dependent: the remaining dependents are
  not looked at, the completion check does not run, and the handler swallows the error, so that no
  task and no workflow changes.\<close>

theorem finished_dependent_aborts:
  assumes "\<not> dbClosed d" and "row_of d u = Some r" and "is_terminal (col r ''status'')" and "getTask u d = Inr (Some r')"
    and "getWorkflow w d = Some workflow" and "col workflow ''status'' = JStr ''running''"
    and "getTask t d = Inr (Some task)" and "\<not> reviewed task" and "stopped_by env t task u s d"
    and "col task ''workflow_id'' = JStr w" and "w \<noteq> []" and "w \<notin> set (terminalGuards d)"
  shows "evaluateWorkflowDependencies (Suc n) env w t d = (Inl (Thrown (Cannot_transition u (str_of (col r ''status'')) s)), d) \<and>
    fst (handleWorkflowTermination (Suc n) env t d) = Inr () \<and>
    tasks (snd (handleWorkflowTermination (Suc n) env t d)) = tasks d \<and>
    workflows (snd (handleWorkflowTermination (Suc n) env t d)) = workflows d"
proof -
  let ?g = "d\<lparr>terminalGuards := w # terminalGuards d\<rparr>"
  have same: "getTask i ?g = getTask i d" for i by (rule getTask_tasks) simp_all
  have "evaluateWorkflowDependencies (Suc n) env w t ?g = refusal u (col r ''status'') s ?g"
    by (rule evaluation_refused [where task = task and workflow = workflow and r' = r'])
      (use assms in \<open>auto simp: same row_of_def getWorkflow_def stopped_by_def getTaskDependents_def\<close>)
  with assms(5-7,10-12) have "handleWorkflowTermination (Suc n) env t d = (Inr (), drop_guard w ?g)"
    by (simp add: handleWorkflowTermination_def read_run_def Let_def task_col_def str_of_def refusal_def
        del: evaluateWorkflowDependencies.simps)
  with evaluation_refused [OF assms(1-9), of n] show ?thesis by (simp add: refusal_def drop_guard_def)
qed

text \<open>Two failed parents of one dependent: the second one leaves the workflow open for ever.\<close>

definition two_parents :: tdb where
  "two_parents = flow_db\<lparr>tasks :=
     [[(''id'', JStr (uid CHR ''a'')), (''status'', JStr ''failed''), (''workflow_id'', JStr ''w'')],
      [(''id'', JStr (uid CHR ''b'')), (''status'', JStr ''failed''), (''workflow_id'', JStr ''w'')],
      [(''id'', JStr (uid CHR ''c'')), (''status'', JStr ''skipped''), (''workflow_id'', JStr ''w'')]],
     deps := [\<lparr>dep_id = 1, dep_workflow = ''w'', dep_task = uid CHR ''c'', dep_on = uid CHR ''a'', dep_condition = None,
         dep_on_fail = Some ''skip'', dep_alternate = None, dep_created = 0\<rparr>,
       \<lparr>dep_id = 2, dep_workflow = ''w'', dep_task = uid CHR ''c'', dep_on = uid CHR ''b'', dep_condition = None,
         dep_on_fail = Some ''skip'', dep_alternate = None, dep_created = 0\<rparr>]\<rparr>"

theorem finished_dependent_aborts_witness:
  "workflows (snd (handleWorkflowTermination 5 still_env (uid CHR ''b'') two_parents)) = workflows two_parents \<and>
   list_all ended (getWorkflowTasks ''w'' two_parents)"
proof -
  let ?r = "\<lambda>i. tasks two_parents ! i"
  have d: "\<not> dbClosed two_parents" "row_of two_parents (uid CHR ''c'') = Some (?r 2)" "is_terminal (col (?r 2) ''status'')"
    "getTask (uid CHR ''c'') two_parents = Inr (Some (parse_task_row (?r 2)))"
    "getWorkflow ''w'' two_parents = Some (parse_workflow (hd (workflows flow_db)))"
    "col (parse_workflow (hd (workflows flow_db))) ''status'' = JStr ''running''"
    "getTask (uid CHR ''b'') two_parents = Inr (Some (parse_task_row (?r 1)))" "\<not> reviewed (parse_task_row (?r 1))"
    by code_simp+
  have s: "stopped_by still_env (uid CHR ''b'') (parse_task_row (?r 1)) (uid CHR ''c'') ''skipped'' two_parents" by code_simp
  have g: "col (parse_task_row (?r 1)) ''workflow_id'' = JStr ''w''" "''w'' \<noteq> []" "''w'' \<notin> set (terminalGuards two_parents)"
    by code_simp+
  have e: "list_all ended (getWorkflowTasks ''w'' two_parents)" unfolding ended_def by code_simp
  have five: "Suc 4 = (5 :: nat)" by simp
  from finished_dependent_aborts [OF d s g, of 4] e show ?thesis by (simp only: five)
qed

end
