(* ===== verification/Cancellation_Claims.thy ===== *)
theory Cancellation_Claims
  imports Runtime_Claims
begin

text \<open>
  The properties of cancellation: what \<open>cancelTask\<close> writes, and what the cascade over the dependents
  of a failed task reaches.
\<close>

section \<open>A column after a transition\<close>

lemma distinct_enrichment:
  "distinct (map fst p) \<Longrightarrow> distinct (map fst (applyProviderSwitchEnrichment now src tgt p why))"
  by (simp add: applyProviderSwitchEnrichment_def default_field_def distinct_obj_set Let_def split: option.split jsval.split)

lemma distinct_prepared: "distinct (map fst p) \<Longrightarrow> distinct (map fst (prepare_fields now i s p d))"
  by (simp add: prepare_fields_def requeue_provider_def Let_def distinct_obj_set distinct_obj_delete distinct_enrichment)

lemma prepared_value:
  assumes "k \<notin> {''original_provider'', ''model'', ''ollama_host_id'', ''provider_switched_at'', ''metadata'',
      ''provider'', ''cancel_reason''} \<union> set INTERNAL_FLAGS"
  shows "obj_has (prepare_fields now i s p d) k = obj_has p k" "obj_get (prepare_fields now i s p d) k = obj_get p k"
  using assms enrichment_frame [of k]
  by (simp_all add: prepare_fields_def requeue_provider_def INTERNAL_FLAGS_def Let_def)

lemma transition_col:
  assumes "\<not> dbClosed d" and "row_of d i = Some cur" and "\<not> is_terminal (col cur ''status'')"
    and "\<not> is_nullish (col cur ''status'')" and "col cur ''status'' \<noteq> JStr s" and "patch_ok p" and "distinct (map fst p)"
  obtains r where "row_of (snd (updateTaskStatus now i s p d)) i = Some r" and "col r ''status'' = JStr s"
    and "\<And>k. k \<notin> {''original_provider'', ''model'', ''ollama_host_id'', ''provider_switched_at'', ''metadata'',
      ''provider'', ''cancel_reason'', ''status'', ''started_at'', ''completed_at''} \<union> set INTERNAL_FLAGS \<Longrightarrow>
      col r k = (if obj_has p k then sql_value (obj_get p k) else col cur k)"
proof -
  define us where "us = writes_of now i s p (col cur ''status'') d"
  have row: "row_of (snd (updateTaskStatus now i s p d)) i = Some (set_cols us cur)"
    unfolding us_def using assms by (intro transition_row(1)) auto
  have "col (set_cols us cur) k = (if obj_has p k then sql_value (obj_get p k) else col cur k)"
    if "k \<notin> {''original_provider'', ''model'', ''ollama_host_id'', ''provider_switched_at'', ''metadata'',
      ''provider'', ''cancel_reason'', ''status'', ''started_at'', ''completed_at''} \<union> set INTERNAL_FLAGS" for k
  proof -
    have outside: "k \<notin> fst ` set (completion_cols now s (col cur ''status''))" "k \<notin> fst ` set (started_cols now s p)"
      using that by (auto simp: completion_cols_def started_cols_def)
    have "col (set_cols us cur) k = col (set_cols (prepare_fields now i s p d) (set_cols ((''status'', JStr s) # started_cols now s p) cur)) k"
      using outside(1) by (simp add: us_def writes_of_def col_set_cols_frame)
    also have "\<dots> = (if obj_has p k then sql_value (obj_get p k) else col cur k)"
      using outside(2) that prepared_value [of k now i s p d]
      by (simp add: col_set_cols_distinct [OF distinct_prepared [OF assms(7)]] col_set_cols_frame)
    finally show ?thesis .
  qed
  moreover have "col (set_cols us cur) ''status'' = JStr s" unfolding us_def by (rule writes_status [OF assms(6)])
  ultimately show ?thesis using that row by blast
qed

section \<open>Closing a row\<close>

lemma cancel_reason_text: "cancel_reason_of reason options \<noteq> []"
  by (auto simp: cancel_reason_of_def truthy_text_def split: option.splits list.splits)

text \<open>The patch that closes a row: the live output of the process, if there is one, the error output and the reason.\<close>

definition closing_patch :: "string option \<Rightarrow> string \<Rightarrow> string \<Rightarrow> jsobj" where
  "closing_patch out e c = (case out of None \<Rightarrow> [] | Some t \<Rightarrow> [(''output'', JStr t)])
     @ [(''error_output'', JStr e), (''cancel_reason'', JStr c)]"

lemma closing_fields:
  assumes "s = ''cancelled'' \<or> s = ''failed'' \<or> s = ''skipped''" and "c \<noteq> []"
  shows "prepare_fields now i s (closing_patch out e c) d =
    (case out of None \<Rightarrow> [] | Some t \<Rightarrow> [(''output'', JStr t)]) @ [(''error_output'', JStr e)]
      @ (if s = ''cancelled'' then [(''cancel_reason'', JStr c)] else [])"
proof -
  have "s \<noteq> ''queued''" using assms(1) by auto
  then show ?thesis using assms(2)
    by (cases out)
      (simp_all add: closing_patch_def prepare_fields_def Let_def obj_get_def obj_set_def obj_delete_def obj_has_def js_or_def)
qed

lemma closing_patch_ok: "patch_ok (closing_patch out e c)"
  by (cases out) (simp_all add: closing_patch_def patch_ok_def obj_has_def ALLOWED_TASK_COLUMNS_def)

lemma transition_returns:
  assumes "\<not> dbClosed d" and "row_of d i = Some r" and "\<not> is_terminal (col r ''status'')" and "patch_ok p" and "full_id i"
  shows "\<exists>x. fst (updateTaskStatus now i s p d) = Inr x"
proof -
  have "\<exists>x. fst (write_transition now i s patch us soft d) = Inr x" for patch us soft
    using assms(2,3) full_getTask [OF assms(5)]
    by (auto simp: write_transition_def row_of_def Let_def split: prod.split)
  moreover have "List.find (\<lambda>(c, _). c \<notin> set ALLOWED_TASK_COLUMNS) (prepare_fields now i s p d) = None"
    using patch_ok_columns [OF assms(4), of now i s d] by (simp add: find_None_list_all case_prod_unfold)
  ultimately show ?thesis using assms(1) by (simp add: updateTaskStatus_def Let_def)
qed

text \<open>The row of a task is closed and no other row is written.\<close>

definition closes :: "string \<Rightarrow> string \<Rightarrow> string \<Rightarrow> string option \<Rightarrow> string \<Rightarrow> tdb \<Rightarrow> tdb \<Rightarrow> bool" where
  "closes i s c out e d d1 \<longleftrightarrow>
     (\<exists>r r1. row_of d i = Some r \<and> row_of d1 i = Some r1 \<and> col r1 ''status'' = JStr s \<and> col r1 ''error_output'' = JStr e \<and>
        (s = ''cancelled'' \<longrightarrow> col r1 ''cancel_reason'' = JStr c) \<and> (\<forall>t. out = Some t \<longrightarrow> col r1 ''output'' = JStr t) \<and>
        col r1 ''workflow_id'' = col r ''workflow_id'') \<and>
     (\<forall>j. j \<noteq> i \<longrightarrow> row_of d1 j = row_of d j) \<and> other_tables d1 = other_tables d"

lemma closing_row:
  assumes "\<not> dbClosed d" and "row_of d i = Some r" and "\<not> is_terminal (col r ''status'')" and "\<not> is_nullish (col r ''status'')"
    and s: "s = ''cancelled'' \<or> s = ''failed'' \<or> s = ''skipped''" and "c \<noteq> []" and "full_id i"
  shows "\<exists>x d1. updateTaskStatus now i s (closing_patch out e c) d = (Inr x, d1) \<and> closes i s c out e d d1"
proof -
  let ?p = "closing_patch out e c"
  let ?u = "updateTaskStatus now i s ?p d"
  have ne: "col r ''status'' \<noteq> JStr s" using assms(3) s by (auto simp: is_terminal_def TERMINAL_TASK_STATUS_VALUES_def)
  note row = transition_row [OF assms(1,2) disjI1 [OF assms(3)] assms(4) disjI1 [OF ne] closing_patch_ok, where now = now]
  let ?r1 = "set_cols (writes_of now i s ?p (col r ''status'') d) r"
  have started: "started_cols now s ?p = []" using s by (auto simp: started_cols_def)
  have w: "writes_of now i s ?p (col r ''status'') d = [(''status'', JStr s)] @
      (case out of None \<Rightarrow> [] | Some t \<Rightarrow> [(''output'', JStr t)]) @ [(''error_output'', JStr e)]
      @ (if s = ''cancelled'' then [(''cancel_reason'', JStr c)] else []) @ completion_cols now s (col r ''status'')"
    by (simp add: writes_of_def closing_fields [OF s assms(6)] started)
  have "col ?r1 ''status'' = JStr s" "col ?r1 ''error_output'' = JStr e" "s = ''cancelled'' \<longrightarrow> col ?r1 ''cancel_reason'' = JStr c"
    "\<forall>t. out = Some t \<longrightarrow> col ?r1 ''output'' = JStr t" "col ?r1 ''workflow_id'' = col r ''workflow_id''"
    unfolding w by (cases out; simp add: completion_cols_def)+
  with row assms(2) have "closes i s c out e d (snd ?u)"
    unfolding closes_def by (auto simp: updateTaskStatus_other)
  with transition_returns [OF assms(1-3) closing_patch_ok assms(7), of now s] show ?thesis
    by (metis prod.collapse)
qed

lemma refused_write:
  assumes "row_of d i = Some r" and "is_terminal (col r ''status'')" and "s = ''cancelled'' \<or> s = ''failed'' \<or> s = ''skipped''"
    and "c \<noteq> []"
  shows "snd (updateTaskStatus now i s (closing_patch out e c) d) = d"
proof -
  have "prepare_fields now i s (closing_patch out e c) d \<noteq> []" unfolding closing_fields [OF assms(3,4)] by simp
  moreover have "\<not> reopens s" using assms(3) by (auto simp: reopens_def)
  ultimately have "snd (write_transition now i s (prepare_fields now i s (closing_patch out e c) d) us soft d) = d" for us soft
    using assms(1,2) by (simp add: write_transition_def row_of_def Let_def)
  then show ?thesis
    by (cases "List.find (\<lambda>(c, _). c \<notin> set ALLOWED_TASK_COLUMNS) (prepare_fields now i s (closing_patch out e c) d)")
      (simp_all add: updateTaskStatus_def Let_def split: prod.split)
qed

section \<open>Cancelling a task\<close>

definition cancellable :: "jsval \<Rightarrow> bool" where
  "cancellable st \<longleftrightarrow> st \<in> JStr ` {''running'', ''queued'', ''blocked'', ''pending'', ''pending_approval'', ''retry_scheduled''}"

lemma cancellable_states:
  "cancellable st \<longleftrightarrow> st = JStr ''running'' \<or> st \<in> JStr ` set CANCELLABLE"
  "cancellable st \<Longrightarrow> \<not> is_terminal st \<and> \<not> is_nullish st" "JStr ''running'' \<notin> JStr ` set CANCELLABLE"
  by (auto simp: cancellable_def CANCELLABLE_def is_terminal_def TERMINAL_TASK_STATUS_VALUES_def)

lemma terminal_states:
  "s = resolveCancellationTerminalState c reason options \<Longrightarrow> s = ''cancelled'' \<or> s = ''failed'' \<or> s = ''skipped''"
  by (simp add: resolveCancellationTerminalState_def)

lemma cancel_row:
  assumes "\<not> dbClosed d" and "row_of d i = Some r" and "length i = 36" and "running_process env i d = None"
    and c: "c = cancel_reason_of reason options" and s: "s = resolveCancellationTerminalState c reason options"
  shows "if cancellable (col r ''status'') then
      \<exists>d1. closes i s c None (combineErrorForCancel (col r ''error_output'') reason
          (if col r ''status'' = JStr ''running'' then Some LOST_PROCESS else None) s) d d1 \<and>
        cancelTask env terminate i reason options d = then_run (terminate i d1) (\<lambda>_ d2. (Inr True,
          if col r ''status'' = JStr ''running'' then process_queue env d2 else d2))
    else cancelTask env terminate i reason options d = (Inr False, d)"
proof -
  have get: "getTask i d = Inr (Some (parse_task_row r))" "resolveTaskId i d = Inr (Some i)" "full_id i" "c \<noteq> []"
    using assms(1-3) cancel_reason_text by (auto simp: getTask_full resolveTaskId_def full_id_def c)
  note unfold = cancelTask_def Let_def read_run_def task_col_def close_task_def assms(4) get c [symmetric] s [symmetric]
  show ?thesis
  proof (cases "cancellable (col r ''status'')")
    case True
    let ?e = "combineErrorForCancel (col r ''error_output'') reason
          (if col r ''status'' = JStr ''running'' then Some LOST_PROCESS else None) s"
    from cancellable_states(2) [OF True] have st: "\<not> is_terminal (col r ''status'')" "\<not> is_nullish (col r ''status'')" by blast+
    from closing_row [OF assms(1,2) st terminal_states [OF s] get(4,3), of "rt_now env" None ?e] obtain x d1 where
      u: "updateTaskStatus (rt_now env) i s [(''error_output'', JStr ?e), (''cancel_reason'', JStr c)] d = (Inr x, d1)"
      and d1: "closes i s c None ?e d d1" by (auto simp: closing_patch_def)
    have "cancelTask env terminate i reason options d = then_run (terminate i d1) (\<lambda>_ d2. (Inr True,
          if col r ''status'' = JStr ''running'' then process_queue env d2 else d2))"
    proof (cases "col r ''status'' = JStr ''running''")
      case running: True
      with u cancellable_states(3) show ?thesis by (simp add: unfold then_queue_def)
    next
      case False
      with True have "col r ''status'' \<in> JStr ` set CANCELLABLE" by (simp add: cancellable_states(1))
      with False u show ?thesis by (simp add: unfold)
    qed
    with d1 True show ?thesis by auto
  next
    case False
    then show ?thesis using cancellable_states(1) [of "col r ''status''"] by (simp add: unfold image_iff)
  qed
qed

lemma cancel_process:
  assumes "\<not> dbClosed d" and "row_of d i = Some r" and "length i = 36" and "running_process env i d = Some proc"
    and c: "c = cancel_reason_of reason options" and s: "s = resolveCancellationTerminalState c reason options"
    and "\<not> is_nullish (col r ''status'')"
  shows "\<exists>d1. (if is_terminal (col r ''status'') then d1 = d
      else closes i s c (Some (sanitizeTaskOutput (live_output proc)))
        (combineErrorForCancel (JStr (live_error proc)) reason None s) d d1) \<and>
    cancelTask env terminate i reason options d = then_run (terminate i d1) (\<lambda>_ d2. (Inr True, process_queue env d2))"
proof -
  have get: "resolveTaskId i d = Inr (Some i)" "full_id i" "c \<noteq> []"
    using assms(1-3) cancel_reason_text by (auto simp: resolveTaskId_def full_id_def c)
  let ?e = "combineErrorForCancel (JStr (live_error proc)) reason None s"
  let ?u = "updateTaskStatus (rt_now env) i s (closing_patch (Some (sanitizeTaskOutput (live_output proc))) ?e c) d"
  have "cancelTask env terminate i reason options d = then_run (terminate i (snd ?u)) (\<lambda>_ d2. (Inr True, process_queue env d2))"
    by (simp add: cancelTask_def Let_def read_run_def assms(4) get kill_process_def then_queue_def closing_patch_def
        c [symmetric] s [symmetric])
  moreover have "if is_terminal (col r ''status'') then snd ?u = d
      else closes i s c (Some (sanitizeTaskOutput (live_output proc))) ?e d (snd ?u)"
    using refused_write [OF assms(2) _ terminal_states [OF s] get(3)]
      closing_row [OF assms(1,2) _ assms(7) terminal_states [OF s] get(3,2), of "rt_now env" "Some (sanitizeTaskOutput (live_output proc))" ?e]
    by (metis snd_conv)
  ultimately show ?thesis by blast
qed

section \<open>The cascade\<close>

definition cascades :: "jsval option \<Rightarrow> bool" where
  "cascades v \<longleftrightarrow> v \<in> Some ` JStr ` set (''running'' # CASCADED)"

definition workflow_of :: "tdb \<Rightarrow> string \<Rightarrow> jsval option" where
  "workflow_of d i = map_option (\<lambda>r. col r ''workflow_id'') (row_of d i)"

text \<open>The other tables and the workflow of every task are kept, and no task gets into a state the cascade looks for.\<close>

definition calm :: "tdb \<Rightarrow> tdb \<Rightarrow> bool" where
  "calm d d' \<longleftrightarrow> other_tables d' = other_tables d \<and> (\<forall>i. workflow_of d' i = workflow_of d i) \<and>
     (\<forall>i. cascades (status_of d' i) \<longrightarrow> cascades (status_of d i))"

lemma calm_refl [simp]: "calm d d"
  by (simp add: calm_def)

lemma calm_trans: "calm d1 d2 \<Longrightarrow> calm d2 d3 \<Longrightarrow> calm d1 d3"
  by (auto simp: calm_def)

lemma calm_tables: "calm d d' \<Longrightarrow> deps d' = deps d \<and> dbClosed d' = dbClosed d"
  using other_tablesD [of d' d] by (simp add: calm_def)

lemma calm_write:
  assumes "row_of d y = Some r" and "row_of d1 y = Some r1" and "col r1 ''workflow_id'' = col r ''workflow_id''"
    and "\<not> cascades (Some (col r1 ''status''))" and "\<forall>j. j \<noteq> y \<longrightarrow> row_of d1 j = row_of d j"
    and "other_tables d1 = other_tables d"
  shows "calm d d1 \<and> \<not> cascades (status_of d1 y)"
proof -
  have "workflow_of d1 i = workflow_of d i \<and> (cascades (status_of d1 i) \<longrightarrow> cascades (status_of d i))" for i
    using assms(1-5) by (cases "i = y") (simp_all add: workflow_of_def status_of_def)
  with assms(2,4,6) show ?thesis by (simp add: calm_def status_of_def)
qed

text \<open>
  The dependents of a finished task of \<open>w\<close> are being evaluated: the guard of \<open>w\<close> is set, \<open>w\<close> is not paused, and
  dependencies join tasks of their own workflow.
\<close>

definition evaluating :: "string \<Rightarrow> tdb \<Rightarrow> bool" where
  "evaluating w d \<longleftrightarrow> \<not> dbClosed d \<and> w \<in> set (terminalGuards d) \<and> deps_local d \<and>
     (\<forall>workflow. getWorkflow w d = Some workflow \<longrightarrow> col workflow ''status'' \<noteq> JStr ''paused'')"

lemma deps_local_workflow:
  "deps_local d \<longleftrightarrow> (\<forall>e \<in> set (deps d). workflow_of d (dep_task e) \<in> {None, Some (JStr (dep_workflow e))} \<and>
     workflow_of d (dep_on e) \<in> {None, Some (JStr (dep_workflow e))})"
  by (auto simp: deps_local_def workflow_of_def row_of_def in_workflow_def)

lemma calm_evaluating: "calm d d' \<Longrightarrow> evaluating w d \<Longrightarrow> evaluating w d'"
  using other_tablesD [of d' d] by (simp add: calm_def evaluating_def deps_local_workflow getWorkflow_def)

lemma dependent_workflow:
  assumes "evaluating w d" and "e \<in> set (deps d)" and "workflow_of d (dep_on e) = Some (JStr w)" and "row_of d (dep_task e) = Some r"
  shows "workflow_of d (dep_task e) = Some (JStr w)"
  using assms by (fastforce simp: evaluating_def deps_local_workflow workflow_of_def)

lemma full_read: "\<not> dbClosed d \<Longrightarrow> length y = 36 \<Longrightarrow> getTask y d = Inr (map_option parse_task_row (row_of d y))"
  by (rule getTask_full)

lemma clear_open:
  assumes "\<not> dbClosed d" and "length y = 36" and "row_of d y = Some r" and "col r ''status'' \<in> JStr ` set CASCADED"
  shows "\<exists>x d1. clearTaskBlockerSnapshot env y ''failed'' [(''error_output'', JStr reason)] d = (Inr x, d1) \<and>
    calm d d1 \<and> \<not> cascades (status_of d1 y)"
proof -
  define p where "p = (if getPersistedTaskBlockerSnapshot (parse_task_row r) \<noteq> JNull
    then [(''error_output'', JStr reason), (''context'', buildWorkflowBlockerContext (parse_task_row r) JNull)]
    else [(''error_output'', JStr reason)])"
  let ?u = "updateTaskStatus (rt_now env) y ''failed'' p d"
  have run: "clearTaskBlockerSnapshot env y ''failed'' [(''error_output'', JStr reason)] d = lift_run ?u"
    using full_read [OF assms(1,2)] assms(3)
    by (simp add: clearTaskBlockerSnapshot_def persistTaskBlockerSnapshot_def read_run_def p_def Let_def obj_set_def)
  have "''error_output'' \<in> set ALLOWED_TASK_COLUMNS" "''context'' \<in> set ALLOWED_TASK_COLUMNS" by code_simp+
  then have ok: "patch_ok p" "distinct (map fst p)" "\<not> obj_has p ''workflow_id''"
    by (auto simp: p_def patch_ok_def obj_has_def split: if_splits)
  have st: "\<not> is_terminal (col r ''status'')" "\<not> is_nullish (col r ''status'')" "col r ''status'' \<noteq> JStr ''failed''"
    using assms(4) by (auto simp: CASCADED_def is_terminal_def TERMINAL_TASK_STATUS_VALUES_def)
  have "full_id y" using assms(2) by (simp add: full_id_def)
  from transition_returns [OF assms(1,3) st(1) ok(1) this] obtain x where x: "fst ?u = Inr x" by blast
  note others = transition_row(2) [OF assms(1,3) disjI1 [OF st(1)] st(2) disjI1 [OF st(3)] ok(1), where now = "rt_now env"]
  have "calm d (snd ?u) \<and> \<not> cascades (status_of (snd ?u) y)"
  proof (rule transition_col [OF assms(1,3) st ok(1,2), where now = "rt_now env"])
    fix r1
    assume r1: "row_of (snd ?u) y = Some r1" "col r1 ''status'' = JStr ''failed''"
      and cols: "\<And>k. k \<notin> {''original_provider'', ''model'', ''ollama_host_id'', ''provider_switched_at'', ''metadata'',
        ''provider'', ''cancel_reason'', ''status'', ''started_at'', ''completed_at''} \<union> set INTERNAL_FLAGS \<Longrightarrow>
        col r1 k = (if obj_has p k then sql_value (obj_get p k) else col r k)"
    have "col r1 ''workflow_id'' = col r ''workflow_id''"
      using cols [of "''workflow_id''"] ok(3) by (simp add: INTERNAL_FLAGS_def)
    moreover have "\<not> cascades (Some (col r1 ''status''))" using r1(2) by (simp add: cascades_def CASCADED_def)
    ultimately show ?thesis using assms(3) r1(1) others by (intro calm_write) (auto simp: updateTaskStatus_other)
  qed
  then show ?thesis unfolding run using x by (cases ?u) auto
qed

text \<open>What the queue scheduler, which a cancellation of a running task calls, may do: start, fail or leave queued tasks.\<close>

definition quiet_queue :: "rt_env \<Rightarrow> bool" where
  "quiet_queue env \<longleftrightarrow> (\<forall>d. calm d (process_queue env d))"

lemma told_while_evaluating:
  assumes "evaluating w d" and "row_of d y = Some r" and "length y = 36" and "col r ''workflow_id'' = JStr w"
  shows "\<exists>d1. handleWorkflowTermination n env y d = (Inr (), d1) \<and> calm d d1 \<and> status_of d1 y = status_of d y"
proof -
  have same: "calm d (add_pending w y d)" "status_of (add_pending w y d) y = status_of d y"
    by (simp_all add: add_pending_def Let_def calm_def other_tables_def workflow_of_def status_of_def row_of_def)
  have get: "getTask y d = Inr (Some (parse_task_row r))" using full_read [of d y] assms(1-3) by (simp add: evaluating_def)
  have "handleWorkflowTermination n env y d = (Inr (), d) \<or> handleWorkflowTermination n env y d = (Inr (), add_pending w y d)"
    using assms(1,4)
    by (auto simp: handleWorkflowTermination_def read_run_def get task_col_def str_of_def evaluating_def Let_def split: option.split)
  with same show ?thesis by auto
qed

lemma cancel_step:
  assumes "quiet_queue env" and "evaluating w d" and "row_of d y = Some r" and "col r ''status'' = JStr ''running''"
    and "col r ''workflow_id'' = JStr w" and "length y = 36"
  shows "\<exists>d1. catch_run (cancel_running (runtime_env (Suc k) env) y reason d) False = (Inr True, d1) \<and> calm d d1 \<and>
    \<not> cascades (status_of d1 y)"
proof -
  let ?T = "handleWorkflowTermination k (runtime_env k env)"
  define c where "c = cancel_reason_of reason workflow_cascade"
  define s where "s = resolveCancellationTerminalState c reason workflow_cascade"
  have closed: "\<not> dbClosed d" using assms(2) by (simp add: evaluating_def)
  have open_row: "cancellable (col r ''status'')" "\<not> is_terminal (col r ''status'')" "\<not> is_nullish (col r ''status'')"
    using assms(4) by (simp_all add: cancellable_def is_terminal_def TERMINAL_TASK_STATUS_VALUES_def)
  obtain d1 out e where d1: "closes y s c out e d d1"
    and run: "cancelTask env ?T y reason workflow_cascade d = then_run (?T y d1) (\<lambda>_ d2. (Inr True, process_queue env d2))"
  proof (cases "running_process env y d")
    case None
    from cancel_row [OF closed assms(3,6) None c_def s_def] open_row(1) assms(4) that show thesis by auto
  next
    case (Some proc)
    from cancel_process [OF closed assms(3,6) Some c_def s_def open_row(3)] open_row(2) that show thesis by auto
  qed
  from d1 assms(3) obtain r1 where r1: "row_of d1 y = Some r1" "col r1 ''status'' = JStr s" "col r1 ''workflow_id'' = JStr w"
    "\<forall>j. j \<noteq> y \<longrightarrow> row_of d1 j = row_of d j" "other_tables d1 = other_tables d"
    using assms(5) by (auto simp: closes_def)
  have "\<not> cascades (Some (col r1 ''status''))"
    using terminal_states [OF s_def] r1(2) by (auto simp: cascades_def CASCADED_def)
  with calm_write [OF assms(3) r1(1) _ _ r1(4,5)] r1(3) assms(5) have calm1: "calm d d1" "\<not> cascades (status_of d1 y)" by auto
  obtain d2 where d2: "?T y d1 = (Inr (), d2)" "calm d1 d2" "status_of d2 y = status_of d1 y"
    using told_while_evaluating [OF calm_evaluating [OF calm1(1) assms(2)] r1(1) assms(6) r1(3)] by blast
  have q: "calm d2 (process_queue env d2)" using assms(1) by (simp add: quiet_queue_def)
  have "\<not> cascades (status_of (process_queue env d2) y)" using q calm1(2) d2(3) by (auto simp: calm_def)
  moreover have "cancel_running (runtime_env (Suc k) env) y reason d = (Inr True, process_queue env d2)"
    by (simp add: run d2(1))
  ultimately show ?thesis using calm1(1) d2(2) q by (auto intro: calm_trans)
qed

text \<open>No task that depends on a task visited on the way can still be cascaded into.\<close>

definition cascaded :: "dep_row list \<Rightarrow> string list \<Rightarrow> string list \<Rightarrow> tdb \<Rightarrow> bool" where
  "cascaded ds v v' d \<longleftrightarrow> set v \<subseteq> set v' \<and>
     (\<forall>e \<in> set ds. dep_on e \<in> set v' - set v \<longrightarrow> \<not> cascades (status_of d (dep_task e)))"

lemma cascaded_trans:
  "cascaded ds v1 v2 d2 \<Longrightarrow> calm d2 d3 \<Longrightarrow> cascaded ds v2 v3 d3 \<Longrightarrow> cascaded ds v1 v3 d3"
  by (auto simp: cascaded_def calm_def)

definition whole_ids :: "dep_row list \<Rightarrow> bool" where
  "whole_ids ds \<longleftrightarrow> (\<forall>e \<in> set ds. length (dep_task e) = 36)"

text \<open>What the recursion of the cascade does for one dependent.\<close>

definition cascade_ok :: "(string \<Rightarrow> string list \<Rightarrow> tdb \<Rightarrow> string list run) \<Rightarrow> string \<Rightarrow> dep_row list \<Rightarrow> string \<Rightarrow> string list \<Rightarrow> bool" where
  "cascade_ok rec w ds t v \<longleftrightarrow> (\<forall>d. evaluating w d \<longrightarrow> deps d = ds \<longrightarrow> workflow_of d t = Some (JStr w) \<longrightarrow>
     (\<exists>v' d'. rec t v d = (Inr v', d') \<and> calm d d' \<and> cascaded ds v v' d'))"

lemma cascade_step:
  assumes env: "quiet_queue env" "e = runtime_env (Suc k) env" and "whole_ids ds" and "evaluating w d" and "deps d = ds"
    and "fst dep \<in> set ds" and "workflow_of d (dep_on (fst dep)) = Some (JStr w)"
    and rec: "cascade_ok rec w ds (dep_task (fst dep)) v"
  shows "\<exists>v' d'. cascade_to e rec reason dep v d = (Inr v', d') \<and> calm d d' \<and> cascaded ds v v' d' \<and>
    \<not> cascades (status_of d' (dep_task (fst dep)))"
proof -
  let ?y = "dep_task (fst dep)"
  have y: "length ?y = 36" using assms(3,6) by (simp add: whole_ids_def)
  have closed: "\<not> dbClosed d" using assms(4) by (simp add: evaluating_def)
  note get = full_read [OF closed y]
  show ?thesis
  proof (cases "row_of d ?y")
    case None
    with get show ?thesis
      by (simp add: cascade_to_def Let_def read_run_def cascaded_def status_of_def cascades_def)
  next
    case (Some r)
    note g = get [unfolded Some]
    have w: "workflow_of d ?y = Some (JStr w)" by (rule dependent_workflow [OF assms(4)]) (use assms(5-7) Some in auto)
    then have rw: "col r ''workflow_id'' = JStr w" using Some by (simp add: workflow_of_def)
    have chain: ?thesis if first: "cascade_to e rec reason dep v d = rec ?y v d1" and d1: "calm d d1" "\<not> cascades (status_of d1 ?y)" for d1
    proof -
      have "workflow_of d1 ?y = Some (JStr w)" "deps d1 = ds" using d1(1) w assms(5) calm_tables by (auto simp: calm_def)
      then obtain v' d' where r: "rec ?y v d1 = (Inr v', d')" "calm d1 d'" "cascaded ds v v' d'"
        using rec calm_evaluating [OF d1(1) assms(4)] by (auto simp: cascade_ok_def)
      with d1 first show ?thesis by (metis calm_def calm_trans)
    qed
    consider (running) "col r ''status'' = JStr ''running''" | (listed) "col r ''status'' \<noteq> JStr ''running''" "col r ''status'' \<in> JStr ` set CASCADED"
      | (other) "col r ''status'' \<noteq> JStr ''running''" "col r ''status'' \<notin> JStr ` set CASCADED" by blast
    then show ?thesis
    proof cases
      case running
      obtain d1 where c: "catch_run (cancel_running e ?y reason d) False = (Inr True, d1)" "calm d d1" "\<not> cascades (status_of d1 ?y)"
        using cancel_step [OF env(1) assms(4) Some running rw y, of k reason] env(2) by blast
      show ?thesis by (rule chain [OF _ c(2,3)]) (simp add: cascade_to_def Let_def read_run_def g running c(1))
    next
      case listed
      obtain x d1 where c: "clearTaskBlockerSnapshot e ?y ''failed'' [(''error_output'', JStr reason)] d = (Inr x, d1)"
        "calm d d1" "\<not> cascades (status_of d1 ?y)"
        using clear_open [OF closed y Some listed(2), of e reason] by blast
      show ?thesis by (rule chain [OF _ c(2,3)]) (use listed in \<open>simp add: cascade_to_def Let_def read_run_def g c(1)\<close>)
    next
      case other
      then show ?thesis
        using Some by (simp add: cascade_to_def Let_def read_run_def g cascaded_def status_of_def cascades_def image_iff)
    qed
  qed
qed

lemma cascade_loop:
  assumes env: "quiet_queue env" "e = runtime_env (Suc k) env" and "whole_ids ds" and "evaluating w d" and "deps d = ds"
    and "\<forall>x \<in> set es. fst x \<in> set ds \<and> dep_on (fst x) = t" and "workflow_of d t = Some (JStr w)"
    and rec: "\<And>x v. x \<in> set ds \<Longrightarrow> set v0 \<subseteq> set v \<Longrightarrow> cascade_ok rec w ds (dep_task x) v"
    and "set v0 \<subseteq> set v"
  shows "\<exists>v' d'. loop_run (cascade_to e rec reason) es v d = (Inr v', d') \<and> calm d d' \<and> cascaded ds v v' d' \<and>
    (\<forall>x \<in> set es. \<not> cascades (status_of d' (dep_task (fst x))))"
  using assms(4-7,9)
proof (induction es arbitrary: v d)
  case Nil
  then show ?case by (simp add: cascaded_def)
next
  case (Cons dep es)
  have dep: "fst dep \<in> set ds" "workflow_of d (dep_on (fst dep)) = Some (JStr w)" using Cons.prems(3,4) by auto
  obtain v1 d1 where one: "cascade_to e rec reason dep v d = (Inr v1, d1)" "calm d d1" "cascaded ds v v1 d1"
    "\<not> cascades (status_of d1 (dep_task (fst dep)))"
    using cascade_step [OF env assms(3) Cons.prems(1,2) dep rec [OF dep(1) Cons.prems(5)]] by blast
  have "set v0 \<subseteq> set v1" "deps d1 = ds" "evaluating w d1" "workflow_of d1 t = Some (JStr w)"
    using one(2,3) Cons.prems calm_tables [OF one(2)] calm_evaluating [OF one(2)] by (auto simp: cascaded_def calm_def)
  with Cons.IH [of d1 v1] Cons.prems(3) obtain v' d' where
    rest: "loop_run (cascade_to e rec reason) es v1 d1 = (Inr v', d')" "calm d1 d'" "cascaded ds v1 v' d'"
      "\<forall>x \<in> set es. \<not> cascades (status_of d' (dep_task (fst x)))" by auto
  have "\<not> cascades (status_of d' (dep_task (fst dep)))" using one(4) rest(2) by (auto simp: calm_def)
  with one rest calm_trans [OF one(2) rest(2)] cascaded_trans [OF one(3) rest(2,3)] show ?case by simp
qed

lemma cascade_run:
  assumes env: "quiet_queue env" "e = runtime_env (Suc k) env" and "whole_ids ds"
  shows "card (insert t (dep_task ` set ds) - set v) < n \<Longrightarrow> evaluating w d \<Longrightarrow> deps d = ds \<Longrightarrow> workflow_of d t = Some (JStr w) \<Longrightarrow>
    \<exists>v' d'. cancelDependentTasks n e reason t v d = (Inr v', d') \<and> calm d d' \<and> cascaded ds v v' d' \<and> t \<in> set v'"
proof (induction n arbitrary: t v d)
  case (Suc n)
  let ?N = "dep_task ` set ds"
  show ?case
  proof (cases "t \<in> set v")
    case True
    then show ?thesis by (simp add: cascaded_def)
  next
    case False
    let ?es = "getTaskDependents t d"
    have es: "fst ` set ?es = {x \<in> set ds. dep_on x = t}" using Suc.prems(3) by (auto simp: getTaskDependents_def image_image)
    have rec: "cascade_ok (cancelDependentTasks n e reason) w ds (dep_task x) v1"
      if "x \<in> set ds" "set (t # v) \<subseteq> set v1" for x v1
    proof -
      have "insert (dep_task x) ?N - set v1 \<subset> insert t ?N - set v" using that False by auto
      then have "card (insert (dep_task x) ?N - set v1) < card (insert t ?N - set v)" by (intro psubset_card_mono) auto
      with Suc.IH [of "dep_task x" v1] Suc.prems(1) show ?thesis by (fastforce simp: cascade_ok_def)
    qed
    have in_ds: "\<forall>x \<in> set ?es. fst x \<in> set ds \<and> dep_on (fst x) = t" using es by blast
    from cascade_loop [where rec = "cancelDependentTasks n e reason", OF env assms(3) Suc.prems(2,3) in_ds Suc.prems(4) rec subset_refl]
    obtain v' d' where
      r: "loop_run (cascade_to e (cancelDependentTasks n e reason) reason) ?es (t # v) d = (Inr v', d')" "calm d d'"
        "cascaded ds (t # v) v' d'" "\<forall>x \<in> set ?es. \<not> cascades (status_of d' (dep_task (fst x)))" by blast
    have "\<not> cascades (status_of d' (dep_task x))" if "x \<in> set ds" "dep_on x = t" for x
    proof -
      have "x \<in> fst ` set ?es" using that es by blast
      with r(4) show ?thesis by auto
    qed
    with r(3) have "cascaded ds v v' d'" by (auto simp: cascaded_def)
    with r False show ?thesis by (auto simp: cascaded_def)
  qed
qed simp

section \<open>Properties\<close>


definition by_user :: cancel_options where
  "by_user = \<lparr>opt_reason = None, opt_terminal = None, opt_force = False, opt_abandon = False\<rparr>"



text \<open>A failed task, a running dependent and a blocked one below it, while their workflow is evaluated.\<close>

definition cascade_db :: tdb where
  "cascade_db = flow_db\<lparr>terminalGuards := [''w''], tasks :=
     [[(''id'', JStr (uid CHR ''a'')), (''status'', JStr ''failed''), (''workflow_id'', JStr ''w'')],
      [(''id'', JStr (uid CHR ''b'')), (''status'', JStr ''running''), (''workflow_id'', JStr ''w'')],
      [(''id'', JStr (uid CHR ''c'')), (''status'', JStr ''blocked''), (''workflow_id'', JStr ''w'')]],
     deps := map (\<lambda>(n, t, p). \<lparr>dep_id = n, dep_workflow = ''w'', dep_task = uid t, dep_on = uid p, dep_condition = None,
         dep_on_fail = Some ''cancel'', dep_alternate = None, dep_created = 0\<rparr>) [(1, CHR ''b'', CHR ''a''), (2, CHR ''c'', CHR ''b'')]\<rparr>"


end
