(* ===== verification/Provider_Capabilities.thy ===== *)
theory Provider_Capabilities
  imports Task_Store Condition_Eval
begin

text \<open>
  What the scheduler asks about providers and projects: the capability profiles and quality gates of
  \<open>server/db/provider/capabilities.js\<close>, and from \<open>server/factory/automation-readiness.js\<close> whether a task
  belongs to a registered factory project and whether factory work is switched on.

  \<open>providers\<close> are the rows of \<open>provider_config\<close>. The cache of capability sets is passed along:
  \<open>getProviderCapabilitySet\<close> fills it and only \<open>setDb\<close> empties it. \<open>RegExp\<close> matching of the capability
  patterns is the parameter \<open>word_match\<close>.
\<close>

section \<open>Profiles\<close>

definition DEFAULT_CAPABILITIES :: "(string \<times> string list \<times> string) list" where
  "DEFAULT_CAPABILITIES =
    [(''codex'', [''file_creation'', ''file_edit'', ''multi_file'', ''reasoning''], ''A''),
     (''claude-cli'', [''file_creation'', ''file_edit'', ''multi_file'', ''reasoning''], ''A''),
     (''claude-code-sdk'', [''file_creation'', ''file_edit'', ''multi_file'', ''reasoning''], ''A''),
     (''deepinfra'', [''reasoning'', ''large_context'', ''code_review''], ''B''),
     (''ollama-cloud'', [''file_creation'', ''file_edit'', ''multi_file'', ''reasoning'', ''large_context'',
        ''code_review''], ''B''),
     (''hyperbolic'', [''reasoning'', ''large_context''], ''B''),
     (''anthropic'', [''reasoning'', ''code_review''], ''B''),
     (''ollama'', [''reasoning'', ''code_review''], ''C''),
     (''openrouter'', [''reasoning'', ''code_review''], ''C''),
     (''groq'', [], ''D''), (''cerebras'', [], ''D''), (''google-ai'', [], ''D'')]"

definition BAND_ORDER :: "string \<Rightarrow> nat" where
  "BAND_ORDER band = (case map_of [(''A'', 0), (''B'', 1), (''C'', 2), (''D'', 3)] band of
     None \<Rightarrow> 99 | Some n \<Rightarrow> n)"

definition QUALITY_GATES :: "(string \<times> string list) list" where
  "QUALITY_GATES = [(''complex'', [''A'', ''B'']), (''normal'', [''A'', ''B'', ''C'']), (''simple'', [''A'', ''B'', ''C''])]"

definition VALID_PROVIDER_TRANSPORTS :: "string list" where
  "VALID_PROVIDER_TRANSPORTS = [''api'', ''cli'', ''hybrid'']"

definition normalizeProviderTransport :: "jsval \<Rightarrow> jsval \<Rightarrow> string" where
  "normalizeProviderTransport rawTransport providerId =
     (let normalized = (case rawTransport of JStr s \<Rightarrow> js_lower (js_trim s) | _ \<Rightarrow> []) in
      if normalized \<in> set VALID_PROVIDER_TRANSPORTS then normalized
      else if providerId = JStr ''codex'' then ''hybrid''
      else if providerId = JStr ''claude-cli'' \<or> providerId = JStr ''claude-code-sdk'' then ''cli''
      else ''api'')"

definition enrichProviderRow :: "db_row \<Rightarrow> db_row" where
  "enrichProviderRow r = set_cols
     [(''quota_error_patterns'', js_coalesce (col r ''quota_error_patterns'') (JArr [])),
      (''enabled'', JBool (js_truthy (col r ''enabled''))),
      (''transport'', JStr (normalizeProviderTransport (col r ''transport'') (col r ''provider'')))] r"

definition getProvider :: "db_row list \<Rightarrow> string \<Rightarrow> db_row option" where
  "getProvider providers p = map_option enrichProviderRow (List.find (\<lambda>r. col r ''provider'' = JStr p) providers)"

definition listProviders :: "db_row list \<Rightarrow> db_row list" where
  "listProviders providers = map enrichProviderRow (sort_key (\<lambda>r. num_of (col r ''priority'')) providers)"

definition getProviderCapabilities :: "db_row list \<Rightarrow> string \<Rightarrow> jsval list" where
  "getProviderCapabilities providers p =
     (let tags = (case getProvider providers p of None \<Rightarrow> JNull | Some c \<Rightarrow> col c ''capability_tags'') in
      case tags of
        JArr vs \<Rightarrow> vs
      | _ \<Rightarrow> (case map_of DEFAULT_CAPABILITIES p of None \<Rightarrow> [] | Some (caps, _) \<Rightarrow> map JStr caps))"

definition getQualityBand :: "db_row list \<Rightarrow> string \<Rightarrow> string" where
  "getQualityBand providers p =
     (let band = (case getProvider providers p of None \<Rightarrow> JNull | Some c \<Rightarrow> col c ''quality_band'') in
      if js_truthy band then str_of band
      else case map_of DEFAULT_CAPABILITIES p of None \<Rightarrow> ''D'' | Some (_, b) \<Rightarrow> b)"

definition meetsCapabilityRequirements :: "db_row list \<Rightarrow> string \<Rightarrow> jsval list \<Rightarrow> bool" where
  "meetsCapabilityRequirements providers p requirements =
     list_all (\<lambda>r. r \<in> set (getProviderCapabilities providers p)) requirements"

type_synonym cap_cache = "(string \<times> jsval list) list"

definition getProviderCapabilitySet :: "db_row list \<Rightarrow> string \<Rightarrow> cap_cache \<Rightarrow> jsval list \<times> cap_cache" where
  "getProviderCapabilitySet providers p cache =
     (case map_of cache p of
        Some caps \<Rightarrow> (caps, cache)
      | None \<Rightarrow> (let s = getProviderCapabilities providers p in (s, AList.update p s cache)))"

definition passesQualityGate :: "string \<Rightarrow> jsval \<Rightarrow> bool" where
  "passesQualityGate band qualityTier =
     (case map_of QUALITY_GATES (str_of qualityTier) of None \<Rightarrow> False | Some gate \<Rightarrow> band \<in> set gate)"

section \<open>Requirements and eligible providers\<close>

definition CAPABILITY_PATTERNS :: "(string \<times> string) list" where
  "CAPABILITY_PATTERNS =
    [(''create|write new|generate new|scaffold|new file'', ''file_creation''),
     (''modify|edit|fix|update|patch|change|refactor'', ''file_edit''),
     (''multi.?file|across .*(files|modules)|refactor across|rename across'', ''multi_file''),
     (''review|analyze|audit|inspect|examine|assess'', ''code_review''),
     (''review|analyze|architect|design|reason|debug|investigate'', ''reasoning''),
     (''large context|many files|entire codebase|full project'', ''large_context'')]"

text \<open>\<open>word_match\<close> is \<open>/\b(...)\b/i.test\<close>; the result lists a capability once, in table order.\<close>

definition inferCapabilityRequirements :: "(string \<Rightarrow> string \<Rightarrow> bool) \<Rightarrow> string \<Rightarrow> string list" where
  "inferCapabilityRequirements word_match taskDescription =
     map snd (filter (\<lambda>(pattern, _). word_match pattern taskDescription) CAPABILITY_PATTERNS)"

definition generateEligibleProviders ::
  "db_row list \<Rightarrow> jsval list \<Rightarrow> jsval \<Rightarrow> (string \<Rightarrow> rat) \<Rightarrow> string list" where
  "generateEligibleProviders providers capabilityRequirements qualityTier empiricalRank =
     (let usable = (\<lambda>p. getQualityBand providers p \<noteq> ''D''
            \<and> passesQualityGate (getQualityBand providers p) qualityTier
            \<and> meetsCapabilityRequirements providers p capabilityRequirements
            \<and> (case getProvider providers p of None \<Rightarrow> True | Some c \<Rightarrow> js_truthy (col c ''enabled''))) in
      sort_key (\<lambda>p. (BAND_ORDER (getQualityBand providers p), empiricalRank p))
        (filter usable (map fst DEFAULT_CAPABILITIES)))"

section \<open>Factory projects\<close>

fun parseBoolConfigValue :: "jsval \<Rightarrow> bool \<Rightarrow> bool" where
  "parseBoolConfigValue v fallback =
     (if is_nullish v \<or> v = JStr [] then fallback
      else case v of
          JBool b \<Rightarrow> b
        | JNum q \<Rightarrow> q \<noteq> 0
        | _ \<Rightarrow> (let normalized = js_lower (js_trim (js_string v)) in
            if normalized \<in> set [''1'', ''true'', ''yes'', ''on'', ''enabled''] then True
            else if normalized \<in> set [''0'', ''false'', ''no'', ''off'', ''disabled''] then False
            else fallback))"

text \<open>\<open>raw\<close> is \<open>getConfig('factory_project_work_enabled')\<close>; the database facade has no \<open>getBool\<close>.\<close>

definition isFactoryProjectWorkEnabled :: "jsval \<Rightarrow> bool" where
  "isFactoryProjectWorkEnabled raw = parseBoolConfigValue raw True"

text \<open>A tags column that is no JSON array is kept as its text and read as a comma-separated list.\<close>

definition getTaskTags :: "db_row \<Rightarrow> string list" where
  "getTaskTags task =
     (case col task ''tags'' of
        JArr vs \<Rightarrow> map js_string vs
      | JStr s \<Rightarrow> if js_trim s = [] then [] else filter (\<lambda>t. t \<noteq> []) (map js_trim (split_on CHR '','' s))
      | _ \<Rightarrow> [])"

definition getFactoryTagValue :: "string list \<Rightarrow> string \<Rightarrow> string option" where
  "getFactoryTagValue tags prefix =
     map_option (\<lambda>t. js_trim (drop (length prefix) t)) (List.find (starts_with prefix) tags)"

definition is_hex_char :: "char \<Rightarrow> bool" where
  "is_hex_char c = (is_digit_char c \<or> lower_char c \<in> set ''abcdef'')"

text \<open>\<open>/^factory-([0-9a-f]{8}-[0-9a-f]{4}-[0-9a-f]{4}-[0-9a-f]{4}-[0-9a-f]{12})-/i\<close>\<close>

definition batch_project :: "string \<Rightarrow> string option" where
  "batch_project s =
     (let u = take 36 (drop 8 s) in
      if js_lower (take 8 s) = ''factory-'' \<and> length s > 44 \<and> s ! 44 = CHR ''-'' \<and>
         list_all (\<lambda>i. if i \<in> {8, 13, 18, 23} then u ! i = CHR ''-'' else is_hex_char (u ! i)) [0..<36]
      then Some u else None)"

record factory_signal =
  signal_project :: "string option"
  matched_by :: string

definition trimmed_field :: "jsobj \<Rightarrow> string \<Rightarrow> string" where
  "trimmed_field o' k = js_trim (str_of (obj_get o' k))"

definition some_text :: "string \<Rightarrow> string option" where
  "some_text s = (if s = [] then None else Some s)"

definition getFactoryProjectSignal :: "db_row \<Rightarrow> factory_signal option" where
  "getFactoryProjectSignal task =
     (let tags = getTaskTags task;
          direct = getFactoryTagValue tags ''factory:project_id='';
          batchId = getFactoryTagValue tags ''factory:batch_id='';
          metadata = normalizeMetadata (col task ''metadata'');
          factoryProjectId = trimmed_field metadata ''factory_project_id'' in
      if str_truthy direct then Some \<lparr>signal_project = direct, matched_by = ''factory_project_tag''\<rparr>
      else if str_truthy batchId
      then Some \<lparr>signal_project = batch_project (the batchId), matched_by = ''factory_batch_tag''\<rparr>
      else if factoryProjectId \<noteq> []
      then Some \<lparr>signal_project = Some factoryProjectId, matched_by = ''factory_project_metadata''\<rparr>
      else if list_ex (starts_with ''factory:'') tags \<or> obj_get metadata ''factory_internal'' = JBool True
      then Some \<lparr>signal_project = some_text (trimmed_field metadata ''project_id''), matched_by = ''factory_task_signal''\<rparr>
      else None)"

text \<open>\<open>projects\<close> are the rows of \<open>factory_projects\<close>.\<close>

definition listRegisteredFactoryProjects :: "db_row list \<Rightarrow> db_row list" where
  "listRegisteredFactoryProjects projects =
     filter (\<lambda>r. col r ''id'' \<noteq> JNull \<or> col r ''name'' \<noteq> JNull \<or> col r ''path'' \<noteq> JNull) projects"

definition strip_slashes :: "string \<Rightarrow> string" where
  "strip_slashes s = rev (dropWhile (\<lambda>c. c \<in> {CHR ''/'', CHR 0x5C}) (rev s))"

definition normalizePathKey :: "platform \<Rightarrow> jsval \<Rightarrow> string option" where
  "normalizePathKey pf v =
     (case v of
        JStr s \<Rightarrow> if js_trim s = [] then None
                  else Some (path_key pf (strip_slashes (path_normalize pf (js_trim s))))
      | _ \<Rightarrow> None)"

definition pathMatchesRegisteredProject :: "platform \<Rightarrow> jsval \<Rightarrow> jsval \<Rightarrow> bool" where
  "pathMatchesRegisteredProject pf workingDirectory projectPath =
     (case (normalizePathKey pf workingDirectory, normalizePathKey pf projectPath) of
        (Some wdKey, Some projectKey) \<Rightarrow>
          wdKey \<noteq> [] \<and> projectKey \<noteq> [] \<and>
          (wdKey = projectKey \<or>
           starts_with (projectKey @ (if CHR 0x5C \<in> set projectKey then [CHR 0x5C] else path_sep pf)) wdKey)
      | _ \<Rightarrow> False)"

definition findRegisteredProjectBySignal :: "db_row list \<Rightarrow> factory_signal \<Rightarrow> db_row option" where
  "findRegisteredProjectBySignal projects sig =
     (let signalKey = (case signal_project sig of None \<Rightarrow> [] | Some p \<Rightarrow> js_trim p);
          key = (\<lambda>v. js_lower (js_trim (js_string (js_or v (JStr []))))) in
      if signalKey = [] then None
      else List.find (\<lambda>r. key (col r ''id'') = js_lower signalKey \<or> key (col r ''name'') = js_lower signalKey) projects)"

fun best_path_match :: "platform \<Rightarrow> jsval \<Rightarrow> (db_row \<times> nat) option \<Rightarrow> db_row list \<Rightarrow> db_row option" where
  "best_path_match pf wd best [] = map_option fst best"
| "best_path_match pf wd best (r # rs) =
     (let n = (case normalizePathKey pf (col r ''path'') of None \<Rightarrow> 0 | Some k \<Rightarrow> length k) in
      if \<not> js_truthy (col r ''path'') \<or> \<not> pathMatchesRegisteredProject pf wd (col r ''path'')
      then best_path_match pf wd best rs
      else if (case best of None \<Rightarrow> True | Some (_, m) \<Rightarrow> m < n) then best_path_match pf wd (Some (r, n)) rs
      else best_path_match pf wd best rs)"

definition resolveRegisteredFactoryProjectTask :: "platform \<Rightarrow> db_row list \<Rightarrow> db_row \<Rightarrow> (jsval \<times> string) option" where
  "resolveRegisteredFactoryProjectTask pf projects task =
     (let rows = listRegisteredFactoryProjects projects in
      case getFactoryProjectSignal task of
        Some sig \<Rightarrow> Some (case findRegisteredProjectBySignal rows sig of
            Some r \<Rightarrow> (col r ''id'', matched_by sig)
          | None \<Rightarrow> (js_of_str_option (signal_project sig), matched_by sig))
      | None \<Rightarrow>
          if \<not> js_truthy (col task ''working_directory'') \<or> rows = [] then None
          else map_option (\<lambda>r. (col r ''id'', ''registered_project_path''))
            (best_path_match pf (col task ''working_directory'') None rows))"

definition isRegisteredFactoryProjectTask :: "platform \<Rightarrow> db_row list \<Rightarrow> db_row \<Rightarrow> bool" where
  "isRegisteredFactoryProjectTask pf projects task = (resolveRegisteredFactoryProjectTask pf projects task \<noteq> None)"

end
