(* ===== verification/Shared_Store.thy ===== *)
theory Shared_Store
  imports Condition_Eval "HOL-Library.Product_Lexorder"
begin

text \<open>
  The database that several factory projects on one machine share, \<open>server/db/shared-factory-store.js\<close>:
  learnings about providers, claims on provider slots and the demand each project reports.

  A record handed to the store is a JavaScript object; its fields may be spelled in snake or camel
  case. Instants (\<open>toISOString\<close>) are their milliseconds, as in \<open>Task_Store\<close>, so a text that is no
  instant is one that does not parse. JSON columns hold their parsed value. \<open>share_env\<close> is the world of
  one call: the clock, \<open>crypto.randomUUID\<close> and \<open>JSON.parse\<close>. Every write runs in a transaction: when it
  throws, the tables are as before.

  Lemmas: the keys of the three tables stay unique, and the status of a claim tells which of its
  columns are filled (\<open>share_ok\<close>), through every sequence of operations.
\<close>

section \<open>Data\<close>

datatype share_error = Required string | Bad_timestamp string | Bad_json | Invalid_time | Constraint_failed

record share_env =
  sh_now :: int
  sh_uuid :: string
  sh_parse :: "string \<Rightarrow> jsval option"

record learning =
  learning_id :: string
  signal_type :: string
  scope_key :: string
  learning_provider :: string
  tech_stack :: string
  failure_pattern :: string
  confidence :: rat
  sample_count :: nat
  project_source :: string
  learning_payload :: jsval
  first_seen_at :: int
  last_seen_at :: int
  learning_expires :: int
  learning_updated :: int

record claim_row =
  claim_id :: string
  claim_project :: string
  claim_provider :: string
  claim_task :: string
  claim_type :: string
  claimed_by :: "string option"
  claim_status :: string
  claim_payload :: jsval
  claimed_at :: int
  claim_expires :: int
  released_at :: "int option"
  release_reason :: "string option"
  claim_updated :: int

record demand_row =
  demand_project :: string
  demand_name :: "string option"
  demand_provider :: string
  queued_count :: nat
  running_count :: nat
  priority_sum :: nat
  demand_payload :: jsval
  reported_at :: int
  demand_expires :: int
  demand_updated :: int

record share_store =
  learnings :: "learning list"
  share_claims :: "claim_row list"
  share_demands :: "demand_row list"

fun then_ok :: "'e + 'a \<Rightarrow> ('a \<Rightarrow> 'e + 'b) \<Rightarrow> 'e + 'b" where
  "then_ok (Inl e) f = Inl e"
| "then_ok (Inr a) f = f a"

lemma then_ok_Inr: "then_ok x f = Inr b \<longleftrightarrow> (\<exists>a. x = Inr a \<and> f a = Inr b)"
  by (cases x) simp_all

section \<open>Normalisation\<close>

definition normalizeRequiredString :: "string \<Rightarrow> jsval \<Rightarrow> share_error + string" where
  "normalizeRequiredString name v =
     (let normalized = (case v of JStr s \<Rightarrow> js_trim s | _ \<Rightarrow> []) in
      if normalized = [] then Inl (Required name) else Inr normalized)"

definition normalizeOptionalString :: "jsval \<Rightarrow> string option" where
  "normalizeOptionalString v =
     (case v of JStr s \<Rightarrow> if js_trim s = [] then None else Some (js_trim s) | _ \<Rightarrow> None)"

definition normalizeIsoTimestamp :: "jsval \<Rightarrow> string \<Rightarrow> share_error + int option" where
  "normalizeIsoTimestamp v name =
     (case v of JNum q \<Rightarrow> Inr (Some (floor q))
      | JUndef \<Rightarrow> Inr None
      | JNull \<Rightarrow> Inr None
      | JStr s \<Rightarrow> if s = [] then Inr None else Inl (Bad_timestamp name)
      | _ \<Rightarrow> Inl (Bad_timestamp name))"

definition isoNow :: "share_env \<Rightarrow> jsval \<Rightarrow> share_error + int" where
  "isoNow env v =
     (case v of JNum q \<Rightarrow> Inr (floor q)
      | JStr s \<Rightarrow> if js_trim s = [] then Inr (sh_now env) else Inl (Bad_timestamp ''now'')
      | _ \<Rightarrow> Inr (sh_now env))"

definition clampConfidence :: "jsval \<Rightarrow> rat" where
  "clampConfidence v = (case js_number v of Fin q \<Rightarrow> if q < 0 then 0 else if 1 < q then 1 else q | _ \<Rightarrow> 0)"

text \<open>\<open>Math.max(0, Math.trunc(q))\<close>\<close>

definition trunc_count :: "rat \<Rightarrow> nat" where
  "trunc_count q = nat (floor q)"

definition normalizeCount :: "jsval \<Rightarrow> nat \<Rightarrow> nat" where
  "normalizeCount v fallback = (case js_number v of Fin q \<Rightarrow> trunc_count q | _ \<Rightarrow> fallback)"

definition normalizeJson :: "share_env \<Rightarrow> jsval \<Rightarrow> share_error + jsval" where
  "normalizeJson env v =
     (if is_nullish v \<or> v = JStr [] then Inr (JObj [])
      else case v of
          JStr s \<Rightarrow> (case sh_parse env s of None \<Rightarrow> Inl Bad_json | Some parsed \<Rightarrow> Inr parsed)
        | _ \<Rightarrow> Inr v)"

text \<open>\<open>record.a ?? record.b ?? record.c\<close>\<close>

fun first_given :: "jsobj \<Rightarrow> string list \<Rightarrow> jsval" where
  "first_given r [] = JUndef"
| "first_given r [k] = obj_get r k"
| "first_given r (k # ks) = js_coalesce (obj_get r k) (first_given r ks)"

text \<open>\<open>record.ttlMs ?? (record.ttlSeconds ? Number(record.ttlSeconds) * 1000 : undefined)\<close>\<close>

definition ttl_of :: "jsobj \<Rightarrow> jsval" where
  "ttl_of r = js_coalesce (obj_get r ''ttlMs'')
     (if js_truthy (obj_get r ''ttlSeconds'')
      then (case js_number (obj_get r ''ttlSeconds'') of Fin q \<Rightarrow> JNum (q * 1000) | _ \<Rightarrow> JUndef) else JUndef)"

definition MAX_TIME :: rat where
  "MAX_TIME = 8640000000000000"

definition computeExpiresAt :: "jsval \<Rightarrow> jsval \<Rightarrow> rat \<Rightarrow> int \<Rightarrow> share_error + int" where
  "computeExpiresAt expiresAt ttlMs defaultTtlMs now =
     then_ok (normalizeIsoTimestamp expiresAt ''expires_at'') (\<lambda>explicit. case explicit of
         Some t \<Rightarrow> Inr t
       | None \<Rightarrow>
           let effectiveTtl = (case js_number ttlMs of Fin q \<Rightarrow> if 0 < q then q else defaultTtlMs | _ \<Rightarrow> defaultTtlMs);
               t = of_int now + effectiveTtl in
           if MAX_TIME < \<bar>t\<bar> then Inl Invalid_time else Inr (if 0 \<le> t then floor t else ceiling t))"

definition DEFAULT_LEARNING_TTL_MS :: rat where
  "DEFAULT_LEARNING_TTL_MS = 1000 * 60 * 60 * 24 * 30"

definition DEFAULT_CLAIM_TTL_MS :: rat where
  "DEFAULT_CLAIM_TTL_MS = 1000 * 60 * 30"

definition DEFAULT_DEMAND_TTL_MS :: rat where
  "DEFAULT_DEMAND_TTL_MS = 1000 * 60 * 5"

definition default_signal :: "jsval \<Rightarrow> string" where
  "default_signal v = (case normalizeOptionalString v of None \<Rightarrow> ''provider_failure_rate'' | Some s \<Rightarrow> s)"

text \<open>The scope key and the stack of a learning each default to the other.\<close>

definition learning_scope :: "jsobj \<Rightarrow> string option \<times> string option" where
  "learning_scope r =
     (let rawScopeKey = normalizeOptionalString (first_given r [''scope_key'', ''scopeKey'']);
          stack = (case normalizeOptionalString (first_given r [''tech_stack'', ''techStack'']) of
             Some s \<Rightarrow> Some s
           | None \<Rightarrow> (case rawScopeKey of
                 Some k \<Rightarrow> if starts_with ''tech_stack:'' k \<and> drop 11 k \<noteq> [] then Some (drop 11 k) else None
               | None \<Rightarrow> None)) in
      (case rawScopeKey of Some k \<Rightarrow> Some k | None \<Rightarrow> map_option (\<lambda>s. ''tech_stack:'' @ s) stack, stack))"

definition required_given :: "string \<Rightarrow> string option \<Rightarrow> share_error + string" where
  "required_given name v = normalizeRequiredString name (js_of_str_option v)"

section \<open>Building rows\<close>

definition first_seen :: "int \<Rightarrow> int option \<Rightarrow> int" where
  "first_seen now t = (case t of None \<Rightarrow> now | Some n \<Rightarrow> n)"

definition buildLearningRow :: "share_env \<Rightarrow> jsobj \<Rightarrow> share_error + learning" where
  "buildLearningRow env r =
     then_ok (isoNow env (obj_get r ''now'')) (\<lambda>now.
     then_ok (normalizeIsoTimestamp (first_given r [''last_seen_at'', ''lastSeenAt'']) ''last_seen_at'') (\<lambda>seen.
     let lastSeenAt = first_seen now seen; (scopeKey, stack) = learning_scope r in
     then_ok (required_given ''scope_key'' scopeKey) (\<lambda>scope.
     then_ok (normalizeRequiredString ''provider'' (obj_get r ''provider'')) (\<lambda>provider.
     then_ok (required_given ''tech_stack'' stack) (\<lambda>tech.
     then_ok (normalizeRequiredString ''failure_pattern'' (first_given r [''failure_pattern'', ''failurePattern''])) (\<lambda>pattern.
     then_ok (normalizeRequiredString ''project_source'' (first_given r [''project_source'', ''projectSource''])) (\<lambda>src.
     then_ok (normalizeJson env (first_given r [''payload_json'', ''payloadJson'', ''payload''])) (\<lambda>payload.
     then_ok (normalizeIsoTimestamp (first_given r [''first_seen_at'', ''firstSeenAt'']) ''first_seen_at'') (\<lambda>first.
     then_ok (computeExpiresAt (first_given r [''expires_at'', ''expiresAt'']) (obj_get r ''ttlMs'')
        DEFAULT_LEARNING_TTL_MS lastSeenAt) (\<lambda>expires.
     Inr \<lparr>learning_id = (case normalizeOptionalString (obj_get r ''id'') of None \<Rightarrow> sh_uuid env | Some i \<Rightarrow> i),
          signal_type = default_signal (first_given r [''signal_type'', ''signalType'']),
          scope_key = scope, learning_provider = provider, tech_stack = tech, failure_pattern = pattern,
          confidence = clampConfidence (obj_get r ''confidence''),
          sample_count = normalizeCount (first_given r [''sample_count'', ''sampleCount'']) 1,
          project_source = src, learning_payload = payload, first_seen_at = first_seen lastSeenAt first,
          last_seen_at = lastSeenAt, learning_expires = expires, learning_updated = now\<rparr>))))))))))"

definition buildClaimRow :: "share_env \<Rightarrow> jsobj \<Rightarrow> share_error + claim_row" where
  "buildClaimRow env r =
     then_ok (isoNow env (obj_get r ''now'')) (\<lambda>now.
     then_ok (normalizeIsoTimestamp (first_given r [''claimed_at'', ''claimedAt'']) ''claimed_at'') (\<lambda>given.
     let claimedAt = first_seen now given in
     then_ok (normalizeRequiredString ''project_id'' (first_given r [''project_id'', ''projectId'', ''project''])) (\<lambda>project.
     then_ok (normalizeRequiredString ''provider'' (obj_get r ''provider'')) (\<lambda>provider.
     then_ok (normalizeRequiredString ''task_id'' (first_given r [''task_id'', ''taskId'', ''task''])) (\<lambda>task.
     then_ok (normalizeJson env (first_given r [''payload_json'', ''payloadJson'', ''payload''])) (\<lambda>payload.
     then_ok (computeExpiresAt (first_given r [''expires_at'', ''expiresAt'']) (ttl_of r)
        DEFAULT_CLAIM_TTL_MS claimedAt) (\<lambda>expires.
     Inr \<lparr>claim_id = (case normalizeOptionalString (obj_get r ''id'') of None \<Rightarrow> sh_uuid env | Some i \<Rightarrow> i),
          claim_project = project, claim_provider = provider, claim_task = task,
          claim_type = (case normalizeOptionalString (first_given r [''claim_type'', ''claimType'']) of
             None \<Rightarrow> ''provider_slot'' | Some k \<Rightarrow> k),
          claimed_by = normalizeOptionalString (first_given r [''claimed_by'', ''claimedBy'']),
          claim_status = ''active'', claim_payload = payload, claimed_at = claimedAt, claim_expires = expires,
          released_at = None, release_reason = None, claim_updated = now\<rparr>)))))))"

definition buildDemandRow :: "share_env \<Rightarrow> jsobj \<Rightarrow> share_error + demand_row" where
  "buildDemandRow env r =
     then_ok (isoNow env (obj_get r ''now'')) (\<lambda>now.
     then_ok (normalizeIsoTimestamp (first_given r [''reported_at'', ''reportedAt'']) ''reported_at'') (\<lambda>given.
     let reportedAt = first_seen now given in
     then_ok (normalizeRequiredString ''project_id'' (first_given r [''project_id'', ''projectId'', ''project''])) (\<lambda>project.
     then_ok (normalizeRequiredString ''provider'' (obj_get r ''provider'')) (\<lambda>provider.
     then_ok (normalizeJson env (first_given r [''payload_json'', ''payloadJson'', ''payload''])) (\<lambda>payload.
     then_ok (computeExpiresAt (first_given r [''expires_at'', ''expiresAt'']) (ttl_of r)
        DEFAULT_DEMAND_TTL_MS reportedAt) (\<lambda>expires.
     Inr \<lparr>demand_project = project,
          demand_name = normalizeOptionalString (first_given r [''project_name'', ''projectName'']),
          demand_provider = provider,
          queued_count = normalizeCount (first_given r [''queued_count'', ''queuedCount'']) 0,
          running_count = normalizeCount (first_given r [''running_count'', ''runningCount'']) 0,
          priority_sum = normalizeCount (first_given r [''priority_sum'', ''prioritySum'']) 0,
          demand_payload = payload, reported_at = reportedAt, demand_expires = expires, demand_updated = now\<rparr>))))))"

section \<open>Expiry\<close>

record expiry_report =
  expired_learnings :: nat
  expired_claims :: nat
  expired_demands :: nat

definition lapsed :: "int \<Rightarrow> claim_row \<Rightarrow> bool" where
  "lapsed now c = (claim_status c = ''active'' \<and> claim_expires c \<le> now)"

definition expire_claim :: "int \<Rightarrow> claim_row \<Rightarrow> claim_row" where
  "expire_claim now c = c\<lparr>claim_status := ''expired'', claim_updated := now,
     release_reason := (case release_reason c of None \<Rightarrow> Some ''ttl_expired'' | Some r \<Rightarrow> Some r)\<rparr>"

definition expireStaleRows :: "int \<Rightarrow> share_store \<Rightarrow> expiry_report \<times> share_store" where
  "expireStaleRows now s =
     (\<lparr>expired_learnings = count_where (\<lambda>l. learning_expires l \<le> now) (learnings s),
       expired_claims = count_where (lapsed now) (share_claims s),
       expired_demands = count_where (\<lambda>d. demand_expires d \<le> now) (share_demands s)\<rparr>,
      s\<lparr>learnings := filter (\<lambda>l. \<not> learning_expires l \<le> now) (learnings s),
        share_claims := map_where (lapsed now) (expire_claim now) (share_claims s),
        share_demands := filter (\<lambda>d. \<not> demand_expires d \<le> now) (share_demands s)\<rparr>)"

section \<open>Writing\<close>

text \<open>
  \<open>INSERT ... ON CONFLICT(key) DO UPDATE\<close>: a row with the same key is merged with the new one, else
  the row is appended, unless its primary key \<open>pk\<close> is already taken.
\<close>

definition upsert_row :: "('r \<Rightarrow> 'k) \<Rightarrow> ('r \<Rightarrow> 'i) \<Rightarrow> ('r \<Rightarrow> 'r \<Rightarrow> 'r) \<Rightarrow> 'r \<Rightarrow> 'r list \<Rightarrow> share_error + 'r list" where
  "upsert_row key pk merge new rows =
     (if list_ex (\<lambda>r. key r = key new) rows then Inr (map_where (\<lambda>r. key r = key new) (\<lambda>r. merge r new) rows)
      else if list_ex (\<lambda>r. pk r = pk new) rows then Inl Constraint_failed
      else Inr (rows @ [new]))"

definition learning_key :: "learning \<Rightarrow> string \<times> string \<times> string \<times> string" where
  "learning_key l = (signal_type l, scope_key l, learning_provider l, failure_pattern l)"

definition merge_learning :: "learning \<Rightarrow> learning \<Rightarrow> learning" where
  "merge_learning old new = new\<lparr>learning_id := learning_id old,
     sample_count := sample_count old + sample_count new, first_seen_at := first_seen_at old\<rparr>"

definition claim_key :: "claim_row \<Rightarrow> string \<times> string \<times> string" where
  "claim_key c = (claim_project c, claim_provider c, claim_task c)"

definition merge_claim :: "claim_row \<Rightarrow> claim_row \<Rightarrow> claim_row" where
  "merge_claim old new = new\<lparr>claim_id := claim_id old\<rparr>"

definition demand_key :: "demand_row \<Rightarrow> string \<times> string" where
  "demand_key d = (demand_project d, demand_provider d)"

type_synonym 'a share_result = "(share_error + 'a) \<times> share_store"

definition upsertLearning :: "share_env \<Rightarrow> jsobj \<Rightarrow> share_store \<Rightarrow> learning option share_result" where
  "upsertLearning env r s =
     (case buildLearningRow env r of
        Inl e \<Rightarrow> (Inl e, s)
      | Inr l \<Rightarrow>
          let s1 = snd (expireStaleRows (learning_updated l) s) in
          case upsert_row learning_key learning_id merge_learning l (learnings s1) of
            Inl e \<Rightarrow> (Inl e, s)
          | Inr rows \<Rightarrow> (Inr (List.find (\<lambda>x. learning_key x = learning_key l) rows), s1\<lparr>learnings := rows\<rparr>))"

definition claimResource :: "share_env \<Rightarrow> jsobj \<Rightarrow> share_store \<Rightarrow> claim_row option share_result" where
  "claimResource env r s =
     (case buildClaimRow env r of
        Inl e \<Rightarrow> (Inl e, s)
      | Inr c \<Rightarrow>
          let s1 = snd (expireStaleRows (claim_updated c) s) in
          case upsert_row claim_key claim_id merge_claim c (share_claims s1) of
            Inl e \<Rightarrow> (Inl e, s)
          | Inr rows \<Rightarrow> (Inr (List.find (\<lambda>x. claim_key x = claim_key c) rows), s1\<lparr>share_claims := rows\<rparr>))"

definition upsertProjectDemand :: "share_env \<Rightarrow> jsobj \<Rightarrow> share_store \<Rightarrow> demand_row option share_result" where
  "upsertProjectDemand env r s =
     (case buildDemandRow env r of
        Inl e \<Rightarrow> (Inl e, s)
      | Inr d \<Rightarrow>
          let s1 = snd (expireStaleRows (demand_updated d) s) in
          case upsert_row demand_key demand_key (\<lambda>old new. new) d (share_demands s1) of
            Inl e \<Rightarrow> (Inl e, s)
          | Inr rows \<Rightarrow> (Inr (List.find (\<lambda>x. demand_key x = demand_key d) rows), s1\<lparr>share_demands := rows\<rparr>))"

section \<open>Reading\<close>

definition findLearning :: "jsval \<Rightarrow> share_store \<Rightarrow> share_error + learning option" where
  "findLearning key s =
     (case key of
        JStr i \<Rightarrow> Inr (if js_trim i = [] then None else List.find (\<lambda>l. learning_id l = i) (learnings s))
      | JObj r \<Rightarrow>
          then_ok (required_given ''scope_key'' (fst (learning_scope r))) (\<lambda>scope.
          then_ok (normalizeRequiredString ''provider'' (obj_get r ''provider'')) (\<lambda>provider.
          then_ok (normalizeRequiredString ''failure_pattern'' (first_given r [''failure_pattern'', ''failurePattern''])) (\<lambda>pattern.
          Inr (List.find (\<lambda>l. learning_key l =
            (default_signal (first_given r [''signal_type'', ''signalType'']), scope, provider, pattern)) (learnings s)))))
      | _ \<Rightarrow> Inr None)"

definition findClaim :: "jsval \<Rightarrow> share_store \<Rightarrow> share_error + claim_row option" where
  "findClaim key s =
     (case key of
        JStr i \<Rightarrow> Inr (if js_trim i = [] then None else List.find (\<lambda>c. claim_id c = i) (share_claims s))
      | JObj r \<Rightarrow>
          then_ok (normalizeRequiredString ''project_id'' (first_given r [''project_id'', ''projectId'', ''project''])) (\<lambda>project.
          then_ok (normalizeRequiredString ''provider'' (obj_get r ''provider'')) (\<lambda>provider.
          then_ok (normalizeRequiredString ''task_id'' (first_given r [''task_id'', ''taskId'', ''task''])) (\<lambda>task.
          Inr (List.find (\<lambda>c. claim_key c = (project, provider, task)) (share_claims s)))))
      | _ \<Rightarrow> Inr None)"

definition findDemand :: "jsval \<Rightarrow> share_store \<Rightarrow> share_error + demand_row option" where
  "findDemand key s =
     (case key of
        JObj r \<Rightarrow>
          then_ok (normalizeRequiredString ''project_id'' (first_given r [''project_id'', ''projectId'', ''project''])) (\<lambda>project.
          then_ok (normalizeRequiredString ''provider'' (obj_get r ''provider'')) (\<lambda>provider.
          Inr (List.find (\<lambda>d. demand_key d = (project, provider)) (share_demands s))))
      | _ \<Rightarrow> Inr None)"

text \<open>
  A filter \<open>if (filters.a || filters.b) where.push('column = ?')\<close>: absent, or the text the column has
  to equal. \<open>listRows\<close> caps the limit between 1 and 1000.
\<close>

definition filter_given :: "jsobj \<Rightarrow> string list \<Rightarrow> string \<Rightarrow> share_error + string option" where
  "filter_given f keys name =
     (if list_ex (\<lambda>k. js_truthy (obj_get f k)) keys
      then then_ok (normalizeRequiredString name (first_given f keys)) (\<lambda>v. Inr (Some v)) else Inr None)"

definition passes :: "string option \<Rightarrow> string \<Rightarrow> bool" where
  "passes wanted v = (case wanted of None \<Rightarrow> True | Some w \<Rightarrow> v = w)"

definition listRows :: "jsval \<Rightarrow> 'r list \<Rightarrow> 'r list" where
  "listRows limit rows = take (min (max (normalizeCount limit 100) 1) 1000) rows"

definition listClaimRows :: "share_env \<Rightarrow> jsobj \<Rightarrow> share_store \<Rightarrow> share_error + claim_row list" where
  "listClaimRows env f s =
     then_ok (isoNow env (obj_get f ''now'')) (\<lambda>now.
     then_ok (filter_given f [''project_id'', ''projectId'', ''project''] ''project_id'') (\<lambda>project.
     then_ok (filter_given f [''provider''] ''provider'') (\<lambda>provider.
     then_ok (filter_given f [''task_id'', ''taskId'', ''task''] ''task_id'') (\<lambda>task.
     let given = obj_get f ''status'';
         current = (\<lambda>c.
           if \<not> js_truthy (obj_get f ''includeExpired'')
           then JStr (claim_status c) = js_or given (JStr ''active'') \<and> now < claim_expires c
           else if js_truthy given then claim_status c = js_string given else True) in
     Inr (listRows (obj_get f ''limit'') (sort_key (\<lambda>c. - claimed_at c)
       (filter (\<lambda>c. current c \<and> passes project (claim_project c) \<and> passes provider (claim_provider c)
          \<and> passes task (claim_task c)) (share_claims s))))))))"

definition listActiveResourceClaims :: "share_env \<Rightarrow> jsobj \<Rightarrow> share_store \<Rightarrow> share_error + claim_row list" where
  "listActiveResourceClaims env f s =
     listClaimRows env (obj_merge f [(''status'', JStr ''active''), (''includeExpired'', JBool False)]) s"

definition listDemandRows :: "share_env \<Rightarrow> jsobj \<Rightarrow> share_store \<Rightarrow> share_error + demand_row list" where
  "listDemandRows env f s =
     then_ok (isoNow env (obj_get f ''now'')) (\<lambda>now.
     then_ok (filter_given f [''project_id'', ''projectId'', ''project''] ''project_id'') (\<lambda>project.
     then_ok (filter_given f [''provider''] ''provider'') (\<lambda>provider.
     Inr (listRows (obj_get f ''limit'') (sort_key (\<lambda>d. (- int (priority_sum d), - int (queued_count d), - reported_at d))
       (filter (\<lambda>d. (js_truthy (obj_get f ''includeExpired'') \<or> now < demand_expires d)
          \<and> passes project (demand_project d) \<and> passes provider (demand_provider d)) (share_demands s)))))))"

definition listActiveProjectDemands :: "share_env \<Rightarrow> jsobj \<Rightarrow> share_store \<Rightarrow> share_error + demand_row list" where
  "listActiveProjectDemands env f s = listDemandRows env (obj_merge f [(''includeExpired'', JBool False)]) s"

section \<open>Releasing claims\<close>

definition released :: "int \<Rightarrow> jsval \<Rightarrow> claim_row \<Rightarrow> claim_row" where
  "released now reason c = c\<lparr>claim_status := ''released'', released_at := Some now,
     release_reason := Some (js_string (js_or reason (JStr ''released''))), claim_updated := now\<rparr>"

definition release_by_id :: "int \<Rightarrow> jsval \<Rightarrow> string \<Rightarrow> share_store \<Rightarrow> share_store" where
  "release_by_id now reason i s =
     s\<lparr>share_claims := map_where (\<lambda>c. claim_id c = i) (released now reason) (share_claims s)\<rparr>"

definition releaseResourceClaim :: "share_env \<Rightarrow> jsval \<Rightarrow> jsval \<Rightarrow> share_store \<Rightarrow> claim_row option share_result" where
  "releaseResourceClaim env key reason s =
     (case findClaim key s of
        Inl e \<Rightarrow> (Inl e, s)
      | Inr None \<Rightarrow> (Inr None, s)
      | Inr (Some c) \<Rightarrow>
          let s' = release_by_id (sh_now env) reason (claim_id c) s in
          (Inr (List.find (\<lambda>x. claim_id x = claim_id c) (share_claims s')), s'))"

definition releaseResourceClaimsForTask :: "share_env \<Rightarrow> jsobj \<Rightarrow> jsval \<Rightarrow> share_store \<Rightarrow> claim_row list share_result" where
  "releaseResourceClaimsForTask env f reason s =
     (case then_ok (normalizeRequiredString ''task_id'' (first_given f [''task_id'', ''taskId'', ''task''])) (\<lambda>task.
           then_ok (isoNow env (obj_get f ''now'')) (\<lambda>now. Inr (task, now))) of
        Inl e \<Rightarrow> (Inl e, s)
      | Inr (task, now) \<Rightarrow>
          let s1 = snd (expireStaleRows now s);
              provider = normalizeOptionalString (obj_get f ''provider'');
              project = normalizeOptionalString (first_given f [''project_id'', ''projectId'', ''project'']);
              ids = map claim_id (filter (\<lambda>c. claim_task c = task \<and> claim_status c = ''active'' \<and> now < claim_expires c
                \<and> passes provider (claim_provider c) \<and> passes project (claim_project c)) (share_claims s1));
              s2 = fold (release_by_id now reason) ids s1 in
          (Inr (List.map_filter (\<lambda>i. List.find (\<lambda>x. claim_id x = i) (share_claims s2)) ids), s2))"

section \<open>Every sequence of operations\<close>

text \<open>
  What holds of the tables: keys are unique, ids are unique, and a claim is active (not released, no
  reason), expired (a reason, never released) or released (an instant and a reason); confidences are
  between 0 and 1.
\<close>

fun claim_columns :: "string \<Rightarrow> int option \<Rightarrow> string option \<Rightarrow> bool" where
  "claim_columns st since why =
     (st = ''active'' \<and> since = None \<and> why = None \<or>
      st = ''expired'' \<and> since = None \<and> why \<noteq> None \<or>
      st = ''released'' \<and> since \<noteq> None \<and> why \<noteq> None)"

definition claim_ok :: "claim_row \<Rightarrow> bool" where
  "claim_ok c = claim_columns (claim_status c) (released_at c) (release_reason c)"

definition share_ok :: "share_store \<Rightarrow> bool" where
  "share_ok s =
     (distinct (map learning_key (learnings s)) \<and> distinct (map learning_id (learnings s)) \<and>
      distinct (map claim_key (share_claims s)) \<and> distinct (map claim_id (share_claims s)) \<and>
      distinct (map demand_key (share_demands s)) \<and>
      list_all claim_ok (share_claims s) \<and>
      list_all (\<lambda>l. 0 \<le> confidence l \<and> confidence l \<le> 1) (learnings s))"

datatype share_op =
    Learn jsobj
  | Claim jsobj
  | Demand jsobj
  | Release jsval jsval
  | Release_task jsobj jsval
  | Expire_rows

fun share_step :: "share_env \<times> share_op \<Rightarrow> share_store \<Rightarrow> share_store" where
  "share_step (env, Learn r) s = snd (upsertLearning env r s)"
| "share_step (env, Claim r) s = snd (claimResource env r s)"
| "share_step (env, Demand r) s = snd (upsertProjectDemand env r s)"
| "share_step (env, Release key reason) s = snd (releaseResourceClaim env key reason s)"
| "share_step (env, Release_task f reason) s = snd (releaseResourceClaimsForTask env f reason s)"
| "share_step (env, Expire_rows) s = snd (expireStaleRows (sh_now env) s)"

lemma map_map_where_same:
  assumes "\<And>r. P r \<Longrightarrow> h (f r) = h r"
  shows "map h (map_where P f rows) = map h rows"
  using assms by (simp add: map_where_def comp_def if_distrib cong: if_cong)

lemma distinct_map_filter_key: "distinct (map h rows) \<Longrightarrow> distinct (map h (filter P rows))"
  by (induction rows) auto

lemma list_all_map_where: "list_all Q rows \<Longrightarrow> (\<And>r. Q r \<Longrightarrow> P r \<Longrightarrow> Q (f r)) \<Longrightarrow> list_all Q (map_where P f rows)"
  by (auto simp: list_all_iff set_map_where)

lemma list_all_filter: "list_all Q rows \<Longrightarrow> list_all Q (filter P rows)"
  by (auto simp: list_all_iff)

text \<open>An upsert keeps both keys unique when a merge keeps the primary key and the row's own key.\<close>

lemma upsert_row_keeps:
  assumes "upsert_row key pk merge new rows = Inr rows'"
    and "distinct (map key rows)" "distinct (map pk rows)" "list_all Q rows" "Q new"
    and "\<And>r. key r = key new \<Longrightarrow> key (merge r new) = key new" "\<And>r. key r = key new \<Longrightarrow> pk (merge r new) = pk r"
    and "\<And>r. Q r \<Longrightarrow> Q (merge r new)"
  shows "distinct (map key rows') \<and> distinct (map pk rows') \<and> list_all Q rows'"
proof (cases "list_ex (\<lambda>r. key r = key new) rows")
  case True
  then have rows': "rows' = map_where (\<lambda>r. key r = key new) (\<lambda>r. merge r new) rows"
    using assms(1) by (simp add: upsert_row_def)
  have "map key rows' = map key rows" "map pk rows' = map pk rows"
    unfolding rows' by (rule map_map_where_same; simp add: assms(6,7))+
  moreover have "list_all Q rows'"
    unfolding rows' by (rule list_all_map_where [OF assms(4)]) (simp add: assms(8))
  ultimately show ?thesis using assms(2,3) by simp
next
  case False
  with assms(1) have "\<not> list_ex (\<lambda>r. pk r = pk new) rows" "rows' = rows @ [new]"
    by (auto simp: upsert_row_def split: if_splits)
  with False assms(2-5) show ?thesis by (auto simp: list_ex_iff image_iff)
qed

lemma upsert_demand_keeps:
  assumes "upsert_row demand_key demand_key (\<lambda>old new. new) d rows = Inr rows'" and "distinct (map demand_key rows)"
  shows "distinct (map demand_key rows')"
  using upsert_row_keeps [OF assms assms(2), of "\<lambda>_. True"] by (simp add: list_all_iff)

lemma build_claim_ok: "buildClaimRow env r = Inr c \<Longrightarrow> claim_ok c"
  by (auto simp: buildClaimRow_def claim_ok_def Let_def then_ok_Inr)

lemma clamped: "0 \<le> clampConfidence v" "clampConfidence v \<le> 1"
  by (auto simp: clampConfidence_def split: jsnum.splits)

lemma build_learning_ok: "buildLearningRow env r = Inr l \<Longrightarrow> 0 \<le> confidence l \<and> confidence l \<le> 1"
  by (cases "learning_scope r") (force simp: buildLearningRow_def Let_def clamped then_ok_Inr)

lemma released_key [simp]: "claim_key (released now reason c) = claim_key c" "claim_id (released now reason c) = claim_id c"
  by (simp_all add: claim_key_def released_def)

lemma expire_claim_key [simp]: "claim_key (expire_claim now c) = claim_key c" "claim_id (expire_claim now c) = claim_id c"
  by (simp_all add: claim_key_def expire_claim_def)

lemma released_ok: "claim_ok (released now reason c)"
  by (simp add: claim_ok_def released_def)

lemma expired_ok: "claim_ok c \<Longrightarrow> lapsed now c \<Longrightarrow> claim_ok (expire_claim now c)"
  by (auto simp: claim_ok_def expire_claim_def lapsed_def split: option.splits)

lemma expire_keeps: "share_ok s \<Longrightarrow> share_ok (snd (expireStaleRows now s))"
  by (auto simp: share_ok_def expireStaleRows_def map_map_where_same distinct_map_filter_key
    intro!: list_all_map_where list_all_filter expired_ok)

lemma release_keeps: "share_ok s \<Longrightarrow> share_ok (release_by_id now reason i s)"
  by (auto simp: share_ok_def release_by_id_def map_map_where_same intro!: list_all_map_where released_ok)

lemma releases_keep: "share_ok s \<Longrightarrow> share_ok (fold (release_by_id now reason) ids s)"
  by (induction ids arbitrary: s) (simp_all add: release_keeps)

lemma learn_keeps:
  assumes "share_ok s" shows "share_ok (snd (upsertLearning env r s))"
proof (cases "buildLearningRow env r")
  case (Inl e)
  then show ?thesis using assms by (simp add: upsertLearning_def)
next
  case (Inr l)
  let ?s1 = "snd (expireStaleRows (learning_updated l) s)"
  have ok: "share_ok ?s1" by (rule expire_keeps [OF assms])
  show ?thesis
  proof (cases "upsert_row learning_key learning_id merge_learning l (learnings ?s1)")
    case (Inl e)
    then show ?thesis using assms Inr by (simp add: upsertLearning_def Let_def)
  next
    case rows: (Inr rows)
    have "distinct (map learning_key rows) \<and> distinct (map learning_id rows) \<and>
        list_all (\<lambda>l. 0 \<le> confidence l \<and> confidence l \<le> 1) rows"
      by (rule upsert_row_keeps [OF rows])
        (use ok build_learning_ok [OF Inr] in \<open>simp_all add: share_ok_def merge_learning_def learning_key_def\<close>)
    then show ?thesis using ok Inr rows by (simp add: upsertLearning_def Let_def share_ok_def)
  qed
qed

lemma claim_keeps:
  assumes "share_ok s" shows "share_ok (snd (claimResource env r s))"
proof (cases "buildClaimRow env r")
  case (Inl e)
  then show ?thesis using assms by (simp add: claimResource_def)
next
  case (Inr c)
  let ?s1 = "snd (expireStaleRows (claim_updated c) s)"
  have ok: "share_ok ?s1" by (rule expire_keeps [OF assms])
  show ?thesis
  proof (cases "upsert_row claim_key claim_id merge_claim c (share_claims ?s1)")
    case (Inl e)
    then show ?thesis using assms Inr by (simp add: claimResource_def Let_def)
  next
    case rows: (Inr rows)
    have "distinct (map claim_key rows) \<and> distinct (map claim_id rows) \<and> list_all claim_ok rows"
      by (rule upsert_row_keeps [OF rows])
        (use ok build_claim_ok [OF Inr] in \<open>simp_all add: share_ok_def merge_claim_def claim_key_def claim_ok_def\<close>)
    then show ?thesis using ok Inr rows by (simp add: claimResource_def Let_def share_ok_def)
  qed
qed

lemma demand_keeps: "share_ok s \<Longrightarrow> share_ok (snd (upsertProjectDemand env r s))"
  using expire_keeps [of s] upsert_demand_keeps
  by (fastforce simp: upsertProjectDemand_def Let_def share_ok_def split: sum.splits)

lemma release_claim_keeps: "share_ok s \<Longrightarrow> share_ok (snd (releaseResourceClaim env key reason s))"
  by (simp add: releaseResourceClaim_def Let_def release_keeps split: sum.split option.split)

lemma release_task_keeps: "share_ok s \<Longrightarrow> share_ok (snd (releaseResourceClaimsForTask env f reason s))"
  by (simp add: releaseResourceClaimsForTask_def Let_def releases_keep expire_keeps split: sum.split prod.split)

interpretation shared: invariant_machine share_step share_ok
proof
  fix s and e :: "share_env \<times> share_op"
  assume "share_ok s"
  moreover obtain env op where "e = (env, op)" by (cases e)
  ultimately show "share_ok (share_step e s)"
    by (cases op) (simp_all add: learn_keeps claim_keeps demand_keeps release_claim_keeps release_task_keeps expire_keeps)
qed

end
