(* ===== verification/Slot_Pull.thy ===== *)
theory Slot_Pull
  imports Provider_Capabilities Shared_Store
begin

text \<open>
  The slot-pull scheduler, \<open>server/execution/slot-pull-scheduler.js\<close>, with the restart barrier
  (\<open>restart-barrier.js\<close>) and the promotion of resubmitted tasks (\<open>restart-resubmit-queue.js\<close>). A pass
  matches queued tasks without a provider to the open slots of each provider; slots of the provider
  codex are also arbitrated between the projects that share the machine.

  State: the task tables, the shared tables (\<open>None\<close>: no shared store could be opened) and the cache of
  capability sets. \<open>slot_env\<close> is what a pass reads and does not change: the instant of the pass, the
  provider, host and project tables, the configuration, the process environment, the identifier of a
  new shared claim for a task, and \<open>startTask\<close>, which the scheduler is handed at start-up and which
  returns an error or a JavaScript value (a promise counts as a value without the fields the pass
  looks at). The coordination claim for the submitting agent, whose failures are ignored, is outside
  the state; log lines are dropped. Shares are rationals where the code computes with doubles.
\<close>

section \<open>State\<close>

record slot_env =
  sl_now :: int
  sl_providers :: "db_row list"
  sl_hosts :: "db_row list"
  sl_projects :: "db_row list"
  sl_config :: "string \<Rightarrow> jsval"
  sl_getenv :: "string \<Rightarrow> jsval"
  sl_override_id :: jsval
  sl_override_name :: jsval
  sl_platform :: platform
  sl_resolve :: "string \<Rightarrow> string"
  sl_cwd :: string
  sl_basename :: string
  sl_host_pid :: string
  sl_restart_pending :: bool
  sl_claim_uuid :: "string \<Rightarrow> string"
  sl_start :: "(string \<Rightarrow> tdb \<Rightarrow> jsval db_result) option"

record slot_state =
  sl_db :: tdb
  sl_share :: "share_store option"
  sl_caps :: cap_cache

definition CODEX_PROVIDER :: string where
  "CODEX_PROVIDER = ''codex''"

definition STARVATION_THRESHOLD_MS :: rat where
  "STARVATION_THRESHOLD_MS = 5 * 60 * 1000"

definition SHARED_DEMAND_TTL_MS :: rat where
  "SHARED_DEMAND_TTL_MS = 5 * 60 * 1000"

definition SHARED_CLAIM_TTL_MS :: rat where
  "SHARED_CLAIM_TTL_MS = 30 * 60 * 1000"

definition OLLAMA_PROVIDERS :: "string list" where
  "OLLAMA_PROVIDERS = [''ollama'']"

section \<open>Restart barrier and resubmissions\<close>

text \<open>\<open>listTasks({ status, limit })\<close>: oldest first, archived rows left out.\<close>

definition list_by_status :: "string \<Rightarrow> nat \<Rightarrow> tdb \<Rightarrow> db_row list" where
  "list_by_status status limit d =
     (if dbClosed d then []
      else take limit (sort_key (\<lambda>r. (num_of (col r ''created_at''), id_key r))
        (filter (\<lambda>r. sql_eq (col r ''archived'') (JNum 0) \<and> sql_eq (col r ''status'') (JStr status)) (tasks d))))"

definition isRestartBarrierTask :: "db_row \<Rightarrow> bool" where
  "isRestartBarrierTask task =
     (let metadata = normalizeMetadata (col task ''metadata'') in
      col task ''provider'' = JStr ''system'' \<or> col task ''original_provider'' = JStr ''system'' \<or>
      starts_with ''Restart barrier:'' (js_string (js_or (col task ''task_description'') (JStr []))) \<or>
      obj_get metadata ''requested_provider'' = JStr ''system'' \<or>
      obj_get metadata ''original_requested_provider'' = JStr ''system'')"

text \<open>
  \<open>isRestartBarrierActive\<close> on the database facade, which has \<open>listTasks\<close> and no \<open>prepare\<close>: the
  identifier of the barrier.
\<close>

definition isRestartBarrierActive :: "bool \<Rightarrow> tdb \<Rightarrow> jsval option" where
  "isRestartBarrierActive pending d =
     (let barrier = (\<lambda>status. List.find (\<lambda>t. col t ''provider'' = JStr ''system'') (list_by_status status 50 d)) in
      if pending then Some (JStr ''restart-pending-flag'')
      else case barrier ''running'' of
          Some t \<Rightarrow> Some (col t ''id'')
        | None \<Rightarrow> map_option (\<lambda>t. col t ''id'') (barrier ''queued''))"

definition isRestartResubmission :: "db_row \<Rightarrow> bool" where
  "isRestartResubmission task =
     (let meta = normalizeMetadata (col task ''metadata'') in
      js_truthy (obj_get meta ''resubmitted_from'') \<or>
      num_less (Fin 0) (js_number (js_or (obj_get meta ''restart_resubmit_count'') (JNum 0))))"

record promotion =
  scanned :: nat
  promoted :: nat
  promote_failed :: nat

fun promote_all :: "int \<Rightarrow> db_row list \<Rightarrow> promotion \<Rightarrow> tdb \<Rightarrow> promotion \<times> tdb" where
  "promote_all now [] p d = (p, d)"
| "promote_all now (t # ts) p d =
     (if \<not> isRestartResubmission t then promote_all now ts p d
      else case updateTaskStatus now (str_of (col t ''id'')) ''queued'' [(''_preserveProvider'', JBool True)] d of
          (Inl e, d') \<Rightarrow> promote_all now ts (p\<lparr>promote_failed := promote_failed p + 1\<rparr>) d'
        | (Inr updated, d') \<Rightarrow>
            promote_all now ts
              (if (case updated of None \<Rightarrow> False | Some u \<Rightarrow> col u ''status'' = JStr ''queued'')
               then p\<lparr>promoted := promoted p + 1\<rparr> else p) d')"

definition promotePendingRestartResubmissions :: "int \<Rightarrow> tdb \<Rightarrow> promotion \<times> tdb" where
  "promotePendingRestartResubmissions now d =
     (let pending = list_by_status ''pending'' 100 d in
      promote_all now pending \<lparr>scanned = length pending, promoted = 0, promote_failed = 0\<rparr> d)"

section \<open>Providers\<close>

definition getEnabledProviders :: "slot_env \<Rightarrow> string list" where
  "getEnabledProviders env =
     map (\<lambda>r. str_of (col r ''provider'')) (filter (\<lambda>r. js_truthy (col r ''enabled'')) (listProviders (sl_providers env)))"

definition getMaxConcurrent :: "slot_env \<Rightarrow> string \<Rightarrow> rat" where
  "getMaxConcurrent env p =
     (let v = (case getProvider (sl_providers env) p of None \<Rightarrow> JUndef | Some c \<Rightarrow> col c ''max_concurrent'') in
      num_of (js_or v (JNum 3)))"

definition getMaxRetries :: "slot_env \<Rightarrow> string \<Rightarrow> rat" where
  "getMaxRetries env p =
     (let v = (case getProvider (sl_providers env) p of None \<Rightarrow> JUndef | Some c \<Rightarrow> col c ''max_retries'') in
      num_of (js_coalesce v (JNum 2)))"

definition running_on :: "string \<Rightarrow> tdb \<Rightarrow> nat" where
  "running_on p d = getRunningCountByProvider (JStr p) d"

text \<open>\<open>listOllamaHosts\<close> knows the option \<open>enabled\<close>; the option \<open>enabledOnly\<close> it is given selects nothing.\<close>

definition hasOllamaHostCapacity :: "slot_env \<Rightarrow> string \<Rightarrow> tdb \<Rightarrow> bool" where
  "hasOllamaHostCapacity env p d =
     (if p \<notin> set OLLAMA_PROVIDERS \<or> sl_hosts env = [] then True
      else of_nat (sum_list (map (\<lambda>op. running_on op d) OLLAMA_PROVIDERS))
        < sum_list (map (\<lambda>h. num_of (js_or (col h ''max_concurrent'') (JNum 4))) (sl_hosts env)))"

section \<open>Tasks\<close>

definition light_row :: "tdb \<Rightarrow> db_row \<Rightarrow> db_row" where
  "light_row d t = set_cols [(''workflow_priority'', JNum (workflow_priority d t))] t"

definition getUnassignedQueuedTasks :: "slot_env \<Rightarrow> nat \<Rightarrow> tdb \<Rightarrow> db_row list" where
  "getUnassignedQueuedTasks env limit d =
     (let unassigned = filter (\<lambda>t. \<not> js_truthy (col t ''provider''))
            (map (light_row d) (listQueuedTasksLightweight limit d)) in
      if isFactoryProjectWorkEnabled (sl_config env ''factory_project_work_enabled'') then unassigned
      else filter (\<lambda>t. \<not> isRegisteredFactoryProjectTask (sl_platform env) (sl_projects env) t) unassigned)"

definition UNASSIGNED_LIMIT :: nat where
  "UNASSIGNED_LIMIT = 200"

definition priority_part :: "jsval \<Rightarrow> nat" where
  "priority_part v = (case js_number v of Fin q \<Rightarrow> trunc_count q | _ \<Rightarrow> 0)"

definition getTaskPriorityWeight :: "db_row option \<Rightarrow> nat" where
  "getTaskPriorityWeight task = (case task of
     None \<Rightarrow> 0
   | Some t \<Rightarrow> priority_part (col t ''workflow_priority'') + priority_part (col t ''priority''))"

text \<open>
  \<open>eligible_providers\<close> and \<open>capability_requirements\<close> are arrays when present. Its callers hand
  over the band and the capabilities of the provider.
\<close>

definition isTaskEligibleForProvider :: "slot_env \<Rightarrow> string \<Rightarrow> db_row \<Rightarrow> string \<Rightarrow> jsval list \<Rightarrow> bool" where
  "isTaskEligibleForProvider env provider task band providerCaps =
     (let meta = normalizeMetadata (col task ''metadata'');
          eligible = arr_of (obj_get meta ''eligible_providers'');
          required = arr_of (obj_get meta ''capability_requirements'');
          qualityTier = js_or (obj_get meta ''quality_tier'') (JStr ''normal'');
          createdAt = (case col task ''created_at'' of JNum q \<Rightarrow> q | _ \<Rightarrow> of_int (sl_now env)) in
      if band = ''D'' then False
      else if eligible \<noteq> [] \<and> JStr provider \<notin> set eligible then False
      else if \<not> list_all (\<lambda>r. r \<in> set providerCaps) required then False
      else if \<not> passesQualityGate band qualityTier
      then \<not> of_int (sl_now env) - createdAt < STARVATION_THRESHOLD_MS
      else True)"

definition findBestTaskForProvider :: "slot_env \<Rightarrow> string \<Rightarrow> string list \<Rightarrow> slot_state \<Rightarrow> string option \<times> slot_state" where
  "findBestTaskForProvider env provider excludeIds s =
     (let band = getQualityBand (sl_providers env) provider in
      if band = ''D'' then (None, s)
      else case getProviderCapabilitySet (sl_providers env) provider (sl_caps s) of
          (providerCaps, caps') \<Rightarrow>
            (map_option (\<lambda>t. str_of (col t ''id''))
               (List.find (\<lambda>t. str_of (col t ''id'') \<notin> set excludeIds
                    \<and> isTaskEligibleForProvider env provider t band providerCaps)
                 (getUnassignedQueuedTasks env UNASSIGNED_LIMIT (sl_db s))),
             s\<lparr>sl_caps := caps'\<rparr>))"

section \<open>The project of this process\<close>

definition normalizeText :: "jsval \<Rightarrow> string option" where
  "normalizeText v = (case v of JStr s \<Rightarrow> if js_trim s = [] then None else Some (js_trim s) | _ \<Rightarrow> None)"

definition normalizeProjectPath :: "slot_env \<Rightarrow> jsval \<Rightarrow> string option" where
  "normalizeProjectPath env v = map_option (\<lambda>s. js_lower (sl_resolve env s)) (normalizeText v)"

fun parseJsonObject :: "jsval \<Rightarrow> jsobj" where
  "parseJsonObject (JObj r) = r"
| "parseJsonObject _ = []"

definition path_parts :: "string \<Rightarrow> string list" where
  "path_parts s = filter (\<lambda>p. p \<noteq> []) (split_on CHR ''/'' (slashes s))"

fun before_worktrees :: "string list \<Rightarrow> string option" where
  "before_worktrees (p # q # ps) = (if q = ''.worktrees'' then Some p else before_worktrees (q # ps))"
| "before_worktrees _ = None"

definition getProjectNameFromCwd :: "slot_env \<Rightarrow> string" where
  "getProjectNameFromCwd env =
     (let parts = path_parts (sl_cwd env);
          found = (if parts \<noteq> [] \<and> hd parts = ''.worktrees'' then None else before_worktrees parts) in
      case found of
        Some p \<Rightarrow> p
      | None \<Rightarrow> if sl_basename env = [] then ''local-project'' else sl_basename env)"

definition findFactoryProjectForTasks :: "slot_env \<Rightarrow> db_row list \<Rightarrow> db_row option" where
  "findFactoryProjectForTasks env ts =
     (let rows = sort_key (\<lambda>r. - num_of (col r ''updated_at'')) (sl_projects env);
          candidatePaths = List.map_filter (normalizeProjectPath env)
            (JStr (sl_cwd env) # map (\<lambda>t. col t ''working_directory'') ts) in
      case List.find (\<lambda>r. case normalizeProjectPath env (col r ''path'') of
             None \<Rightarrow> False | Some p \<Rightarrow> p \<in> set candidatePaths) rows of
        Some r \<Rightarrow> Some r
      | None \<Rightarrow> (case rows of [r] \<Rightarrow> Some r | _ \<Rightarrow> None))"

record project_context =
  projectId :: string
  projectName :: string
  claimedBy :: string

fun first_text :: "jsval list \<Rightarrow> string \<Rightarrow> string" where
  "first_text [] fallback = fallback"
| "first_text (v # vs) fallback = (case normalizeText v of Some s \<Rightarrow> s | None \<Rightarrow> first_text vs fallback)"

definition resolveProjectContext :: "slot_env \<Rightarrow> db_row list \<Rightarrow> project_context" where
  "resolveProjectContext env ts =
     (let projectRow = (case findFactoryProjectForTasks env ts of None \<Rightarrow> [] | Some r \<Rightarrow> r);
          projectConfig = parseJsonObject (col projectRow ''config_json'');
          pid = first_text [sl_override_id env, sl_getenv env ''TORQUE_FACTORY_PROJECT_ID'',
            sl_config env ''factory_project_id'', sl_config env ''project_id'', col projectRow ''id'',
            obj_get projectConfig ''project_id''] (getProjectNameFromCwd env);
          pname = first_text [sl_override_name env, sl_getenv env ''TORQUE_FACTORY_PROJECT_NAME'',
            sl_config env ''factory_project_name'', sl_config env ''project_name'', col projectRow ''name'',
            obj_get projectConfig ''project_name''] pid in
      \<lparr>projectId = pid, projectName = pname,
       claimedBy = (if pname = [] then pid else pname) @ '':'' @ sl_host_pid env\<rparr>)"

section \<open>Demand for codex\<close>

record codex_demand =
  cd_queued :: nat
  cd_running :: nat
  cd_priority :: nat
  cd_tasks :: "db_row list"

definition codex_caps :: "slot_env \<Rightarrow> slot_state \<Rightarrow> jsval list \<times> slot_state" where
  "codex_caps env s = (case getProviderCapabilitySet (sl_providers env) CODEX_PROVIDER (sl_caps s) of
     (caps, cache) \<Rightarrow> (caps, s\<lparr>sl_caps := cache\<rparr>))"

definition getLocalCodexDemand :: "slot_env \<Rightarrow> db_row list \<Rightarrow> slot_state \<Rightarrow> codex_demand \<times> slot_state" where
  "getLocalCodexDemand env ts s =
     (case codex_caps env s of (caps, s') \<Rightarrow>
        let codexTasks = filter (\<lambda>t. isTaskEligibleForProvider env CODEX_PROVIDER t
              (getQualityBand (sl_providers env) CODEX_PROVIDER) caps) ts in
        (\<lparr>cd_queued = length codexTasks, cd_running = running_on CODEX_PROVIDER (sl_db s'),
          cd_priority = sum_list (map (\<lambda>t. getTaskPriorityWeight (Some t)) codexTasks), cd_tasks = codexTasks\<rparr>, s'))"

text \<open>The world of a call of the shared store; a task's new claim gets the identifier \<open>sl_claim_uuid\<close>.\<close>

definition share_world :: "slot_env \<Rightarrow> string \<Rightarrow> share_env" where
  "share_world env task = \<lparr>sh_now = sl_now env, sh_uuid = sl_claim_uuid env task, sh_parse = (\<lambda>_. None)\<rparr>"

definition demand_record :: "slot_env \<Rightarrow> project_context \<Rightarrow> codex_demand \<Rightarrow> jsobj" where
  "demand_record env project demand =
     [(''project_id'', JStr (projectId project)), (''project_name'', JStr (projectName project)),
      (''provider'', JStr CODEX_PROVIDER), (''queued_count'', JNum (of_nat (cd_queued demand))),
      (''running_count'', JNum (of_nat (cd_running demand))), (''priority_sum'', JNum (of_nat (cd_priority demand))),
      (''ttlMs'', JNum SHARED_DEMAND_TTL_MS),
      (''payload'', JObj [(''cwd'', JStr (sl_cwd env)),
         (''eligible_task_ids'', JArr (take 50 (map (\<lambda>t. col t ''id'') (cd_tasks demand))))])]"

definition publishLocalCodexDemand ::
  "slot_env \<Rightarrow> db_row list \<Rightarrow> slot_state \<Rightarrow> (codex_demand \<times> project_context) option \<times> slot_state" where
  "publishLocalCodexDemand env ts s =
     (case sl_share s of
        None \<Rightarrow> (None, s)
      | Some store \<Rightarrow>
          case getLocalCodexDemand env ts s of (demand, s1) \<Rightarrow>
            let project = resolveProjectContext env ts in
            case upsertProjectDemand (share_world env []) (demand_record env project demand) store of
              (Inl e, _) \<Rightarrow> (None, s1)
            | (Inr row, store') \<Rightarrow> (Some (demand, project), s1\<lparr>sl_share := Some store'\<rparr>))"

section \<open>Arbitration between projects\<close>

record contender =
  ct_project :: string
  ct_name :: string
  ct_weight :: nat

fun add_claim_count :: "(string \<times> nat) list \<Rightarrow> claim_row list \<Rightarrow> (string \<times> nat) list" where
  "add_claim_count counts [] = counts"
| "add_claim_count counts (c # cs) =
     (case normalizeText (JStr (claim_project c)) of
        None \<Rightarrow> add_claim_count counts cs
      | Some p \<Rightarrow> add_claim_count
          (AList.update p ((case map_of counts p of None \<Rightarrow> 0 | Some n \<Rightarrow> n) + 1) counts) cs)"

definition countClaimsByProject :: "claim_row list \<Rightarrow> (string \<times> nat) list" where
  "countClaimsByProject claims = add_claim_count [] claims"

definition demandWeight :: "demand_row \<Rightarrow> nat" where
  "demandWeight row = (if 0 < priority_sum row then priority_sum row
     else if 0 < queued_count row then queued_count row else 1)"

fun add_contenders :: "string \<Rightarrow> (string \<times> contender) list \<Rightarrow> demand_row list \<Rightarrow> (string \<times> contender) list" where
  "add_contenders own cs [] = cs"
| "add_contenders own cs (row # rows) =
     (case normalizeText (JStr (demand_project row)) of
        None \<Rightarrow> add_contenders own cs rows
      | Some p \<Rightarrow>
          if 0 < queued_count row \<or> p = own
          then add_contenders own (AList.update p \<lparr>ct_project = p,
             ct_name = (case normalizeText (js_of_str_option (demand_name row)) of None \<Rightarrow> p | Some n \<Rightarrow> n),
             ct_weight = demandWeight row\<rparr> cs) rows
          else add_contenders own cs rows)"

text \<open>The weight of the asking project is taken from its own snapshot when it has queued tasks.\<close>

definition contenders_for ::
  "project_context \<Rightarrow> codex_demand option \<Rightarrow> demand_row list \<Rightarrow> (string \<times> contender) list" where
  "contenders_for project snapshot demands =
     (let cs = add_contenders (projectId project) [] demands in
      case snapshot of
        Some d \<Rightarrow> if 0 < cd_queued d
          then AList.update (projectId project) \<lparr>ct_project = projectId project, ct_name = projectName project,
                 ct_weight = max (max (cd_priority d) (cd_queued d)) 1\<rparr> cs
          else cs
      | None \<Rightarrow> cs)"

definition need_of :: "(string \<times> contender) list \<Rightarrow> claim_row list \<Rightarrow> contender \<Rightarrow> rat" where
  "need_of cs activeClaims c =
     of_nat (length activeClaims + 1) * of_nat (ct_weight c) / of_nat (sum_list (map (ct_weight \<circ> snd) cs))
     - of_nat (case map_of (countClaimsByProject activeClaims) (ct_project c) of None \<Rightarrow> 0 | Some n \<Rightarrow> n)"

fun largest_need :: "(contender \<Rightarrow> rat) \<Rightarrow> (rat \<times> contender) option \<Rightarrow> contender list \<Rightarrow> (rat \<times> contender) option" where
  "largest_need need best [] = best"
| "largest_need need best (c # cs) =
     largest_need need (case best of
        None \<Rightarrow> Some (need c, c)
      | Some (m, b) \<Rightarrow> if m < need c then Some (need c, c) else Some (m, b)) cs"

datatype claim_decision =
    Shared_store_unavailable
  | Single_project_demand
  | No_weighted_contenders
  | Project_share_exhausted
  | Another_project_has_larger_deficit "string option"
  | Project_has_deficit
  | Arbitration_failed_open
  | Claim_failed_open

fun allows :: "claim_decision \<Rightarrow> bool" where
  "allows Project_share_exhausted = False"
| "allows (Another_project_has_larger_deficit _) = False"
| "allows _ = True"

definition decide_share ::
  "project_context \<Rightarrow> codex_demand option \<Rightarrow> demand_row list \<Rightarrow> claim_row list \<Rightarrow> claim_decision" where
  "decide_share project snapshot demands activeClaims =
     (let cs = contenders_for project snapshot demands;
          need = need_of cs activeClaims;
          localNeed = map_option need (map_of cs (projectId project));
          best = largest_need need None (map snd cs) in
      if length cs \<le> 1 then Single_project_demand
      else if sum_list (map (ct_weight \<circ> snd) cs) = 0 then No_weighted_contenders
      else case (localNeed, best) of
          (Some n, Some (m, b)) \<Rightarrow>
            if n \<le> 0 then Project_share_exhausted
            else if n + 1 / 10 ^ 9 < m then Another_project_has_larger_deficit (some_text (ct_project b))
            else Project_has_deficit
        | _ \<Rightarrow> Project_share_exhausted)"

definition evaluateSharedCodexClaim ::
  "slot_env \<Rightarrow> project_context \<Rightarrow> codex_demand option \<Rightarrow> slot_state \<Rightarrow> claim_decision \<times> slot_state" where
  "evaluateSharedCodexClaim env project snapshot s =
     (case sl_share s of
        None \<Rightarrow> (Shared_store_unavailable, s)
      | Some store \<Rightarrow>
          let store1 = snd (expireStaleRows (sl_now env) store); s1 = s\<lparr>sl_share := Some store1\<rparr>;
              filters = [(''provider'', JStr CODEX_PROVIDER), (''now'', iso (sl_now env)), (''limit'', JNum 1000)] in
          case then_ok (listActiveProjectDemands (share_world env []) filters store1) (\<lambda>demands.
               then_ok (listActiveResourceClaims (share_world env []) filters store1) (\<lambda>activeClaims.
               Inr (demands, activeClaims))) of
            Inl e \<Rightarrow> (Arbitration_failed_open, s1)
          | Inr (demands, activeClaims) \<Rightarrow> (decide_share project snapshot demands activeClaims, s1))"

section \<open>Shared claims\<close>

definition claim_record ::
  "slot_env \<Rightarrow> project_context \<Rightarrow> string \<Rightarrow> db_row option \<Rightarrow> codex_demand option \<Rightarrow> jsobj" where
  "claim_record env project taskId task snapshot =
     [(''project_id'', JStr (projectId project)), (''provider'', JStr CODEX_PROVIDER), (''task_id'', JStr taskId),
      (''claimed_by'', JStr (claimedBy project)), (''ttlMs'', JNum SHARED_CLAIM_TTL_MS),
      (''payload'', JObj [(''project_name'', JStr (projectName project)),
         (''task_priority'', JNum (of_nat (getTaskPriorityWeight task))),
         (''demand'', case snapshot of None \<Rightarrow> JNull | Some d \<Rightarrow> JObj
            [(''queued_count'', JNum (of_nat (cd_queued d))), (''running_count'', JNum (of_nat (cd_running d))),
             (''priority_sum'', JNum (of_nat (cd_priority d)))])])]"

definition acquireSharedCodexClaim ::
  "slot_env \<Rightarrow> string \<Rightarrow> db_row option \<Rightarrow> (codex_demand \<times> project_context) option \<Rightarrow> slot_state
     \<Rightarrow> (claim_decision \<times> claim_row option) \<times> slot_state" where
  "acquireSharedCodexClaim env taskId task demandSnapshot s =
     (if sl_share s = None then ((Shared_store_unavailable, None), s)
      else
        let project = (case demandSnapshot of None \<Rightarrow> resolveProjectContext env [] | Some (_, p) \<Rightarrow> p);
            snapshot = map_option fst demandSnapshot in
        case evaluateSharedCodexClaim env project snapshot s of
          (decision, s1) \<Rightarrow>
            if \<not> allows decision then ((decision, None), s1)
            else case sl_share s1 of
                None \<Rightarrow> ((decision, None), s1)
              | Some store \<Rightarrow>
                  (case claimResource (share_world env taskId) (claim_record env project taskId task snapshot) store of
                     (Inl e, _) \<Rightarrow> ((Claim_failed_open, None), s1)
                   | (Inr claim, store') \<Rightarrow> ((decision, claim), s1\<lparr>sl_share := Some store'\<rparr>)))"

definition releaseSharedCodexClaim :: "slot_env \<Rightarrow> claim_row option \<Rightarrow> string \<Rightarrow> slot_state \<Rightarrow> slot_state" where
  "releaseSharedCodexClaim env claim reason s =
     (case (claim, sl_share s) of
        (Some c, Some store) \<Rightarrow>
          if claim_id c = [] then s
          else s\<lparr>sl_share := Some (snd (releaseResourceClaim (share_world env []) (JStr (claim_id c)) (JStr reason) store))\<rparr>
      | _ \<Rightarrow> s)"

section \<open>A pass\<close>

record pass_state =
  ps_slots :: slot_state
  claimedThisPass :: "string list"
  assigned :: nat
  skipped :: nat

definition on_db :: "(tdb \<Rightarrow> 'a \<times> tdb) \<Rightarrow> slot_state \<Rightarrow> 'a \<times> slot_state" where
  "on_db f s = (case f (sl_db s) of (v, d) \<Rightarrow> (v, s\<lparr>sl_db := d\<rparr>))"

definition skip_one :: "pass_state \<Rightarrow> pass_state" where
  "skip_one ps = ps\<lparr>skipped := skipped ps + 1\<rparr>"

definition not_running_result :: "jsval \<Rightarrow> bool" where
  "not_running_result r = (js_truthy (jget r ''queued'') \<or>
     jget r ''status'' = JStr ''failed'' \<or> jget r ''status'' = JStr ''queued'')"

definition undo_claim :: "slot_env \<Rightarrow> string \<Rightarrow> claim_row option \<Rightarrow> string \<Rightarrow> slot_state \<Rightarrow> slot_state" where
  "undo_claim env taskId shared reason s =
     releaseSharedCodexClaim env shared reason (snd (on_db (clearProviderIfNotRunning taskId) s))"

text \<open>What follows the claim of a task: it is started, and the outcome is looked at.\<close>

definition start_claimed :: "slot_env \<Rightarrow> string \<Rightarrow> claim_row option \<Rightarrow> pass_state \<Rightarrow> pass_state" where
  "start_claimed env taskId shared ps =
     (let ps1 = ps\<lparr>claimedThisPass := taskId # claimedThisPass ps\<rparr>;
          done_one = (\<lambda>s. ps1\<lparr>ps_slots := s, assigned := assigned ps1 + 1\<rparr>) in
      case sl_start env of
        None \<Rightarrow> done_one (ps_slots ps1)
      | Some startTask \<Rightarrow>
          (case on_db (startTask taskId) (ps_slots ps1) of
             (Inl e, s) \<Rightarrow> ps1\<lparr>ps_slots := undo_claim env taskId shared ''start_failed'' s\<rparr>
           | (Inr startResult, s) \<Rightarrow>
               if js_truthy (jget startResult ''alreadyRunning'')
               then skip_one (ps1\<lparr>ps_slots := releaseSharedCodexClaim env shared ''already_running'' s\<rparr>)
               else if not_running_result startResult
               then skip_one (ps1\<lparr>ps_slots := undo_claim env taskId shared ''start_returned_non_running'' s\<rparr>)
               else done_one s))"

datatype slot_flow = Next_slot | No_more_slots | Pass_throws task_error

definition slot_body ::
  "slot_env \<Rightarrow> (codex_demand \<times> project_context) option \<Rightarrow> string \<Rightarrow> pass_state \<Rightarrow> slot_flow \<times> pass_state" where
  "slot_body env codexDemand provider ps =
     (case findBestTaskForProvider env provider (claimedThisPass ps) (ps_slots ps) of
        (found, s1) \<Rightarrow>
          let ps1 = ps\<lparr>ps_slots := s1\<rparr>; taskId = (case found of None \<Rightarrow> [] | Some i \<Rightarrow> i) in
          if taskId = [] then (No_more_slots, ps1)
          else case getTask taskId (sl_db s1) of
              Inl e \<Rightarrow> (Pass_throws e, ps1)
            | Inr task \<Rightarrow>
                (case (if provider = CODEX_PROVIDER then acquireSharedCodexClaim env taskId task codexDemand s1
                       else ((Shared_store_unavailable, None), s1)) of
                   ((decision, shared), s2) \<Rightarrow>
                     let ps2 = ps\<lparr>ps_slots := s2\<rparr> in
                     if \<not> allows decision then (No_more_slots, skip_one ps2)
                     else case on_db (claimSlotAtomic taskId provider) s2 of
                         (claimed, s3) \<Rightarrow>
                           if \<not> claimed
                           then (Next_slot, skip_one (ps\<lparr>ps_slots := releaseSharedCodexClaim env shared ''local_claim_failed'' s3\<rparr>))
                           else (Next_slot, start_claimed env taskId shared (ps\<lparr>ps_slots := s3\<rparr>))))"

text \<open>\<open>for (let slot = first; slot < first + n; slot++)\<close>\<close>

fun slot_loop ::
  "slot_env \<Rightarrow> (codex_demand \<times> project_context) option \<Rightarrow> string \<Rightarrow> bool \<Rightarrow> nat \<Rightarrow> pass_state
     \<Rightarrow> task_error option \<times> pass_state" where
  "slot_loop env codexDemand provider first 0 ps = (None, ps)"
| "slot_loop env codexDemand provider first (Suc n) ps =
     (if \<not> first \<and> \<not> hasOllamaHostCapacity env provider (sl_db (ps_slots ps)) then (None, ps)
      else case slot_body env codexDemand provider ps of
          (Next_slot, ps') \<Rightarrow> slot_loop env codexDemand provider False n ps'
        | (No_more_slots, ps') \<Rightarrow> (None, ps')
        | (Pass_throws e, ps') \<Rightarrow> (Some e, ps'))"

fun provider_loop ::
  "slot_env \<Rightarrow> (codex_demand \<times> project_context) option \<Rightarrow> string list \<Rightarrow> pass_state \<Rightarrow> task_error option \<times> pass_state" where
  "provider_loop env codexDemand [] ps = (None, ps)"
| "provider_loop env codexDemand (p # rest) ps =
     (let d = sl_db (ps_slots ps); available = getMaxConcurrent env p - of_nat (running_on p d) in
      if getQualityBand (sl_providers env) p = ''D'' \<or> available \<le> 0 \<or> \<not> hasOllamaHostCapacity env p d
      then provider_loop env codexDemand rest ps
      else case slot_loop env codexDemand p True (nat (ceiling available)) ps of
          (None, ps') \<Rightarrow> provider_loop env codexDemand rest ps'
        | (Some e, ps') \<Rightarrow> (Some e, ps'))"

definition runSlotPullPass :: "slot_env \<Rightarrow> slot_state \<Rightarrow> (task_error + nat \<times> nat) \<times> slot_state" where
  "runSlotPullPass env s =
     (if isRestartBarrierActive (sl_restart_pending env) (sl_db s) \<noteq> None then (Inr (0, 0), s)
      else
        let s1 = snd (on_db (promotePendingRestartResubmissions (sl_now env)) s) in
        case publishLocalCodexDemand env (getUnassignedQueuedTasks env UNASSIGNED_LIMIT (sl_db s1)) s1 of
          (codexDemand, s2) \<Rightarrow>
            case provider_loop env codexDemand (getEnabledProviders env)
                   \<lparr>ps_slots = s2, claimedThisPass = [], assigned = 0, skipped = 0\<rparr> of
              (None, ps) \<Rightarrow> (Inr (assigned ps, skipped ps), ps_slots ps)
            | (Some e, ps) \<Rightarrow> (Inl e, ps_slots ps))"

text \<open>\<open>onSlotFreed\<close> and the heartbeat swallow what a pass throws.\<close>

definition onSlotFreed :: "slot_env \<Rightarrow> slot_state \<Rightarrow> slot_state" where
  "onSlotFreed env s = snd (runSlotPullPass env s)"

definition heartbeat_tick :: "slot_env \<Rightarrow> slot_state \<Rightarrow> slot_state" where
  "heartbeat_tick env s = (if getUnassignedQueuedTasks env UNASSIGNED_LIMIT (sl_db s) \<noteq> [] then onSlotFreed env s else s)"

text \<open>
  \<open>requeueAfterFailure\<close> hands the retry limit and the parsed metadata to the store; a retry count
  reaches a limit exactly when it reaches the limit rounded up.
\<close>

definition requeueAfterFailure ::
  "slot_env \<Rightarrow> (db_row \<Rightarrow> jsval \<Rightarrow> jsval \<Rightarrow> jsval) \<Rightarrow> (jsval \<Rightarrow> jsval \<Rightarrow> jsval) \<Rightarrow> string \<Rightarrow> string \<Rightarrow> bool \<Rightarrow> jsval \<Rightarrow> jsval
     \<Rightarrow> slot_state \<Rightarrow> requeue_result \<times> slot_state" where
  "requeueAfterFailure env resume prepend taskId failedProvider deferTerminalWrite errorOutput output s =
     on_db (requeueAfterSlotFailure (sl_now env) resume prepend (\<lambda>p. nat (ceiling (getMaxRetries env p)))
       (\<lambda>t. normalizeMetadata (col t ''metadata'')) taskId failedProvider deferTerminalWrite errorOutput output) s"

end
