(* ===== verification/Slot_Pull_Laws.thy ===== *)
theory Slot_Pull_Laws
  imports Slot_Pull Task_Claims
begin

text \<open>
  What a slot-pull pass does to the task table, whatever \<open>startTask\<close> is: the pass visits the enabled providers
  in order, and a visit is a sequence of claims (\<open>claim_and_start\<close>: the claim of a task, its start, and
  the undoing of the claim when the start fails). \<open>visits_ok\<close> says what every claim has met at the moment
  it is made. Nothing is assumed of \<open>startTask\<close>, which may reroute the task or touch other rows.
\<close>

section \<open>Claims and visits\<close>

definition start_or_undo :: "slot_env \<Rightarrow> string \<Rightarrow> tdb \<Rightarrow> tdb" where
  "start_or_undo env i d = (case sl_start env of
     None \<Rightarrow> d
   | Some f \<Rightarrow> (case f i d of
        (Inl e, d') \<Rightarrow> snd (clearProviderIfNotRunning i d')
      | (Inr v, d') \<Rightarrow> if \<not> js_truthy (jget v ''alreadyRunning'') \<and> not_running_result v
                       then snd (clearProviderIfNotRunning i d') else d'))"

definition claim_and_start :: "slot_env \<Rightarrow> string \<Rightarrow> string \<Rightarrow> tdb \<Rightarrow> tdb" where
  "claim_and_start env p i d = start_or_undo env i (snd (claimSlotAtomic i p d))"

text \<open>A task may be claimed for a provider while it is queued, has no provider and does not exclude the
  provider by its list of eligible providers.\<close>

definition listed_for :: "string \<Rightarrow> db_row \<Rightarrow> bool" where
  "listed_for p r = (let eligible = arr_of (obj_get (normalizeMetadata (col r ''metadata'')) ''eligible_providers'') in
     eligible = [] \<or> JStr p \<in> set eligible)"

definition claimable :: "string \<Rightarrow> string \<Rightarrow> tdb \<Rightarrow> bool" where
  "claimable p i d = list_ex (\<lambda>r. has_id i r \<and> col r ''status'' = JStr ''queued'' \<and>
     \<not> js_truthy (col r ''provider'') \<and> listed_for p r) (tasks d)"

fun claims_ok :: "slot_env \<Rightarrow> string \<Rightarrow> string list \<Rightarrow> tdb \<Rightarrow> bool" where
  "claims_ok env p [] d = True"
| "claims_ok env p (i # is) d =
     (claimable p i d \<and> getQualityBand (sl_providers env) p \<noteq> ''D'' \<and> hasOllamaHostCapacity env p d \<and>
      claims_ok env p is (claim_and_start env p i d))"

definition free_slots :: "slot_env \<Rightarrow> string \<Rightarrow> tdb \<Rightarrow> nat" where
  "free_slots env p d = nat (ceiling (getMaxConcurrent env p - of_nat (running_on p d)))"

type_synonym visit = "string \<times> string list"

fun run_visits :: "slot_env \<Rightarrow> visit list \<Rightarrow> tdb \<Rightarrow> tdb" where
  "run_visits env [] d = d"
| "run_visits env ((p, is) # vs) d = run_visits env vs (fold (claim_and_start env p) is d)"

fun visits_ok :: "slot_env \<Rightarrow> visit list \<Rightarrow> tdb \<Rightarrow> bool" where
  "visits_ok env [] d = True"
| "visits_ok env ((p, is) # vs) d =
     (length is \<le> free_slots env p d \<and> claims_ok env p is d \<and> visits_ok env vs (fold (claim_and_start env p) is d))"

definition claimed_by :: "visit list \<Rightarrow> string list" where
  "claimed_by vs = concat (map snd vs)"

lemma claimed_by_simps [simp]: "claimed_by [] = []" "claimed_by (v # vs) = snd v @ claimed_by vs"
  by (simp_all add: claimed_by_def)

section \<open>One slot of a pass\<close>

lemma find_in: "List.find P xs = Some x \<Longrightarrow> x \<in> set xs \<and> P x"
  by (induction xs) (auto split: if_splits)

lemma unassigned_rows:
  assumes "t \<in> set (getUnassignedQueuedTasks env n d)"
  shows "\<exists>r \<in> set (tasks d). (\<forall>c. c \<noteq> ''workflow_priority'' \<longrightarrow> col t c = col r c) \<and> col r ''status'' = JStr ''queued'' \<and>
    \<not> js_truthy (col r ''provider'')"
proof -
  have "t \<in> set (filter (\<lambda>t. \<not> js_truthy (col t ''provider'')) (map (light_row d) (listQueuedTasksLightweight n d)))"
    using assms by (auto simp: getUnassignedQueuedTasks_def Let_def split: if_splits)
  then obtain r where r: "t = light_row d r" "r \<in> set (listQueuedTasksLightweight n d)" "\<not> js_truthy (col t ''provider'')"
    by auto
  from r(2) have "r \<in> set (tasks d)" "col r ''status'' = JStr ''queued''"
    by (auto simp: listQueuedTasksLightweight_def sql_eq_def dest: in_set_takeD split: if_splits)
  with r show ?thesis by (auto simp: light_row_def intro!: bexI [of _ r])
qed

lemma eligible_listed:
  assumes "isTaskEligibleForProvider env p t band caps"
  shows "band \<noteq> ''D''" "listed_for p t"
  using assms by (auto simp: isTaskEligibleForProvider_def listed_for_def Let_def split: if_splits)

lemma found_claimable:
  assumes "findBestTaskForProvider env p excl s = (Some i, s')" and "i \<noteq> []"
  shows "claimable p i (sl_db s)" and "i \<notin> set excl" and "getQualityBand (sl_providers env) p \<noteq> ''D''"
proof -
  from assms obtain t caps where find: "List.find (\<lambda>t. str_of (col t ''id'') \<notin> set excl
        \<and> isTaskEligibleForProvider env p t (getQualityBand (sl_providers env) p) caps)
      (getUnassignedQueuedTasks env UNASSIGNED_LIMIT (sl_db s)) = Some t" and i: "i = str_of (col t ''id'')"
    by (auto simp: findBestTaskForProvider_def Let_def split: if_splits prod.splits)
  note t = find_in [OF find]
  obtain r where r: "r \<in> set (tasks (sl_db s))" "\<And>c. c \<noteq> ''workflow_priority'' \<Longrightarrow> col t c = col r c" "col r ''status'' = JStr ''queued''"
    "\<not> js_truthy (col r ''provider'')" using unassigned_rows [OF conjunct1 [OF t]] by blast
  have "col r ''id'' = JStr i" using i assms(2) r(2) [of "''id''"] by (auto simp: str_of_def split: jsval.splits)
  moreover have "listed_for p r" using eligible_listed(2) t r(2) [of "''metadata''"] by (fastforce simp: listed_for_def)
  ultimately show "claimable p i (sl_db s)" using r by (auto simp: claimable_def has_id_def list_ex_iff)
  show "i \<notin> set excl" "getQualityBand (sl_providers env) p \<noteq> ''D''" using t i eligible_listed(1) by blast+
qed

lemma find_db [simp]: "sl_db (snd (findBestTaskForProvider env p excl s)) = sl_db s"
  by (simp add: findBestTaskForProvider_def Let_def split: prod.split)

lemma evaluate_db [simp]: "sl_db (snd (evaluateSharedCodexClaim env pr snap s)) = sl_db s"
  by (simp add: evaluateSharedCodexClaim_def Let_def split: option.split sum.split)

lemma acquire_db [simp]: "sl_db (snd (acquireSharedCodexClaim env i t snap s)) = sl_db s"
proof -
  obtain dec s1 where e: "evaluateSharedCodexClaim env (case snap of None \<Rightarrow> resolveProjectContext env [] | Some (_, p) \<Rightarrow> p)
      (map_option fst snap) s = (dec, s1)" by fastforce
  have "sl_db s1 = sl_db s" using evaluate_db [of env _ _ s] e by (metis snd_conv)
  then show ?thesis
    by (auto simp: acquireSharedCodexClaim_def Let_def e split: option.split sum.split prod.split)
qed

lemma release_db [simp]: "sl_db (releaseSharedCodexClaim env c why s) = sl_db s"
  by (simp add: releaseSharedCodexClaim_def split: option.split)

lemma on_db_db [simp]: "sl_db (snd (on_db f s)) = snd (f (sl_db s))" "fst (on_db f s) = fst (f (sl_db s))"
  by (simp_all add: on_db_def split: prod.split)

lemma start_claimed_db:
  "sl_db (ps_slots (start_claimed env i c ps)) = start_or_undo env i (sl_db (ps_slots ps))"
proof (cases "sl_start env")
  case None
  then show ?thesis by (simp add: start_claimed_def start_or_undo_def Let_def)
next
  case (Some f)
  obtain v d where "f i (sl_db (ps_slots ps)) = (v, d)" by fastforce
  with Some show ?thesis
    by (cases v) (simp_all add: start_claimed_def start_or_undo_def Let_def on_db_def undo_claim_def skip_one_def
      split: prod.split)
qed

lemma failed_claim: "\<not> fst (claimSlotAtomic i p d) \<Longrightarrow> snd (claimSlotAtomic i p d) = d"
  using map_where_none [of "tasks d" "\<lambda>r. has_id i r \<and> col r ''status'' = JStr ''queued''" "set_cols [(''provider'', JStr p)]"]
  by (simp add: claimSlotAtomic_def Let_def count_where_zero)

lemma start_claimed_books:
  "claimedThisPass (start_claimed env i c ps) = i # claimedThisPass ps" "assigned (start_claimed env i c ps) \<le> assigned ps + 1"
  by (simp_all add: start_claimed_def skip_one_def undo_claim_def Let_def split: option.split prod.split sum.split)

text \<open>The body of a slot once the next task is known, and what it does to the task table.\<close>

lemma slot_body_none:
  assumes "findBestTaskForProvider env p (claimedThisPass ps) (ps_slots ps) = (found, s1)" and "found = None \<or> found = Some []"
  shows "slot_body env cd p ps = (No_more_slots, ps\<lparr>ps_slots := s1\<rparr>)"
  using assms by (auto simp: slot_body_def Let_def)

lemma slot_body_some:
  assumes "findBestTaskForProvider env p (claimedThisPass ps) (ps_slots ps) = (Some i, s1)" and "i \<noteq> []"
    and "getTask i (sl_db s1) = Inr task"
    and "(if p = CODEX_PROVIDER then acquireSharedCodexClaim env i task cd s1
        else ((Shared_store_unavailable, None), s1)) = ((dec, shared), s2)"
    and "on_db (claimSlotAtomic i p) s2 = (b, s3)"
  shows "slot_body env cd p ps = (if \<not> allows dec then (No_more_slots, skip_one (ps\<lparr>ps_slots := s2\<rparr>))
        else if \<not> b then (Next_slot, skip_one (ps\<lparr>ps_slots := releaseSharedCodexClaim env shared ''local_claim_failed'' s3\<rparr>))
        else (Next_slot, start_claimed env i shared (ps\<lparr>ps_slots := s3\<rparr>)))"
  unfolding slot_body_def assms(1) prod.case Let_def option.case assms(3) sum.case assms(4,5)
  using assms(2) by simp

lemma slot_body_throws:
  assumes "findBestTaskForProvider env p (claimedThisPass ps) (ps_slots ps) = (Some i, s1)" and "i \<noteq> []"
    and "getTask i (sl_db s1) = Inl e"
  shows "slot_body env cd p ps = (Pass_throws e, ps\<lparr>ps_slots := s1\<rparr>)"
  using assms by (simp add: slot_body_def Let_def)

lemma slot_body_effect:
  assumes "slot_body env cd p ps = (flow, ps')"
  shows "sl_db (ps_slots ps') = sl_db (ps_slots ps) \<and> claimedThisPass ps' = claimedThisPass ps \<and> assigned ps' = assigned ps \<or>
    (\<exists>i. claimable p i (sl_db (ps_slots ps)) \<and> i \<notin> set (claimedThisPass ps) \<and> getQualityBand (sl_providers env) p \<noteq> ''D'' \<and>
      sl_db (ps_slots ps') = claim_and_start env p i (sl_db (ps_slots ps)) \<and>
      claimedThisPass ps' = i # claimedThisPass ps \<and> assigned ps' \<le> assigned ps + 1)"
proof -
  let ?d = "sl_db (ps_slots ps)"
  obtain found s1 where f: "findBestTaskForProvider env p (claimedThisPass ps) (ps_slots ps) = (found, s1)" by fastforce
  have d1: "sl_db s1 = ?d" using find_db [of env p "claimedThisPass ps" "ps_slots ps"] f by simp
  show ?thesis
  proof (cases "found = None \<or> found = Some []")
    case True
    then show ?thesis using assms d1 slot_body_none [OF f] by auto
  next
    case False
    then obtain i where i: "found = Some i" "i \<noteq> []" by auto
    note f = f [unfolded i(1)]
    show ?thesis
    proof (cases "getTask i (sl_db s1)")
      case (Inl e)
      then show ?thesis using assms d1 slot_body_throws [OF f i(2)] by auto
    next
      case (Inr task)
      obtain dec shared s2 where a: "(if p = CODEX_PROVIDER then acquireSharedCodexClaim env i task cd s1
          else ((Shared_store_unavailable, None), s1)) = ((dec, shared), s2)" by (metis surj_pair)
      have "snd (if p = CODEX_PROVIDER then acquireSharedCodexClaim env i task cd s1
          else ((Shared_store_unavailable, None), s1)) = s2" using a by simp
      then have d2: "sl_db s2 = ?d" using d1 by (auto split: if_splits)
      obtain b s3 where c: "on_db (claimSlotAtomic i p) s2 = (b, s3)" by fastforce
      have d3: "b = fst (claimSlotAtomic i p ?d)" "sl_db s3 = snd (claimSlotAtomic i p ?d)"
        using on_db_db [of "claimSlotAtomic i p" s2] c d2 by simp_all
      from slot_body_some [OF f i(2) Inr a c] assms show ?thesis
        using d2 d3 found_claimable [OF f i(2)] failed_claim [of i p ?d] start_claimed_books [of env i shared "ps\<lparr>ps_slots := s3\<rparr>"]
        by (auto simp: skip_one_def start_claimed_db claim_and_start_def split: if_splits)
    qed
  qed
qed

section \<open>A whole pass\<close>

text \<open>What a part of the pass has done: its claims are new, and it has counted no more than it claimed.\<close>

definition books :: "string list \<Rightarrow> pass_state \<Rightarrow> pass_state \<Rightarrow> bool" where
  "books is ps ps' \<longleftrightarrow> set (claimedThisPass ps') = set is \<union> set (claimedThisPass ps) \<and> distinct is \<and>
     set is \<inter> set (claimedThisPass ps) = {} \<and> assigned ps' \<le> assigned ps + length is"

lemma books_none: "claimedThisPass ps' = claimedThisPass ps \<Longrightarrow> assigned ps' = assigned ps \<Longrightarrow> books [] ps ps'"
  by (simp add: books_def)

lemma books_append: "books is a b \<Longrightarrow> books js b c \<Longrightarrow> books (is @ js) a c"
  by (auto simp: books_def)

lemma slot_loop_claims:
  assumes "slot_loop env cd p first n ps = (e, ps')" and "first \<Longrightarrow> hasOllamaHostCapacity env p (sl_db (ps_slots ps))"
  shows "\<exists>is. length is \<le> n \<and> claims_ok env p is (sl_db (ps_slots ps)) \<and> books is ps ps' \<and>
    sl_db (ps_slots ps') = fold (claim_and_start env p) is (sl_db (ps_slots ps))"
  using assms
proof (induction n arbitrary: first ps)
  case 0
  then show ?case by (intro exI [of _ "[]"]) (simp add: books_none)
next
  case (Suc n)
  let ?d = "sl_db (ps_slots ps)"
  obtain flow ps1 where b: "slot_body env cd p ps = (flow, ps1)" by fastforce
  obtain js where js: "length js \<le> 1" "hasOllamaHostCapacity env p ?d \<Longrightarrow> claims_ok env p js ?d" "books js ps ps1"
      "sl_db (ps_slots ps1) = fold (claim_and_start env p) js ?d" "hasOllamaHostCapacity env p ?d \<Longrightarrow> \<forall>is. claims_ok env p is (sl_db (ps_slots ps1)) \<longrightarrow> claims_ok env p (js @ is) ?d"
    using slot_body_effect [OF b]
  proof (elim disjE exE conjE, goal_cases)
    case 1
    then show ?thesis by (intro 1(1) [of "[]"]) (simp_all add: books_none)
  next
    case (2 i)
    then show ?thesis by (intro 2(1) [of "[i]"]) (auto simp: books_def)
  qed
  show ?case
  proof (cases "first \<or> hasOllamaHostCapacity env p ?d")
    case False
    then show ?thesis using Suc.prems(1) by (intro exI [of _ "[]"]) (simp add: books_none)
  next
    case room: True
    then have cap: "hasOllamaHostCapacity env p ?d" using Suc.prems(2) by blast
    show ?thesis
    proof (cases "flow = Next_slot")
      case True
      then have "slot_loop env cd p False n ps1 = (e, ps')" using Suc.prems(1) b cap by simp
      from Suc.IH [OF this] obtain "is" where "length is \<le> n" "claims_ok env p is (sl_db (ps_slots ps1))" "books is ps1 ps'"
        "sl_db (ps_slots ps') = fold (claim_and_start env p) is (sl_db (ps_slots ps1))" by auto
      then show ?thesis using js cap by (intro exI [of _ "js @ is"]) (auto intro: books_append)
    next
      case False
      then have "ps' = ps1" using Suc.prems(1) b cap by (cases flow) auto
      then show ?thesis using js cap by (intro exI [of _ js]) auto
    qed
  qed
qed

lemma provider_loop_visits:
  assumes "provider_loop env cd providers ps = (e, ps')"
  shows "\<exists>vs. map fst vs = take (length vs) providers \<and> visits_ok env vs (sl_db (ps_slots ps)) \<and>
    books (claimed_by vs) ps ps' \<and> sl_db (ps_slots ps') = run_visits env vs (sl_db (ps_slots ps))"
  using assms
proof (induction providers arbitrary: ps)
  case Nil
  then show ?case by (intro exI [of _ "[]"]) (simp add: books_none)
next
  case (Cons p rest)
  let ?d = "sl_db (ps_slots ps)"
  let ?free = "getMaxConcurrent env p - of_nat (running_on p ?d)"
  have go_on: ?case if "provider_loop env cd rest ps1 = (e, ps')" "length is \<le> free_slots env p ?d" "claims_ok env p is ?d"
      "books is ps ps1" "sl_db (ps_slots ps1) = fold (claim_and_start env p) is ?d" for "is" ps1
  proof -
    from Cons.IH [OF that(1)] obtain vs where "map fst vs = take (length vs) rest" "visits_ok env vs (sl_db (ps_slots ps1))"
      "books (claimed_by vs) ps1 ps'" "sl_db (ps_slots ps') = run_visits env vs (sl_db (ps_slots ps1))" by blast
    then show ?thesis using that by (intro exI [of _ "(p, is) # vs"]) (simp add: books_append)
  qed
  show ?case
  proof (cases "getQualityBand (sl_providers env) p = ''D'' \<or> ?free \<le> 0 \<or> \<not> hasOllamaHostCapacity env p ?d")
    case True
    with Cons.prems have "provider_loop env cd rest ps = (e, ps')" by (simp add: Let_def)
    from go_on [OF this, of "[]"] show ?thesis by (simp add: books_none)
  next
    case False
    obtain e1 ps1 where l: "slot_loop env cd p True (nat (ceiling ?free)) ps = (e1, ps1)" by fastforce
    from slot_loop_claims [OF l] False obtain "is" where visit: "length is \<le> free_slots env p ?d" "claims_ok env p is ?d"
      "books is ps ps1" "sl_db (ps_slots ps1) = fold (claim_and_start env p) is ?d" by (auto simp: free_slots_def)
    show ?thesis
    proof (cases e1)
      case None
      then have "provider_loop env cd rest ps1 = (e, ps')" using Cons.prems False l by (simp add: Let_def)
      from go_on [OF this visit] show ?thesis .
    next
      case (Some x)
      then have "ps' = ps1" using Cons.prems False l by (simp add: Let_def)
      with visit show ?thesis by (intro exI [of _ "[(p, is)]"]) simp
    qed
  qed
qed

lemma publish_db [simp]: "sl_db (snd (publishLocalCodexDemand env ts s)) = sl_db s"
  by (simp add: publishLocalCodexDemand_def getLocalCodexDemand_def codex_caps_def Let_def
    split: option.split prod.split sum.split)

definition before_claims :: "slot_env \<Rightarrow> tdb \<Rightarrow> tdb" where
  "before_claims env d = (if isRestartBarrierActive (sl_restart_pending env) d \<noteq> None then d
     else snd (promotePendingRestartResubmissions (sl_now env) d))"

lemma pass_visits:
  "\<exists>vs. map fst vs = take (length vs) (getEnabledProviders env) \<and>
    (isRestartBarrierActive (sl_restart_pending env) (sl_db s) \<noteq> None \<longrightarrow> vs = []) \<and>
    visits_ok env vs (before_claims env (sl_db s)) \<and> distinct (claimed_by vs) \<and>
    sl_db (snd (runSlotPullPass env s)) = run_visits env vs (before_claims env (sl_db s)) \<and>
    (case fst (runSlotPullPass env s) of Inl e \<Rightarrow> True | Inr (n, k) \<Rightarrow> n \<le> length (claimed_by vs))"
proof (cases "isRestartBarrierActive (sl_restart_pending env) (sl_db s) = None")
  case False
  then show ?thesis by (intro exI [of _ "[]"]) (simp add: runSlotPullPass_def before_claims_def)
next
  case True
  define s1 where "s1 = snd (on_db (promotePendingRestartResubmissions (sl_now env)) s)"
  have s1: "sl_db s1 = before_claims env (sl_db s)" using True by (simp add: s1_def before_claims_def)
  obtain cd s2 where c: "publishLocalCodexDemand env (getUnassignedQueuedTasks env UNASSIGNED_LIMIT (sl_db s1)) s1 = (cd, s2)"
    by fastforce
  have s2: "sl_db s2 = sl_db s1" using publish_db c by (metis snd_conv)
  obtain e ps where l: "provider_loop env cd (getEnabledProviders env)
      \<lparr>ps_slots = s2, claimedThisPass = [], assigned = 0, skipped = 0\<rparr> = (e, ps)" by fastforce
  have result: "runSlotPullPass env s = (case e of None \<Rightarrow> (Inr (assigned ps, skipped ps), ps_slots ps) | Some e \<Rightarrow> (Inl e, ps_slots ps))"
    using True by (cases e) (simp_all add: runSlotPullPass_def Let_def s1_def [symmetric] c l)
  from provider_loop_visits [OF l] s1 s2 show ?thesis
    by (auto simp: result books_def True split: option.split)
qed

end
