(* ===== verification/Slot_Arbitration.thy ===== *)
theory Slot_Arbitration
  imports Slot_Pull
begin

text \<open>
  The arbitration of codex slots between projects: the contenders and the counts of claims in closed
  form, and why it cannot refuse everybody. The needs of the contenders add up to at least one slot,
  so the largest is positive; the project that has it is admitted, also when it asks with its own
  snapshot, whose weight is at least that of its row (\<open>share_admits\<close>).
\<close>

section \<open>Contenders and claims\<close>

definition contender_of :: "demand_row \<Rightarrow> contender" where
  "contender_of r = \<lparr>ct_project = demand_project r,
     ct_name = (case normalizeText (js_of_str_option (demand_name r)) of None \<Rightarrow> demand_project r | Some n \<Rightarrow> n),
     ct_weight = demandWeight r\<rparr>"

definition named :: "demand_row \<Rightarrow> bool" where
  "named r \<longleftrightarrow> normalizeText (JStr (demand_project r)) = Some (demand_project r)"

definition waiting :: "demand_row list \<Rightarrow> demand_row list" where
  "waiting demands = filter (\<lambda>r. 0 < queued_count r) demands"

lemma update_fresh: "k \<notin> fst ` set xs \<Longrightarrow> AList.update k v xs = xs @ [(k, v)]"
  by (induction xs) auto

lemma add_contenders_new:
  assumes "list_all named rows" and "distinct (map demand_project rows)"
    and "\<forall>r \<in> set rows. demand_project r \<notin> fst ` set cs"
  shows "add_contenders own cs rows =
    cs @ map (\<lambda>r. (demand_project r, contender_of r)) (filter (\<lambda>r. 0 < queued_count r \<or> demand_project r = own) rows)"
  using assms
proof (induction rows arbitrary: cs)
  case (Cons r rows)
  have n: "normalizeText (JStr (demand_project r)) = Some (demand_project r)" using Cons.prems(1) by (simp add: named_def)
  show ?case
  proof (cases "0 < queued_count r \<or> demand_project r = own")
    case True
    have fresh: "\<forall>x \<in> set rows. demand_project x \<notin> fst ` set (cs @ [(demand_project r, contender_of r)])"
    proof
      fix x assume x: "x \<in> set rows"
      then have "demand_project x \<noteq> demand_project r" using Cons.prems(2) by (metis distinct.simps(2) imageI list.set_map list.simps(9))
      with x Cons.prems(3) show "demand_project x \<notin> fst ` set (cs @ [(demand_project r, contender_of r)])" by simp
    qed
    have "add_contenders own (cs @ [(demand_project r, contender_of r)]) rows =
        (cs @ [(demand_project r, contender_of r)]) @
          map (\<lambda>r. (demand_project r, contender_of r)) (filter (\<lambda>r. 0 < queued_count r \<or> demand_project r = own) rows)"
      by (rule Cons.IH [OF _ _ fresh]) (use Cons.prems in simp_all)
    with True n Cons.prems(3) show ?thesis by (simp add: update_fresh contender_of_def)
  next
    case False
    have "add_contenders own cs rows =
        cs @ map (\<lambda>r. (demand_project r, contender_of r)) (filter (\<lambda>r. 0 < queued_count r \<or> demand_project r = own) rows)"
      by (rule Cons.IH) (use Cons.prems in auto)
    with False n show ?thesis by simp
  qed
qed simp

lemma contenders_waiting:
  assumes "list_all named demands" and "distinct (map demand_project demands)" and "r \<in> set (waiting demands)"
  shows "add_contenders (demand_project r) [] demands = map (\<lambda>r. (demand_project r, contender_of r)) (waiting demands)"
proof -
  have "(0 < queued_count x \<or> demand_project x = demand_project r) = (0 < queued_count x)" if "x \<in> set demands" for x
    using assms(2,3) that by (auto simp: waiting_def distinct_map inj_on_def)
  then have "filter (\<lambda>x. 0 < queued_count x \<or> demand_project x = demand_project r) demands = waiting demands"
    unfolding waiting_def by (intro filter_cong) simp_all
  then show ?thesis by (simp add: add_contenders_new [OF assms(1,2)])
qed

text \<open>A claim is counted for the project it names, and for no other.\<close>

definition claims_of :: "claim_row list \<Rightarrow> string \<Rightarrow> nat" where
  "claims_of cs p = count_where (\<lambda>c. normalizeText (JStr (claim_project c)) = Some p) cs"

lemma add_claim_count:
  "(case map_of (add_claim_count counts cs) p of None \<Rightarrow> 0 | Some n \<Rightarrow> n) =
   (case map_of counts p of None \<Rightarrow> 0 | Some n \<Rightarrow> n) + claims_of cs p"
proof (induction cs arbitrary: counts)
  case (Cons c cs)
  show ?case
  proof (cases "normalizeText (JStr (claim_project c))")
    case None
    then show ?thesis using Cons.IH by (simp add: claims_of_def)
  next
    case (Some k)
    then show ?thesis using Cons.IH by (simp add: claims_of_def update_conv')
  qed
qed (simp add: claims_of_def)

lemma count_claims: "(case map_of (countClaimsByProject cs) p of None \<Rightarrow> 0 | Some n \<Rightarrow> n) = claims_of cs p"
  by (simp add: countClaimsByProject_def add_claim_count)

lemma claims_total: "distinct ps \<Longrightarrow> sum_list (map (claims_of cs) ps) \<le> length cs"
proof (induction cs)
  case Nil
  then show ?case by (simp add: claims_of_def)
next
  case (Cons c cs)
  let ?hit = "\<lambda>p. if normalizeText (JStr (claim_project c)) = Some p then 1 else 0 :: nat"
  have "sum_list (map ?hit ps) \<le> 1" using Cons.prems
    by (induction ps) auto
  moreover have "sum_list (map (claims_of (c # cs)) ps) = sum_list (map ?hit ps) + sum_list (map (claims_of cs) ps)"
  proof -
    have "claims_of (c # cs) = (\<lambda>p. ?hit p + claims_of cs p)" by (rule ext) (simp add: claims_of_def)
    then show ?thesis by (simp add: sum_list_addf)
  qed
  ultimately show ?case using Cons by simp
qed

lemma largest_need_max:
  assumes "largest_need need best cs = Some (m, b)" and "\<And>m' b'. best = Some (m', b') \<Longrightarrow> m' = need b'"
  shows "m = need b \<and> (b \<in> set cs \<or> best = Some (m, b))"
  using assms
proof (induction cs arbitrary: best)
  case (Cons c cs)
  let ?next = "case best of None \<Rightarrow> Some (need c, c) | Some (m, b) \<Rightarrow> if m < need c then Some (need c, c) else Some (m, b)"
  have "m = need b \<and> (b \<in> set cs \<or> ?next = Some (m, b))"
    by (rule Cons.IH) (use Cons.prems in \<open>auto split: option.splits if_splits\<close>)
  then show ?case by (auto split: option.splits if_splits)
qed auto

lemma largest_need_some: "largest_need need best cs = None \<longleftrightarrow> best = None \<and> cs = []"
  by (induction cs arbitrary: best) (auto split: option.splits if_splits)

lemma decide_allows:
  assumes "contenders_for project snapshot demands = cs" and "map_of cs (projectId project) = Some c"
    and "0 < need_of cs active c" and "\<And>c'. c' \<in> snd ` set cs \<Longrightarrow> need_of cs active c' \<le> need_of cs active c"
  shows "allows (decide_share project snapshot demands active)"
proof (cases "largest_need (need_of cs active) None (map snd cs)")
  case None
  with assms(2) show ?thesis by (auto simp: largest_need_some)
next
  case (Some mb)
  obtain m b where mb: "mb = (m, b)" by (cases mb)
  from largest_need_max [OF Some [unfolded mb]] have "m = need_of cs active b" "b \<in> snd ` set cs" by auto
  with assms(4) have "m \<le> need_of cs active c" by simp
  with assms(1-3) Some mb show ?thesis by (simp add: decide_share_def Let_def)
qed


definition fits :: "codex_demand option \<Rightarrow> demand_row \<Rightarrow> bool" where
  "fits snapshot r \<longleftrightarrow> (case snapshot of None \<Rightarrow> True
     | Some d \<Rightarrow> cd_queued d = queued_count r \<and> cd_priority d = priority_sum r)"

lemma update_entry:
  "distinct (map f xs) \<Longrightarrow> x \<in> set xs \<Longrightarrow>
   AList.update (f x) v (map (\<lambda>y. (f y, g y)) xs) = map (\<lambda>y. (f y, if f y = f x then v else g y)) xs"
  by (induction xs) (auto simp: image_iff intro!: map_cong [OF refl])

text \<open>
  The contenders as the project of \<open>r\<close> sees them: the others with the weights of their rows, itself
  with a weight that is at least that of its row.
\<close>

lemma contenders_seen:
  assumes "list_all named demands" and "distinct (map demand_project demands)" and "r \<in> set (waiting demands)"
    and "fits snapshot r" and "projectId project = demand_project r"
  shows "\<exists>c. contenders_for project snapshot demands =
      map (\<lambda>x. (demand_project x, if x = r then c else contender_of x)) (waiting demands) \<and>
    ct_project c = demand_project r \<and> demandWeight r \<le> ct_weight c"
proof -
  let ?base = "map (\<lambda>x. (demand_project x, contender_of x)) (waiting demands)"
  have d: "distinct (map demand_project (waiting demands))"
    using assms(2) by (auto simp: waiting_def intro: distinct_map_filter_key)
  have same: "(demand_project x = demand_project r) = (x = r)" if "x \<in> set (waiting demands)" for x
    using d assms(3) that by (auto simp: distinct_map inj_on_def)
  have base: "add_contenders (projectId project) [] demands = ?base"
    using contenders_waiting [OF assms(1-3)] assms(5) by simp
  show ?thesis
  proof (cases snapshot)
    case None
    have "?base = map (\<lambda>x. (demand_project x, if x = r then contender_of r else contender_of x)) (waiting demands)"
      by (intro map_cong) auto
    with base None show ?thesis
      by (intro exI [of _ "contender_of r"]) (simp add: contenders_for_def contender_of_def)
  next
    case (Some dem)
    let ?c = "\<lparr>ct_project = projectId project, ct_name = projectName project,
      ct_weight = max (max (cd_priority dem) (cd_queued dem)) 1\<rparr>"
    have q: "0 < cd_queued dem" using assms(3,4) Some by (simp add: fits_def waiting_def)
    have "AList.update (demand_project r) ?c ?base =
        map (\<lambda>x. (demand_project x, if demand_project x = demand_project r then ?c else contender_of x)) (waiting demands)"
      by (rule update_entry [OF d assms(3)])
    also have "\<dots> = map (\<lambda>x. (demand_project x, if x = r then ?c else contender_of x)) (waiting demands)"
      by (intro map_cong) (simp_all add: same)
    finally show ?thesis using base Some q assms(4,5)
      by (intro exI [of _ ?c]) (simp add: contenders_for_def Let_def fits_def demandWeight_def)
  qed
qed


lemma some_largest: "xs \<noteq> [] \<Longrightarrow> \<exists>x \<in> set xs. \<forall>y \<in> set xs. (f y :: rat) \<le> f x"
proof (induction xs rule: list_nonempty_induct)
  case (cons x xs)
  then obtain z where z: "z \<in> set xs" "\<forall>y \<in> set xs. f y \<le> f z" by blast
  show ?case
  proof (cases "f z \<le> f x")
    case True
    with z show ?thesis by (intro bexI [of _ x]) (auto intro: order_trans)
  next
    case False
    with z show ?thesis by (intro bexI [of _ z]) auto
  qed
qed simp

lemma share_grows:
  fixes w W t x :: rat
  assumes "0 < w" and "w \<le> W" and "w \<le> x" and "0 \<le> t"
  shows "t * w / W \<le> t * x / (W + (x - w))"
proof -
  have "w * (x - w) \<le> W * (x - w)" using assms by (intro mult_right_mono) simp_all
  then have "w * (W + (x - w)) \<le> x * W" by (simp add: algebra_simps)
  then have "w / W \<le> x / (W + (x - w))" using assms by (simp add: divide_le_eq le_divide_eq pos_divide_le_eq pos_le_divide_eq mult.commute)
  from mult_left_mono [OF this assms(4)] show ?thesis by simp
qed

lemma weight_sum_change:
  assumes "distinct xs" and "x \<in> set xs"
  shows "of_nat (sum_list (map (\<lambda>y. if y = x then v else w y) xs)) = (of_nat (sum_list (map w xs)) + (of_nat v - of_nat (w x)) :: rat)"
  using assms
proof (induction xs)
  case (Cons y ys)
  show ?case
  proof (cases "y = x")
    case True
    with Cons.prems have "map (\<lambda>y. if y = x then v else w y) ys = map w ys" by (intro map_cong) auto
    then have "sum_list (map (\<lambda>y. if y = x then v else w y) ys) = sum_list (map w ys)" by (rule arg_cong)
    with True show ?thesis by simp
  next
    case False
    with Cons show ?thesis by simp
  qed
qed simp

lemma weight_positive: "0 < demandWeight r"
  by (simp add: demandWeight_def)

lemma weight_in_sum: "x \<in> set xs \<Longrightarrow> w x \<le> (sum_list (map w xs) :: nat)"
  by (induction xs) auto

lemma share_admits:
  assumes "list_all named demands" and "distinct (map demand_project demands)" and "waiting demands \<noteq> []"
  shows "\<exists>r \<in> set (waiting demands). \<forall>snapshot project. fits snapshot r \<longrightarrow> projectId project = demand_project r \<longrightarrow>
    allows (decide_share project snapshot demands active)"
proof -
  let ?L = "waiting demands" and ?t = "of_nat (length active + 1) :: rat"
  let ?W = "of_nat (sum_list (map demandWeight ?L)) :: rat"
  let ?held = "\<lambda>x. of_nat (claims_of active (demand_project x)) :: rat"
  let ?need = "\<lambda>x. ?t * of_nat (demandWeight x) / ?W - ?held x"
  have d: "distinct (map demand_project ?L)" using assms(2) by (auto simp: waiting_def intro: distinct_map_filter_key)
  have W: "0 < ?W" using assms(3) weight_positive by (cases ?L) (simp_all add: add_pos_nonneg)
  obtain r where r: "r \<in> set ?L" "\<forall>y \<in> set ?L. ?need y \<le> ?need r" using some_largest [OF assms(3), of ?need] by blast
  have total: "sum_list (map ?need ?L) = ?t - of_nat (sum_list (map (\<lambda>x. claims_of active (demand_project x)) ?L))"
  proof -
    have split: "sum_list (map ?need xs) = ?t * of_nat (sum_list (map demandWeight xs)) / ?W
        - of_nat (sum_list (map (\<lambda>x. claims_of active (demand_project x)) xs))" for xs
      by (induction xs) (simp_all add: algebra_simps add_divide_distrib)
    have cancel: "?t * ?W / ?W = ?t" using W by (metis less_irrefl nonzero_mult_div_cancel_right)
    show ?thesis by (simp only: split [of ?L] cancel)
  qed
  have "sum_list (map (\<lambda>x. claims_of active (demand_project x)) ?L) \<le> length active"
    using claims_total [OF d, of active] by (simp add: comp_def)
  then have "0 < sum_list (map ?need ?L)" unfolding total by simp
  moreover have "sum_list (map ?need ?L) \<le> 0" if "?need r \<le> 0"
    by (rule sum_list_nonpos) (use r(2) that in fastforce)
  ultimately have pos: "0 < ?need r" by (meson not_le)
  have "allows (decide_share project snapshot demands active)"
    if fit: "fits snapshot r" "projectId project = demand_project r" for snapshot project
  proof -
    from contenders_seen [OF assms(1,2) r(1) fit] obtain c where
      c: "contenders_for project snapshot demands = map (\<lambda>x. (demand_project x, if x = r then c else contender_of x)) ?L"
      "ct_project c = demand_project r" "demandWeight r \<le> ct_weight c" by blast
    let ?cs = "map (\<lambda>x. (demand_project x, if x = r then c else contender_of x)) ?L"
    let ?V = "?W + (of_nat (ct_weight c) - of_nat (demandWeight r))"
    have "sum_list (map (ct_weight \<circ> snd) ?cs) = sum_list (map (\<lambda>x. if x = r then ct_weight c else demandWeight x) ?L)"
      by (rule arg_cong [of _ _ sum_list]) (simp add: contender_of_def)
    then have V: "of_nat (sum_list (map (ct_weight \<circ> snd) ?cs)) = ?V"
      using weight_sum_change [OF _ r(1), of "ct_weight c" demandWeight] d by (simp add: distinct_map)
    have need: "need_of ?cs active x = ?t * of_nat (ct_weight x) / ?V - of_nat (claims_of active (ct_project x))" for x
      unfolding need_of_def V count_claims ..
    have "of_nat (demandWeight r) \<le> ?W" using weight_in_sum [OF r(1), of demandWeight] by (simp only: of_nat_le_iff)
    then have own: "?need r \<le> need_of ?cs active c"
      unfolding need c(2) using share_grows [of "of_nat (demandWeight r)" ?W "of_nat (ct_weight c)" ?t] weight_positive [of r] c(3)
      by simp
    have other: "need_of ?cs active (contender_of x) \<le> ?need x" for x
    proof -
      have "?t * of_nat (demandWeight x) / ?V \<le> ?t * of_nat (demandWeight x) / ?W"
        using W c(3) by (intro divide_left_mono) (simp_all add: add_pos_nonneg)
      then show ?thesis unfolding need by (simp add: contender_of_def)
    qed
    show ?thesis
    proof (rule decide_allows [OF c(1)])
      show "map_of ?cs (projectId project) = Some c"
        unfolding fit(2) by (rule map_of_is_SomeI) (use d r(1) in \<open>auto simp: comp_def intro: rev_image_eqI\<close>)
      show "0 < need_of ?cs active c" using own pos by linarith
      show "need_of ?cs active c' \<le> need_of ?cs active c" if c': "c' \<in> snd ` set ?cs" for c'
      proof -
        from c' obtain x where x: "x \<in> set ?L" "c' = (if x = r then c else contender_of x)" by auto
        show ?thesis
        proof (cases "x = r")
          case False
          have "need_of ?cs active c' \<le> ?need x" using x(2) False other by simp
          also have "\<dots> \<le> ?need r" using r(2) x(1) by blast
          finally show ?thesis using own by simp
        qed (use x in simp)
      qed
    qed
  qed
  with r(1) show ?thesis by blast
qed

end
