(* ===== verification/Slot_Claims.thy ===== *)
theory Slot_Claims
  imports Slot_Pull_Laws Slot_Arbitration
begin

text \<open>
  The properties of the slot-pull scheduler and of the shared tables, with a pass on a small database
  as their witness.
\<close>

section \<open>A sample\<close>

definition start_running :: "string \<Rightarrow> tdb \<Rightarrow> jsval db_result" where
  "start_running i d = (Inr JUndef, write_cols i [(''status'', JStr ''running'')] d)"

definition slot_sample :: slot_env where
  "slot_sample = \<lparr>sl_now = 1000,
     sl_providers = [[(''provider'', JStr ''codex''), (''enabled'', JNum 1), (''max_concurrent'', JNum 1), (''priority'', JNum 1)],
       [(''provider'', JStr ''ollama''), (''enabled'', JNum 1), (''max_concurrent'', JNum 2), (''priority'', JNum 2)]],
     sl_hosts = [[(''max_concurrent'', JNum 1)]], sl_projects = [], sl_config = (\<lambda>_. JNull), sl_getenv = (\<lambda>_. JUndef),
     sl_override_id = JStr ''p'', sl_override_name = JNull,
     sl_platform = \<lparr>path_normalize = (\<lambda>p. p), path_sep = ''/'', case_fold = False\<rparr>, sl_resolve = (\<lambda>p. p),
     sl_cwd = ''/w'', sl_basename = ''w'', sl_host_pid = ''h:1'', sl_restart_pending = False,
     sl_claim_uuid = (\<lambda>t. ''c-'' @ t), sl_start = Some start_running\<rparr>"

definition slot_task :: "string \<Rightarrow> string \<Rightarrow> rat \<Rightarrow> db_row" where
  "slot_task i status created = [(''id'', JStr i), (''status'', JStr status), (''created_at'', JNum created), (''archived'', JNum 0)]"

definition slot_start :: slot_state where
  "slot_start = \<lparr>sl_db = sample_db\<lparr>tasks := [slot_task ''a'' ''queued'' 1, slot_task ''b'' ''queued'' 2,
       slot_task ''c'' ''queued'' 3, slot_task ''d'' ''completed'' 0]\<rparr>,
     sl_share = Some \<lparr>learnings = [], share_claims = [], share_demands = []\<rparr>, sl_caps = []\<rparr>"

section \<open>Properties\<close>

text \<open>C30: A scheduler pass stays within the free slots, whatever startTask does. Behind the restart barrier
  it claims nothing; otherwise it visits enabled providers in their order, and a visit claims at most
  as many tasks as the provider has slots free when the visit begins. Every claim takes a task that at
  that moment is queued, has no provider and does not exclude the provider by its list, for a provider
  whose quality band is not D and whose hosts have room. No task is claimed twice, the pass counts no
  more tasks as assigned than it claimed, and apart from the resubmissions promoted before, claims and
  starts (with the claim undone when the start fails) are all it does to the task table.\<close>

theorem pass_within_limits:
  "\<exists>visits. map fst visits = take (length visits) (getEnabledProviders env) \<and>
    (isRestartBarrierActive (sl_restart_pending env) (sl_db s) \<noteq> None \<longrightarrow> visits = []) \<and>
    visits_ok env visits (before_claims env (sl_db s)) \<and> distinct (claimed_by visits) \<and>
    sl_db (snd (runSlotPullPass env s)) = run_visits env visits (before_claims env (sl_db s)) \<and>
    (case fst (runSlotPullPass env s) of Inl e \<Rightarrow> True | Inr (n, k) \<Rightarrow> n \<le> length (claimed_by visits))"
  by (rule pass_visits)

text \<open>The sample: codex has one slot and ollama two, but only one place on its host; two of three tasks are assigned.\<close>

theorem pass_within_limits_witness:
  "fst (runSlotPullPass slot_sample slot_start) = Inr (2, 0) \<and>
   (\<exists>visits. map fst visits = take (length visits) [''codex'', ''ollama''] \<and> 2 \<le> length (claimed_by visits) \<and>
     visits_ok slot_sample visits (sl_db slot_start))"
proof -
  have s: "fst (runSlotPullPass slot_sample slot_start) = Inr (2, 0)" "before_claims slot_sample (sl_db slot_start) = sl_db slot_start"
    "getEnabledProviders slot_sample = [''codex'', ''ollama'']"
    by code_simp+
  from pass_within_limits [of slot_sample slot_start] show ?thesis unfolding s by auto
qed

text \<open>C31: Arbitration of codex slots starves nobody: whatever claims are held, among the projects that
  report queued work there is one whose next request is admitted, with its published snapshot or
  without.\<close>

theorem arbitration_admits_someone:
  assumes "list_all named demands" and "distinct (map demand_project demands)" and "waiting demands \<noteq> []"
  shows "\<exists>r \<in> set (waiting demands). \<forall>snapshot project. fits snapshot r \<longrightarrow> projectId project = demand_project r \<longrightarrow>
    allows (decide_share project snapshot demands active)"
  by (rule share_admits [OF assms])

definition sample_demand :: "string \<Rightarrow> nat \<Rightarrow> demand_row" where
  "sample_demand p n = \<lparr>demand_project = p, demand_name = None, demand_provider = ''codex'', queued_count = n,
     running_count = 0, priority_sum = 0, demand_payload = JNull, reported_at = 0, demand_expires = 9, demand_updated = 0\<rparr>"

definition sample_claim :: "string \<Rightarrow> string \<Rightarrow> claim_row" where
  "sample_claim p t = \<lparr>claim_id = t, claim_project = p, claim_provider = ''codex'', claim_task = t, claim_type = ''provider_slot'',
     claimed_by = None, claim_status = ''active'', claim_payload = JNull, claimed_at = 0, claim_expires = 9,
     released_at = None, release_reason = None, claim_updated = 0\<rparr>"

theorem arbitration_admits_someone_witness:
  "list_ex (\<lambda>r. allows (decide_share \<lparr>projectId = demand_project r, projectName = ''n'', claimedBy = ''me''\<rparr> None
      [sample_demand ''p'' 3, sample_demand ''q'' 1] [sample_claim ''p'' ''t1'', sample_claim ''p'' ''t2'']))
    [sample_demand ''p'' 3, sample_demand ''q'' 1]"
proof -
  let ?ds = "[sample_demand ''p'' 3, sample_demand ''q'' 1]"
  have "list_all named ?ds" "distinct (map demand_project ?ds)" "waiting ?ds = ?ds" by code_simp+
  with arbitration_admits_someone [of ?ds "[sample_claim ''p'' ''t1'', sample_claim ''p'' ''t2'']"] obtain r where
    "r \<in> set ?ds" "\<forall>snapshot project. fits snapshot r \<longrightarrow> projectId project = demand_project r \<longrightarrow>
      allows (decide_share project snapshot ?ds [sample_claim ''p'' ''t1'', sample_claim ''p'' ''t2''])" by auto
  then show ?thesis unfolding list_ex_iff
    by (intro bexI [of _ r]) (simp_all add: fits_def)
qed

text \<open>C32: The shared tables stay well-typed through every sequence of calls by any processes: project,
  provider and task identify a claim, project and provider a demand; an active claim is not released
  and has no reason, an expired one has a reason and was never released, a released one has both;
  confidences lie between 0 and 1.\<close>

theorem shared_tables_typed:
  "let s = fold share_step calls \<lparr>learnings = [], share_claims = [], share_demands = []\<rparr> in
   distinct (map learning_key (learnings s)) \<and> distinct (map claim_key (share_claims s)) \<and>
   distinct (map claim_id (share_claims s)) \<and> distinct (map demand_key (share_demands s)) \<and>
   list_all (\<lambda>c. claim_columns (claim_status c) (released_at c) (release_reason c)) (share_claims s) \<and>
   list_all (\<lambda>l. 0 \<le> confidence l \<and> confidence l \<le> 1) (learnings s)"
proof -
  have "share_ok \<lparr>learnings = [], share_claims = [], share_demands = []\<rparr>" by (simp add: share_ok_def)
  from shared.inv_run [OF this, of calls] show ?thesis by (simp add: Let_def share_ok_def claim_ok_def [abs_def])
qed

end
