(* ===== verification/Approvals.thy ===== *)
theory Approvals
  imports Task_Store Condition_Eval
begin

text \<open>
  Approval rules and requests, \<open>server/db/approval-workflows.js\<close>. A rule says which tasks need an
  approval; the check that the queue scheduler makes before it starts a task creates the request of a
  task that matches a rule, and a task with a request waits until somebody approves it.

  State: the task tables and the tables \<open>approval_rules\<close> and \<open>approval_requests\<close>. \<open>condition\<close> is kept
  parsed. \<open>datetime('now')\<close> has a resolution of seconds. Foreign keys are enforced, as the server turns
  them on, and so are the primary keys and the unique index over task and rule. Names, types and
  persons are texts. The task-event and audit records an approval leaves are outside the state.
\<close>

section \<open>State\<close>

record approval_db =
  ap_db :: tdb
  ap_rules :: "db_row list"
  ap_requests :: "db_row list"

datatype approval_error =
    Task_failure task_error
  | Type_error
  | Constraint_failed
  | Ids_required
  | No_request string
  | Not_pending string

type_synonym 'a approval_result = "(approval_error + 'a) \<times> approval_db"

definition sql_now :: "int \<Rightarrow> jsval" where
  "sql_now now = iso (now div 1000 * 1000)"

definition of_task :: "string \<Rightarrow> db_row \<Rightarrow> bool" where
  "of_task i r = (col r ''task_id'' = JStr i)"

definition of_pair :: "string \<Rightarrow> string \<Rightarrow> db_row \<Rightarrow> bool" where
  "of_pair i ruleId r = (of_task i r \<and> col r ''rule_id'' = JStr ruleId)"

definition write_task :: "string \<Rightarrow> (string \<times> jsval) list \<Rightarrow> approval_db \<Rightarrow> approval_db" where
  "write_task i updates s = s\<lparr>ap_db := write_cols i updates (ap_db s)\<rparr>"

definition write_request :: "string \<Rightarrow> (string \<times> jsval) list \<Rightarrow> approval_db \<Rightarrow> approval_db" where
  "write_request i updates s = s\<lparr>ap_requests := update_row i (set_cols updates) (ap_requests s)\<rparr>"

text \<open>\<open>None\<close>: the row breaks the primary key, the unique index or a foreign key.\<close>

definition insert_request :: "string \<Rightarrow> string \<Rightarrow> string \<Rightarrow> int \<Rightarrow> approval_db \<Rightarrow> approval_db option" where
  "insert_request i taskId ruleId now s =
     (if lookup_row i (ap_requests s) \<noteq> None \<or> list_ex (of_pair taskId ruleId) (ap_requests s)
         \<or> lookup_row taskId (tasks (ap_db s)) = None \<or> lookup_row ruleId (ap_rules s) = None
      then None
      else Some (s\<lparr>ap_requests := ap_requests s @ [[(''id'', JStr i), (''task_id'', JStr taskId), (''rule_id'', JStr ruleId),
        (''status'', JStr ''pending''), (''requested_at'', iso now), (''auto_approved'', JNum 0)]]\<rparr>))"

section \<open>Rules\<close>

definition or_default :: "jsval \<Rightarrow> jsval \<Rightarrow> jsval" where
  "or_default v fallback = (if v = JUndef then fallback else v)"

definition createApprovalRule ::
  "int \<Rightarrow> string \<Rightarrow> jsval \<Rightarrow> jsval \<Rightarrow> jsval \<Rightarrow> jsobj \<Rightarrow> approval_db \<Rightarrow> string approval_result" where
  "createApprovalRule now uuid name ruleType condition options s =
     (if is_nullish name \<or> is_nullish ruleType \<or> condition = JUndef \<or> lookup_row uuid (ap_rules s) \<noteq> None
      then (Inl Constraint_failed, s)
      else (Inr uuid, s\<lparr>ap_rules := ap_rules s @ [set_cols
        [(''id'', JStr uuid), (''name'', name), (''project'', obj_get options ''project''), (''rule_type'', ruleType),
         (''condition'', condition), (''required_approvers'', or_default (obj_get options ''requiredApprovers'') (JNum 1)),
         (''auto_approve_after_minutes'', obj_get options ''autoApproveAfterMinutes''), (''enabled'', JNum 1),
         (''created_at'', iso now)] []]\<rparr>))"

definition getApprovalRule :: "string \<Rightarrow> approval_db \<Rightarrow> db_row option" where
  "getApprovalRule ruleId s = lookup_row ruleId (ap_rules s)"

record rule_query =
  rule_for_project :: jsval
  rule_of_type :: jsval
  rule_enabled_only :: bool
  rule_limit :: nat

definition listApprovalRules :: "rule_query \<Rightarrow> approval_db \<Rightarrow> db_row list" where
  "listApprovalRules q s =
     take (rule_limit q) (sort_key (\<lambda>r. - num_of (col r ''created_at'')) (filter (\<lambda>r.
       (rule_enabled_only q \<longrightarrow> col r ''enabled'' = JNum 1) \<and>
       (js_truthy (rule_for_project q) \<longrightarrow> sql_eq (col r ''project'') (rule_for_project q) \<or> is_nullish (col r ''project'')) \<and>
       (js_truthy (rule_of_type q) \<longrightarrow> sql_eq (col r ''rule_type'') (rule_of_type q))) (ap_rules s)))"

definition given :: "jsobj \<Rightarrow> string \<Rightarrow> string \<Rightarrow> (string \<times> jsval) list" where
  "given updates key column = (case obj_get updates key of JUndef \<Rightarrow> [] | v \<Rightarrow> [(column, v)])"

definition rule_fields :: "jsobj \<Rightarrow> (string \<times> jsval) list" where
  "rule_fields updates =
     given updates ''name'' ''name'' @ given updates ''condition'' ''condition''
     @ given updates ''requiredApprovers'' ''required_approvers''
     @ given updates ''autoApproveAfterMinutes'' ''auto_approve_after_minutes''
     @ (case obj_get updates ''enabled'' of JUndef \<Rightarrow> [] | v \<Rightarrow> [(''enabled'', JNum (if js_truthy v then 1 else 0))])"

definition updateApprovalRule :: "int \<Rightarrow> string \<Rightarrow> jsobj \<Rightarrow> approval_db \<Rightarrow> bool approval_result" where
  "updateApprovalRule now ruleId updates s =
     (if rule_fields updates = [] then (Inr False, s)
      else if lookup_row ruleId (ap_rules s) = None then (Inr False, s)
      else if obj_get updates ''name'' = JNull then (Inl Constraint_failed, s)
      else (Inr True, s\<lparr>ap_rules := update_row ruleId
             (set_cols (rule_fields updates @ [(''updated_at'', sql_now now)])) (ap_rules s)\<rparr>))"

definition deleteApprovalRule :: "string \<Rightarrow> approval_db \<Rightarrow> bool approval_result" where
  "deleteApprovalRule ruleId s =
     (if lookup_row ruleId (ap_rules s) = None then (Inr False, s)
      else if list_ex (\<lambda>r. col r ''rule_id'' = JStr ruleId) (ap_requests s) then (Inl Constraint_failed, s)
      else (Inr True, s\<lparr>ap_rules := filter (\<lambda>r. \<not> has_id ruleId r) (ap_rules s)\<rparr>))"

section \<open>Matching\<close>

text \<open>\<open>keywords.some(kw => desc.includes(kw.toLowerCase()))\<close>; \<open>None\<close> is the \<open>TypeError\<close> of an entry that is no text.\<close>

fun some_keyword :: "string \<Rightarrow> jsval list \<Rightarrow> bool option" where
  "some_keyword desc [] = Some False"
| "some_keyword desc (JStr kw # rest) = (if includes_str (js_lower kw) desc then Some True else some_keyword desc rest)"
| "some_keyword desc (_ # rest) = None"

definition num_at_least :: "jsnum \<Rightarrow> jsnum \<Rightarrow> bool" where
  "num_at_least a b = (a \<noteq> NaN \<and> b \<noteq> NaN \<and> \<not> num_less a b)"

definition matchesApprovalRule :: "db_row \<Rightarrow> db_row \<Rightarrow> bool option" where
  "matchesApprovalRule task rule =
     (let condition = col rule ''condition''; kind = col rule ''rule_type'' in
      if \<not> js_truthy condition then Some False
      else if kind = JStr ''auto_approve''
      then Some (col task ''auto_approve'' = JNum 1 \<or> col task ''auto_approve'' = JBool True)
      else if kind = JStr ''directory'' then
        (let dirs = jget condition ''directories''; wd = str_of (col task ''working_directory'') in
         if \<not> js_truthy dirs \<or> wd = [] then Some False
         else (case dirs of JArr vs \<Rightarrow> Some (list_ex (\<lambda>dir. includes_str (js_string dir) wd) vs) | _ \<Rightarrow> None))
      else if kind = JStr ''keyword'' then
        (let kws = jget condition ''keywords''; desc = str_of (col task ''task_description'') in
         if \<not> js_truthy kws \<or> desc = [] then Some False
         else (case kws of JArr vs \<Rightarrow> some_keyword (js_lower desc) vs | _ \<Rightarrow> None))
      else if kind = JStr ''priority'' then
        Some (jget condition ''minPriority'' \<noteq> JUndef \<and>
          num_at_least (js_number (col task ''priority'')) (js_number (jget condition ''minPriority'')))
      else Some (kind = JStr ''all''))"

definition evaluateApprovalRule :: "db_row \<Rightarrow> db_row \<Rightarrow> bool option" where
  "evaluateApprovalRule rule task = matchesApprovalRule task rule"

section \<open>Requests\<close>

definition latest_request :: "string \<Rightarrow> approval_db \<Rightarrow> db_row option" where
  "latest_request i s =
     (case sort_key (\<lambda>r. - num_of (col r ''requested_at'')) (filter (of_task i) (ap_requests s)) of
        [] \<Rightarrow> None | r # _ \<Rightarrow> Some r)"

record approval_check =
  chk_required :: bool
  chk_status :: jsval
  chk_rule :: "db_row option"

definition not_required :: approval_check where
  "not_required = \<lparr>chk_required = False, chk_status = JStr ''not_required'', chk_rule = None\<rparr>"

text \<open>\<open>for (const rule of rules)\<close>: the first rule the task matches.\<close>

fun first_match :: "db_row \<Rightarrow> db_row list \<Rightarrow> db_row option option" where
  "first_match task [] = Some None"
| "first_match task (rule # rules) =
     (case evaluateApprovalRule rule task of
        None \<Rightarrow> None
      | Some True \<Rightarrow> Some (Some rule)
      | Some False \<Rightarrow> first_match task rules)"

definition open_request :: "int \<Rightarrow> string \<Rightarrow> string \<Rightarrow> string \<Rightarrow> approval_db \<Rightarrow> approval_db" where
  "open_request now taskId i ruleId s =
     write_task i [(''approval_status'', JStr ''pending'')]
       (case insert_request (''apr-'' @ taskId @ ''-'' @ ruleId) i ruleId now s of None \<Rightarrow> s | Some s' \<Rightarrow> s')"

definition checkApprovalRequired :: "int \<Rightarrow> string \<Rightarrow> approval_db \<Rightarrow> approval_check approval_result" where
  "checkApprovalRequired now taskId s =
     (if taskId = [] then (Inr not_required, s)
      else case getTask taskId (ap_db s) of
        Inl e \<Rightarrow> (Inl (Task_failure e), s)
      | Inr None \<Rightarrow> (Inr not_required, s)
      | Inr (Some task) \<Rightarrow>
          (case latest_request (str_of (col task ''id'')) s of
             Some request \<Rightarrow> (Inr \<lparr>chk_required = True, chk_status = js_or (col request ''status'') (JStr ''pending''),
               chk_rule = getApprovalRule (str_of (col request ''rule_id'')) s\<rparr>, s)
           | None \<Rightarrow>
               (case first_match task (listApprovalRules \<lparr>rule_for_project = col task ''project'', rule_of_type = JUndef,
                       rule_enabled_only = True, rule_limit = 50\<rparr> s) of
                  None \<Rightarrow> (Inl Type_error, s)
                | Some None \<Rightarrow> (Inr not_required, s)
                | Some (Some rule) \<Rightarrow> (Inr \<lparr>chk_required = True, chk_status = JStr ''pending'', chk_rule = Some rule\<rparr>,
                    open_request now taskId (str_of (col task ''id'')) (str_of (col rule ''id'')) s))))"

definition createApprovalRequest :: "int \<Rightarrow> string \<Rightarrow> string \<Rightarrow> string \<Rightarrow> approval_db \<Rightarrow> string approval_result" where
  "createApprovalRequest now uuid taskId ruleId s =
     (if taskId = [] \<or> ruleId = [] then (Inl Ids_required, s)
      else case List.find (of_pair taskId ruleId) (ap_requests s) of
        Some existing \<Rightarrow> (Inr (str_of (col existing ''id'')), s)
      | None \<Rightarrow>
          (case insert_request uuid taskId ruleId now s of
             None \<Rightarrow> (Inl Constraint_failed, s)
           | Some s' \<Rightarrow> (Inr uuid, write_task taskId [(''approval_status'', JStr ''pending'')] s')))"

definition joined_rule :: "approval_db \<Rightarrow> db_row \<Rightarrow> bool" where
  "joined_rule s r = (lookup_row (str_of (col r ''rule_id'')) (ap_rules s) \<noteq> None)"

definition getApprovalHistory :: "string \<Rightarrow> approval_db \<Rightarrow> db_row list" where
  "getApprovalHistory i s =
     sort_key (\<lambda>r. - num_of (col r ''requested_at'')) (filter (\<lambda>r. of_task i r \<and> joined_rule s r) (ap_requests s))"

definition getApprovalRequest :: "string \<Rightarrow> approval_db \<Rightarrow> db_row option" where
  "getApprovalRequest i s = (case getApprovalHistory i s of [] \<Rightarrow> None | r # _ \<Rightarrow> Some r)"

text \<open>The part \<open>approveTask\<close> and \<open>rejectApproval\<close> share: the latest request is decided if it is pending.\<close>

definition decide_request :: "string \<Rightarrow> (string \<times> jsval) list \<Rightarrow> approval_db \<Rightarrow> unit approval_result" where
  "decide_request i updates s =
     (case getApprovalRequest i s of
        None \<Rightarrow> (Inl (No_request i), s)
      | Some request \<Rightarrow>
          if col request ''status'' \<noteq> JStr ''pending''
          then (Inl (Not_pending (js_string (js_or (col request ''status'') (JStr ''unknown'')))), s)
          else (Inr (), write_request (str_of (col request ''id'')) updates s))"

definition approveTask :: "int \<Rightarrow> string \<Rightarrow> jsval \<Rightarrow> jsval \<Rightarrow> approval_db \<Rightarrow> bool approval_result" where
  "approveTask now i approvedBy comment s =
     (case decide_request i [(''status'', JStr ''approved''), (''approved_at'', sql_now now), (''approved_by'', approvedBy),
             (''comment'', comment)] s of
        (Inl e, s') \<Rightarrow> (Inl e, s')
      | (Inr _, s') \<Rightarrow>
          (let s'' = write_task i [(''approval_status'', JStr ''approved'')] s' in
           (Inr True, s''\<lparr>ap_db := emit_event Queue_changed (ap_db s'')\<rparr>)))"

definition reject_row :: "string \<Rightarrow> db_row \<Rightarrow> db_row" where
  "reject_row message r =
     set_cols ((''approval_status'', JStr ''rejected'') #
       (if col r ''status'' \<in> {JStr ''pending'', JStr ''queued''}
        then [(''status'', JStr ''cancelled''), (''cancel_reason'', JStr ''human_rejected''), (''error_output'', JStr message)]
        else [])) r"

definition rejectApproval :: "int \<Rightarrow> string \<Rightarrow> jsval \<Rightarrow> jsval \<Rightarrow> approval_db \<Rightarrow> bool approval_result" where
  "rejectApproval now i rejectedBy comment s =
     (case decide_request i [(''status'', JStr ''rejected''), (''updated_at'', sql_now now), (''approved_by'', rejectedBy),
             (''comment'', comment)] s of
        (Inl e, s') \<Rightarrow> (Inl e, s')
      | (Inr _, s') \<Rightarrow>
          (let message = ''Approval rejected by '' @ js_string rejectedBy @ '': ''
                 @ js_string (js_or comment (JStr ''no reason'')) in
           (Inr True, s'\<lparr>ap_db := (ap_db s')\<lparr>tasks := update_row i (reject_row message) (tasks (ap_db s'))\<rparr>\<rparr>)))"

definition listPendingApprovals :: "jsval \<Rightarrow> nat \<Rightarrow> approval_db \<Rightarrow> db_row list" where
  "listPendingApprovals proj limit s =
     take limit (sort_key (\<lambda>r. num_of (col r ''requested_at'')) (filter (\<lambda>r.
       col r ''status'' = JStr ''pending'' \<and> joined_rule s r \<and>
       (case lookup_row (str_of (col r ''task_id'')) (tasks (ap_db s)) of
          None \<Rightarrow> False
        | Some t \<Rightarrow> js_truthy proj \<longrightarrow> sql_eq (col t ''project'') proj)) (ap_requests s)))"

text \<open>\<open>datetime(requested_at, '+n minutes') <= datetime('now')\<close>, in whole seconds.\<close>

definition auto_due :: "int \<Rightarrow> approval_db \<Rightarrow> db_row \<Rightarrow> bool" where
  "auto_due now s r =
     (col r ''status'' = JStr ''pending'' \<and>
      (case lookup_row (str_of (col r ''rule_id'')) (ap_rules s) of
         None \<Rightarrow> False
       | Some rule \<Rightarrow> (case col rule ''auto_approve_after_minutes'' of
             JNum m \<Rightarrow> 0 < m \<and> floor ((num_of (col r ''requested_at'') + m * 60000) / 1000) \<le> now div 1000
           | _ \<Rightarrow> False)))"

fun auto_approve_all :: "int \<Rightarrow> db_row list \<Rightarrow> approval_db \<Rightarrow> approval_db" where
  "auto_approve_all now [] s = s"
| "auto_approve_all now (r # rs) s =
     auto_approve_all now rs
       (write_task (str_of (col r ''task_id'')) [(''approval_status'', JStr ''approved'')]
         (write_request (str_of (col r ''id'')) [(''status'', JStr ''approved''), (''approved_at'', iso now),
            (''approved_by'', JStr ''auto''), (''auto_approved'', JNum 1)] s))"

definition processAutoApprovals :: "int \<Rightarrow> approval_db \<Rightarrow> nat \<times> approval_db" where
  "processAutoApprovals now s =
     (let due = filter (auto_due now s) (ap_requests s); s' = auto_approve_all now due s in
      (length due, if due = [] then s' else s'\<lparr>ap_db := emit_event Queue_changed (ap_db s')\<rparr>))"

end
