(* ===== verification/Approval_Claims.thy ===== *)
theory Approval_Claims
  imports Approvals Task_Claims
begin

text \<open>
  What approval workflows promise: a task that was asked an approval for is not started before
  somebody approves it. \<open>approval_step\<close> are the calls: the operations of the module and the claim of a
  slot by the scheduler. \<open>approval_ok\<close> is the invariant of the tables; \<open>guarded_row\<close> relates a task row
  before a call to the row after it.
\<close>

section \<open>Invariant\<close>

definition has_request :: "jsval \<Rightarrow> approval_db \<Rightarrow> bool" where
  "has_request v s \<longleftrightarrow> list_ex (\<lambda>r. col r ''task_id'' = v) (ap_requests s)"

definition approved_for :: "jsval \<Rightarrow> approval_db \<Rightarrow> bool" where
  "approved_for v s \<longleftrightarrow> list_ex (\<lambda>r. col r ''task_id'' = v \<and> col r ''status'' = JStr ''approved'') (ap_requests s)"

definition held_back :: "db_row \<Rightarrow> bool" where
  "held_back t \<longleftrightarrow> col t ''approval_status'' \<in> {JStr ''pending'', JStr ''rejected''}"

definition held_row :: "approval_db \<Rightarrow> db_row \<Rightarrow> bool" where
  "held_row s t \<longleftrightarrow> \<not> has_request (col t ''id'') s \<or> approved_for (col t ''id'') s \<or> held_back t"

definition text_keys :: "db_row \<Rightarrow> bool" where
  "text_keys r \<longleftrightarrow> (\<exists>i j. col r ''id'' = JStr i \<and> col r ''task_id'' = JStr j)"

definition approval_ok :: "approval_db \<Rightarrow> bool" where
  "approval_ok s \<longleftrightarrow> ids_unique (ap_db s) \<and> distinct (row_ids (ap_requests s)) \<and>
     list_all text_keys (ap_requests s) \<and> list_all (held_row s) (tasks (ap_db s))"

datatype approval_call =
    Add_rule int string jsval jsval jsval jsobj
  | Change_rule int string jsobj
  | Remove_rule string
  | Check_task int string
  | Request_approval int string string string
  | Approve_task int string jsval jsval
  | Reject_task int string jsval jsval
  | Auto_approve int
  | Claim_task nat claim_args

fun approval_step :: "approval_call \<Rightarrow> approval_db \<Rightarrow> approval_db" where
  "approval_step (Add_rule now u n t c opts) s = snd (createApprovalRule now u n t c opts s)"
| "approval_step (Change_rule now i us) s = snd (updateApprovalRule now i us s)"
| "approval_step (Remove_rule i) s = snd (deleteApprovalRule i s)"
| "approval_step (Check_task now i) s = snd (checkApprovalRequired now i s)"
| "approval_step (Request_approval now u i ru) s = snd (createApprovalRequest now u i ru s)"
| "approval_step (Approve_task now i person c) s = snd (approveTask now i person c s)"
| "approval_step (Reject_task now i person c) s = snd (rejectApproval now i person c s)"
| "approval_step (Auto_approve now) s = snd (processAutoApprovals now s)"
| "approval_step (Claim_task mx a) s = s\<lparr>ap_db := claim_step mx a (ap_db s)\<rparr>"

text \<open>What a call may do to a task: it keeps its identifier; its hold is kept unless it is approved; and it does
  not start running while it waits.\<close>

definition guarded_row :: "approval_db \<Rightarrow> approval_db \<Rightarrow> db_row \<Rightarrow> db_row \<Rightarrow> bool" where
  "guarded_row s s' r r' \<longleftrightarrow> col r' ''id'' = col r ''id'' \<and>
     (held_back r' \<or> approved_for (col r ''id'') s' \<or>
       col r' ''approval_status'' = col r ''approval_status'' \<and>
       (has_request (col r ''id'') s' \<longrightarrow> has_request (col r ''id'') s)) \<and>
     (col r' ''status'' = JStr ''running'' \<longrightarrow> col r ''status'' = JStr ''running'' \<or> \<not> held_back r)"

definition grows :: "approval_db \<Rightarrow> approval_db \<Rightarrow> bool" where
  "grows s s' \<longleftrightarrow> (\<forall>v. (has_request v s \<longrightarrow> has_request v s') \<and> (approved_for v s \<longrightarrow> approved_for v s')) \<and>
     distinct (row_ids (ap_requests s')) \<and> list_all text_keys (ap_requests s')"

definition guarded :: "approval_db \<Rightarrow> approval_db \<Rightarrow> bool" where
  "guarded s s' \<longleftrightarrow> grows s s' \<and> list_all2 (guarded_row s s') (tasks (ap_db s)) (tasks (ap_db s'))"

lemma guarded_ids: "guarded s s' \<Longrightarrow> row_ids (tasks (ap_db s')) = row_ids (tasks (ap_db s))"
  unfolding guarded_def row_ids_def
  by (auto simp: list_all2_conv_all_nth guarded_row_def intro!: nth_equalityI)

lemma guarded_held:
  assumes "guarded s s'" and "list_all (held_row s) (tasks (ap_db s))"
  shows "list_all (held_row s') (tasks (ap_db s'))"
proof -
  have "held_row s' (tasks (ap_db s') ! n)" if "n < length (tasks (ap_db s'))" for n
  proof -
    have "length (tasks (ap_db s)) = length (tasks (ap_db s'))"
      "guarded_row s s' (tasks (ap_db s) ! n) (tasks (ap_db s') ! n)" "grows s s'"
      using assms(1) that by (auto simp: guarded_def list_all2_conv_all_nth)
    moreover have "held_row s (tasks (ap_db s) ! n)" using assms(2) that calculation(1) by (simp add: list_all_length)
    ultimately show ?thesis by (auto simp: guarded_row_def held_row_def grows_def held_back_def)
  qed
  then show ?thesis by (simp add: list_all_length)
qed

lemma guarded_ok: "guarded s s' \<Longrightarrow> approval_ok s \<Longrightarrow> approval_ok s'"
  using guarded_ids [of s s'] guarded_held [of s s'] by (simp add: approval_ok_def ids_unique_def guarded_def grows_def)

section \<open>Every call is guarded\<close>

lemma guarded_row_refl: "guarded_row s s r r"
  by (simp add: guarded_row_def)

lemma guarded_refl: "approval_ok s \<Longrightarrow> guarded s s"
  by (simp add: guarded_def grows_def approval_ok_def list_all2_same guarded_row_refl)

lemma guarded_same:
  "approval_ok s \<Longrightarrow> ap_requests s' = ap_requests s \<Longrightarrow> tasks (ap_db s') = tasks (ap_db s) \<Longrightarrow> guarded s s'"
  by (simp add: guarded_def grows_def approval_ok_def list_all2_same guarded_row_def has_request_def approved_for_def)

lemma rules_guarded:
  assumes "approval_ok s"
  shows "guarded s (snd (createApprovalRule now u n t c opts s))" "guarded s (snd (updateApprovalRule now i us s))"
    "guarded s (snd (deleteApprovalRule i s))"
  by (rule guarded_same [OF assms]; simp add: createApprovalRule_def updateApprovalRule_def deleteApprovalRule_def)+

lemma requests_only:
  assumes "ap_requests s1 = ap_requests s2"
  shows "guarded_row s s1 = guarded_row s s2" "grows s s1 = grows s s2"
  using assms by (auto simp: guarded_row_def grows_def has_request_def approved_for_def fun_eq_iff)

lemma write_task_requests [simp]: "ap_requests (write_task i us s) = ap_requests s"
  "tasks (ap_db (write_task i us s)) = update_row i (set_cols us) (tasks (ap_db s))"
  by (simp_all add: write_task_def)

lemma write_request_frame [simp]:
  "ap_requests (write_request i us s) = update_row i (set_cols us) (ap_requests s)"
  "ap_db (write_request i us s) = ap_db s"
  by (simp_all add: write_request_def)

text \<open>A task is put on hold; requests are only added, and only for that task.\<close>

lemma hold_guarded:
  assumes "grows s s1" and "tasks (ap_db s1) = tasks (ap_db s)"
    and "\<And>v. v \<noteq> JStr i \<Longrightarrow> has_request v s1 \<Longrightarrow> has_request v s"
    and "us = [(''approval_status'', JStr ''pending'')]"
  shows "guarded s (write_task i us s1)"
proof -
  have "list_all2 (guarded_row s s1) (tasks (ap_db s)) (update_row i (set_cols us) (tasks (ap_db s)))"
    unfolding update_row_def assms(4)
    by (rule all2_map_where) (use assms(3) in \<open>auto simp: guarded_row_def held_back_def has_id_def\<close>)
  with assms(1,2) show ?thesis
    unfolding guarded_def by (simp add: requests_only [of "write_task i us s1" s1])
qed

lemma requests_added:
  assumes "approval_ok s" and "ap_requests s1 = ap_requests s @ [r]" and "col r ''id'' \<notin> set (row_ids (ap_requests s))"
    and "text_keys r"
  shows "grows s s1" "v \<noteq> col r ''task_id'' \<Longrightarrow> has_request v s1 \<Longrightarrow> has_request v s"
  using assms by (auto simp: grows_def approval_ok_def has_request_def approved_for_def row_ids_def)

lemma insert_grows:
  assumes "approval_ok s" and "insert_request k i ru now s = Some s1"
  shows "grows s s1" "tasks (ap_db s1) = tasks (ap_db s)" "v \<noteq> JStr i \<Longrightarrow> has_request v s1 \<Longrightarrow> has_request v s"
proof -
  obtain r where r: "ap_requests s1 = ap_requests s @ [r]" "tasks (ap_db s1) = tasks (ap_db s)"
      "col r ''id'' = JStr k" "col r ''task_id'' = JStr i" "JStr k \<notin> set (row_ids (ap_requests s))"
    using assms(2) by (auto simp: insert_request_def col_def lookup_row_None [symmetric] split: if_splits)
  note added = requests_added [OF assms(1) r(1), unfolded r(3,4) text_keys_def]
  from added r show "grows s s1" "tasks (ap_db s1) = tasks (ap_db s)"
    "v \<noteq> JStr i \<Longrightarrow> has_request v s1 \<Longrightarrow> has_request v s" by auto
qed

lemma grows_refl: "approval_ok s \<Longrightarrow> grows s s"
  by (simp add: grows_def approval_ok_def)

lemma check_guarded: "approval_ok s \<Longrightarrow> guarded s (snd (checkApprovalRequired now i s))"
  by (auto simp: checkApprovalRequired_def open_request_def guarded_refl
      intro!: hold_guarded grows_refl dest: insert_grows split: sum.split option.split)

lemma request_guarded: "approval_ok s \<Longrightarrow> guarded s (snd (createApprovalRequest now u i ru s))"
  by (auto simp: createApprovalRequest_def guarded_refl intro!: hold_guarded grows_refl
      dest: insert_grows split: option.split)

text \<open>A pending request is decided: the other tasks' requests stay as they are.\<close>

lemma decide_grows:
  assumes "approval_ok s" and "decide_request i us s = (Inr u, s1)" and "''id'' \<notin> fst ` set us" "''task_id'' \<notin> fst ` set us"
  obtains rq where "rq \<in> set (ap_requests s)" "of_task i rq" "ap_db s1 = ap_db s" "grows s s1"
    "\<And>v. has_request v s1 = has_request v s" "set_cols us rq \<in> set (ap_requests s1)"
proof -
  obtain rq where rq: "getApprovalRequest i s = Some rq" "col rq ''status'' = JStr ''pending''"
      and s1: "s1 = write_request (str_of (col rq ''id'')) us s"
    using assms(2) by (auto simp: decide_request_def split: option.splits if_splits)
  have in_s: "rq \<in> set (ap_requests s)" "of_task i rq"
    using rq(1) by (auto simp: getApprovalRequest_def getApprovalHistory_def split: list.splits dest!: arg_cong [where f = set])
  have keys: "text_keys rq" using assms(1) in_s(1) by (simp add: approval_ok_def list_all_iff)
  let ?k = "str_of (col rq ''id'')"
  have one: "r = rq" if "r \<in> set (ap_requests s)" "has_id ?k r" for r
    using assms(1) that in_s(1) keys
    by (auto simp: approval_ok_def row_ids_def has_id_def text_keys_def str_of_def distinct_map inj_on_def)
  have hit: "has_id ?k rq" using keys by (auto simp: has_id_def text_keys_def str_of_def)
  have keep: "keeps_id (set_cols us)" using assms(3) by auto
  have tid: "col (set_cols us r) ''task_id'' = col r ''task_id''" for r using assms(4) by (rule col_set_cols_frame)
  have idc: "col (set_cols us r) ''id'' = col r ''id''" for r using assms(3) by (rule col_set_cols_frame)
  have members: "set (ap_requests s1) = (\<lambda>r. if has_id ?k r then set_cols us r else r) ` set (ap_requests s)"
    by (simp add: s1 update_row_def set_map_where)
  have has: "has_request v s1 = has_request v s" for v
    unfolding has_request_def list_ex_iff members bex_simps(7) if_distrib [where f = "\<lambda>r. col r ''task_id''"] tid by simp
  have "approved_for v s1" if v: "approved_for v s" for v
  proof -
    obtain r where r: "r \<in> set (ap_requests s)" "col r ''task_id'' = v" "col r ''status'' = JStr ''approved''"
      using v by (auto simp: approved_for_def list_ex_iff)
    then have "\<not> has_id ?k r" using one [of r] rq(2) by (cases "has_id ?k r") simp_all
    with r show ?thesis by (force simp: approved_for_def list_ex_iff members)
  qed
  moreover have "distinct (row_ids (ap_requests s1))"
    using assms(1) by (simp add: s1 keep approval_ok_def)
  moreover have "list_all text_keys (ap_requests s1)"
    using assms(1) by (auto simp: list_all_iff members approval_ok_def text_keys_def tid idc)
  ultimately have "grows s s1" using has by (simp add: grows_def)
  moreover have "set_cols us rq \<in> set (ap_requests s1)" using in_s(1) hit by (force simp: members)
  ultimately show ?thesis using that in_s has s1 by simp
qed

text \<open>A task is decided upon: it is held back, or approved by one of its requests.\<close>

lemma decided_guarded:
  assumes "grows s s1" and "\<And>v. has_request v s1 = has_request v s"
    and "ap_requests s2 = ap_requests s1" and "tasks (ap_db s2) = update_row i f (tasks (ap_db s))"
    and "keeps_id f" and "\<And>r. held_back (f r) \<or> approved_for (JStr i) s1"
    and "\<And>r. col (f r) ''status'' = JStr ''running'' \<Longrightarrow> col r ''status'' = JStr ''running''"
  shows "guarded s s2"
proof -
  have "list_all2 (guarded_row s s1) (tasks (ap_db s)) (update_row i f (tasks (ap_db s)))"
    unfolding update_row_def
    by (rule all2_map_where) (use assms(2,5-7) in \<open>auto simp: guarded_row_def has_id_def keeps_id_def\<close>)
  with assms(1,3,4) show ?thesis
    unfolding guarded_def by (simp add: requests_only [of s2 s1])
qed

lemma approve_guarded:
  assumes "approval_ok s"
  shows "guarded s (snd (approveTask now i person c s))"
proof -
  let ?us = "[(''status'', JStr ''approved''), (''approved_at'', sql_now now), (''approved_by'', person), (''comment'', c)]"
  show ?thesis
  proof (cases "decide_request i ?us s")
    case (Pair res s1)
    show ?thesis
    proof (cases res)
      case (Inl e)
      then have "snd (approveTask now i person c s) = s" using Pair
        by (auto simp: approveTask_def decide_request_def split: option.splits if_splits)
      then show ?thesis by (simp add: guarded_refl assms)
    next
      case (Inr u)
      with Pair have "decide_request i ?us s = (Inr u, s1)" by simp
      from decide_grows [OF assms this] obtain rq where rq: "of_task i rq" "ap_db s1 = ap_db s" "grows s s1"
          "\<And>v. has_request v s1 = has_request v s" "set_cols ?us rq \<in> set (ap_requests s1)" by auto
      have "approved_for (JStr i) s1"
        using rq(1,5) by (auto simp: approved_for_def list_ex_iff of_task_def intro!: bexI [of _ "set_cols ?us rq"])
      then show ?thesis
        by (intro decided_guarded [OF rq(3,4), where i = i and f = "set_cols [(''approval_status'', JStr ''approved'')]"])
          (use Pair Inr rq(2) in \<open>auto simp: approveTask_def Let_def emit_event_def\<close>)
    qed
  qed
qed

lemma reject_row_facts:
  "col (reject_row m r) ''id'' = col r ''id''" "held_back (reject_row m r)"
  "col (reject_row m r) ''status'' = JStr ''running'' \<Longrightarrow> col r ''status'' = JStr ''running''"
  by (auto simp: reject_row_def held_back_def split: if_splits)

lemma reject_guarded:
  assumes "approval_ok s"
  shows "guarded s (snd (rejectApproval now i person c s))"
proof -
  let ?us = "[(''status'', JStr ''rejected''), (''updated_at'', sql_now now), (''approved_by'', person), (''comment'', c)]"
  define m where "m = ''Approval rejected by '' @ js_string person @ '': '' @ js_string (js_or c (JStr ''no reason''))"
  show ?thesis
  proof (cases "decide_request i ?us s")
    case (Pair res s1)
    show ?thesis
    proof (cases res)
      case (Inl e)
      then have "snd (rejectApproval now i person c s) = s" using Pair
        by (auto simp: rejectApproval_def decide_request_def split: option.splits if_splits)
      then show ?thesis by (simp add: guarded_refl assms)
    next
      case (Inr u)
      with Pair have "decide_request i ?us s = (Inr u, s1)" by simp
      from decide_grows [OF assms this] obtain rq where rq: "ap_db s1 = ap_db s" "grows s s1"
          "\<And>v. has_request v s1 = has_request v s" by auto
      show ?thesis
        by (intro decided_guarded [OF rq(2,3), where i = i and f = "reject_row m"])
          (use Pair Inr rq(1) in \<open>simp_all add: rejectApproval_def Let_def m_def keeps_id_def reject_row_facts\<close>)
    qed
  qed
qed

text \<open>One automatic approval: its request was due, so it is still among the requests.\<close>

lemma auto_one:
  assumes "approval_ok s" and "rq \<in> set (ap_requests s)" and "has_id k rq" and "of_task i rq"
    and "us = [(''status'', JStr ''approved''), (''approved_at'', iso now), (''approved_by'', JStr ''auto''), (''auto_approved'', JNum 1)]"
  shows "guarded s (write_task i [(''approval_status'', JStr ''approved'')] (write_request k us s))"
proof -
  let ?s1 = "write_request k us s"
  have tid: "col (set_cols us r) ''task_id'' = col r ''task_id''" "col (set_cols us r) ''id'' = col r ''id''"
    "col (set_cols us r) ''status'' = JStr ''approved''" for r by (simp_all add: assms(5))
  have members: "set (ap_requests ?s1) = (\<lambda>r. if has_id k r then set_cols us r else r) ` set (ap_requests s)"
    by (simp add: update_row_def set_map_where)
  have has: "has_request v ?s1 = has_request v s" for v
    unfolding has_request_def list_ex_iff members bex_simps(7) if_distrib [where f = "\<lambda>r. col r ''task_id''"] tid by simp
  have more: "approved_for v ?s1" if v: "approved_for v s" for v
  proof -
    obtain r where r: "r \<in> set (ap_requests s)" "col r ''task_id'' = v" "col r ''status'' = JStr ''approved''"
      using v by (auto simp: approved_for_def list_ex_iff)
    then show ?thesis unfolding approved_for_def list_ex_iff members
      by (intro bexI [of _ "if has_id k r then set_cols us r else r"] imageI) (simp_all add: tid)
  qed
  have "approved_for (JStr i) ?s1"
    unfolding approved_for_def list_ex_iff members
    by (intro bexI [of _ "set_cols us rq"] image_eqI [of _ _ rq]) (use assms(2-4) tid in \<open>simp_all add: of_task_def\<close>)
  moreover have "list_all text_keys (ap_requests ?s1)"
  proof -
    have "text_keys (if has_id k r then set_cols us r else r) = text_keys r" for r by (simp add: text_keys_def tid)
    then show ?thesis using assms(1) unfolding list_all_iff members approval_ok_def by blast
  qed
  moreover have "row_ids (ap_requests ?s1) = row_ids (ap_requests s)"
    unfolding write_request_frame by (rule row_ids_update_row) (simp add: keeps_id_def tid)
  ultimately have "grows s ?s1" "approved_for (JStr i) ?s1"
    using assms(1) has more by (simp_all add: grows_def approval_ok_def)
  then show ?thesis
    by (intro decided_guarded [of s ?s1 _ i "set_cols [(''approval_status'', JStr ''approved'')]"]) (use has in auto)
qed

lemma auto_guarded:
  assumes "approval_ok s" and "\<forall>r \<in> set rs. \<exists>q \<in> set (ap_requests s). col q ''id'' = col r ''id'' \<and> col q ''task_id'' = col r ''task_id''"
  shows "guarded\<^sup>*\<^sup>* s (auto_approve_all now rs s)"
  using assms
proof (induction rs arbitrary: s)
  case (Cons r rs)
  let ?us = "[(''status'', JStr ''approved''), (''approved_at'', iso now), (''approved_by'', JStr ''auto''), (''auto_approved'', JNum 1)]"
  let ?k = "str_of (col r ''id'')" and ?i = "str_of (col r ''task_id'')"
  define s2 where "s2 = write_task ?i [(''approval_status'', JStr ''approved'')] (write_request ?k ?us s)"
  obtain q where q: "q \<in> set (ap_requests s)" "col q ''id'' = col r ''id''" "col q ''task_id'' = col r ''task_id''"
    using Cons.prems(2) by auto
  then have "text_keys q" using Cons.prems(1) by (simp add: approval_ok_def list_all_iff)
  then obtain a b where "col r ''id'' = JStr a" "col r ''task_id'' = JStr b" using q by (auto simp: text_keys_def)
  with q have "has_id ?k q" "of_task ?i q" by (simp_all add: has_id_def of_task_def str_of_def)
  then have step: "guarded s s2" unfolding s2_def by (intro auto_one [OF Cons.prems(1) q(1)]) auto
  have "\<exists>q \<in> set (ap_requests s2). col q ''id'' = col r' ''id'' \<and> col q ''task_id'' = col r' ''task_id''" if r': "r' \<in> set rs" for r'
  proof -
    obtain q' where "q' \<in> set (ap_requests s)" "col q' ''id'' = col r' ''id''" "col q' ''task_id'' = col r' ''task_id''"
      using Cons.prems(2) r' by auto
    then show ?thesis
      by (intro bexI [of _ "if has_id ?k q' then set_cols ?us q' else q'"])
        (auto simp: s2_def update_row_def set_map_where simp del: if_image_distrib)
  qed
  then have "guarded\<^sup>*\<^sup>* s2 (auto_approve_all now rs s2)"
    using Cons.IH guarded_ok [OF step Cons.prems(1)] by blast
  with step show ?case by (simp add: s2_def)
qed simp

lemma claim_guarded:
  assumes "approval_ok s"
  shows "guarded s (s\<lparr>ap_db := claim_step mx a (ap_db s)\<rparr>)"
proof -
  obtain now i inst prov cap grp cap2 grp2 where a: "a = (now, i, inst, prov, cap, grp, cap2, grp2)"
    by (metis surj_pair)
  let ?d = "ap_db s" and ?call = "tryClaimTaskSlot now i mx inst prov cap grp cap2 grp2 (ap_db s)"
  show ?thesis
  proof (cases "\<exists>t. fst ?call = Inr (Claimed t)")
    case False
    then have "claim_step mx a ?d = ?d" unfolding a claim_step.simps by (intro claim_refused) blast
    then show ?thesis by (simp add: guarded_refl assms)
  next
    case True
    then obtain t where t: "?call = (Inr (Claimed t), claim_step mx a ?d)" by (metis a claim_step.simps prod.collapse)
    then obtain fp where fp: "finish_claim now i inst fp ?d = (Inr (Claimed t), claim_step mx a ?d)"
      by (rule claim_granted) blast
    from fp obtain task where task: "row_of ?d i = Some task" "\<not> held_back task" and
      after: "claim_step mx a ?d = ?d\<lparr>tasks := map_where (\<lambda>r. has_id i r \<and> col r ''status'' \<in> {JStr ''queued'', JStr ''pending''})
           (set_cols (claim_updates now inst fp task)) (tasks ?d)\<rparr>"
      by (cases rule: finish_claim_cases [of now i inst fp ?d]) (force simp: held_back_def)+
    have one: "r = task" if "r \<in> set (tasks ?d)" "has_id i r" for r
      using assms task(1) that lookup_row_unique [of "tasks ?d" r i]
      by (auto simp: approval_ok_def ids_unique_def row_of_def has_id_def)
    have frame: "col (set_cols (claim_updates now inst fp task) r) c = col r c" if "c \<in> {''id'', ''approval_status''}" for r c
    proof -
      have "c \<notin> fst ` set (applyProviderSwitchEnrichment now src tgt [] why)" for src tgt why
        using enrichment_frame [of c now src tgt "[]" why] that by (auto simp flip: obj_has_fst)
      then show ?thesis using that by (cases fp) (auto simp: claim_updates_def col_set_cols_frame split: if_split)
    qed
    have "list_all2 (guarded_row s (s\<lparr>ap_db := claim_step mx a ?d\<rparr>)) (tasks ?d) (tasks (claim_step mx a ?d))"
      unfolding after
      by (simp, rule all2_map_where) (use one task(2) frame in \<open>auto simp: guarded_row_def has_request_def approved_for_def\<close>)
    then show ?thesis using assms
      by (simp add: guarded_def requests_only [of "s\<lparr>ap_db := claim_step mx a ?d\<rparr>" s] grows_refl)
  qed
qed

lemma step_guarded: "approval_ok s \<Longrightarrow> guarded\<^sup>*\<^sup>* s (approval_step c s)"
proof (induction c)
  case (Auto_approve now)
  let ?s = "auto_approve_all now (filter (auto_due now s) (ap_requests s)) s"
  have reach: "guarded\<^sup>*\<^sup>* s ?s" by (rule auto_guarded) (use Auto_approve in auto)
  then have "approval_ok ?s" by (induction rule: rtranclp_induct) (use Auto_approve guarded_ok in auto)
  then have "guarded ?s (snd (processAutoApprovals now s))"
    by (rule guarded_same) (auto simp: processAutoApprovals_def Let_def emit_event_def)
  with reach show ?case by simp
qed (auto intro: rules_guarded check_guarded request_guarded approve_guarded reject_guarded claim_guarded)

definition task_waits :: "string \<Rightarrow> approval_db \<Rightarrow> bool" where
  "task_waits i s \<longleftrightarrow> approval_ok s \<and> has_request (JStr i) s \<and>
     (approved_for (JStr i) s \<or> (\<forall>t \<in> set (tasks (ap_db s)). has_id i t \<longrightarrow> col t ''status'' \<noteq> JStr ''running''))"

lemma guarded_waits:
  assumes "guarded s s'" and "task_waits i s"
  shows "task_waits i s'"
proof (cases "approved_for (JStr i) s'")
  case True
  then show ?thesis using assms guarded_ok [OF assms(1)] by (auto simp: task_waits_def guarded_def grows_def)
next
  case False
  have g: "grows s s'" and rows: "list_all2 (guarded_row s s') (tasks (ap_db s)) (tasks (ap_db s'))"
    using assms(1) by (auto simp: guarded_def)
  have "\<not> approved_for (JStr i) s" using False g by (auto simp: grows_def)
  with assms(2) have s: "has_request (JStr i) s" "\<forall>t \<in> set (tasks (ap_db s)). has_id i t \<longrightarrow> col t ''status'' \<noteq> JStr ''running'' \<and> held_back t"
    by (auto simp: task_waits_def approval_ok_def list_all_iff held_row_def has_id_def)
  have "col t' ''status'' \<noteq> JStr ''running''" if t': "t' \<in> set (tasks (ap_db s'))" "has_id i t'" for t'
  proof -
    obtain t where "t \<in> set (tasks (ap_db s))" "guarded_row s s' t t'"
      using rows t'(1) by (metis list_all2_conv_all_nth in_set_conv_nth)
    then show ?thesis using s(2) t'(2) by (auto simp: guarded_row_def has_id_def)
  qed
  then show ?thesis using s(1) g assms guarded_ok [OF assms(1)] by (auto simp: task_waits_def grows_def)
qed

lemma step_ok: "approval_ok s \<Longrightarrow> approval_ok (approval_step c s)"
proof -
  assume ok: "approval_ok s"
  from step_guarded [OF this, of c] show ?thesis by (induction rule: rtranclp_induct) (use ok guarded_ok in blast)+
qed

lemma step_waits: "task_waits i s \<Longrightarrow> task_waits i (approval_step c s)"
proof -
  assume w: "task_waits i s"
  then have "guarded\<^sup>*\<^sup>* s (approval_step c s)" by (intro step_guarded) (simp add: task_waits_def)
  then show ?thesis by (induction rule: rtranclp_induct) (use w guarded_waits in blast)+
qed

interpretation approvals: invariant_machine approval_step approval_ok
  by unfold_locales (rule step_ok)

interpretation waiting: invariant_machine approval_step "task_waits i" for i
  by unfold_locales (rule step_waits)

section \<open>Property\<close>

definition task_running :: "string \<Rightarrow> approval_db \<Rightarrow> bool" where
  "task_running i s \<longleftrightarrow> list_ex (\<lambda>t. has_id i t \<and> col t ''status'' = JStr ''running'') (tasks (ap_db s))"

text \<open>C33: Whoever asks for an approval can rely on it: once a task that is not running has a request, no
  history of rule changes, checks, further requests, decisions, automatic approvals and slot claims
  starts it before one of its requests is approved.\<close>

theorem no_start_before_approval:
  assumes "ids_unique (ap_db s)" and "ap_requests s = []"
    and "getApprovalRequest i (fold approval_step calls s) \<noteq> None"
    and "\<not> task_running i (fold approval_step calls s)"
  shows "approved_for (JStr i) (fold approval_step (calls @ later) s) \<or>
    \<not> task_running i (fold approval_step (calls @ later) s)"
proof -
  let ?m = "fold approval_step calls s"
  have "approval_ok s" using assms(1,2) by (simp add: approval_ok_def held_row_def has_request_def list_all_iff row_ids_def)
  then have "approval_ok ?m" by (rule approvals.inv_run)
  moreover have "has_request (JStr i) ?m"
  proof -
    obtain r where "r \<in> set (getApprovalHistory i ?m)"
      using assms(3) unfolding getApprovalRequest_def by (cases "getApprovalHistory i ?m") auto
    then show ?thesis by (auto simp: getApprovalHistory_def has_request_def list_ex_iff of_task_def)
  qed
  ultimately have "task_waits i ?m" using assms(4) by (simp add: task_waits_def task_running_def list_ex_iff)
  then have "task_waits i (fold approval_step later ?m)" by (rule waiting.inv_run)
  then show ?thesis by (auto simp: task_waits_def task_running_def list_ex_iff)
qed

definition approval_sample :: approval_db where
  "approval_sample = \<lparr>ap_db = sample_db\<lparr>tasks :=
     [[(''id'', JStr ''a''), (''status'', JStr ''queued''), (''task_description'', JStr ''Deploy the site'')],
      [(''id'', JStr ''b''), (''status'', JStr ''queued''), (''task_description'', JStr ''Write tests'')]]\<rparr>,
     ap_rules = [], ap_requests = []\<rparr>"

definition claim_of :: "string \<Rightarrow> approval_call" where
  "claim_of i = Claim_task 5 (9, i, JNull, JNull, None, [], None, [])"

definition sample_calls :: "approval_call list" where
  "sample_calls = [Add_rule 1 ''r'' (JStr ''deploys'') (JStr ''keyword'') (JObj [(''keywords'', JArr [JStr ''DEPLOY''])]) [],
     Check_task 2 ''a'', Check_task 2 ''b'']"

theorem no_start_before_approval_witness:
  "\<not> task_running ''a'' (fold approval_step (sample_calls @ [claim_of ''a'', claim_of ''b'']) approval_sample) \<and>
   task_running ''b'' (fold approval_step (sample_calls @ [claim_of ''a'', claim_of ''b'']) approval_sample) \<and>
   task_running ''a'' (fold approval_step (sample_calls @ [Approve_task 3 ''a'' (JStr ''me'') JNull, claim_of ''a'']) approval_sample)"
proof -
  have "ids_unique (ap_db approval_sample)" "ap_requests approval_sample = []"
    "getApprovalRequest ''a'' (fold approval_step sample_calls approval_sample) \<noteq> None"
    "\<not> task_running ''a'' (fold approval_step sample_calls approval_sample)"
    "\<not> approved_for (JStr ''a'') (fold approval_step (sample_calls @ [claim_of ''a'', claim_of ''b'']) approval_sample)"
    "task_running ''b'' (fold approval_step (sample_calls @ [claim_of ''a'', claim_of ''b'']) approval_sample)"
    "task_running ''a'' (fold approval_step (sample_calls @ [Approve_task 3 ''a'' (JStr ''me'') JNull, claim_of ''a'']) approval_sample)"
    by code_simp+
  with no_start_before_approval [of approval_sample "''a''" sample_calls "[claim_of ''a'', claim_of ''b'']"]
  show ?thesis by simp
qed

end
