(* ===== verification/Server_Config.thy ===== *)
theory Server_Config
  imports Task_Store Condition_Eval
begin

text \<open>
  Configuration values: the resolution of \<open>server/config.js\<close> (environment, database, registry default,
  fallback of the caller), its typed readers, the bounded reader \<open>safeConfigInt\<close> of
  \<open>server/execution/provider-router.js\<close> and the global limit of running tasks
  (\<open>effective-concurrency.js\<close>, \<open>server/db/provider/routing-core.js\<close>).

  \<open>cf_env\<close> is \<open>process.env\<close> (\<open>JUndef\<close>: not set), \<open>cf_db\<close> is \<open>getConfig\<close> of the database (\<open>JNull\<close>: no row).
\<close>

section \<open>Resolution\<close>

record server_config =
  cf_env :: "string \<Rightarrow> jsval"
  cf_db :: "string \<Rightarrow> jsval"

record registry_entry =
  entry_default :: jsval
  entry_env :: "string option"

definition plain :: "jsval \<Rightarrow> registry_entry" where
  "plain v = \<lparr>entry_default = v, entry_env = None\<rparr>"

definition with_env :: "jsval \<Rightarrow> string \<Rightarrow> registry_entry" where
  "with_env v name = \<lparr>entry_default = v, entry_env = Some name\<rparr>"

definition REGISTRY :: "(string \<times> registry_entry) list" where
  "REGISTRY =
    [(''dashboard_port'', with_env (JNum 3456) ''TORQUE_DASHBOARD_PORT''),
     (''api_port'', with_env (JNum 3457) ''TORQUE_API_PORT''),
     (''mcp_sse_port'', with_env (JNum 3458) ''TORQUE_MCP_SSE_PORT''),
     (''gpu_metrics_port'', with_env (JNum 9394) ''TORQUE_GPU_METRICS_PORT''),
     (''mcp_gateway_port'', with_env (JNum 3459) ''TORQUE_MCP_GATEWAY_PORT''),
     (''max_concurrent'', plain (JNum 20)),
     (''auto_compute_max_concurrent'', plain (JBool True)),
     (''max_ollama_concurrent'', plain (JNum 8)),
     (''max_codex_concurrent'', plain (JNum 6)),
     (''max_api_concurrent'', plain (JNum 4)),
     (''max_per_host'', plain (JNum 4)),
     (''codex_enabled'', plain (JBool False)),
     (''codex_spark_enabled'', plain (JBool False)),
     (''deepinfra_enabled'', plain (JBool False)),
     (''hyperbolic_enabled'', plain (JBool False)),
     (''smart_routing_enabled'', plain (JBool True)),
     (''context_enrichment_enabled'', plain (JBool True)),
     (''build_check_enabled'', plain (JBool True)),
     (''cost_tracking_enabled'', plain (JBool True)),
     (''adaptive_retry_enabled'', plain (JBool True)),
     (''factory_project_work_enabled'', with_env (JBool True) ''TORQUE_FACTORY_PROJECT_WORK_ENABLED''),
     (''tsserver_enabled'', plain (JBool False)),
     (''openrouter_role_require_live_pass'', plain (JBool True)),
     (''openrouter_discovery_smoke_limit'', plain (JNum 5)),
     (''openrouter_agentic_first_response_timeout_seconds'',
        with_env JNull ''TORQUE_OPENROUTER_AGENTIC_FIRST_RESPONSE_TIMEOUT_SECONDS''),
     (''ollama_agentic_first_response_timeout_seconds'',
        with_env JNull ''TORQUE_OLLAMA_AGENTIC_FIRST_RESPONSE_TIMEOUT_SECONDS''),
     (''ollama_cloud_agentic_first_response_timeout_seconds'',
        with_env JNull ''TORQUE_OLLAMA_CLOUD_AGENTIC_FIRST_RESPONSE_TIMEOUT_SECONDS''),
     (''agentic_first_response_timeout_seconds'', with_env JNull ''TORQUE_AGENTIC_FIRST_RESPONSE_TIMEOUT_SECONDS''),
     (''quota_auto_scale_enabled'', plain (JBool False)),
     (''quota_queue_depth_threshold'', plain (JNum 3)),
     (''quota_cooldown_seconds'', plain (JNum 60)),
     (''auto_archive_days'', plain (JNum 30)),
     (''cleanup_log_days'', plain (JNum 7)),
     (''cleanup_event_days'', plain (JNum 7)),
     (''cleanup_stream_days'', plain (JNum 7)),
     (''queue_task_ttl_minutes'', plain (JNum 0)),
     (''task_log_disk_min_mb'', plain (JNum 1024)),
     (''default_timeout'', plain (JNum 30)),
     (''ollama_num_ctx'', plain (JNum 8192)),
     (''ollama_temperature'', plain (JNum (1 / 5)))]"

definition env_override :: "server_config \<Rightarrow> string \<Rightarrow> jsval option" where
  "env_override cf key =
     (case map_of REGISTRY key of
        None \<Rightarrow> None
      | Some entry \<Rightarrow> (case entry_env entry of
            None \<Rightarrow> None
          | Some name \<Rightarrow> if cf_env cf name = JUndef \<or> cf_env cf name = JStr [] then None else Some (cf_env cf name)))"

text \<open>\<open>fallback\<close> is \<open>JUndef\<close> where the caller gives none.\<close>

definition config_get :: "server_config \<Rightarrow> string \<Rightarrow> jsval \<Rightarrow> jsval" where
  "config_get cf key fallback =
     (case env_override cf key of
        Some v \<Rightarrow> v
      | None \<Rightarrow>
          if \<not> is_nullish (cf_db cf key) then cf_db cf key
          else case map_of REGISTRY key of
              Some entry \<Rightarrow> entry_default entry
            | None \<Rightarrow> if fallback = JUndef then JNull else fallback)"

definition default_for :: "string \<Rightarrow> jsval \<Rightarrow> jsval" where
  "default_for key fallback = (case map_of REGISTRY key of Some entry \<Rightarrow> entry_default entry | None \<Rightarrow> fallback)"

definition parse_js_int :: "jsval \<Rightarrow> int option" where
  "parse_js_int v = parseInt (js_string v)"

definition getInt :: "server_config \<Rightarrow> string \<Rightarrow> jsval \<Rightarrow> jsval" where
  "getInt cf key fallback =
     (let defaultVal = default_for key fallback;
          otherwise = (if defaultVal = JUndef then JNum 0 else defaultVal);
          raw = config_get cf key fallback in
      if is_nullish raw then otherwise
      else case parse_js_int raw of None \<Rightarrow> otherwise | Some n \<Rightarrow> JNum (of_int n))"

definition getBool :: "server_config \<Rightarrow> string \<Rightarrow> jsval \<Rightarrow> jsval" where
  "getBool cf key fallback =
     (let defaultVal = default_for key fallback; raw = config_get cf key JUndef in
      if is_nullish raw then (if defaultVal = JUndef then JBool False else defaultVal)
      else JBool (js_trim (js_lower (js_string raw)) \<notin> set [''0'', ''false'', ''no'', []]))"

definition isOptIn :: "server_config \<Rightarrow> string \<Rightarrow> bool" where
  "isOptIn cf key =
     (let val = config_get cf key JUndef in
      \<not> is_nullish val \<and> js_trim (js_lower (js_string val)) \<in> set [''1'', ''true'', ''yes'', ''on''])"

section \<open>Limits\<close>

definition safeConfigInt :: "server_config \<Rightarrow> string \<Rightarrow> int \<Rightarrow> int \<Rightarrow> int \<Rightarrow> int" where
  "safeConfigInt cf configKey defaultVal minVal maxVal =
     (let rawValue = config_get cf configKey JUndef in
      if is_nullish rawValue then defaultVal
      else case parse_js_int rawValue of
          None \<Rightarrow> defaultVal
        | Some parsed \<Rightarrow> if parsed = 0 \<and> defaultVal = 0 then 0 else max minVal (min parsed maxVal))"

definition config_int :: "server_config \<Rightarrow> string \<Rightarrow> int \<Rightarrow> int" where
  "config_int cf configKey defaultVal = safeConfigInt cf configKey defaultVal 1 1000"

definition parsePositiveInt :: "int option \<Rightarrow> int option \<Rightarrow> int option" where
  "parsePositiveInt parsed fallback = (case parsed of None \<Rightarrow> fallback | Some n \<Rightarrow> if 0 < n then Some n else fallback)"

definition DEFAULT_GLOBAL_MAX_CONCURRENT :: int where
  "DEFAULT_GLOBAL_MAX_CONCURRENT = 20"

text \<open>
  The sum of the provider limits only decides about a warning, so it is left out; what the
  function returns as the effective limit is the configured one.
\<close>

definition getEffectiveMaxConcurrent :: "int \<Rightarrow> int" where
  "getEffectiveMaxConcurrent configuredMaxConcurrent =
     (case parsePositiveInt (Some configuredMaxConcurrent) (Some DEFAULT_GLOBAL_MAX_CONCURRENT) of
        Some n \<Rightarrow> n | None \<Rightarrow> DEFAULT_GLOBAL_MAX_CONCURRENT)"

definition getEffectiveGlobalMaxConcurrent :: "server_config \<Rightarrow> int" where
  "getEffectiveGlobalMaxConcurrent cf =
     (let configuredMaxConcurrent = config_int cf ''max_concurrent'' 20;
          effectiveMaxConcurrent = getEffectiveMaxConcurrent configuredMaxConcurrent in
      if 0 < effectiveMaxConcurrent then effectiveMaxConcurrent else configuredMaxConcurrent)"

text \<open>Every limit is between 1 and 1000, and the global limit is the configured one.\<close>

lemma safeConfigInt_bounds:
  assumes "minVal \<le> defaultVal" and "defaultVal \<le> maxVal" and "defaultVal \<noteq> 0"
  shows "minVal \<le> safeConfigInt cf key defaultVal minVal maxVal" "safeConfigInt cf key defaultVal minVal maxVal \<le> maxVal"
  using assms by (auto simp: safeConfigInt_def Let_def split: option.split)

lemma global_limit: "getEffectiveGlobalMaxConcurrent cf = config_int cf ''max_concurrent'' 20"
  and global_limit_positive: "1 \<le> getEffectiveGlobalMaxConcurrent cf"
proof -
  have "1 \<le> config_int cf ''max_concurrent'' 20" unfolding config_int_def by (rule safeConfigInt_bounds) simp_all
  then show "getEffectiveGlobalMaxConcurrent cf = config_int cf ''max_concurrent'' 20" "1 \<le> getEffectiveGlobalMaxConcurrent cf"
    by (simp_all add: getEffectiveGlobalMaxConcurrent_def getEffectiveMaxConcurrent_def parsePositiveInt_def)
qed

end
