(* ===== verification/Factory_Queue.thy ===== *)
theory Factory_Queue
  imports Slot_Pull Server_Config
begin

text \<open>
  What the queue scheduler \<open>server/execution/queue-scheduler.js\<close> does with the tasks of factory projects
  before it assigns anything: tasks of paused projects are parked, and maintenance work (architect
  cycles, replans, plan generation) is cancelled when newer work of the same project supersedes it.

  \<open>projects\<close> are the rows of \<open>factory_projects\<close>. The pause status is read from them, not from the task
  tables, so it is an argument. A creation time that is missing or no instant is \<open>NegInf\<close>.
\<close>

section \<open>Tags and kinds\<close>

definition FACTORY_PROJECT_PAUSED_REASON :: string where
  "FACTORY_PROJECT_PAUSED_REASON = ''factory_project_paused''"

definition FACTORY_SUPERSEDED_BY_PLAN_STATUSES :: "string list" where
  "FACTORY_SUPERSEDED_BY_PLAN_STATUSES = [''pending'', ''queued'', ''running'', ''waiting'', ''completed'']"

definition FACTORY_SUPERSEDED_BY_ACTIVE_STATUSES :: "string list" where
  "FACTORY_SUPERSEDED_BY_ACTIVE_STATUSES = [''pending'', ''queued'', ''running'', ''waiting'']"

definition FACTORY_ARCHITECT_MAINTENANCE_KINDS :: "string list" where
  "FACTORY_ARCHITECT_MAINTENANCE_KINDS = [''architect_cycle'', ''scout'', ''starvation_recovery'']"

definition FACTORY_REPLAN_MAINTENANCE_KINDS :: "string list" where
  "FACTORY_REPLAN_MAINTENANCE_KINDS = [''replan_decompose'', ''replan_rewrite'']"

definition FACTORY_PLAN_SIGNAL_KINDS :: "string list" where
  "FACTORY_PLAN_SIGNAL_KINDS = [''plan_generation'', ''plan_quality_review'']"

text \<open>The scheduler has copies of its own of the tag helpers; its \<open>getFactoryTagValue\<close> does not trim.\<close>

definition scheduler_tags :: "db_row \<Rightarrow> string list" where
  "scheduler_tags task =
     (case col task ''tags'' of
        JArr vs \<Rightarrow> map js_string vs
      | JStr s \<Rightarrow> if js_trim s = [] then [] else filter (\<lambda>t. t \<noteq> []) (map js_trim (split_on CHR '','' s))
      | _ \<Rightarrow> [])"

definition raw_tag_value :: "string list \<Rightarrow> string \<Rightarrow> string option" where
  "raw_tag_value tags prefix = map_option (drop (length prefix)) (List.find (starts_with prefix) tags)"

definition getTaskMetadata :: "db_row \<Rightarrow> jsobj" where
  "getTaskMetadata task = normalizeMetadata (col task ''metadata'')"

definition getFactoryProjectId :: "db_row \<Rightarrow> string option" where
  "getFactoryProjectId task =
     (let tags = scheduler_tags task;
          direct = raw_tag_value tags ''factory:project_id='';
          batchId = raw_tag_value tags ''factory:batch_id='';
          fromBatch = (if str_truthy batchId then batch_project (the batchId) else None) in
      if str_truthy direct then direct
      else if fromBatch \<noteq> None then fromBatch
      else some_text (trimmed_field (getTaskMetadata task) ''project_id''))"

definition getFactoryKind :: "db_row \<Rightarrow> string option" where
  "getFactoryKind task =
     (case List.find (\<lambda>t. starts_with ''factory:'' t \<and> CHR ''='' \<notin> set t \<and> t \<noteq> ''factory:internal'') (scheduler_tags task) of
        Some t \<Rightarrow> Some (drop 8 t)
      | None \<Rightarrow> some_text (trimmed_field (getTaskMetadata task) ''kind''))"

definition getTaskCreatedAtMs :: "db_row \<Rightarrow> jsnum" where
  "getTaskCreatedAtMs task = (case col task ''created_at'' of JNum q \<Rightarrow> Fin q | _ \<Rightarrow> NegInf)"

definition hasFactoryInternalTag :: "db_row \<Rightarrow> bool" where
  "hasFactoryInternalTag task =
     (''factory:internal'' \<in> set (scheduler_tags task) \<or> obj_get (getTaskMetadata task) ''factory_internal'' = JBool True)"

definition kind_in :: "db_row \<Rightarrow> string list \<Rightarrow> bool" where
  "kind_in task kinds = (case getFactoryKind task of None \<Rightarrow> False | Some k \<Rightarrow> k \<in> set kinds)"

definition lower_status :: "db_row \<Rightarrow> string" where
  "lower_status task = js_lower (js_string (js_or (col task ''status'') (JStr [])))"

definition isFactoryMaintenanceTask :: "db_row \<Rightarrow> bool" where
  "isFactoryMaintenanceTask task = (hasFactoryInternalTag task \<and>
     (kind_in task FACTORY_ARCHITECT_MAINTENANCE_KINDS \<or> kind_in task FACTORY_REPLAN_MAINTENANCE_KINDS
      \<or> kind_in task FACTORY_PLAN_SIGNAL_KINDS))"

definition isActiveFactoryMaintenanceTask :: "db_row \<Rightarrow> bool" where
  "isActiveFactoryMaintenanceTask task =
     (isFactoryMaintenanceTask task \<and> lower_status task \<in> set FACTORY_SUPERSEDED_BY_ACTIVE_STATUSES)"

definition isFactoryPlanSignal :: "db_row \<Rightarrow> bool" where
  "isFactoryPlanSignal task = (hasFactoryInternalTag task \<and> kind_in task FACTORY_PLAN_SIGNAL_KINDS)"

definition isFactoryProjectExecutionSignal :: "db_row \<Rightarrow> bool" where
  "isFactoryProjectExecutionSignal task =
     (\<not> hasFactoryInternalTag task \<and> list_ex (starts_with ''factory:batch_id=factory-'') (scheduler_tags task))"

section \<open>Supersession\<close>

definition isSupersedingFactorySignal :: "db_row \<Rightarrow> db_row \<Rightarrow> bool" where
  "isSupersedingFactorySignal candidate sig =
     (let pid = getFactoryProjectId candidate;
          candidateCreatedAt = getTaskCreatedAtMs candidate; signalCreatedAt = getTaskCreatedAtMs sig;
          candidateKind = getFactoryKind candidate; signalStatus = lower_status sig in
      if col candidate ''id'' = col sig ''id'' then False
      else if \<not> str_truthy pid \<or> getFactoryProjectId sig \<noteq> pid then False
      else if isActiveFactoryMaintenanceTask sig \<and> getFactoryKind sig = candidateKind
      then signalStatus = ''running'' \<or> num_less candidateCreatedAt signalCreatedAt
      else if num_less signalCreatedAt candidateCreatedAt then False
      else if isFactoryProjectExecutionSignal sig then signalStatus \<in> set FACTORY_SUPERSEDED_BY_ACTIVE_STATUSES
      else if \<not> isFactoryPlanSignal sig then False
      else if kind_in candidate FACTORY_ARCHITECT_MAINTENANCE_KINDS
      then signalStatus \<in> set FACTORY_SUPERSEDED_BY_PLAN_STATUSES
      else if kind_in candidate FACTORY_REPLAN_MAINTENANCE_KINDS
      then signalStatus \<in> set FACTORY_SUPERSEDED_BY_ACTIVE_STATUSES
      else False)"

definition is_signal :: "db_row \<Rightarrow> bool" where
  "is_signal task = (isFactoryPlanSignal task \<or> isFactoryProjectExecutionSignal task \<or> isActiveFactoryMaintenanceTask task)"

definition superseded :: "db_row list \<Rightarrow> db_row \<Rightarrow> bool" where
  "superseded signals task = (isFactoryMaintenanceTask task \<and> list_ex (isSupersedingFactorySignal task) signals)"

definition filterSupersededFactoryInternalTasks :: "db_row list \<Rightarrow> db_row list \<Rightarrow> db_row list" where
  "filterSupersededFactoryInternalTasks queuedTasks activeSignals =
     filter (\<lambda>t. \<not> superseded (filter is_signal (queuedTasks @ activeSignals)) t) queuedTasks"

text \<open>\<open>tags LIKE '%text%'\<close>: the texts looked for contain no quote, so they lie within one tag.\<close>

definition tags_like :: "string \<Rightarrow> db_row \<Rightarrow> bool" where
  "tags_like pattern task =
     (case col task ''tags'' of
        JArr vs \<Rightarrow> list_ex (\<lambda>v. includes_str pattern (js_lower (js_string v))) vs
      | JStr s \<Rightarrow> includes_str pattern (js_lower s)
      | _ \<Rightarrow> False)"

definition loadRecentFactorySupersessionSignals :: "nat \<Rightarrow> db_row list \<Rightarrow> tdb \<Rightarrow> db_row list" where
  "loadRecentFactorySupersessionSignals limit queuedTasks d =
     (let candidateTimes = List.map_filter (\<lambda>t. case getTaskCreatedAtMs t of Fin q \<Rightarrow> Some q | _ \<Rightarrow> None)
            (filter isFactoryMaintenanceTask queuedTasks) in
      if candidateTimes = [] then []
      else take limit (sort_key (\<lambda>r. - num_of (col r ''created_at'')) (filter (\<lambda>r.
         (case col r ''created_at'' of JNum q \<Rightarrow> Min (set candidateTimes) \<le> q | _ \<Rightarrow> False) \<and>
         col r ''status'' \<in> JStr ` set FACTORY_SUPERSEDED_BY_PLAN_STATUSES \<and>
         (tags_like ''factory:plan_generation'' r \<or> tags_like ''factory:plan_quality_review'' r
          \<or> tags_like ''factory:batch_id=factory-'' r)) (tasks d))))"

section \<open>Paused projects\<close>

definition isFactorySchedulerTask :: "db_row \<Rightarrow> bool" where
  "isFactorySchedulerTask task = (hasFactoryInternalTag task \<or> isFactoryProjectExecutionSignal task)"

definition getFactoryProjectStatus :: "db_row list \<Rightarrow> string option \<Rightarrow> string option" where
  "getFactoryProjectStatus projects pid =
     (if \<not> str_truthy pid then None
      else case lookup_row (the pid) projects of
          None \<Rightarrow> None
        | Some r \<Rightarrow> some_text (lower_status r))"

definition isFactoryProjectPaused :: "db_row list \<Rightarrow> string option \<Rightarrow> bool" where
  "isFactoryProjectPaused projects pid = (getFactoryProjectStatus projects pid = Some ''paused'')"

definition markFactoryTaskWaitingForPausedProject :: "int \<Rightarrow> db_row \<Rightarrow> tdb \<Rightarrow> bool \<times> tdb" where
  "markFactoryTaskWaitingForPausedProject now task d =
     (if \<not> js_truthy (col task ''id'') \<or> \<not> str_truthy (getFactoryProjectId task) then (False, d)
      else case updateTaskStatus now (str_of (col task ''id'')) ''waiting''
             [(''pause_reason'', JStr FACTORY_PROJECT_PAUSED_REASON), (''_preserveProvider'', JBool True)] d of
          (Inl e, d') \<Rightarrow> (False, d')
        | (Inr r, d') \<Rightarrow> (True, d'))"

text \<open>The tasks that stay, and the number of parked ones.\<close>

fun filterPausedFactoryProjectTasks :: "int \<Rightarrow> db_row list \<Rightarrow> db_row list \<Rightarrow> tdb \<Rightarrow> (db_row list \<times> nat) \<times> tdb" where
  "filterPausedFactoryProjectTasks now projects [] d = (([], 0), d)"
| "filterPausedFactoryProjectTasks now projects (t # ts) d =
     (if \<not> isFactorySchedulerTask t \<or> \<not> isFactoryProjectPaused projects (getFactoryProjectId t)
      then (case filterPausedFactoryProjectTasks now projects ts d of ((kept, n), d') \<Rightarrow> ((t # kept, n), d'))
      else case markFactoryTaskWaitingForPausedProject now t d of
          (parked, d1) \<Rightarrow>
            (case filterPausedFactoryProjectTasks now projects ts d1 of
               ((kept, n), d') \<Rightarrow> ((kept, if parked then n + 1 else n), d')))"

definition listQueuedFactoryTasksForProject :: "string \<Rightarrow> nat \<Rightarrow> tdb \<Rightarrow> db_row list" where
  "listQueuedFactoryTasksForProject pid limit d =
     filter (\<lambda>t. isFactorySchedulerTask t \<and> getFactoryProjectId t = Some pid) (listQueuedTasksLightweight limit d)"

text \<open>Both return how many tasks were moved and how many were looked at.\<close>

definition parkQueuedFactoryTasksForPausedProject :: "int \<Rightarrow> db_row list \<Rightarrow> string \<Rightarrow> nat \<Rightarrow> tdb \<Rightarrow> (nat \<times> nat) \<times> tdb" where
  "parkQueuedFactoryTasksForPausedProject now projects pid limit d =
     (let p = js_trim pid in
      if p = [] \<or> \<not> isFactoryProjectPaused projects (Some p) then ((0, 0), d)
      else let queuedTasks = listQueuedFactoryTasksForProject p limit d in
        case filterPausedFactoryProjectTasks now projects queuedTasks d of
          ((kept, parked), d') \<Rightarrow> ((parked, length queuedTasks), d'))"

definition listPausedWaitingFactoryTasks :: "string \<Rightarrow> nat \<Rightarrow> tdb \<Rightarrow> db_row list" where
  "listPausedWaitingFactoryTasks pid limit d =
     (let p = js_trim pid in
      if p = [] then []
      else filter (\<lambda>t. col t ''pause_reason'' = JStr FACTORY_PROJECT_PAUSED_REASON \<and> isFactorySchedulerTask t
        \<and> getFactoryProjectId t = Some p) (list_by_status ''waiting'' limit d))"

fun requeue_paused :: "int \<Rightarrow> db_row list \<Rightarrow> tdb \<Rightarrow> nat \<times> tdb" where
  "requeue_paused now [] d = (0, d)"
| "requeue_paused now (t # ts) d =
     (case updateTaskStatus now (str_of (col t ''id'')) ''queued''
             [(''pause_reason'', JNull), (''_preserveProvider'', JBool True)] d of
        (Inl e, d') \<Rightarrow> requeue_paused now ts d'
      | (Inr r, d') \<Rightarrow> (case requeue_paused now ts d' of (n, d'') \<Rightarrow> (n + 1, d'')))"

definition resumePausedFactoryProjectTasks :: "int \<Rightarrow> string \<Rightarrow> nat \<Rightarrow> tdb \<Rightarrow> (nat \<times> nat) \<times> tdb" where
  "resumePausedFactoryProjectTasks now pid limit d =
     (if js_trim pid = [] then ((0, 0), d)
      else let waitingTasks = listPausedWaitingFactoryTasks pid limit d in
        case requeue_paused now waitingTasks d of (moved, d') \<Rightarrow> ((moved, length waitingTasks), d'))"

text \<open>
  The scheduler hands over the configuration module, whose \<open>getBool\<close> takes every text but the listed
  ones for true: \<open>off\<close> and \<open>disabled\<close>, which \<open>parseBoolConfigValue\<close> reads as false, leave the work
  enabled here.
\<close>

definition factory_work_enabled :: "server_config \<Rightarrow> bool" where
  "factory_work_enabled cf = (getBool cf ''factory_project_work_enabled'' (JBool True) = JBool True)"

definition filterFactoryProjectWorkDisabledTasks :: "server_config \<Rightarrow> platform \<Rightarrow> db_row list \<Rightarrow> db_row list \<Rightarrow> db_row list" where
  "filterFactoryProjectWorkDisabledTasks cf pf projects queuedTasks =
     (if factory_work_enabled cf then queuedTasks
      else filter (\<lambda>t. \<not> isRegisteredFactoryProjectTask pf projects t) queuedTasks)"

section \<open>Cancelling superseded tasks\<close>

definition cancelQueuedFactoryTask :: "int \<Rightarrow> string \<Rightarrow> string \<Rightarrow> db_row \<Rightarrow> tdb \<Rightarrow> bool \<times> tdb" where
  "cancelQueuedFactoryTask now reason message task d =
     (if \<not> js_truthy (col task ''id'') then (False, d)
      else case updateTaskStatus now (str_of (col task ''id'')) ''cancelled''
             [(''cancel_reason'', JStr reason), (''error_output'', JStr message), (''completed_at'', iso now)] d of
          (Inl e, d') \<Rightarrow> (False, d')
        | (Inr r, d') \<Rightarrow> (True, d'))"

fun cancelFilteredQueuedFactoryTasks ::
  "int \<Rightarrow> db_row list \<Rightarrow> jsval list \<Rightarrow> string \<Rightarrow> string \<Rightarrow> tdb \<Rightarrow> nat \<times> tdb" where
  "cancelFilteredQueuedFactoryTasks now [] retainedIds reason message d = (0, d)"
| "cancelFilteredQueuedFactoryTasks now (t # ts) retainedIds reason message d =
     (if \<not> js_truthy (col t ''id'') \<or> col t ''id'' \<in> set retainedIds \<or> lower_status t \<noteq> ''queued''
         \<or> \<not> isFactorySchedulerTask t
      then cancelFilteredQueuedFactoryTasks now ts retainedIds reason message d
      else case cancelQueuedFactoryTask now reason message t d of
          (ok, d1) \<Rightarrow>
            (case cancelFilteredQueuedFactoryTasks now ts retainedIds reason message d1 of
               (n, d') \<Rightarrow> (if ok then n + 1 else n, d')))"

section \<open>Order of codex work\<close>

definition getCodexFactoryWorkPriority :: "db_row \<Rightarrow> nat" where
  "getCodexFactoryWorkPriority task =
     (let has = (\<lambda>t. t \<in> set (scheduler_tags task)) in
      if \<not> has ''factory:internal'' then 0
      else if has ''factory:plan_generation'' \<or> has ''factory:plan_quality_review'' then 1
      else if has ''factory:architect_cycle'' then 2
      else if has ''factory:replan_rewrite'' then 3
      else if has ''factory:starvation_recovery'' \<or> has ''factory:scout'' then 4
      else 5)"

definition prioritizeCodexProjectWork :: "db_row list \<Rightarrow> db_row list" where
  "prioritizeCodexProjectWork codexTasks = sort_key getCodexFactoryWorkPriority codexTasks"

end
