(* ===== verification/Queue_Scheduler.thy ===== *)
theory Queue_Scheduler
  imports Factory_Queue Approvals
begin

text \<open>
  The legacy queue scheduler, \<open>server/execution/queue-scheduler.js\<close>: a pass filters the queued tasks, sorts
  them into provider categories and starts what the limits of the categories, the providers and the
  hosts allow; codex tasks that find no slot may move to other providers.

  State: the state of the slot-pull scheduler (to which a pass delegates in that mode), the approval
  tables, the cache of provider limits that outlives a pass, and the times of the last pass and of the
  last quota overflow. \<open>queue_env\<close> is what a pass reads and does not change; \<open>q_start\<close> is
  \<open>attemptTaskStart\<close> of the task manager, which does not throw. Hosts change when tasks start, so the
  functions that read them get the task tables. Resetting budgets, cleaning up timers, notifications
  and log lines are outside the state. A pass happens at one instant.
\<close>

section \<open>State\<close>

record host_selection =
  sel_host :: "jsobj option"
  sel_at_capacity :: bool

record queue_env =
  q_slots :: slot_env
  q_stopped :: bool
  q_disk_paused :: bool
  q_under_pressure :: bool
  q_route :: "db_row \<Rightarrow> string option"
  q_best_model :: "string \<Rightarrow> jsval"
  q_role_model :: "string \<Rightarrow> string \<Rightarrow> jsval"
  q_select_host :: "jsval \<Rightarrow> tdb \<Rightarrow> host_selection"
  q_enabled_hosts :: "tdb \<Rightarrow> jsobj list"
  q_start :: "string \<Rightarrow> string \<Rightarrow> tdb \<Rightarrow> jsval \<times> tdb"
  q_has_instance :: "string \<Rightarrow> bool"
  q_free_providers :: "(string \<Rightarrow> string \<Rightarrow> string list) option"
  q_type_patterns :: "(string \<times> (string \<Rightarrow> bool)) list"
  q_scores :: "string \<Rightarrow> rat option"

record queue_state =
  qs_slots :: slot_state
  qs_rules :: "db_row list"
  qs_requests :: "db_row list"
  qs_limit_cache :: "(string \<times> int option) list"
  qs_limit_cache_at :: int
  qs_last_process :: int
  qs_last_overflow :: int

definition q_now :: "queue_env \<Rightarrow> int" where
  "q_now env = sl_now (q_slots env)"

definition q_config :: "queue_env \<Rightarrow> server_config" where
  "q_config env = \<lparr>cf_env = sl_getenv (q_slots env), cf_db = sl_config (q_slots env)\<rparr>"

definition q_int :: "queue_env \<Rightarrow> string \<Rightarrow> int \<Rightarrow> int" where
  "q_int env key fallback = config_int (q_config env) key fallback"

definition q_value :: "queue_env \<Rightarrow> string \<Rightarrow> jsval" where
  "q_value env key = config_get (q_config env) key JUndef"

definition qs_db :: "queue_state \<Rightarrow> tdb" where
  "qs_db s = sl_db (qs_slots s)"

definition set_db :: "tdb \<Rightarrow> queue_state \<Rightarrow> queue_state" where
  "set_db d s = s\<lparr>qs_slots := (qs_slots s)\<lparr>sl_db := d\<rparr>\<rparr>"

definition PROVIDER_LIMIT_CACHE_TTL_MS :: int where
  "PROVIDER_LIMIT_CACHE_TTL_MS = 10000"

definition GPU_SHARING_PROVIDERS :: "string list" where
  "GPU_SHARING_PROVIDERS = [''ollama'']"

definition FILE_LOCK_WAIT_METADATA_KEY :: string where
  "FILE_LOCK_WAIT_METADATA_KEY = ''file_lock_wait''"

definition DEFAULT_FALLBACK_MODEL :: string where
  "DEFAULT_FALLBACK_MODEL = ''default-model''"

section \<open>Provider registry and models\<close>

definition PROVIDER_CATEGORIES :: "(string \<times> string list) list" where
  "PROVIDER_CATEGORIES =
    [(''ollama'', [''ollama'']),
     (''codex'', [''codex'', ''codex-spark'', ''claude-cli'', ''claude-code-sdk'', ''claude-ollama'']),
     (''api'', [''anthropic'', ''groq'', ''hyperbolic'', ''deepinfra'', ''ollama-cloud'', ''cerebras'', ''google-ai'', ''openrouter'']),
     (''system'', [''system''])]"

definition getCategory :: "string \<Rightarrow> string option" where
  "getCategory provider = map_option fst (List.find (\<lambda>(c, ps). provider \<in> set ps) PROVIDER_CATEGORIES)"

definition running_in_category :: "string \<Rightarrow> db_row list \<Rightarrow> nat" where
  "running_in_category category runningAll =
     length (filter (\<lambda>t. getCategory (str_of (col t ''provider'')) = Some category) runningAll)"

text \<open>\<open>/[:\-_](\d+(?:\.\d+)?)b/i\<close>: the digits before the first such \<open>b\<close>.\<close>

definition size_at :: "string \<Rightarrow> string option" where
  "size_at s =
     (let whole = takeWhile is_digit_char s; rest = drop (length whole) s;
          frac = takeWhile is_digit_char (drop 1 rest); after = drop (length frac + 1) rest in
      if whole = [] then None
      else if starts_with ''b'' rest then Some whole
      else if starts_with ''.'' rest \<and> frac \<noteq> [] \<and> starts_with ''b'' after then Some (whole @ ''.'' @ frac)
      else None)"

fun first_size :: "string \<Rightarrow> string option" where
  "first_size [] = None"
| "first_size (c # cs) =
     (if c \<in> set '':-_'' \<and> size_at cs \<noteq> None then size_at cs else first_size cs)"

definition parseModelSizeB :: "jsval \<Rightarrow> rat" where
  "parseModelSizeB modelName =
     (if \<not> js_truthy modelName then 0
      else case first_size (js_lower (str_of modelName)) of
          None \<Rightarrow> 0
        | Some digits \<Rightarrow> (case number_of_string digits of Fin q \<Rightarrow> q | _ \<Rightarrow> 0))"

definition getRunningTasksForHost :: "jsval \<Rightarrow> tdb \<Rightarrow> db_row list" where
  "getRunningTasksForHost hostId d =
     filter (\<lambda>t. col t ''status'' = JStr ''running'' \<and> sql_eq (col t ''ollama_host_id'') hostId) (tasks d)"

definition isLargeModelBlockedOnHost :: "queue_env \<Rightarrow> jsval \<Rightarrow> jsval \<Rightarrow> tdb \<Rightarrow> bool" where
  "isLargeModelBlockedOnHost env modelName hostId d =
     (let largeModelThreshold = of_int (safeConfigInt (q_config env) ''large_model_threshold_b'' 30 1 200);
          maxLargePerHost = safeConfigInt (q_config env) ''max_large_models_per_host'' 1 1 10 in
      \<not> parseModelSizeB modelName < largeModelThreshold \<and>
      maxLargePerHost \<le> int (length (filter (\<lambda>t. largeModelThreshold \<le> parseModelSizeB (col t ''model''))
        (getRunningTasksForHost hostId d))))"

definition resolveOllamaModel :: "queue_env \<Rightarrow> jsval \<Rightarrow> jsval" where
  "resolveOllamaModel env taskModel =
     (if js_truthy taskModel then taskModel
      else if js_truthy (q_value env ''ollama_model'') then q_value env ''ollama_model'' else JNull)"

definition classifyTaskType :: "queue_env \<Rightarrow> jsval \<Rightarrow> string" where
  "classifyTaskType env description =
     (if \<not> js_truthy description then ''code_gen''
      else case List.find (\<lambda>(k, matches). matches (str_of description)) (q_type_patterns env) of
          None \<Rightarrow> ''code_gen'' | Some (k, _) \<Rightarrow> k)"

section \<open>Reading a task\<close>

text \<open>The columns of the lightweight listing; the others are \<open>undefined\<close> on its rows.\<close>

definition LIGHTWEIGHT_COLUMNS :: "string list" where
  "LIGHTWEIGHT_COLUMNS = [''id'', ''status'', ''provider'', ''original_provider'', ''model'', ''priority'', ''created_at'',
     ''working_directory'', ''timeout_minutes'', ''auto_approve'', ''retry_count'', ''max_retries'', ''depends_on'',
     ''approval_status'', ''ollama_host_id'', ''stall_timeout_seconds'', ''metadata'', ''tags'', ''workflow_priority'']"

definition queue_rows :: "tdb \<Rightarrow> db_row list" where
  "queue_rows d = map (\<lambda>t. filter (\<lambda>(c, _). c \<in> set LIGHTWEIGHT_COLUMNS) (light_row d t)) (listQueuedTasksLightweight 1000 d)"

definition resolveEffectiveProvider :: "db_row \<Rightarrow> string" where
  "resolveEffectiveProvider task =
     (let p = js_trim (str_of (col task ''provider'')) in
      if p \<noteq> [] then js_lower p
      else js_lower (js_trim (str_of (obj_get (normalizeMetadata (col task ''metadata'')) ''intended_provider''))))"

definition selection_locked :: "jsobj \<Rightarrow> bool" where
  "selection_locked metadata =
     (js_truthy (obj_get metadata ''user_provider_override'') \<or> js_truthy (obj_get metadata ''provider_selection_locked'')
      \<or> js_truthy (obj_get metadata ''agentic_handoff'') \<or> js_truthy (obj_get metadata ''_routing_template''))"

text \<open>\<open>retry_after\<close> holds the instant its text names; \<open>None\<close> where \<open>Date.parse\<close> gives \<open>NaN\<close>.\<close>

definition getFileLockWaitUntilMs :: "db_row \<Rightarrow> rat option" where
  "getFileLockWaitUntilMs task =
     (case obj_get (normalizeMetadata (col task ''metadata'')) FILE_LOCK_WAIT_METADATA_KEY of
        JObj wait \<Rightarrow> (case obj_get wait ''retry_after'' of JNum q \<Rightarrow> Some q | _ \<Rightarrow> None)
      | _ \<Rightarrow> None)"

definition shouldSkipTaskForFileLockWait :: "rat \<Rightarrow> db_row \<Rightarrow> bool" where
  "shouldSkipTaskForFileLockWait nowMs task =
     (case getFileLockWaitUntilMs task of None \<Rightarrow> False | Some q \<Rightarrow> nowMs < q)"

definition effective_provider :: "db_row \<Rightarrow> string" where
  "effective_provider task = str_of (js_or (col task ''_effectiveProvider'') (col task ''provider''))"

definition shouldSkipTaskForApproval :: "queue_env \<Rightarrow> db_row \<Rightarrow> queue_state \<Rightarrow> bool \<times> queue_state" where
  "shouldSkipTaskForApproval env task s =
     (let status = col task ''approval_status'' in
      if js_truthy status \<and> status \<noteq> JStr ''approved'' \<and> status \<noteq> JStr ''not_required'' then (True, s)
      else if \<not> js_truthy (col task ''id'') then (False, s)
      else case checkApprovalRequired (q_now env) (str_of (col task ''id''))
             \<lparr>ap_db = qs_db s, ap_rules = qs_rules s, ap_requests = qs_requests s\<rparr> of
          (Inl e, _) \<Rightarrow> (False, s)
        | (Inr approval, a) \<Rightarrow> (chk_required approval \<and> chk_status approval \<noteq> JStr ''approved'',
            (set_db (ap_db a) s)\<lparr>qs_rules := ap_rules a, qs_requests := ap_requests a\<rparr>))"

text \<open>\<open>/\b(async|await|Promise\b|\.then\(|\.catch\()\b/i\<close>\<close>

definition word_at :: "string \<Rightarrow> nat \<Rightarrow> bool" where
  "word_at s i = (i < length s \<and> is_word_char (s ! i))"

definition word_boundary :: "string \<Rightarrow> nat \<Rightarrow> bool" where
  "word_boundary s i = ((0 < i \<and> word_at s (i - 1)) \<noteq> word_at s i)"

definition asyncPattern :: "string \<Rightarrow> bool" where
  "asyncPattern description =
     (let s = js_lower description in
      list_ex (\<lambda>i. word_boundary s i \<and>
        list_ex (\<lambda>a. starts_with a (drop i s) \<and> word_boundary s (i + length a))
          [''async'', ''await'', ''promise'', ''.then('', ''.catch('']) [0..<length s])"

section \<open>Categories of the queue\<close>

text \<open>\<open>stampedTasks\<close>: the rows that got a \<open>_effectiveProvider\<close>, a field the later loops read from the same objects.\<close>

record queue_split =
  stampedTasks :: "db_row list"
  ollamaTasks :: "db_row list"
  codexTasks :: "db_row list"
  apiTasks :: "db_row list"
  invalidTasks :: "db_row list"

text \<open>The provider a task is put under, and the assignment of one to a task that has none.\<close>

definition bind_provider :: "queue_env \<Rightarrow> db_row \<Rightarrow> queue_state \<Rightarrow> string \<times> queue_state" where
  "bind_provider env task s =
     (let provider = resolveEffectiveProvider task in
      if provider \<noteq> [] then (provider, s)
      else case q_route env task of
          None \<Rightarrow> ([], s)
        | Some p \<Rightarrow> if p = [] then ([], s)
            else (p, set_db (snd (updateTaskStatus (q_now env) (str_of (col task ''id'')) ''queued'' [(''provider'', JStr p)] (qs_db s))) s))"

definition add_to_split :: "bool \<Rightarrow> string \<Rightarrow> db_row \<Rightarrow> queue_split \<Rightarrow> queue_split" where
  "add_to_split codexEnabled provider task q =
     (case getCategory provider of
        None \<Rightarrow> q\<lparr>invalidTasks := invalidTasks q @ [task]\<rparr>
      | Some category \<Rightarrow>
          if category = ''codex'' then
            (let meta = normalizeMetadata (col task ''metadata'');
                 hasExplicitIntent = (js_truthy (obj_get meta ''user_provider_override'') \<or> js_truthy (obj_get meta ''_routing_template'')) in
             if provider = ''codex'' \<and> \<not> codexEnabled \<and> \<not> hasExplicitIntent then q
             else q\<lparr>codexTasks := codexTasks q @ [task]\<rparr>)
          else if category = ''api'' then q\<lparr>apiTasks := apiTasks q @ [task]\<rparr>
          else q\<lparr>ollamaTasks := ollamaTasks q @ [task]\<rparr>)"

fun categorizeQueuedTasks :: "queue_env \<Rightarrow> bool \<Rightarrow> db_row list \<Rightarrow> queue_split \<Rightarrow> queue_state \<Rightarrow> queue_split \<times> queue_state" where
  "categorizeQueuedTasks env codexEnabled [] q s = (q, s)"
| "categorizeQueuedTasks env codexEnabled (task # ts) q s =
     (if resolveEffectiveProvider task = ''codex-pending'' then categorizeQueuedTasks env codexEnabled ts q s
      else case bind_provider env task s of
          (provider, s') \<Rightarrow>
            (let task' = obj_set ''_effectiveProvider'' (JStr provider) task in
             categorizeQueuedTasks env codexEnabled ts
               (add_to_split codexEnabled provider task' (q\<lparr>stampedTasks := stampedTasks q @ [task']\<rparr>)) s'))"

definition failQueuedTask :: "queue_env \<Rightarrow> string \<Rightarrow> db_row \<Rightarrow> queue_state \<Rightarrow> queue_state" where
  "failQueuedTask env message task s =
     (if \<not> js_truthy (col task ''id'') then s
      else set_db (snd (updateTaskStatus (q_now env) (str_of (col task ''id'')) ''failed'' [(''error_output'', JStr message)] (qs_db s))) s)"

definition unknown_provider :: "db_row \<Rightarrow> string" where
  "unknown_provider task =
     (let p = js_trim (str_of (col task ''provider'')) in ''Unknown provider: '' @ (if p = [] then ''(missing)'' else p))"

section \<open>The runtime state of a pass\<close>

text \<open>
  \<open>qp_limits\<close> and \<open>qp_running\<close> are the caches of one pass, \<open>qp_recorded\<close> counts the starts recorded per
  provider. \<open>qp_log\<close> lists the calls of \<open>attemptTaskStart\<close>: label, task and outcome. The task manager's
  \<open>startTask\<close> is asynchronous, so the usual outcome is pending, not started.
\<close>

record start_outcome =
  so_started :: bool
  so_queued :: bool
  so_pending :: bool
  so_failed :: bool
  so_reason :: jsval

type_synonym start_call = "string \<times> string \<times> start_outcome"

record queue_pass =
  qp_state :: queue_state
  qp_limits :: "(string \<times> int option) list"
  qp_running :: "(string \<times> nat) list"
  qp_recorded :: "(string \<times> nat) list"
  ollamaStarted :: nat
  codexStarted :: nat
  apiStarted :: nat
  qp_log :: "start_call list"

definition qp_db :: "queue_pass \<Rightarrow> tdb" where
  "qp_db ps = qs_db (qp_state ps)"

definition count_for :: "(string \<times> nat) list \<Rightarrow> string \<Rightarrow> nat" where
  "count_for m p = (case map_of m p of None \<Rightarrow> 0 | Some n \<Rightarrow> n)"

definition configured_limit :: "queue_env \<Rightarrow> string \<Rightarrow> int \<Rightarrow> int option" where
  "configured_limit env provider fallbackLimit =
     (let raw = (case getProvider (sl_providers (q_slots env)) provider of None \<Rightarrow> JUndef | Some c \<Rightarrow> col c ''max_concurrent'') in
      if parse_js_int raw = Some 0 then Some 0
      else parsePositiveInt (parse_js_int raw) (parsePositiveInt (Some fallbackLimit) None))"

definition getProviderLimit :: "queue_env \<Rightarrow> string \<Rightarrow> int \<Rightarrow> queue_pass \<Rightarrow> int option \<times> queue_pass" where
  "getProviderLimit env provider fallbackLimit ps =
     (if provider = [] then (parsePositiveInt (Some fallbackLimit) None, ps)
      else case map_of (qp_limits ps) provider of
        Some limit \<Rightarrow> (limit, ps)
      | None \<Rightarrow>
          let s = qp_state ps;
              s1 = (if PROVIDER_LIMIT_CACHE_TTL_MS < q_now env - qs_limit_cache_at s
                    then s\<lparr>qs_limit_cache := [], qs_limit_cache_at := q_now env\<rparr> else s);
              limit = (case map_of (qs_limit_cache s1) provider of
                  Some cached \<Rightarrow> cached
                | None \<Rightarrow> configured_limit env provider fallbackLimit) in
          (limit, ps\<lparr>qp_state := s1\<lparr>qs_limit_cache := AList.update provider limit (qs_limit_cache s1)\<rparr>,
             qp_limits := AList.update provider limit (qp_limits ps)\<rparr>))"

definition getProviderRunningCount :: "string \<Rightarrow> queue_pass \<Rightarrow> nat \<times> queue_pass" where
  "getProviderRunningCount provider ps =
     (if provider = [] then (0, ps)
      else case map_of (qp_running ps) provider of
        Some n \<Rightarrow> (n, ps)
      | None \<Rightarrow> (let n = getRunningCountByProvider (JStr provider) (qp_db ps) in
          (n, ps\<lparr>qp_running := AList.update provider n (qp_running ps)\<rparr>)))"

fun shared_running :: "string list \<Rightarrow> queue_pass \<Rightarrow> nat \<times> queue_pass" where
  "shared_running [] ps = (0, ps)"
| "shared_running (p # rest) ps =
     (case getProviderRunningCount p ps of (n, ps1) \<Rightarrow>
        case shared_running rest ps1 of (m, ps2) \<Rightarrow> (n + count_for (qp_recorded ps2) p + m, ps2))"

definition within_capacity :: "int option \<Rightarrow> nat \<Rightarrow> bool" where
  "within_capacity limit active =
     (case limit of None \<Rightarrow> True | Some l \<Rightarrow> if l = 0 then False else \<not> 0 < l \<or> int active < l)"

definition getProviderCapacity :: "queue_env \<Rightarrow> string \<Rightarrow> int \<Rightarrow> queue_pass \<Rightarrow> bool \<times> queue_pass" where
  "getProviderCapacity env provider fallbackLimit ps =
     (let p = js_lower (js_trim provider) in
      case getProviderLimit env p fallbackLimit ps of
        (limit, ps1) \<Rightarrow>
          (case (if p \<in> set GPU_SHARING_PROVIDERS then shared_running GPU_SHARING_PROVIDERS ps1
                 else case getProviderRunningCount p ps1 of (n, ps2) \<Rightarrow> (n + count_for (qp_recorded ps2) p, ps2)) of
             (active, ps3) \<Rightarrow> (within_capacity limit active, ps3)))"

definition recordStart :: "string \<Rightarrow> queue_pass \<Rightarrow> queue_pass" where
  "recordStart provider ps =
     (let p = js_lower (js_trim provider) in
      if p = [] then ps else ps\<lparr>qp_recorded := AList.update p (count_for (qp_recorded ps) p + 1) (qp_recorded ps)\<rparr>)"

section \<open>Starting a task\<close>

definition is_outcome :: "jsval \<Rightarrow> bool" where
  "is_outcome v = (case v of JObj r \<Rightarrow>
       list_ex (obj_has r) [''started'', ''queued'', ''pendingAsync'', ''failed''] | _ \<Rightarrow> False)"

definition normalizeTaskStartOutcome :: "jsval \<Rightarrow> start_outcome" where
  "normalizeTaskStartOutcome result =
     (if is_outcome result
      then \<lparr>so_started = (jget result ''started'' = JBool True), so_queued = (jget result ''queued'' = JBool True),
            so_pending = (jget result ''pendingAsync'' = JBool True), so_failed = (jget result ''failed'' = JBool True),
            so_reason = jget result ''reason''\<rparr>
      else \<lparr>so_started = js_truthy result, so_queued = False, so_pending = False, so_failed = \<not> js_truthy result,
            so_reason = JUndef\<rparr>)"

definition on_pass_db :: "(tdb \<Rightarrow> 'a \<times> tdb) \<Rightarrow> queue_pass \<Rightarrow> 'a \<times> queue_pass" where
  "on_pass_db f ps = (case f (qp_db ps) of (v, d) \<Rightarrow> (v, ps\<lparr>qp_state := set_db d (qp_state ps)\<rparr>))"

definition attemptTaskStart :: "queue_env \<Rightarrow> string \<Rightarrow> string \<Rightarrow> queue_pass \<Rightarrow> start_outcome \<times> queue_pass" where
  "attemptTaskStart env taskId label ps =
     (case on_pass_db (q_start env taskId label) ps of
        (result, ps') \<Rightarrow>
          (let startOutcome = normalizeTaskStartOutcome result in
           (startOutcome, ps'\<lparr>qp_log := qp_log ps' @ [(label, taskId, startOutcome)]\<rparr>)))"

definition queue_update :: "queue_env \<Rightarrow> string \<Rightarrow> jsobj \<Rightarrow> queue_pass \<Rightarrow> bool \<times> queue_pass" where
  "queue_update env taskId updates ps =
     (case on_pass_db (updateTaskStatus (q_now env) taskId ''queued'' updates) ps of
        (Inl e, ps') \<Rightarrow> (False, ps') | (Inr r, ps') \<Rightarrow> (True, ps'))"

definition skip_for_approval :: "queue_env \<Rightarrow> db_row \<Rightarrow> queue_pass \<Rightarrow> bool \<times> queue_pass" where
  "skip_for_approval env task ps =
     (case shouldSkipTaskForApproval env task (qp_state ps) of (skip, s) \<Rightarrow> (skip, ps\<lparr>qp_state := s\<rparr>))"

section \<open>Overflow to other providers\<close>

definition overflow_metadata :: "jsobj \<Rightarrow> jsobj \<Rightarrow> jsval" where
  "overflow_metadata metadata extra =
     JObj (obj_merge metadata ([(''overflow'', JBool True), (''original_provider'', JStr ''codex'')] @ extra))"

definition free_providers :: "queue_env \<Rightarrow> string \<Rightarrow> string \<Rightarrow> string list" where
  "free_providers env complexity taskType = (case q_free_providers env of None \<Rightarrow> [] | Some f \<Rightarrow> f complexity taskType)"

definition task_complexity :: "jsobj \<Rightarrow> jsval" where
  "task_complexity metadata = js_or (obj_get metadata ''complexity'') (JStr ''normal'')"

definition host_idle :: "jsobj \<Rightarrow> bool" where
  "host_idle h = (col h ''status'' = JStr ''healthy'' \<and>
     num_of (js_or (col h ''running_tasks'') (JNum 0)) < num_of (js_or (col h ''max_concurrent'') (JNum 1)))"

text \<open>\<open>a || b || ...\<close> over values; the last is the default.\<close>

fun first_truthy :: "jsval list \<Rightarrow> jsval" where
  "first_truthy [] = JUndef"
| "first_truthy [v] = v"
| "first_truthy (v # w # vs) = (if js_truthy v then v else first_truthy (w # vs))"

definition local_model :: "queue_env \<Rightarrow> string \<Rightarrow> jsval" where
  "local_model env tierName =
     first_truthy [q_value env (''ollama_'' @ tierName @ ''_model''), q_role_model env ''ollama'' tierName,
       q_role_model env ''ollama'' ''default'', resolveOllamaModel env JNull, JStr DEFAULT_FALLBACK_MODEL]"

definition attemptCodexOverflow :: "queue_env \<Rightarrow> db_row \<Rightarrow> queue_pass \<Rightarrow> bool \<times> queue_pass" where
  "attemptCodexOverflow env codexTask ps =
     (let metadata = normalizeMetadata (col codexTask ''metadata''); taskComplexity = task_complexity metadata;
          maxOverflowComplexity = js_or (q_value env ''overflow_max_complexity'') (JStr ''normal'');
          taskId = str_of (col codexTask ''id'');
          complexity = js_string taskComplexity;
          overflowEligible = (taskComplexity = JStr ''simple'' \<or>
            taskComplexity = JStr ''normal'' \<and> maxOverflowComplexity \<noteq> JStr ''simple'') in
      if \<not> js_truthy (getBool (q_config env) ''codex_overflow_to_local'' JUndef) then (False, ps)
      else if selection_locked metadata \<or> \<not> overflowEligible then (False, ps)
      else if list_ex host_idle (q_enabled_hosts env (qp_db ps)) then
        queue_update env taskId
          [(''provider'', JStr ''ollama''), (''model'', local_model env (if taskComplexity = JStr ''simple'' then ''fast'' else ''balanced'')),
           (''metadata'', overflow_metadata metadata []),
           (''_provider_switch_reason'', JStr (''codex -> ollama (codex overflow to local LLM, complexity='' @ complexity @ '')''))] ps
      else
        (let taskType = classifyTaskType env (col codexTask ''task_description'') in
         case free_providers env complexity taskType of
           [] \<Rightarrow> (False, ps)
         | target # _ \<Rightarrow> queue_update env taskId
             [(''provider'', JStr target), (''model'', JNull),
              (''metadata'', overflow_metadata metadata [(''quota_overflow'', JBool True)]),
              (''_provider_switch_reason'', JStr (''codex -> '' @ target @ '' (codex overflow to quota, complexity=''
                @ complexity @ '', taskType='' @ taskType @ '')''))] ps))"

text \<open>One task of the quota overflow; \<open>True\<close> when it was moved.\<close>

definition quota_overflow_one :: "queue_env \<Rightarrow> db_row \<Rightarrow> queue_pass \<Rightarrow> bool \<times> queue_pass" where
  "quota_overflow_one env task ps =
     (let metadata = normalizeMetadata (col task ''metadata'') in
      if js_truthy (col task ''user_provider_override'') \<or> selection_locked metadata then (False, ps)
      else if \<not> js_truthy (obj_get metadata ''smart_routing'') \<and> \<not> js_truthy (obj_get metadata ''auto_routed'') then (False, ps)
      else if task_complexity metadata = JStr ''complex'' then (False, ps)
      else
        (let taskType = classifyTaskType env (col task ''task_description'') in
         case free_providers env ''normal'' taskType of
           [] \<Rightarrow> (False, ps)
         | target # _ \<Rightarrow> queue_update env (str_of (col task ''id''))
             [(''provider'', JStr target), (''model'', JNull),
              (''metadata'', overflow_metadata metadata [(''quota_overflow'', JBool True), (''quota_auto_scale'', JBool True)]),
              (''_provider_switch_reason'', JStr (''codex -> '' @ target @ '' (quota auto-scale, taskType='' @ taskType @ '')''))] ps))"

fun quota_overflow_all :: "queue_env \<Rightarrow> db_row list \<Rightarrow> queue_pass \<Rightarrow> nat \<times> queue_pass" where
  "quota_overflow_all env [] ps = (0, ps)"
| "quota_overflow_all env (t # ts) ps =
     (case quota_overflow_one env t ps of (moved, ps1) \<Rightarrow>
        case quota_overflow_all env ts ps1 of (n, ps2) \<Rightarrow> (if moved then n + 1 else n, ps2))"

definition attemptFreeProviderOverflow :: "queue_env \<Rightarrow> db_row list \<Rightarrow> int \<Rightarrow> int \<Rightarrow> queue_pass \<Rightarrow> nat \<times> queue_pass" where
  "attemptFreeProviderOverflow env pending runningCodexCount maxCodexConcurrent ps =
     (let cooldownSec = num_of (getInt (q_config env) ''quota_cooldown_seconds'' (JNum 60)) in
      if pending = [] \<or> q_free_providers env = None then (0, ps)
      else if \<not> isOptIn (q_config env) ''quota_auto_scale_enabled'' then (0, ps)
      else if maxCodexConcurrent \<le> 0 \<or> runningCodexCount < maxCodexConcurrent then (0, ps)
      else if of_int (q_now env - qs_last_overflow (qp_state ps)) < cooldownSec * 1000 then (0, ps)
      else case quota_overflow_all env (rev pending) ps of
          (n, ps') \<Rightarrow> (n, if 0 < n then ps'\<lparr>qp_state := (qp_state ps')\<lparr>qs_last_overflow := q_now env\<rparr>\<rparr> else ps'))"

section \<open>Ollama tasks\<close>

definition preflight_failed :: "start_outcome \<Rightarrow> bool" where
  "preflight_failed r = (so_failed r \<and> so_reason r = JStr ''preflight_failed'')"

definition fallback_tier :: "jsobj \<Rightarrow> string" where
  "fallback_tier metadata =
     (if task_complexity metadata = JStr ''simple'' then ''fast''
      else if task_complexity metadata = JStr ''normal'' then ''balanced'' else ''quality'')"

text \<open>Whether the task was started. A failed start puts the model back, whatever became of the task.\<close>

definition tryOllamaQueueFallback :: "queue_env \<Rightarrow> db_row \<Rightarrow> jsval \<Rightarrow> queue_pass \<Rightarrow> bool \<times> queue_pass" where
  "tryOllamaQueueFallback env task model ps =
     (let metadata = normalizeMetadata (col task ''metadata''); taskId = str_of (col task ''id'');
          isUserSpecifiedModel = (\<not> js_truthy (obj_get metadata ''smart_routing'') \<and> js_truthy (col task ''model''));
          fallbackModel = q_value env (''ollama_'' @ fallback_tier metadata @ ''_model_fallback'') in
      if isUserSpecifiedModel then (False, ps)
      else if \<not> js_truthy fallbackModel \<or> fallbackModel = model then (False, ps)
      else if asyncPattern (str_of (col task ''task_description'')) then (False, ps)
      else if sel_host (q_select_host env fallbackModel (qp_db ps)) = None then (False, ps)
      else case queue_update env taskId [(''model'', fallbackModel)] ps of
          (False, ps1) \<Rightarrow> (False, ps1)
        | (True, ps1) \<Rightarrow>
            (case attemptTaskStart env taskId ''P71-fallback'' ps1 of
               (startOutcome, ps2) \<Rightarrow>
                 if so_started startOutcome then (True, ps2)
                 else (False, snd (queue_update env taskId [(''model'', model)] ps2))))"

definition ollama_model :: "queue_env \<Rightarrow> db_row \<Rightarrow> jsval" where
  "ollama_model env task =
     (let p = effective_provider task in
      first_truthy [col task ''model'', q_best_model env p, q_role_model env (if p = [] then ''ollama'' else p) ''default'',
        resolveOllamaModel env (col task ''model''), JStr DEFAULT_FALLBACK_MODEL])"

definition ollama_selection :: "queue_env \<Rightarrow> db_row \<Rightarrow> jsval \<Rightarrow> queue_pass \<Rightarrow> host_selection" where
  "ollama_selection env task model ps =
     (let selection = q_select_host env model (qp_db ps) in
      if sel_host selection = None \<and> \<not> js_truthy (col task ''model'') then q_select_host env JNull (qp_db ps) else selection)"

text \<open>The start on the chosen host; \<open>True\<close> when the task needs no fallback.\<close>

definition start_on_host :: "queue_env \<Rightarrow> db_row \<Rightarrow> jsval \<Rightarrow> jsobj \<Rightarrow> queue_pass \<Rightarrow> bool \<times> queue_pass" where
  "start_on_host env task model host ps =
     (let hostRunning = num_of (js_or (col host ''running_tasks'') (JNum 0));
          blocked = (0 < hostRunning \<and> isLargeModelBlockedOnHost env model (col host ''id'') (qp_db ps)) in
      if hostRunning < of_int (q_int env ''max_per_host'' 4) \<and> \<not> blocked then
        (case attemptTaskStart env (str_of (col task ''id'')) ''ollama'' ps of
           (startOutcome, ps1) \<Rightarrow>
             if so_started startOutcome
             then (True, recordStart (effective_provider task) (ps1\<lparr>ollamaStarted := ollamaStarted ps1 + 1\<rparr>))
             else (preflight_failed startOutcome, ps1))
      else (False, ps))"

definition ollama_task :: "queue_env \<Rightarrow> int \<Rightarrow> db_row \<Rightarrow> queue_pass \<Rightarrow> queue_pass" where
  "ollama_task env maxOllamaConcurrent task ps =
     (case getProviderCapacity env (effective_provider task) maxOllamaConcurrent ps of
        (False, ps1) \<Rightarrow> ps1
      | (True, ps1) \<Rightarrow>
          (let model = ollama_model env task; selection = ollama_selection env task model ps1 in
           case (case sel_host selection of None \<Rightarrow> (False, ps1) | Some host \<Rightarrow> start_on_host env task model host ps1) of
             (done, ps2) \<Rightarrow>
               if \<not> done \<and> sel_at_capacity selection then
                 (case tryOllamaQueueFallback env task model ps2 of
                    (started, ps3) \<Rightarrow> if started then ps3\<lparr>ollamaStarted := ollamaStarted ps3 + 1\<rparr> else ps3)
               else ps2))"

fun ollama_loop :: "queue_env \<Rightarrow> int \<Rightarrow> int \<Rightarrow> db_row list \<Rightarrow> queue_pass \<Rightarrow> queue_pass" where
  "ollama_loop env maxOllamaConcurrent runningOllama [] ps = ps"
| "ollama_loop env maxOllamaConcurrent runningOllama (t # ts) ps =
     (case skip_for_approval env t ps of
        (True, ps1) \<Rightarrow> ollama_loop env maxOllamaConcurrent runningOllama ts ps1
      | (False, ps1) \<Rightarrow>
          if maxOllamaConcurrent \<le> runningOllama + int (ollamaStarted ps1) then ps1
          else ollama_loop env maxOllamaConcurrent runningOllama ts (ollama_task env maxOllamaConcurrent t ps1))"

section \<open>Codex tasks\<close>

text \<open>A codex task below the limit of the category; \<open>True\<close> when it is left for the quota overflow.\<close>

definition codex_task :: "queue_env \<Rightarrow> int \<Rightarrow> db_row \<Rightarrow> queue_pass \<Rightarrow> bool \<times> queue_pass" where
  "codex_task env maxCodexConcurrent task ps =
     (case getProviderCapacity env (effective_provider task) maxCodexConcurrent ps of
        (False, ps1) \<Rightarrow> (False, ps1)
      | (True, ps1) \<Rightarrow>
          (case attemptTaskStart env (str_of (col task ''id'')) ''codex'' ps1 of
             (r, ps2) \<Rightarrow>
               if so_started r then (False, recordStart (effective_provider task) (ps2\<lparr>codexStarted := codexStarted ps2 + 1\<rparr>))
               else (\<not> so_pending r \<and> \<not> preflight_failed r \<and> so_reason r \<in> {JStr ''capacity'', JStr ''no_slot''}, ps2)))"

fun codex_loop :: "queue_env \<Rightarrow> int \<Rightarrow> int \<Rightarrow> db_row list \<Rightarrow> queue_pass \<Rightarrow> db_row list \<times> queue_pass" where
  "codex_loop env maxCodexConcurrent runningCodex [] ps = ([], ps)"
| "codex_loop env maxCodexConcurrent runningCodex (t # ts) ps =
     (case skip_for_approval env t ps of
        (True, ps1) \<Rightarrow> codex_loop env maxCodexConcurrent runningCodex ts ps1
      | (False, ps1) \<Rightarrow>
          (case (if maxCodexConcurrent \<le> runningCodex + int (codexStarted ps1)
                 then (case attemptCodexOverflow env t ps1 of (moved, ps2) \<Rightarrow> (\<not> moved, ps2))
                 else codex_task env maxCodexConcurrent t ps1) of
             (left, ps2) \<Rightarrow>
               (case codex_loop env maxCodexConcurrent runningCodex ts ps2 of
                  (pending, ps3) \<Rightarrow> (if left then t # pending else pending, ps3))))"

definition codex_pass :: "queue_env \<Rightarrow> int \<Rightarrow> int \<Rightarrow> bool \<Rightarrow> db_row list \<Rightarrow> queue_pass \<Rightarrow> queue_pass" where
  "codex_pass env maxCodexConcurrent runningCodex codexEnabled ts ps =
     (if \<not> codexEnabled \<or> ts = [] then ps
      else case codex_loop env maxCodexConcurrent runningCodex (prioritizeCodexProjectWork ts) ps of
          (pending, ps1) \<Rightarrow>
            (let runningOrStartedCodex = runningCodex + int (codexStarted ps1) in
             if pending \<noteq> [] \<and> maxCodexConcurrent \<le> runningOrStartedCodex
             then snd (attemptFreeProviderOverflow env pending runningOrStartedCodex maxCodexConcurrent ps1) else ps1))"

section \<open>API tasks\<close>

definition api_task :: "queue_env \<Rightarrow> int \<Rightarrow> db_row \<Rightarrow> queue_pass \<Rightarrow> queue_pass" where
  "api_task env maxApiConcurrent task ps =
     (case getProviderCapacity env (effective_provider task) maxApiConcurrent ps of
        (False, ps1) \<Rightarrow> ps1
      | (True, ps1) \<Rightarrow>
          if \<not> q_has_instance env (effective_provider task) then ps1
          else (case attemptTaskStart env (str_of (col task ''id'')) ''API'' ps1 of
             (r, ps2) \<Rightarrow> if so_started r then recordStart (effective_provider task) (ps2\<lparr>apiStarted := apiStarted ps2 + 1\<rparr>) else ps2))"

fun api_loop :: "queue_env \<Rightarrow> int \<Rightarrow> int \<Rightarrow> db_row list \<Rightarrow> queue_pass \<Rightarrow> queue_pass" where
  "api_loop env maxApiConcurrent runningApi [] ps = ps"
| "api_loop env maxApiConcurrent runningApi (t # ts) ps =
     (case skip_for_approval env t ps of
        (True, ps1) \<Rightarrow> api_loop env maxApiConcurrent runningApi ts ps1
      | (False, ps1) \<Rightarrow>
          if maxApiConcurrent \<le> runningApi + int (apiStarted ps1) then ps1
          else api_loop env maxApiConcurrent runningApi ts (api_task env maxApiConcurrent t ps1))"

section \<open>The scan of the queue when nothing started\<close>

record pass_limits =
  maxOllamaConcurrent :: int
  maxCodexConcurrent :: int
  maxApiConcurrent :: int
  ollamaCount :: int
  codexCount :: int
  apiCount :: int
  codexOn :: bool

definition can_start :: "queue_env \<Rightarrow> pass_limits \<Rightarrow> string \<Rightarrow> queue_pass \<Rightarrow> bool \<times> queue_pass" where
  "can_start env lm provider ps =
     (case getCategory provider of
        None \<Rightarrow> (False, ps)
      | Some category \<Rightarrow>
          if category = ''codex'' then
            (if \<not> codexOn lm then (False, ps)
             else case getProviderCapacity env provider (maxCodexConcurrent lm) ps of
                 (available, ps1) \<Rightarrow> (codexCount lm < maxCodexConcurrent lm \<and> available, ps1))
          else if category = ''ollama'' then
            (case getProviderCapacity env provider (maxOllamaConcurrent lm) ps of
               (available, ps1) \<Rightarrow> (ollamaCount lm < maxOllamaConcurrent lm \<and> available, ps1))
          else if category = ''api'' then
            (case getProviderCapacity env provider (maxApiConcurrent lm) ps of
               (available, ps1) \<Rightarrow> (apiCount lm + int (apiStarted ps1) < maxApiConcurrent lm \<and> available
                 \<and> q_has_instance env provider, ps1))
          else (True, ps))"

fun fallback_loop :: "queue_env \<Rightarrow> pass_limits \<Rightarrow> db_row list \<Rightarrow> queue_pass \<Rightarrow> queue_pass" where
  "fallback_loop env lm [] ps = ps"
| "fallback_loop env lm (t # ts) ps =
     (let provider = str_of (js_or (col t ''provider'') (col t ''_effectiveProvider'')) in
      if provider = [] then fallback_loop env lm ts ps
      else case can_start env lm provider ps of
        (canStart, ps1) \<Rightarrow>
          (case skip_for_approval env t ps1 of
             (skip, ps2) \<Rightarrow>
               if \<not> canStart \<or> skip then fallback_loop env lm ts ps2
               else (case attemptTaskStart env (str_of (col t ''id'')) ''fallback'' ps2 of
                  (r, ps3) \<Rightarrow> if so_started r \<or> so_pending r then ps3 else fallback_loop env lm ts ps3)))"

definition queue_fallback :: "queue_env \<Rightarrow> pass_limits \<Rightarrow> db_row list \<Rightarrow> queue_pass \<Rightarrow> queue_pass" where
  "queue_fallback env lm schedulable ps =
     (if ollamaStarted ps + codexStarted ps + apiStarted ps \<noteq> 0 then ps
      else case getNextQueuedTask (q_scores env) (qp_db ps) of
          None \<Rightarrow> ps
        | Some queueHead \<Rightarrow>
            (let behind = dropWhile (\<lambda>t. col t ''id'' \<noteq> col queueHead ''id'') schedulable in
             fallback_loop env lm (if behind = [] then schedulable else behind) ps))"

section \<open>A pass\<close>

definition pass_limits_of :: "queue_env \<Rightarrow> db_row list \<Rightarrow> pass_limits" where
  "pass_limits_of env runningAll =
     \<lparr>maxOllamaConcurrent = q_int env ''max_ollama_concurrent'' 8, maxCodexConcurrent = q_int env ''max_codex_concurrent'' 6,
      maxApiConcurrent = q_int env ''max_api_concurrent'' 4,
      ollamaCount = int (running_in_category ''ollama'' runningAll), codexCount = int (running_in_category ''codex'' runningAll),
      apiCount = int (running_in_category ''api'' runningAll), codexOn = isOptIn (q_config env) ''codex_enabled''\<rparr>"

definition start_pass :: "queue_state \<Rightarrow> queue_pass" where
  "start_pass s = \<lparr>qp_state = s, qp_limits = [], qp_running = [], qp_recorded = [], ollamaStarted = 0, codexStarted = 0,
     apiStarted = 0, qp_log = []\<rparr>"

definition no_split :: queue_split where
  "no_split = \<lparr>stampedTasks = [], ollamaTasks = [], codexTasks = [], apiTasks = [], invalidTasks = []\<rparr>"

text \<open>The scan reads the same objects as the loops, with their stamps.\<close>

definition with_stamps :: "db_row list \<Rightarrow> db_row list \<Rightarrow> db_row list" where
  "with_stamps stamped rows =
     map (\<lambda>t. case List.find (\<lambda>r. col r ''id'' = col t ''id'') stamped of None \<Rightarrow> t | Some r \<Rightarrow> r) rows"

text \<open>From the categories on: \<open>runnable\<close> are the schedulable tasks that do not wait for a file lock.\<close>

definition assign_queue :: "queue_env \<Rightarrow> db_row list \<Rightarrow> db_row list \<Rightarrow> queue_state \<Rightarrow> queue_pass" where
  "assign_queue env runningAll schedulable s =
     (let lm = pass_limits_of env runningAll;
          runnable = filter (\<lambda>t. \<not> shouldSkipTaskForFileLockWait (of_int (q_now env)) t) schedulable in
      if runnable = [] then start_pass s
      else case categorizeQueuedTasks env (codexOn lm) runnable no_split s of
          (split, s1) \<Rightarrow>
            (let s2 = fold (\<lambda>t. failQueuedTask env (unknown_provider t) t) (invalidTasks split) s1;
                 ps1 = ollama_loop env (maxOllamaConcurrent lm) (ollamaCount lm) (ollamaTasks split) (start_pass s2);
                 ps2 = codex_pass env (maxCodexConcurrent lm) (codexCount lm) (codexOn lm) (codexTasks split) ps1;
                 ps3 = api_loop env (maxApiConcurrent lm) (apiCount lm) (apiTasks split) ps2 in
             queue_fallback env lm (with_stamps (stampedTasks split) schedulable) ps3))"

definition expire_queued :: "queue_env \<Rightarrow> tdb \<Rightarrow> tdb" where
  "expire_queued env d =
     (let queueTtlMinutes = q_int env ''queue_task_ttl_minutes'' 0 in
      if queueTtlMinutes \<le> 0 then d
      else fold (\<lambda>i d. snd (updateTaskStatus (q_now env) i ''failed'' [(''error_output'', JStr ''Expired: exceeded queue TTL'')] d))
             (getExpiredQueuedTasks (Some (q_now env - queueTtlMinutes * 60000)) d) d)"

definition SUPERSEDED_MESSAGE :: string where
  "SUPERSEDED_MESSAGE = ''Queued factory task cancelled because newer same-project work superseded it.''"

text \<open>The filters on the queue: work that is disabled, paused or superseded leaves it.\<close>

definition filter_queue :: "queue_env \<Rightarrow> db_row list \<Rightarrow> tdb \<Rightarrow> db_row list \<times> tdb" where
  "filter_queue env runningAll d =
     (let projects = sl_projects (q_slots env);
          enabled = filterFactoryProjectWorkDisabledTasks (q_config env) (sl_platform (q_slots env)) projects (queue_rows d) in
      case filterPausedFactoryProjectTasks (q_now env) projects enabled d of
        ((unpaused, parked), d1) \<Rightarrow>
          (let schedulable = filterSupersededFactoryInternalTasks unpaused
                 (runningAll @ loadRecentFactorySupersessionSignals 500 unpaused d1);
               retained = filter js_truthy (map (\<lambda>t. col t ''id'') schedulable);
               d2 = snd (cancelFilteredQueuedFactoryTasks (q_now env) unpaused retained
                 ''superseded_factory_internal'' SUPERSEDED_MESSAGE d1) in
           (schedulable, d2)))"

definition legacy_pass :: "queue_env \<Rightarrow> queue_state \<Rightarrow> start_call list \<times> queue_state" where
  "legacy_pass env s =
     (let d1 = expire_queued env (snd (promotePendingRestartResubmissions (q_now env) (qs_db s))) in
      if getEffectiveGlobalMaxConcurrent (q_config env) \<le> int (getRunningCount d1) then ([], set_db d1 s)
      else if sl_config (q_slots env) ''resource_gating_enabled'' = JStr ''1'' \<and> q_under_pressure env then ([], set_db d1 s)
      else if queue_rows d1 = [] then ([], set_db d1 s)
      else
        (let runningAll = list_by_status ''running'' 200 d1 in
         case filter_queue env runningAll d1 of
           (schedulable, d2) \<Rightarrow>
             if schedulable = [] then ([], set_db d2 s)
             else (let ps = assign_queue env runningAll schedulable (set_db d2 s) in (qp_log ps, qp_state ps))))"

text \<open>
  \<open>guarded_call\<close>: called neither by the queue-changed event nor with \<open>skipRecentProcessGuard\<close>. The result
  lists the calls of \<open>attemptTaskStart\<close> in a legacy pass.
\<close>

definition processQueueInternal :: "queue_env \<Rightarrow> bool \<Rightarrow> queue_state \<Rightarrow> start_call list \<times> queue_state" where
  "processQueueInternal env guarded_call s =
     (if isRestartBarrierActive (sl_restart_pending (q_slots env)) (qs_db s) \<noteq> None then ([], s)
      else if q_disk_paused env then ([], s)
      else if js_or (sl_config (q_slots env) ''scheduling_mode'') (JStr ''legacy'') = JStr ''slot-pull''
      then ([], s\<lparr>qs_slots := onSlotFreed (q_slots env) (qs_slots s)\<rparr>)
      else if guarded_call \<and> q_now env - qs_last_process s < 100 then ([], s)
      else
        (let s1 = (if guarded_call then s\<lparr>qs_last_process := q_now env\<rparr> else s) in
         if q_stopped env then ([], s1) else legacy_pass env s1))"

section \<open>Tasks left in codex-pending\<close>

definition pending_target :: "bool \<Rightarrow> jsobj \<Rightarrow> jsval option" where
  "pending_target codexEnabled meta =
     (let intendedProvider = js_or (obj_get meta ''intended_provider'') JNull;
          hasExplicitIntent = (js_truthy (obj_get meta ''user_provider_override'') \<or> js_truthy (obj_get meta ''_routing_template'')) in
      if hasExplicitIntent \<and> js_truthy intendedProvider then Some intendedProvider
      else if codexEnabled then Some (JStr ''codex'') else None)"

definition resolve_pending :: "queue_env \<Rightarrow> db_row \<Rightarrow> tdb \<Rightarrow> tdb" where
  "resolve_pending env task d =
     (let taskId = str_of (col task ''id'');
          unavailable = (\<lambda>target. ''[codex-pending] Target provider '' @ [CHR 0x27] @ js_string target @ [CHR 0x27]
            @ '' is not available. Task was stuck in codex-pending state with no producer path.'');
          fail = (\<lambda>message. snd (updateTaskStatus (q_now env) taskId ''failed''
            [(''error_output'', JStr message), (''completed_at'', iso (q_now env))] d)) in
      case pending_target (isOptIn (q_config env) ''codex_enabled'') (normalizeMetadata (col task ''metadata'')) of
        None \<Rightarrow> fail (''[codex-pending] Codex is disabled and no intended_provider was set. ''
                  @ ''Task was stuck in codex-pending state with no producer path.'')
      | Some target \<Rightarrow>
          (case getProvider (sl_providers (q_slots env)) (str_of target) of
             Some config \<Rightarrow>
               if js_truthy (col config ''enabled'')
               then snd (updateTaskStatus (q_now env) taskId ''queued'' [(''provider'', target)] d)
               else fail (unavailable target)
           | None \<Rightarrow> fail (unavailable target)))"

definition resolveCodexPendingTasks :: "queue_env \<Rightarrow> tdb \<Rightarrow> tdb" where
  "resolveCodexPendingTasks env d =
     fold (resolve_pending env) (filter (\<lambda>t. col t ''provider'' = JStr ''codex-pending'') (list_by_status ''queued'' 100 d)) d"

end
