(* ===== verification/Queue_Claims.thy ===== *)
theory Queue_Claims
  imports Queue_Scheduler Slot_Claims "HOL-Library.Multiset"
begin

text \<open>
  The calls of \<open>startTask\<close> a pass of the legacy queue scheduler makes. \<open>lane_new\<close> says what a lane (one of
  the three categories) may add to the log of calls: its own labels, no task twice under a label, no
  task started twice, and no call once the category is full. \<open>added\<close> says it of a part of a pass;
  the parts compose by \<open>added_trans\<close>. A pending call (the normal outcome, since \<open>startTask\<close> is
  asynchronous) is logged but not counted by the pass, as in the code.
\<close>

section \<open>Calls\<close>

definition call_task :: "start_call \<Rightarrow> string" where
  "call_task c = fst (snd c)"

definition call_started :: "start_call \<Rightarrow> bool" where
  "call_started c = so_started (snd (snd c))"

definition call_begun :: "start_call \<Rightarrow> bool" where
  "call_begun c = (so_started (snd (snd c)) \<or> so_pending (snd (snd c)))"

definition calls_as :: "string list \<Rightarrow> start_call list \<Rightarrow> start_call list" where
  "calls_as labels calls = filter (\<lambda>c. fst c \<in> set labels) calls"

definition starts :: "start_call list \<Rightarrow> nat" where
  "starts calls = length (filter call_started calls)"

text \<open>Every call is made while the running tasks and the starts before it leave room under the limit.\<close>

fun below_limit :: "int \<Rightarrow> int \<Rightarrow> start_call list \<Rightarrow> bool" where
  "below_limit limit already [] = True"
| "below_limit limit already (c # cs) =
     (already < limit \<and> below_limit limit (if call_started c then already + 1 else already) cs)"

lemma call_simps [simp]:
  "call_task (k, i, r) = i" "call_started (k, i, r) = so_started r" "call_begun (k, i, r) = (so_started r \<or> so_pending r)"
  by (simp_all add: call_task_def call_started_def call_begun_def)

lemma calls_as_simps [simp]:
  "calls_as ls [] = []" "calls_as ls (c # cs) = (if fst c \<in> set ls then c # calls_as ls cs else calls_as ls cs)"
  "calls_as ls (xs @ ys) = calls_as ls xs @ calls_as ls ys"
  by (simp_all add: calls_as_def)

lemma starts_simps [simp]:
  "starts [] = 0" "starts (c # cs) = (if call_started c then Suc (starts cs) else starts cs)"
  "starts (xs @ ys) = starts xs + starts ys"
  by (simp_all add: starts_def)

lemma no_starts: "starts xs = 0 \<Longrightarrow> filter call_started xs = []" "starts xs = 0 \<Longrightarrow> c \<in> set xs \<Longrightarrow> \<not> call_started c"
  by (auto simp: starts_def filter_empty_conv)

lemma below_limit_append [simp]:
  "below_limit mx n (xs @ ys) = (below_limit mx n xs \<and> below_limit mx (n + int (starts xs)) ys)"
  by (induction xs arbitrary: n) (auto simp: algebra_simps)

lemma below_limit_starts: "below_limit mx n cs \<Longrightarrow> int (starts cs) \<le> max 0 (mx - n)"
  by (induction cs arbitrary: n) (fastforce split: if_splits)+

section \<open>What a pass calls\<close>

definition start_counters :: "queue_pass \<Rightarrow> nat \<times> nat \<times> nat" where
  "start_counters ps = (ollamaStarted ps, codexStarted ps, apiStarted ps)"

definition same_log :: "queue_pass \<Rightarrow> queue_pass \<Rightarrow> bool" where
  "same_log ps ps' \<longleftrightarrow> qp_log ps' = qp_log ps \<and> start_counters ps' = start_counters ps"

definition task_key :: "db_row \<Rightarrow> string" where
  "task_key t = str_of (col t ''id'')"

datatype lane = Ollama_lane | Codex_lane | Api_lane

fun bump :: "lane \<Rightarrow> nat \<Rightarrow> nat \<times> nat \<times> nat \<Rightarrow> nat \<times> nat \<times> nat" where
  "bump Ollama_lane n (i, j, k) = (i + n, j, k)"
| "bump Codex_lane n (i, j, k) = (i, j + n, k)"
| "bump Api_lane n (i, j, k) = (i, j, k + n)"

fun lane_count :: "lane \<Rightarrow> nat \<times> nat \<times> nat \<Rightarrow> nat" where
  "lane_count Ollama_lane (i, j, k) = i"
| "lane_count Codex_lane (i, j, k) = j"
| "lane_count Api_lane (i, j, k) = k"

fun lane_labels :: "lane \<Rightarrow> string list" where
  "lane_labels Ollama_lane = [''ollama'', ''P71-fallback'']"
| "lane_labels Codex_lane = [''codex'']"
| "lane_labels Api_lane = [''API'']"

definition lane_new :: "lane \<Rightarrow> int \<Rightarrow> int \<Rightarrow> string list \<Rightarrow> start_call list \<Rightarrow> bool" where
  "lane_new l mx n ids new \<longleftrightarrow> fst ` set new \<subseteq> set (lane_labels l) \<and> below_limit mx n new \<and>
     (\<forall>k. mset (map call_task (calls_as [k] new)) \<subseteq># mset ids) \<and>
     mset (map call_task (filter call_started new)) \<subseteq># mset ids"

definition added :: "lane \<Rightarrow> int \<Rightarrow> int \<Rightarrow> string list \<Rightarrow> queue_pass \<Rightarrow> queue_pass \<Rightarrow> bool" where
  "added l mx n ids ps ps' \<longleftrightarrow> (\<exists>new. qp_log ps' = qp_log ps @ new \<and>
     start_counters ps' = bump l (starts new) (start_counters ps) \<and>
     lane_new l mx (n + int (lane_count l (start_counters ps))) ids new)"

lemma bump_bump [simp]: "bump l m (bump l n c) = bump l (n + m) c"
  by (cases l; cases c) simp_all

lemma bump_0 [simp]: "bump l 0 c = c"
  by (cases l; cases c) simp_all

lemma lane_count_bump [simp]: "lane_count l (bump l n c) = lane_count l c + n"
  by (cases l; cases c) simp_all

lemma same_log_refl [simp, intro]: "same_log ps ps"
  by (simp add: same_log_def)

lemma same_log_trans: "same_log a b \<Longrightarrow> same_log b c \<Longrightarrow> same_log a c"
  by (simp add: same_log_def)

lemma same_added: "same_log ps ps' \<Longrightarrow> added l mx n ids ps ps'"
  by (auto simp: added_def same_log_def lane_new_def intro!: exI [of _ "[]"])

lemma added_after: "same_log a b \<Longrightarrow> added l mx n ids b c \<Longrightarrow> added l mx n ids a c"
  by (simp add: added_def same_log_def)

lemma added_then: "added l mx n ids a b \<Longrightarrow> same_log b c \<Longrightarrow> added l mx n ids a c"
  by (auto simp: added_def same_log_def)

lemma lane_new_append:
  assumes "lane_new l mx n is xs" and "lane_new l mx (n + int (starts xs)) js ys"
  shows "lane_new l mx n (is @ js) (xs @ ys)"
  using assms by (simp add: lane_new_def subset_mset.add_mono image_Un)

lemma added_trans:
  assumes "added l mx n is a b" and "added l mx n js b c"
  shows "added l mx n (is @ js) a c"
proof -
  obtain x y where "qp_log b = qp_log a @ x" "start_counters b = bump l (starts x) (start_counters a)"
      "lane_new l mx (n + int (lane_count l (start_counters a))) is x"
      "qp_log c = qp_log b @ y" "start_counters c = bump l (starts y) (start_counters b)"
      "lane_new l mx (n + int (lane_count l (start_counters b))) js y"
    using assms by (auto simp: added_def)
  then show ?thesis unfolding added_def
    by (intro exI [of _ "x @ y"]) (simp add: lane_new_append add.assoc)
qed

lemma added_more: "added l mx n is a b \<Longrightarrow> mset is \<subseteq># mset js \<Longrightarrow> added l mx n js a b"
  unfolding added_def lane_new_def by (meson subset_mset.order_trans)

subsection \<open>The parts that start nothing\<close>

lemma on_pass_db_log: "same_log ps (snd (on_pass_db f ps))"
  by (auto simp: on_pass_db_def same_log_def start_counters_def split: prod.split)

lemma queue_update_log: "same_log ps (snd (queue_update env i us ps))"
  using on_pass_db_log [of ps "updateTaskStatus (q_now env) i ''queued'' us"]
  by (auto simp: queue_update_def split: prod.split sum.split)

lemma skip_log: "same_log ps (snd (skip_for_approval env t ps))"
  by (auto simp: skip_for_approval_def same_log_def start_counters_def split: prod.split)

lemma limit_log: "same_log ps (snd (getProviderLimit env p n ps))"
  by (auto simp: getProviderLimit_def same_log_def start_counters_def Let_def split: option.split)

lemma running_log: "same_log ps (snd (getProviderRunningCount p ps))"
  by (auto simp: getProviderRunningCount_def same_log_def start_counters_def Let_def split: option.split)

lemma shared_log: "same_log ps (snd (shared_running qs ps))"
proof (induction qs arbitrary: ps)
  case (Cons q qs)
  obtain n ps1 where 1: "getProviderRunningCount q ps = (n, ps1)" by (cases "getProviderRunningCount q ps")
  obtain m ps2 where 2: "shared_running qs ps1 = (m, ps2)" by (cases "shared_running qs ps1")
  show ?case using running_log [of ps q] Cons.IH [of ps1] by (auto simp: 1 2 intro: same_log_trans)
qed simp

lemma capacity_log: "same_log ps (snd (getProviderCapacity env p n ps))"
proof -
  let ?p = "js_lower (js_trim p)"
  obtain lim ps1 where 1: "getProviderLimit env ?p n ps = (lim, ps1)" by (cases "getProviderLimit env ?p n ps")
  have s1: "same_log ps ps1" using limit_log [of ps env ?p n] by (simp add: 1)
  show ?thesis using s1 shared_log [of ps1 GPU_SHARING_PROVIDERS] running_log [of ps1 ?p]
    by (auto simp: getProviderCapacity_def Let_def 1 split: prod.split intro: same_log_trans)
qed

lemma record_log [simp]: "qp_log (recordStart p ps) = qp_log ps" "start_counters (recordStart p ps) = start_counters ps"
  by (simp_all add: recordStart_def start_counters_def Let_def)

lemma attempt_log:
  assumes "attemptTaskStart env i label ps = (r, ps')"
  shows "start_counters ps' = start_counters ps" "qp_log ps' = qp_log ps @ [(label, i, r)]"
  using assms on_pass_db_log [of ps "q_start env i label"]
  by (auto simp: attemptTaskStart_def same_log_def start_counters_def Let_def split: prod.splits)

lemma overflow_log: "same_log ps (snd (attemptCodexOverflow env t ps))"
  by (auto simp: attemptCodexOverflow_def Let_def queue_update_log split: list.split)

lemma quota_one_log: "same_log ps (snd (quota_overflow_one env t ps))"
  by (auto simp: quota_overflow_one_def Let_def queue_update_log split: list.split)

lemma quota_all_log: "same_log ps (snd (quota_overflow_all env ts ps))"
proof (induction ts arbitrary: ps)
  case (Cons t ts)
  obtain b ps1 where 1: "quota_overflow_one env t ps = (b, ps1)" by (cases "quota_overflow_one env t ps")
  show ?case using quota_one_log [of ps env t] Cons.IH [of ps1]
    by (auto simp: 1 split: prod.split intro: same_log_trans)
qed simp

lemma free_overflow_log: "same_log ps (snd (attemptFreeProviderOverflow env ts n m ps))"
proof -
  have "same_log ps (snd (quota_overflow_all env (rev ts) ps))" by (rule quota_all_log)
  then show ?thesis
    by (auto simp: attemptFreeProviderOverflow_def same_log_def start_counters_def Let_def split: prod.split)
qed

lemma can_start_log: "same_log ps (snd (can_start env lm p ps))"
  by (auto simp: can_start_def split: option.split prod.split)
    (metis capacity_log snd_conv)+

subsection \<open>The lanes\<close>

lemma counted [simp]:
  "start_counters (ps\<lparr>ollamaStarted := Suc (ollamaStarted ps)\<rparr>) = bump Ollama_lane (Suc 0) (start_counters ps)"
  "start_counters (ps\<lparr>codexStarted := Suc (codexStarted ps)\<rparr>) = bump Codex_lane (Suc 0) (start_counters ps)"
  "start_counters (ps\<lparr>apiStarted := Suc (apiStarted ps)\<rparr>) = bump Api_lane (Suc 0) (start_counters ps)"
  by (simp_all add: start_counters_def)

lemma one_call:
  assumes "qp_log ps' = qp_log ps @ [(k, i, r)]" and "start_counters ps' = bump l (if so_started r then Suc 0 else 0) (start_counters ps)"
    and "k \<in> set (lane_labels l)" and "n + int (lane_count l (start_counters ps)) < mx"
  shows "added l mx n [i] ps ps'"
  unfolding added_def using assms by (intro exI [of _ "[(k, i, r)]"]) (simp add: lane_new_def)

text \<open>An ollama task is called at most once for its host and at most once as a fallback.\<close>

definition at_most_one :: "string \<Rightarrow> string \<Rightarrow> start_call list \<Rightarrow> bool" where
  "at_most_one k i new \<longleftrightarrow> new = [] \<or> (\<exists>r. new = [(k, i, r)])"

lemma start_on_host_log:
  assumes "start_on_host env t model host ps = (done, ps')"
  obtains new where "qp_log ps' = qp_log ps @ new" "start_counters ps' = bump Ollama_lane (starts new) (start_counters ps)"
    "at_most_one ''ollama'' (task_key t) new" "\<not> done \<Longrightarrow> starts new = 0"
proof -
  obtain r ps1 where r: "attemptTaskStart env (task_key t) ''ollama'' ps = (r, ps1)"
    by (cases "attemptTaskStart env (task_key t) ''ollama'' ps")
  have cases: "ps' = ps \<and> \<not> done \<or> so_started r \<and> done \<and> ps' = recordStart (effective_provider t) (ps1\<lparr>ollamaStarted := Suc (ollamaStarted ps1)\<rparr>)
      \<or> \<not> so_started r \<and> ps' = ps1"
    using assms r by (auto simp: start_on_host_def Let_def task_key_def [symmetric] split: if_splits)
  show ?thesis
  proof (cases "ps' = ps \<and> \<not> done")
    case True
    then show ?thesis by (intro that [of "[]"]) (simp_all add: at_most_one_def)
  next
    case False
    with cases show ?thesis
      by (intro that [of "[(''ollama'', task_key t, r)]"]) (auto simp: at_most_one_def attempt_log [OF r])
  qed
qed

lemma fallback_log:
  assumes "tryOllamaQueueFallback env t model ps = (started, ps')"
  obtains new where "qp_log ps' = qp_log ps @ new" "start_counters ps' = start_counters ps"
    "at_most_one ''P71-fallback'' (task_key t) new" "starts new = (if started then 1 else 0)"
proof -
  define ps1 where "ps1 = snd (queue_update env (task_key t) [(''model'', q_value env (''ollama_'' @
     fallback_tier (normalizeMetadata (col t ''metadata'')) @ ''_model_fallback''))] ps)"
  have s1: "same_log ps ps1" unfolding ps1_def by (rule queue_update_log)
  obtain r ps2 where r: "attemptTaskStart env (task_key t) ''P71-fallback'' ps1 = (r, ps2)"
    by (cases "attemptTaskStart env (task_key t) ''P71-fallback'' ps1")
  define ps3 where "ps3 = snd (queue_update env (task_key t) [(''model'', model)] ps2)"
  have s3: "same_log ps2 ps3" unfolding ps3_def by (rule queue_update_log)
  have "\<not> started \<and> (ps' = ps \<or> ps' = ps1) \<or> started = so_started r \<and> (ps' = ps2 \<or> ps' = ps3)"
    using assms r
    by (auto simp: tryOllamaQueueFallback_def Let_def task_key_def [symmetric] ps1_def [symmetric] ps3_def
        split: if_splits prod.splits bool.splits) (auto simp: ps1_def)
  then show ?thesis
  proof
    assume "\<not> started \<and> (ps' = ps \<or> ps' = ps1)"
    then show ?thesis using s1 by (intro that [of "[]"]) (auto simp: at_most_one_def same_log_def)
  next
    assume "started = so_started r \<and> (ps' = ps2 \<or> ps' = ps3)"
    then show ?thesis using s1 s3 attempt_log [OF r]
      by (intro that [of "[(''P71-fallback'', task_key t, r)]"]) (auto simp: at_most_one_def same_log_def)
  qed
qed

lemma ollama_calls:
  assumes "at_most_one ''ollama'' i xs" and "at_most_one ''P71-fallback'' i ys" and "ys = [] \<or> starts xs = 0" and "n < mx"
  shows "lane_new Ollama_lane mx n [i] (xs @ ys)"
  using assms by (auto simp: lane_new_def at_most_one_def)

lemma ollama_task_log:
  assumes "n + int (ollamaStarted ps) < mx"
  shows "added Ollama_lane mx n [task_key t] ps (ollama_task env mx t ps)"
proof -
  obtain b ps1 where cap: "getProviderCapacity env (effective_provider t) mx ps = (b, ps1)"
    by (cases "getProviderCapacity env (effective_provider t) mx ps")
  have s1: "same_log ps ps1" using capacity_log [of ps env "effective_provider t" mx] by (simp add: cap)
  let ?m = "ollama_model env t"
  define sel where "sel = ollama_selection env t ?m ps1"
  obtain dn ps2 where host: "(case sel_host sel of None \<Rightarrow> (False, ps1) | Some h \<Rightarrow> start_on_host env t ?m h ps1) = (dn, ps2)"
    by (cases "case sel_host sel of None \<Rightarrow> (False, ps1) | Some h \<Rightarrow> start_on_host env t ?m h ps1")
  obtain xs where xs: "qp_log ps2 = qp_log ps1 @ xs" "start_counters ps2 = bump Ollama_lane (starts xs) (start_counters ps1)"
      "at_most_one ''ollama'' (task_key t) xs" "\<not> dn \<Longrightarrow> starts xs = 0"
  proof (cases "sel_host sel")
    case None
    then show ?thesis using host by (intro that [of "[]"]) (simp_all add: at_most_one_def)
  next
    case (Some h)
    then have "start_on_host env t ?m h ps1 = (dn, ps2)" using host by simp
    then show ?thesis by (rule start_on_host_log) (rule that)
  qed
  obtain st ps3 where fb: "tryOllamaQueueFallback env t ?m ps2 = (st, ps3)" by (cases "tryOllamaQueueFallback env t ?m ps2")
  obtain ys where ys: "qp_log ps3 = qp_log ps2 @ ys" "start_counters ps3 = start_counters ps2"
      "at_most_one ''P71-fallback'' (task_key t) ys" "starts ys = (if st then 1 else 0)" using fallback_log [OF fb] by blast
  have room: "n + int (lane_count Ollama_lane (start_counters ps1)) < mx"
    using assms s1 by (simp add: same_log_def start_counters_def)
  have host_only: "added Ollama_lane mx n [task_key t] ps1 ps2" unfolding added_def
    using xs ollama_calls [OF xs(3), of "[]"] room by (intro exI [of _ xs]) (simp add: at_most_one_def)
  have both: "added Ollama_lane mx n [task_key t] ps1 (if st then ps3\<lparr>ollamaStarted := ollamaStarted ps3 + 1\<rparr> else ps3)" if "\<not> dn"
    unfolding added_def using xs ys ollama_calls [OF xs(3) ys(3) _ room] that by (intro exI [of _ "xs @ ys"]) simp
  show ?thesis
    by (rule added_after [OF s1])
      (use host_only both in \<open>auto simp: ollama_task_def cap Let_def sel_def [symmetric] host fb intro: same_added split: bool.split\<close>)
qed

lemma ollama_loop_log: "added Ollama_lane mx n (map task_key ts) ps (ollama_loop env mx n ts ps)"
proof (induction ts arbitrary: ps)
  case (Cons t ts)
  obtain b ps1 where skip: "skip_for_approval env t ps = (b, ps1)" by (cases "skip_for_approval env t ps")
  have s1: "same_log ps ps1" using skip_log [of ps env t] by (simp add: skip)
  show ?case
  proof (cases "b \<or> mx \<le> n + int (ollamaStarted ps1)")
    case True
    then show ?thesis using added_more [OF added_after [OF s1 Cons.IH]] s1
      by (auto simp: skip intro: same_added split: bool.split)
  next
    case False
    then show ?thesis
      using added_after [OF s1 added_trans [OF ollama_task_log Cons.IH]] by (simp add: skip)
  qed
qed (simp add: same_added)

lemma codex_task_log:
  assumes "n + int (codexStarted ps) < mx"
  shows "added Codex_lane mx n [task_key t] ps (snd (codex_task env mx t ps))"
proof -
  obtain b ps1 where cap: "getProviderCapacity env (effective_provider t) mx ps = (b, ps1)"
    by (cases "getProviderCapacity env (effective_provider t) mx ps")
  have s1: "same_log ps ps1" using capacity_log [of ps env "effective_provider t" mx] by (simp add: cap)
  then have room: "n + int (lane_count Codex_lane (start_counters ps1)) < mx"
    using assms by (simp add: same_log_def start_counters_def)
  obtain r ps2 where r: "attemptTaskStart env (task_key t) ''codex'' ps1 = (r, ps2)"
    by (cases "attemptTaskStart env (task_key t) ''codex'' ps1")
  show ?thesis
  proof (rule added_after [OF s1], cases b)
    case True
    then show "added Codex_lane mx n [task_key t] ps1 (snd (codex_task env mx t ps))"
      by (intro one_call [where k = "''codex''" and r = r, OF _ _ _ room])
        (auto simp: codex_task_def cap task_key_def [symmetric] r attempt_log [OF r])
  qed (simp add: codex_task_def cap same_added)
qed

text \<open>One round of the codex loop: a start below the limit, or a move to another provider.\<close>

definition codex_round :: "queue_env \<Rightarrow> int \<Rightarrow> int \<Rightarrow> db_row \<Rightarrow> queue_pass \<Rightarrow> bool \<times> queue_pass" where
  "codex_round env mx n t ps =
     (if mx \<le> n + int (codexStarted ps) then (case attemptCodexOverflow env t ps of (moved, ps2) \<Rightarrow> (\<not> moved, ps2))
      else codex_task env mx t ps)"

lemma codex_round_log: "added Codex_lane mx n [task_key t] ps (snd (codex_round env mx n t ps))"
  using overflow_log [of ps env t] codex_task_log [of n ps mx t env]
  by (auto simp: codex_round_def intro: same_added split: prod.split)

lemma codex_loop_Cons:
  "snd (codex_loop env mx n (t # ts) ps) =
     (case skip_for_approval env t ps of
        (True, ps1) \<Rightarrow> snd (codex_loop env mx n ts ps1)
      | (False, ps1) \<Rightarrow> snd (codex_loop env mx n ts (snd (codex_round env mx n t ps1))))"
proof -
  obtain b ps1 where skip: "skip_for_approval env t ps = (b, ps1)" by (cases "skip_for_approval env t ps")
  obtain left ps2 where round: "codex_round env mx n t ps1 = (left, ps2)" by (cases "codex_round env mx n t ps1")
  obtain pending ps3 where rest: "codex_loop env mx n ts ps2 = (pending, ps3)" by (cases "codex_loop env mx n ts ps2")
  show ?thesis by (cases b) (simp_all add: skip codex_round_def [symmetric] round rest)
qed

lemma codex_loop_log: "added Codex_lane mx n (map task_key ts) ps (snd (codex_loop env mx n ts ps))"
proof (induction ts arbitrary: ps)
  case (Cons t ts)
  obtain b ps1 where skip: "skip_for_approval env t ps = (b, ps1)" by (cases "skip_for_approval env t ps")
  have s1: "same_log ps ps1" using skip_log [of ps env t] by (simp add: skip)
  show ?case
  proof (cases b)
    case True
    have "added Codex_lane mx n (map task_key (t # ts)) ps (snd (codex_loop env mx n ts ps1))"
      by (rule added_more [OF added_after [OF s1 Cons.IH]]) simp
    with True show ?thesis by (simp add: codex_loop_Cons skip del: codex_loop.simps)
  next
    case False
    then show ?thesis using added_after [OF s1 added_trans [OF codex_round_log Cons.IH]]
      by (simp add: codex_loop_Cons skip del: codex_loop.simps)
  qed
qed (simp add: same_added)

lemma codex_pass_log: "added Codex_lane mx n (map task_key ts) ps (codex_pass env mx n on ts ps)"
proof -
  let ?order = "prioritizeCodexProjectWork ts"
  obtain pending ps1 where loop: "codex_loop env mx n ?order ps = (pending, ps1)" by (cases "codex_loop env mx n ?order ps")
  have "mset (map task_key ?order) = mset (map task_key ts)" by (simp add: prioritizeCodexProjectWork_def)
  then have lane: "added Codex_lane mx n (map task_key ts) ps ps1"
    by (intro added_more [OF codex_loop_log [of mx n ?order ps env, unfolded loop snd_conv]]) simp
  define k where "k = n + int (codexStarted ps1)"
  define ps2 where "ps2 = snd (attemptFreeProviderOverflow env pending k mx ps1)"
  have free: "same_log ps1 ps2" unfolding ps2_def by (rule free_overflow_log)
  have "codex_pass env mx n on ts ps = (if \<not> on \<or> ts = [] then ps else if pending \<noteq> [] \<and> mx \<le> k then ps2 else ps1)"
    by (simp add: codex_pass_def loop Let_def k_def ps2_def)
  then show ?thesis using lane added_then [OF lane free] by (simp add: same_added)
qed

lemma api_task_log:
  assumes "n + int (apiStarted ps) < mx"
  shows "added Api_lane mx n [task_key t] ps (api_task env mx t ps)"
proof -
  obtain b ps1 where cap: "getProviderCapacity env (effective_provider t) mx ps = (b, ps1)"
    by (cases "getProviderCapacity env (effective_provider t) mx ps")
  have s1: "same_log ps ps1" using capacity_log [of ps env "effective_provider t" mx] by (simp add: cap)
  then have room: "n + int (lane_count Api_lane (start_counters ps1)) < mx"
    using assms by (simp add: same_log_def start_counters_def)
  obtain r ps2 where r: "attemptTaskStart env (task_key t) ''API'' ps1 = (r, ps2)"
    by (cases "attemptTaskStart env (task_key t) ''API'' ps1")
  show ?thesis
  proof (rule added_after [OF s1], cases "b \<and> q_has_instance env (effective_provider t)")
    case True
    then show "added Api_lane mx n [task_key t] ps1 (api_task env mx t ps)"
      by (intro one_call [where k = "''API''" and r = r, OF _ _ _ room])
        (auto simp: api_task_def cap task_key_def [symmetric] r attempt_log [OF r])
  next
    case False
    then show "added Api_lane mx n [task_key t] ps1 (api_task env mx t ps)"
      by (intro same_added) (cases b; simp add: api_task_def cap)
  qed
qed

lemma api_loop_log: "added Api_lane mx n (map task_key ts) ps (api_loop env mx n ts ps)"
proof (induction ts arbitrary: ps)
  case (Cons t ts)
  obtain b ps1 where skip: "skip_for_approval env t ps = (b, ps1)" by (cases "skip_for_approval env t ps")
  have s1: "same_log ps ps1" using skip_log [of ps env t] by (simp add: skip)
  show ?case
  proof (cases "b \<or> mx \<le> n + int (apiStarted ps1)")
    case True
    then show ?thesis using added_more [OF added_after [OF s1 Cons.IH]] s1
      by (auto simp: skip intro: same_added split: bool.split)
  next
    case False
    then show ?thesis
      using added_after [OF s1 added_trans [OF api_task_log Cons.IH]] by (simp add: skip)
  qed
qed (simp add: same_added)

text \<open>The scan of the queue: its own label, each task at most once, and it ends with the first call that is
  not refused.\<close>

definition scan_new :: "string list \<Rightarrow> start_call list \<Rightarrow> bool" where
  "scan_new ids new \<longleftrightarrow> list_all (\<lambda>c. fst c = ''fallback'') new \<and> mset (map call_task new) \<subseteq># mset ids \<and>
     list_all (\<lambda>c. \<not> call_begun c) (butlast new)"

lemma scan_new_more: "scan_new is new \<Longrightarrow> mset is \<subseteq># mset js \<Longrightarrow> scan_new js new"
  unfolding scan_new_def by (meson subset_mset.order_trans)

lemma scan_new_Cons: "scan_new ids new \<Longrightarrow> \<not> call_begun (''fallback'', i, r) \<Longrightarrow> scan_new (i # ids) ((''fallback'', i, r) # new)"
  by (auto simp: scan_new_def)

lemma fallback_loop_log:
  "\<exists>new. qp_log (fallback_loop env lm ts ps) = qp_log ps @ new \<and> start_counters (fallback_loop env lm ts ps) = start_counters ps \<and>
     scan_new (map task_key ts) new"
proof (induction ts arbitrary: ps)
  case (Cons t ts)
  define p where "p = str_of (js_or (col t ''provider'') (col t ''_effectiveProvider''))"
  obtain c ps1 where can: "can_start env lm p ps = (c, ps1)" by (cases "can_start env lm p ps")
  obtain b ps2 where skip: "skip_for_approval env t ps1 = (b, ps2)" by (cases "skip_for_approval env t ps1")
  obtain r ps3 where r: "attemptTaskStart env (task_key t) ''fallback'' ps2 = (r, ps3)"
    by (cases "attemptTaskStart env (task_key t) ''fallback'' ps2")
  have "same_log ps ps1" using can_start_log [of ps env lm p] by (simp add: can)
  moreover have "same_log ps1 ps2" using skip_log [of ps1 env t] by (simp add: skip)
  ultimately have s2: "same_log ps ps2" by (rule same_log_trans)
  have step: "fallback_loop env lm (t # ts) ps =
      (if p = [] then fallback_loop env lm ts ps else if \<not> c \<or> b then fallback_loop env lm ts ps2
       else if so_started r \<or> so_pending r then ps3 else fallback_loop env lm ts ps3)"
    by (simp add: p_def [symmetric] Let_def can skip r task_key_def [symmetric])
  have skipped: ?case if "fallback_loop env lm (t # ts) ps = fallback_loop env lm ts ps'" "same_log ps ps'" for ps'
  proof -
    from Cons.IH [of ps'] obtain new where "qp_log (fallback_loop env lm ts ps') = qp_log ps' @ new"
      "start_counters (fallback_loop env lm ts ps') = start_counters ps'" "scan_new (map task_key ts) new" by blast
    moreover from this(3) have "scan_new (map task_key (t # ts)) new" by (rule scan_new_more) simp
    ultimately show ?thesis unfolding that(1) using that(2) by (intro exI [of _ new]) (simp add: same_log_def)
  qed
  show ?case
  proof (cases "p \<noteq> [] \<and> c \<and> \<not> b")
    case False
    then show ?thesis using skipped [of ps] skipped [of ps2] s2 unfolding step by (auto split: if_splits)
  next
    case True
    from Cons.IH [of ps3] obtain new where new: "qp_log (fallback_loop env lm ts ps3) = qp_log ps3 @ new"
      "start_counters (fallback_loop env lm ts ps3) = start_counters ps3" "scan_new (map task_key ts) new" by blast
    let ?more = "if so_started r \<or> so_pending r then [] else new"
    have "scan_new (map task_key (t # ts)) ((''fallback'', task_key t, r) # ?more)"
      using scan_new_Cons [OF new(3)] by (simp add: scan_new_def)
    then show ?thesis using True new attempt_log [OF r] s2 unfolding step
      by (intro exI [of _ "(''fallback'', task_key t, r) # ?more"]) (simp add: same_log_def)
  qed
qed (simp add: scan_new_def)

lemma queue_fallback_log:
  "\<exists>new. qp_log (queue_fallback env lm ts ps) = qp_log ps @ new \<and> (new = [] \<or> start_counters ps = (0, 0, 0)) \<and>
     scan_new (map task_key ts) new"
proof -
  define d where "d = (case getNextQueuedTask (q_scores env) (qp_db ps) of None \<Rightarrow> []
    | Some h \<Rightarrow> (let behind = dropWhile (\<lambda>t. col t ''id'' \<noteq> col h ''id'') ts in if behind = [] then ts else behind))"
  have "mset (map task_key (dropWhile P ts)) \<subseteq># mset (map task_key ts)" for P
    by (metis map_append mset_append mset_subset_eq_add_right takeWhile_dropWhile_id)
  then have part: "mset (map task_key d) \<subseteq># mset (map task_key ts)" by (simp add: d_def Let_def split: option.split)
  have result: "queue_fallback env lm ts ps = (if start_counters ps = (0, 0, 0) then fallback_loop env lm d ps else ps)"
    by (auto simp: queue_fallback_def d_def start_counters_def Let_def split: option.split)
  obtain new where "qp_log (fallback_loop env lm d ps) = qp_log ps @ new" "scan_new (map task_key d) new"
    using fallback_loop_log [of env lm d ps] by blast
  with scan_new_more [OF this(2) part] show ?thesis unfolding result
    by (cases "start_counters ps = (0, 0, 0)") (auto simp: scan_new_def)
qed

section \<open>The categories\<close>

definition split_keys :: "queue_split \<Rightarrow> string multiset" where
  "split_keys q = mset (map task_key (ollamaTasks q @ codexTasks q @ apiTasks q))"

lemma no_split_keys: "split_keys no_split = {#}"
  by (simp add: split_keys_def no_split_def)

lemma stamp_key [simp]: "task_key (obj_set ''_effectiveProvider'' v t) = task_key t"
  by (simp add: task_key_def col_def obj_set_def update_conv')

lemma add_to_split_keys: "split_keys (add_to_split on p t q) \<subseteq># add_mset (task_key t) (split_keys q)"
  by (auto simp: add_to_split_def split_keys_def Let_def split: option.split)

lemma categorize_keys:
  "split_keys (fst (categorizeQueuedTasks env on ts q s)) \<subseteq># split_keys q + mset (map task_key ts)"
proof (induction ts arbitrary: q s)
  case (Cons t ts)
  let ?t = "\<lambda>p. obj_set ''_effectiveProvider'' (JStr p) t"
  obtain p s' where bind: "bind_provider env t s = (p, s')" by (cases "bind_provider env t s")
  define q' where "q' = add_to_split on p (?t p) (q\<lparr>stampedTasks := stampedTasks q @ [?t p]\<rparr>)"
  have "split_keys q' \<subseteq># add_mset (task_key t) (split_keys q)"
    using add_to_split_keys [of on p "?t p" "q\<lparr>stampedTasks := stampedTasks q @ [?t p]\<rparr>"]
    by (simp add: q'_def split_keys_def)
  then have "split_keys q' + mset (map task_key ts) \<subseteq># split_keys q + mset (map task_key (t # ts))"
    by (simp add: subset_mset.add_mono)
  then show ?case
    using Cons.IH [of q' s'] Cons.IH [of q s] subset_mset.order_trans
    by (auto simp: bind Let_def q'_def [symmetric] intro: subset_mset.order_trans)
qed simp

lemma with_stamps_keys [simp]: "map task_key (with_stamps stamped rows) = map task_key rows"
  by (auto simp: with_stamps_def task_key_def find_Some_iff split: option.split)

section \<open>The limits of a pass\<close>

lemma distinct_part:
  assumes "mset xs \<subseteq># mset ys" and "distinct ys"
  shows "distinct xs"
  unfolding distinct_count_atmost_1
proof
  fix a
  have "count (mset ys) a = (if a \<in> set ys then 1 else 0)"
    using assms(2) unfolding distinct_count_atmost_1 by (rule spec)
  then have "count (mset ys) a \<le> 1" by (simp only: split: if_splits) simp_all
  with mset_subset_eq_count [OF assms(1), of a] have "count (mset xs) a \<le> 1" by (rule order_trans)
  moreover have "count (mset xs) a = 0 \<longleftrightarrow> a \<notin> set xs" by (simp add: count_eq_zero_iff)
  ultimately show "count (mset xs) a = (if a \<in> set xs then 1 else 0)" by (auto simp: le_Suc_eq)
qed

lemma lane_calls:
  assumes "fst ` set new \<subseteq> set (lane_labels l)"
  shows "calls_as (lane_labels k) new = (if k = l then new else [])" "calls_as [''fallback''] new = []"
  using assms by (cases k; cases l; auto simp: calls_as_def filter_id_conv filter_empty_conv)+

lemma scan_calls:
  assumes "scan_new ids new"
  shows "calls_as ls new = (if ''fallback'' \<in> set ls then new else [])"
  using assms by (auto simp: calls_as_def scan_new_def list_all_iff filter_id_conv filter_empty_conv)

text \<open>The three lanes one after the other, then the scan.\<close>

lemma pass_log:
  assumes "added Ollama_lane mo no is ps0 ps1" and "added Codex_lane mc nc js ps1 ps2" and "added Api_lane ma na ks ps2 ps3"
    and "qp_log ps0 = []" and "start_counters ps0 = (0, 0, 0)"
    and "qp_log ps4 = qp_log ps3 @ w" and "w = [] \<or> start_counters ps3 = (0, 0, 0)" and "scan_new ids w"
    and "mset (is @ js @ ks) \<subseteq># mset ids" and "distinct ids"
  shows "below_limit mo no (calls_as [''ollama'', ''P71-fallback''] (qp_log ps4))" (is ?O)
    "below_limit mc nc (calls_as [''codex''] (qp_log ps4))" (is ?C)
    "below_limit ma na (calls_as [''API''] (qp_log ps4))" (is ?A)
    "calls_as [''fallback''] (qp_log ps4) \<noteq> [] \<Longrightarrow> \<not> list_ex call_started (butlast (qp_log ps4))" (is "_ \<Longrightarrow> ?F")
    "list_all (\<lambda>c. \<not> call_begun c) (butlast (calls_as [''fallback''] (qp_log ps4)))" (is ?B)
    "distinct (map call_task (calls_as [label] (qp_log ps4)))" (is ?L)
    "distinct (map call_task (filter call_started (qp_log ps4)))" (is ?S)
    "call_task ` set (qp_log ps4) \<subseteq> set ids" (is ?I)
proof -
  obtain x y z where x: "qp_log ps1 = x" "start_counters ps1 = (starts x, 0, 0)" "lane_new Ollama_lane mo no is x"
    and y: "qp_log ps2 = x @ y" "start_counters ps2 = (starts x, starts y, 0)" "lane_new Codex_lane mc nc js y"
    and z: "qp_log ps3 = x @ y @ z" "start_counters ps3 = (starts x, starts y, starts z)" "lane_new Api_lane ma na ks z"
    using assms(1-5) by (auto simp: added_def)
  have log: "qp_log ps4 = x @ y @ z @ w" using assms(6) z(1) by simp
  have labels: "fst ` set x \<subseteq> set (lane_labels Ollama_lane)" "fst ` set y \<subseteq> set (lane_labels Codex_lane)"
      "fst ` set z \<subseteq> set (lane_labels Api_lane)" using x(3) y(3) z(3) by (simp_all add: lane_new_def)
  note lanes = lane_calls(1) [OF labels(1)] lane_calls(1) [OF labels(2)] lane_calls(1) [OF labels(3)]
  note scans = lane_calls(2) [OF labels(1)] lane_calls(2) [OF labels(2)] lane_calls(2) [OF labels(3)]
  note last = scan_calls [OF assms(8)]
  show ?O using lanes [of Ollama_lane] x(3) by (simp add: log last lane_new_def)
  show ?C using lanes [of Codex_lane] y(3) by (simp add: log last lane_new_def)
  show ?A using lanes [of Api_lane] z(3) by (simp add: log last lane_new_def)
  have scan: "calls_as [''fallback''] (qp_log ps4) = w" using scans by (simp add: log last)
  show ?B unfolding scan using assms(8) by (simp add: scan_new_def)
  have none: "starts (x @ y @ z) = 0" if "w \<noteq> []" using that assms(7) z(2) by simp
  show ?F if "calls_as [''fallback''] (qp_log ps4) \<noteq> []"
  proof -
    have w: "w \<noteq> []" using that scan by simp
    then have split: "set (butlast (qp_log ps4)) = set (x @ y @ z) \<union> set (butlast w)" by (auto simp: log butlast_append)
    have "\<not> call_started c" if "c \<in> set (butlast w)" for c
      using that assms(8) by (auto simp: scan_new_def list_all_iff call_begun_def call_started_def)
    then show ?thesis using no_starts(2) [OF none [OF w]] unfolding list_ex_iff split by blast
  qed
  have w: "mset (map call_task w) \<subseteq># mset ids" using assms(8) by (simp add: scan_new_def)
  have parts: "mset (map call_task (calls_as [k] (x @ y @ z))) \<subseteq># mset ids"
      "mset (map call_task (filter call_started (x @ y @ z))) \<subseteq># mset ids" for k
    using x(3) y(3) z(3) assms(9) by (simp_all add: lane_new_def) (meson subset_mset.add_mono subset_mset.order_trans)+
  show ?L
  proof (cases "label = ''fallback''")
    case True
    then show ?thesis using scan distinct_part [OF w assms(10)] by simp
  next
    case False
    then have "calls_as [label] w = []" using last [of "[label]"] by simp
    then show ?thesis using distinct_part [OF parts(1) assms(10)] by (simp add: log)
  qed
  show ?S
  proof (cases "w = []")
    case True
    then show ?thesis using distinct_part [OF parts(2) assms(10)] by (simp add: log)
  next
    case False
    then have "filter call_started (qp_log ps4) = filter call_started w"
      using no_starts(1) [OF none] by (simp add: log)
    moreover have "distinct (map call_task w)" by (rule distinct_part [OF w assms(10)])
    ultimately show ?thesis by (simp add: distinct_map_filter)
  qed
  show ?I
  proof (rule image_subsetI)
    fix c assume "c \<in> set (qp_log ps4)"
    then have "c \<in> set (calls_as [fst c] (x @ y @ z)) \<or> c \<in> set w" by (auto simp: log calls_as_def)
    then show "call_task c \<in> set ids"
      using set_mset_mono [OF parts(1) [of "fst c"]] set_mset_mono [OF w] by auto
  qed
qed

text \<open>The listing has no descriptions, so the test for asynchronous code sees an empty text.\<close>

lemma queue_rows_no_description:
  assumes "t \<in> set (queue_rows d)"
  shows "col t ''task_description'' = JNull" "\<not> asyncPattern (str_of (col t ''task_description''))"
proof -
  obtain r where "t = filter (\<lambda>(c, _). c \<in> set LIGHTWEIGHT_COLUMNS) r" using assms by (auto simp: queue_rows_def)
  then have "''task_description'' \<notin> fst ` set t" by (auto simp: LIGHTWEIGHT_COLUMNS_def)
  then show "col t ''task_description'' = JNull" by (simp add: col_def map_of_eq_None_iff [THEN iffD2])
  then show "\<not> asyncPattern (str_of (col t ''task_description''))" by (simp add: str_of_def asyncPattern_def js_lower_def)
qed

section \<open>Property\<close>


definition queue_sample :: queue_env where
  "queue_sample = \<lparr>q_slots = slot_sample\<lparr>sl_config := (\<lambda>k. if k = ''codex_enabled'' \<or> k = ''max_codex_concurrent'' then JStr ''1'' else JNull)\<rparr>,
     q_stopped = False, q_disk_paused = False, q_under_pressure = False, q_route = (\<lambda>_. None), q_best_model = (\<lambda>_. JNull),
     q_role_model = (\<lambda>_ _. JNull), q_select_host = (\<lambda>_ _. \<lparr>sel_host = Some [(''id'', JStr ''h'')], sel_at_capacity = False\<rparr>),
     q_enabled_hosts = (\<lambda>_. []),
     q_start = (\<lambda>i label d. (JObj [(''started'', JBool False), (''queued'', JBool False), (''pendingAsync'', JBool True)],
       write_cols i [(''status'', JStr ''running'')] d)),
     q_has_instance = (\<lambda>_. True), q_free_providers = None, q_type_patterns = [], q_scores = (\<lambda>_. None)\<rparr>"

definition queue_task :: "string \<Rightarrow> string \<Rightarrow> db_row" where
  "queue_task i p = [(''id'', JStr i), (''status'', JStr ''queued''), (''created_at'', JNum 1), (''provider'', JStr p)]"

definition queue_start :: queue_state where
  "queue_start = \<lparr>qs_slots = slot_start\<lparr>sl_db := sample_db\<lparr>tasks := [queue_task ''a'' ''codex'', queue_task ''b'' ''Codex '', queue_task ''c'' ''ollama'']\<rparr>\<rparr>,
     qs_rules = [], qs_requests = [], qs_limit_cache = [], qs_limit_cache_at = 0, qs_last_process = 0, qs_last_overflow = 0\<rparr>"

definition stamped_task :: "string \<Rightarrow> string \<Rightarrow> db_row" where
  "stamped_task i p = queue_task i p @ [(''_effectiveProvider'', JStr ''codex'')]"

lemma sample_split:
  "categorizeQueuedTasks queue_sample True [queue_task ''a'' ''codex'', queue_task ''b'' ''Codex ''] no_split queue_start =
   (no_split\<lparr>stampedTasks := [stamped_task ''a'' ''codex'', stamped_task ''b'' ''Codex ''],
      codexTasks := [stamped_task ''a'' ''codex'', stamped_task ''b'' ''Codex '']\<rparr>, queue_start)"
  by code_simp

definition pending_outcome :: start_outcome where
  "pending_outcome = \<lparr>so_started = False, so_queued = False, so_pending = True, so_failed = False, so_reason = JUndef\<rparr>"

definition sample_pass :: queue_pass where
  "sample_pass = codex_pass queue_sample 1 0 True [stamped_task ''a'' ''codex'', stamped_task ''b'' ''Codex ''] (start_pass queue_start)"

lemma sample_scan:
  "qp_log (queue_fallback queue_sample (pass_limits_of queue_sample [])
      (with_stamps [stamped_task ''a'' ''codex'', stamped_task ''b'' ''Codex ''] [queue_task ''a'' ''codex'', queue_task ''b'' ''Codex '']) sample_pass)
    = [(''codex'', ''a'', pending_outcome), (''codex'', ''b'', pending_outcome), (''fallback'', ''a'', pending_outcome)]"
  by code_simp

lemma no_split_fields:
  "ollamaTasks no_split = []" "apiTasks no_split = []" "invalidTasks no_split = []"
  by (simp_all add: no_split_def)

lemma queue_sample_log: "qp_log (assign_queue queue_sample [] [queue_task ''a'' ''codex'', queue_task ''b'' ''Codex ''] queue_start) =
    [(''codex'', ''a'', pending_outcome), (''codex'', ''b'', pending_outcome), (''fallback'', ''a'', pending_outcome)]"
proof -
  let ?q = "[queue_task ''a'' ''codex'', queue_task ''b'' ''Codex '']"
  have "filter (\<lambda>t. \<not> shouldSkipTaskForFileLockWait (of_int (q_now queue_sample)) t) ?q = ?q" by code_simp
  moreover have "maxCodexConcurrent (pass_limits_of queue_sample []) = 1" "codexCount (pass_limits_of queue_sample []) = 0" "codexOn (pass_limits_of queue_sample []) = True" by code_simp+
  ultimately show ?thesis
    by (simp add: assign_queue_def sample_split Let_def no_split_fields sample_pass_def [symmetric] sample_scan
        del: categorizeQueuedTasks.simps filter.simps)
qed


end
