(* ===== verification/Factory_Claims.thy ===== *)
theory Factory_Claims
  imports Factory_Queue
begin

text \<open>
  Cancelling superseded factory work loses no project: a chain of superseding tasks ends in one that
  survives. \<open>rank\<close> grows along a chain of queued tasks: the time of creation first, and among tasks of
  one instant maintenance work comes before plan signals and these before execution tasks.
\<close>

section \<open>The rank of a task\<close>

definition time_key :: "jsnum \<Rightarrow> bool \<times> rat" where
  "time_key t = (case t of Fin q \<Rightarrow> (True, q) | _ \<Rightarrow> (False, 0))"

definition signal_level :: "db_row \<Rightarrow> nat" where
  "signal_level t = (if isFactoryProjectExecutionSignal t then 2 else if isFactoryPlanSignal t then 1 else 0)"

definition rank :: "db_row \<Rightarrow> (bool \<times> rat) \<times> nat" where
  "rank t = (time_key (getTaskCreatedAtMs t), signal_level t)"

lemma created_at_cases: obtains q where "getTaskCreatedAtMs t = Fin q" | "getTaskCreatedAtMs t = NegInf"
  by (cases "col t ''created_at''") (auto simp: getTaskCreatedAtMs_def)

lemma num_less_time:
  "num_less (getTaskCreatedAtMs a) (getTaskCreatedAtMs b) \<longleftrightarrow> time_key (getTaskCreatedAtMs a) < time_key (getTaskCreatedAtMs b)"
  by (cases rule: created_at_cases [of a]; cases rule: created_at_cases [of b]) (auto simp: time_key_def)

lemma maintenance_level: "isFactoryMaintenanceTask t \<Longrightarrow> \<not> isFactoryPlanSignal t \<Longrightarrow> signal_level t = 0"
  by (simp add: signal_level_def isFactoryMaintenanceTask_def isFactoryProjectExecutionSignal_def)

lemma kind_sets_disjoint:
  "kind_in t FACTORY_ARCHITECT_MAINTENANCE_KINDS \<Longrightarrow> \<not> kind_in t FACTORY_PLAN_SIGNAL_KINDS"
  "kind_in t FACTORY_REPLAN_MAINTENANCE_KINDS \<Longrightarrow> \<not> kind_in t FACTORY_PLAN_SIGNAL_KINDS"
  by (auto simp: kind_in_def FACTORY_ARCHITECT_MAINTENANCE_KINDS_def FACTORY_REPLAN_MAINTENANCE_KINDS_def
      FACTORY_PLAN_SIGNAL_KINDS_def split: option.splits)

text \<open>What a superseding signal looks like.\<close>

lemma superseding_cases:
  assumes "isFactoryMaintenanceTask t" and "isSupersedingFactorySignal t s"
  shows "getFactoryProjectId s = getFactoryProjectId t"
    and "lower_status s \<in> set FACTORY_SUPERSEDED_BY_PLAN_STATUSES"
    and "lower_status s \<noteq> ''running'' \<Longrightarrow> rank t < rank s"
proof -
  show "getFactoryProjectId s = getFactoryProjectId t" using assms(2)
    by (simp add: isSupersedingFactorySignal_def Let_def split: if_splits)
  have active: "x \<in> set FACTORY_SUPERSEDED_BY_ACTIVE_STATUSES \<Longrightarrow> x \<in> set FACTORY_SUPERSEDED_BY_PLAN_STATUSES" for x
    by (auto simp: FACTORY_SUPERSEDED_BY_ACTIVE_STATUSES_def FACTORY_SUPERSEDED_BY_PLAN_STATUSES_def)
  show "lower_status s \<in> set FACTORY_SUPERSEDED_BY_PLAN_STATUSES" using assms(2) active
    by (auto simp: isSupersedingFactorySignal_def isActiveFactoryMaintenanceTask_def Let_def split: if_splits)
  have no_exec: "\<not> isFactoryProjectExecutionSignal t"
    using assms(1) by (simp add: isFactoryMaintenanceTask_def isFactoryProjectExecutionSignal_def)
  show "rank t < rank s" if "lower_status s \<noteq> ''running''"
  proof (cases "isActiveFactoryMaintenanceTask s \<and> getFactoryKind s = getFactoryKind t")
    case True
    then show ?thesis using assms(2) that
      by (simp add: isSupersedingFactorySignal_def Let_def rank_def num_less_time split: if_splits)
  next
    case False
    then have late: "time_key (getTaskCreatedAtMs t) \<le> time_key (getTaskCreatedAtMs s)"
      and kind: "isFactoryProjectExecutionSignal s \<or> isFactoryPlanSignal s \<and>
        (kind_in t FACTORY_ARCHITECT_MAINTENANCE_KINDS \<or> kind_in t FACTORY_REPLAN_MAINTENANCE_KINDS)"
      using assms(2) by (auto simp: isSupersedingFactorySignal_def Let_def num_less_time split: if_splits)
    have "signal_level t < signal_level s"
      using kind no_exec kind_sets_disjoint [of t] by (auto simp: signal_level_def isFactoryPlanSignal_def)
    with late show ?thesis by (auto simp: rank_def)
  qed
qed

section \<open>Property\<close>

text \<open>C35: Cancelling superseded maintenance work leaves every project work to go on with: for each queued
  task that is filtered out there is a task of the same project, pending, queued, waiting, running or
  a finished plan, that stays: it is kept in the queue, or it is one of the active signals and not
  itself a superseded queued task.\<close>

theorem superseded_work_survives:
  assumes "list_all (\<lambda>t. lower_status t = ''queued'') queuedTasks"
    and "t \<in> set queuedTasks" and "t \<notin> set (filterSupersededFactoryInternalTasks queuedTasks activeSignals)"
  shows "\<exists>s \<in> set (queuedTasks @ activeSignals). getFactoryProjectId s = getFactoryProjectId t \<and>
    lower_status s \<in> set FACTORY_SUPERSEDED_BY_PLAN_STATUSES \<and>
    (s \<in> set (filterSupersededFactoryInternalTasks queuedTasks activeSignals) \<or> s \<in> set activeSignals \<and>
      (lower_status s \<noteq> ''queued'' \<or> \<not> superseded (filter is_signal (queuedTasks @ activeSignals)) s))"
proof -
  define signals where "signals = filter is_signal (queuedTasks @ activeSignals)"
  define better where "better = (\<lambda>a b. b \<in> set signals \<and> isFactoryMaintenanceTask a \<and> isSupersedingFactorySignal a b)"
  have t: "superseded signals t" using assms(2,3) by (auto simp: filterSupersededFactoryInternalTasks_def signals_def)
  define chain where "chain = {s. better\<^sup>+\<^sup>+ t s}"
  have chain_signals: "chain \<subseteq> set signals" by (auto simp: chain_def better_def elim: tranclp.cases)
  then have fin: "finite chain" by (rule finite_subset) simp
  have project: "getFactoryProjectId s = getFactoryProjectId t \<and> lower_status s \<in> set FACTORY_SUPERSEDED_BY_PLAN_STATUSES"
    if "s \<in> chain" for s
    using that unfolding chain_def mem_Collect_eq
    by (induction rule: tranclp_induct) (auto simp: better_def superseding_cases)
  have next_link: "\<exists>s' \<in> chain. better s s'" if "s \<in> chain" "superseded signals s" for s
    using that by (auto simp: superseded_def list_ex_iff better_def chain_def intro: tranclp.trancl_into_trancl)
  obtain s1 where "better t s1" using t by (auto simp: superseded_def list_ex_iff better_def)
  then have "chain \<noteq> {}" by (auto simp: chain_def)
  have "\<exists>s \<in> chain. lower_status s \<noteq> ''queued'' \<or> \<not> superseded signals s"
  proof (rule ccontr)
    assume no: "\<not> ?thesis"
    have "Max (rank ` chain) \<in> rank ` chain" using fin \<open>chain \<noteq> {}\<close> by (intro Max_in) auto
    then obtain s where s: "s \<in> chain" "rank s = Max (rank ` chain)" by auto
    then obtain s' where s': "s' \<in> chain" "better s s'" using next_link no by blast
    then have "rank s < rank s'" using superseding_cases(3) [of s s'] no by (auto simp: better_def)
    moreover have "rank s' \<le> rank s" using s' s fin by (simp add: Max_ge)
    ultimately show False by simp
  qed
  then obtain s where s: "s \<in> chain" "lower_status s \<noteq> ''queued'' \<or> \<not> superseded signals s" by blast
  with chain_signals have "s \<in> set (queuedTasks @ activeSignals)" by (auto simp: signals_def)
  moreover have "lower_status s = ''queued''" if "s \<in> set queuedTasks" using assms(1) that by (simp add: list_all_iff)
  ultimately show ?thesis using project [OF s(1)] s(2)
    by (intro bexI [of _ s]) (auto simp: filterSupersededFactoryInternalTasks_def signals_def)
qed

definition factory_task :: "string \<Rightarrow> string \<Rightarrow> rat \<Rightarrow> db_row" where
  "factory_task i kind created = [(''id'', JStr i), (''status'', JStr ''queued''), (''created_at'', JNum created),
     (''tags'', JArr [JStr ''factory:internal'', JStr (''factory:'' @ kind), JStr ''factory:project_id=p''])]"

theorem superseded_work_survives_witness:
  "list_ex (\<lambda>s. getFactoryProjectId s = Some ''p'' \<and>
     s \<in> set (filterSupersededFactoryInternalTasks [factory_task ''a'' ''architect_cycle'' 1, factory_task ''b'' ''plan_generation'' 1] []))
   [factory_task ''a'' ''architect_cycle'' 1, factory_task ''b'' ''plan_generation'' 1]"
proof -
  let ?q = "[factory_task ''a'' ''architect_cycle'' 1, factory_task ''b'' ''plan_generation'' 1]"
  have "list_all (\<lambda>t. lower_status t = ''queued'') ?q" by code_simp
  moreover have "getFactoryProjectId (factory_task ''a'' ''architect_cycle'' 1) = Some ''p''" by code_simp
  moreover have "factory_task ''a'' ''architect_cycle'' 1 \<notin> set (filterSupersededFactoryInternalTasks ?q [])" by code_simp
  ultimately show ?thesis
    using superseded_work_survives [of ?q "factory_task ''a'' ''architect_cycle'' 1" "[]"] by (simp add: list_ex_iff)
qed

end
