(* ===== verification/Quota_Tracker.thy ===== *)
theory Quota_Tracker
  imports Condition_Eval "HOL-Library.Product_Lexorder"
begin

text \<open>
  The quotas of the free providers, the class \<open>FreeQuotaTracker\<close> of \<open>server/free-quota-tracker.js\<close>: requests and
  tokens per minute and per day, cooldowns after a rate limit, a ring of latencies, and the ranking of
  the providers that may take a request. The queue scheduler asks it before it moves a Codex task away.

  State: \<open>quota_tracker\<close>, the two Maps of the class (an entry is a JavaScript object with the field names of
  the code) and the calls of the database module that stores daily snapshots. A call reads the clock
  once; the code reads it several times within one turn. Scores and averages are exact. A date is the
  number of its day. What a snapshot throws is caught and only logged.
\<close>

section \<open>State\<close>

definition MINUTE_WINDOW_MS :: rat where
  "MINUTE_WINDOW_MS = 60 * 1000"

definition DAILY_WINDOW_MS :: rat where
  "DAILY_WINDOW_MS = 24 * 60 * 60 * 1000"

definition DEFAULT_BACKOFF_SECONDS :: "rat list" where
  "DEFAULT_BACKOFF_SECONDS = [30, 60, 120, 300]"

definition LATENCY_RING_SIZE :: nat where
  "LATENCY_RING_SIZE = 10"

definition DEFAULT_LATENCY_MS :: rat where
  "DEFAULT_LATENCY_MS = 5000"

record latency_ring =
  ring :: "rat list"
  ring_index :: nat
  ring_count :: nat

record quota_snapshot =
  snap_provider :: string
  snap_date :: jsval
  snap_requests :: jsval
  snap_tokens :: jsval
  snap_latency :: rat

record quota_tracker =
  quotas :: "(string \<times> jsobj) list"
  rings :: "(string \<times> latency_ring) list"
  has_db :: bool
  daily_snapshots :: "quota_snapshot list"

definition normalizeLimit :: "jsval \<Rightarrow> jsval" where
  "normalizeLimit v = (if is_nullish v then JNull else case js_number v of Fin q \<Rightarrow> JNum q | _ \<Rightarrow> JNull)"

definition hasReachedLimit :: "jsval \<Rightarrow> jsval \<Rightarrow> bool" where
  "hasReachedLimit used limit = (case limit of JNum l \<Rightarrow> 0 < l \<and> l \<le> num_of used | _ \<Rightarrow> False)"

definition estimateTokenNeed :: "jsval \<Rightarrow> rat" where
  "estimateTokenNeed descriptionLength =
     (case descriptionLength of
        JNum n \<Rightarrow>
          if n \<le> 0 then 500
          else (let inputTokens = of_int (ceiling (n / 4)); estimatedOutput = inputTokens * 2 in
                of_int (ceiling ((inputTokens + estimatedOutput) * (5 / 2) :: rat)))
      | _ \<Rightarrow> 500)"

text \<open>The loop of the constructor.\<close>

definition new_entry :: "int \<Rightarrow> jsval \<Rightarrow> jsobj" where
  "new_entry now limit =
     [(''rpm_limit'', normalizeLimit (jget limit ''rpm_limit'')),
      (''rpd_limit'', normalizeLimit (jget limit ''rpd_limit'')),
      (''tpm_limit'', normalizeLimit (jget limit ''tpm_limit'')),
      (''tpd_limit'', normalizeLimit (jget limit ''tpd_limit'')),
      (''daily_reset_hour'', normalizeLimit (jget limit ''daily_reset_hour'')),
      (''daily_reset_tz'', js_coalesce (jget limit ''daily_reset_tz'') (JStr ''UTC'')),
      (''minute_requests'', JNum 0), (''minute_tokens'', JNum 0),
      (''minute_resets_at'', JNum (of_int now + MINUTE_WINDOW_MS)),
      (''daily_requests'', JNum 0), (''daily_tokens'', JNum 0),
      (''daily_resets_at'', JNum (of_int now + DAILY_WINDOW_MS)),
      (''cooldown_until'', JNull), (''backoff_step'', JNum 0)]"

fun add_limits :: "int \<Rightarrow> jsval list \<Rightarrow> quota_tracker \<Rightarrow> quota_tracker" where
  "add_limits now [] t = t"
| "add_limits now (limit # limits) t =
     add_limits now limits
       (if js_truthy (jget limit ''provider'')
        then t\<lparr>quotas := AList.update (str_of (jget limit ''provider'')) (new_entry now limit) (quotas t),
               rings := AList.update (str_of (jget limit ''provider''))
                 \<lparr>ring = replicate LATENCY_RING_SIZE 0, ring_index = 0, ring_count = 0\<rparr> (rings t)\<rparr>
        else t)"

definition new_tracker :: "int \<Rightarrow> jsval list \<Rightarrow> quota_tracker" where
  "new_tracker now limits = add_limits now limits \<lparr>quotas = [], rings = [], has_db = False, daily_snapshots = []\<rparr>"

definition attach_db :: "bool \<Rightarrow> quota_tracker \<Rightarrow> quota_tracker" where
  "attach_db dbModule t = t\<lparr>has_db := dbModule\<rparr>"

definition entry :: "string \<Rightarrow> quota_tracker \<Rightarrow> jsobj option" where
  "entry provider t = map_of (quotas t) provider"

definition write_entry :: "string \<Rightarrow> (string \<times> jsval) list \<Rightarrow> quota_tracker \<Rightarrow> quota_tracker" where
  "write_entry provider updates t =
     t\<lparr>quotas := map (\<lambda>(p, e). if p = provider then (p, obj_merge e updates) else (p, e)) (quotas t)\<rparr>"

definition field :: "string \<Rightarrow> jsobj \<Rightarrow> rat" where
  "field k e = num_of (obj_get e k)"

section \<open>Latencies\<close>

definition recordLatency :: "string \<Rightarrow> jsval \<Rightarrow> quota_tracker \<Rightarrow> quota_tracker" where
  "recordLatency provider latencyMs t =
     (case map_of (rings t) provider of
        None \<Rightarrow> t
      | Some r \<Rightarrow>
          (case latencyMs of
             JNum q \<Rightarrow>
               if q \<le> 0 then t
               else t\<lparr>rings := AList.update provider
                 (r\<lparr>ring := (ring r)[ring_index r := q], ring_index := (ring_index r + 1) mod LATENCY_RING_SIZE,
                    ring_count := (if ring_count r < LATENCY_RING_SIZE then ring_count r + 1 else ring_count r)\<rparr>) (rings t)\<rparr>
           | _ \<Rightarrow> t))"

definition getAverageLatency :: "string \<Rightarrow> quota_tracker \<Rightarrow> rat" where
  "getAverageLatency provider t =
     (case map_of (rings t) provider of
        None \<Rightarrow> DEFAULT_LATENCY_MS
      | Some r \<Rightarrow> if ring_count r = 0 then DEFAULT_LATENCY_MS
                  else sum_list (take (ring_count r) (ring r)) / of_nat (ring_count r))"

section \<open>Windows\<close>

definition snapshotDaily :: "int \<Rightarrow> jsval \<Rightarrow> quota_tracker \<Rightarrow> quota_tracker" where
  "snapshotDaily now dateOverride t =
     (if \<not> has_db t then t
      else let date = js_or dateOverride (JNum (of_int (floor ((of_int now - DAILY_WINDOW_MS) / DAILY_WINDOW_MS)))) in
        t\<lparr>daily_snapshots := daily_snapshots t @ map (\<lambda>(p, e). \<lparr>snap_provider = p, snap_date = date,
            snap_requests = obj_get e ''daily_requests'', snap_tokens = obj_get e ''daily_tokens'',
            snap_latency = getAverageLatency p t\<rparr>) (quotas t)\<rparr>)"

definition reset_minute :: "int \<Rightarrow> string \<Rightarrow> quota_tracker \<Rightarrow> quota_tracker" where
  "reset_minute now provider t =
     (case entry provider t of
        None \<Rightarrow> t
      | Some e \<Rightarrow>
          if field ''minute_resets_at'' e \<le> of_int now
          then write_entry provider [(''minute_requests'', JNum 0), (''minute_tokens'', JNum 0),
                 (''minute_resets_at'', JNum (of_int now + MINUTE_WINDOW_MS))] t
          else t)"

definition reset_day :: "int \<Rightarrow> string \<Rightarrow> quota_tracker \<Rightarrow> quota_tracker" where
  "reset_day now provider t =
     (case entry provider t of
        None \<Rightarrow> t
      | Some e \<Rightarrow>
          if field ''daily_resets_at'' e \<le> of_int now
          then write_entry provider [(''daily_requests'', JNum 0), (''daily_tokens'', JNum 0),
                 (''daily_resets_at'', JNum (of_int now + DAILY_WINDOW_MS))] (snapshotDaily now JUndef t)
          else t)"

definition maybeResetWindows :: "int \<Rightarrow> string \<Rightarrow> quota_tracker \<Rightarrow> quota_tracker" where
  "maybeResetWindows now provider t = reset_day now provider (reset_minute now provider t)"

text \<open>\<open>if (state.cooldown_until && now >= state.cooldown_until) state.cooldown_until = null\<close>\<close>

definition end_cooldown :: "int \<Rightarrow> string \<Rightarrow> quota_tracker \<Rightarrow> quota_tracker" where
  "end_cooldown now provider t =
     (case entry provider t of
        None \<Rightarrow> t
      | Some e \<Rightarrow>
          if js_truthy (obj_get e ''cooldown_until'') \<and> field ''cooldown_until'' e \<le> of_int now
          then write_entry provider [(''cooldown_until'', JNull)] t
          else t)"

section \<open>Requests\<close>

definition within_limits :: "jsobj \<Rightarrow> bool" where
  "within_limits e = (\<not> hasReachedLimit (obj_get e ''minute_requests'') (obj_get e ''rpm_limit'') \<and>
     \<not> hasReachedLimit (obj_get e ''minute_tokens'') (obj_get e ''tpm_limit'') \<and>
     \<not> hasReachedLimit (obj_get e ''daily_requests'') (obj_get e ''rpd_limit'') \<and>
     \<not> hasReachedLimit (obj_get e ''daily_tokens'') (obj_get e ''tpd_limit''))"

definition canSubmit :: "int \<Rightarrow> string \<Rightarrow> quota_tracker \<Rightarrow> bool \<times> quota_tracker" where
  "canSubmit now provider t =
     (if entry provider t = None then (False, t)
      else let t1 = maybeResetWindows now provider t in
        case entry provider t1 of
          None \<Rightarrow> (False, t1)
        | Some e \<Rightarrow>
            if js_truthy (obj_get e ''cooldown_until'') \<and> of_int now < field ''cooldown_until'' e then (False, t1)
            else (within_limits e, end_cooldown now provider t1))"

definition recordUsage :: "int \<Rightarrow> string \<Rightarrow> jsval \<Rightarrow> quota_tracker \<Rightarrow> quota_tracker" where
  "recordUsage now provider tokens t =
     (let t1 = maybeResetWindows now provider t in
      case entry provider t1 of
        None \<Rightarrow> t
      | Some e \<Rightarrow>
          let safeTokens = num_of tokens in
          write_entry provider
            [(''minute_requests'', JNum (field ''minute_requests'' e + 1)),
             (''daily_requests'', JNum (field ''daily_requests'' e + 1)),
             (''minute_tokens'', JNum (field ''minute_tokens'' e + safeTokens)),
             (''daily_tokens'', JNum (field ''daily_tokens'' e + safeTokens)),
             (''backoff_step'', JNum 0)] t1)"

definition recordRateLimit :: "int \<Rightarrow> string \<Rightarrow> jsval \<Rightarrow> quota_tracker \<Rightarrow> quota_tracker" where
  "recordRateLimit now provider retryAfterSeconds t =
     (case entry provider t of
        None \<Rightarrow> t
      | Some e \<Rightarrow>
          if 0 < num_of retryAfterSeconds
          then write_entry provider [(''cooldown_until'', JNum (of_int now + num_of retryAfterSeconds * 1000)),
                 (''backoff_step'', JNum 0)] t
          else let backoffIndex = min (nat (floor (field ''backoff_step'' e))) (length DEFAULT_BACKOFF_SECONDS - 1);
                   cooldownSeconds = DEFAULT_BACKOFF_SECONDS ! backoffIndex in
            write_entry provider [(''cooldown_until'', JNum (of_int now + cooldownSeconds * 1000)),
              (''backoff_step'', JNum (field ''backoff_step'' e + 1))] t)"

definition LIMIT_KEYS :: "string list" where
  "LIMIT_KEYS = [''rpm_limit'', ''rpd_limit'', ''tpm_limit'', ''tpd_limit'', ''daily_reset_hour'']"

fun apply_limits :: "(string \<times> jsval) list \<Rightarrow> jsobj \<Rightarrow> jsobj" where
  "apply_limits [] e = e"
| "apply_limits ((key, v) # us) e =
     apply_limits us
       (if \<not> obj_has e key then e
        else if key \<in> set LIMIT_KEYS then obj_set key (normalizeLimit v) e
        else obj_set key v e)"

definition updateLimits :: "string \<Rightarrow> jsval \<Rightarrow> quota_tracker \<Rightarrow> quota_tracker" where
  "updateLimits provider updates t =
     (case updates of
        JObj us \<Rightarrow> t\<lparr>quotas := map (\<lambda>(p, e). if p = provider then (p, apply_limits us e) else (p, e)) (quotas t)\<rparr>
      | _ \<Rightarrow> t)"

definition tick :: "int \<Rightarrow> quota_tracker \<Rightarrow> quota_tracker" where
  "tick now t = fold (\<lambda>p t. end_cooldown now p (maybeResetWindows now p t)) (map fst (quotas t)) t"

section \<open>Ranking\<close>

record quota_choice =
  qc_provider :: string
  qc_remaining :: rat
  qc_score :: rat
  qc_latency :: rat
  qc_tokens :: rat

definition unlimited :: "jsval \<Rightarrow> bool" where
  "unlimited limit = (case limit of JNum l \<Rightarrow> l \<le> 0 | _ \<Rightarrow> True)"

fun submittable :: "int \<Rightarrow> string list \<Rightarrow> quota_tracker \<Rightarrow> (string \<times> jsobj) list \<times> quota_tracker" where
  "submittable now [] t = ([], t)"
| "submittable now (p # ps) t =
     (case canSubmit now p t of (ok, t1) \<Rightarrow>
        case submittable now ps t1 of (rest, t2) \<Rightarrow>
          ((case entry p t1 of Some e \<Rightarrow> if ok then (p, e) # rest else rest | None \<Rightarrow> rest), t2))"

definition getAvailableProviders :: "int \<Rightarrow> quota_tracker \<Rightarrow> (string \<times> rat) list \<times> quota_tracker" where
  "getAvailableProviders now t =
     (case submittable now (map fst (quotas t)) t of (available, t') \<Rightarrow>
       (sort_key (\<lambda>(p, r). - r) (map (\<lambda>(p, e). (p, if unlimited (obj_get e ''rpd_limit'') then 1
          else (field ''rpd_limit'' e - field ''daily_requests'' e) / field ''rpd_limit'' e)) available), t'))"

text \<open>\<open>PROVIDER_TRAITS\<close>: speed and token capacity; \<open>COMPLEXITY_WEIGHTS\<close>: their weights.\<close>

definition PROVIDER_TRAITS :: "(string \<times> rat \<times> rat) list" where
  "PROVIDER_TRAITS = [(''groq'', 10, 4), (''cerebras'', 9, 5), (''google-ai'', 6, 9), (''openrouter'', 5, 10),
     (''deepinfra'', 7, 8), (''hyperbolic'', 6, 7), (''anthropic'', 5, 8), (''ollama-cloud'', 4, 6), (''ollama'', 3, 3)]"

definition FREE_PROVIDER_SCAN_ONLY_TYPES :: "string list" where
  "FREE_PROVIDER_SCAN_ONLY_TYPES = [''scan'', ''reasoning'', ''docs'']"

definition COMPLEXITY_WEIGHTS :: "(string \<times> rat \<times> rat) list" where
  "COMPLEXITY_WEIGHTS = [(''simple'', 7 / 10, 3 / 10), (''normal'', 1 / 2, 1 / 2), (''complex'', 1 / 5, 4 / 5)]"

definition trait_bonus :: "string \<Rightarrow> string \<Rightarrow> rat" where
  "trait_bonus provider complexity =
     (case map_of PROVIDER_TRAITS provider of
        None \<Rightarrow> 0
      | Some (speed, tokenCapacity) \<Rightarrow>
          (case (case map_of COMPLEXITY_WEIGHTS complexity of Some w \<Rightarrow> w | None \<Rightarrow> (1 / 2, 1 / 2)) of
             (speedWeight, capacityWeight) \<Rightarrow>
               (speedWeight * (speed / 10) + capacityWeight * (tokenCapacity / 10)) * (15 / 100)))"

definition token_fit :: "rat \<Rightarrow> jsobj \<Rightarrow> rat" where
  "token_fit estimatedTokens e =
     (if unlimited (obj_get e ''tpd_limit'') then 1
      else let remainingTokens = field ''tpd_limit'' e - field ''daily_tokens'' e in
        if remainingTokens \<le> 0 then 0
        else if remainingTokens < estimatedTokens then remainingTokens / estimatedTokens
        else 1)"

definition smart_choice :: "string \<Rightarrow> rat \<Rightarrow> quota_tracker \<Rightarrow> string \<times> jsobj \<Rightarrow> quota_choice" where
  "smart_choice complexity estimatedTokens t pe =
     (case pe of (p, e) \<Rightarrow>
        let remaining = (if unlimited (obj_get e ''rpd_limit'') then 1
              else max 0 ((field ''rpd_limit'' e - field ''daily_requests'' e) / field ''rpd_limit'' e));
            avg = getAverageLatency p t in
        \<lparr>qc_provider = p, qc_remaining = remaining,
         qc_score = 4 / 10 * remaining + 3 / 10 * token_fit estimatedTokens e + 3 / 10 * min 1 (1000 / avg)
           + trait_bonus p complexity,
         qc_latency = of_int (floor (avg + 1 / 2)), qc_tokens = estimatedTokens\<rparr>)"

definition getAvailableProvidersSmart ::
  "int \<Rightarrow> string \<Rightarrow> jsval \<Rightarrow> jsval \<Rightarrow> quota_tracker \<Rightarrow> quota_choice list \<times> quota_tracker" where
  "getAvailableProvidersSmart now complexity descriptionLength taskType t =
     (if js_truthy taskType \<and> taskType \<notin> JStr ` set FREE_PROVIDER_SCAN_ONLY_TYPES then ([], t)
      else case submittable now (map fst (quotas t)) t of (available, t') \<Rightarrow>
        (sort_key (\<lambda>c. (- qc_score c, - qc_remaining c))
           (map (smart_choice complexity (estimateTokenNeed descriptionLength) t') available), t'))"

section \<open>Status\<close>

definition seconds_left :: "int \<Rightarrow> rat \<Rightarrow> jsval" where
  "seconds_left now t = JNum (max 0 (of_int (ceiling ((t - of_int now) / 1000))))"

definition quota_status :: "int \<Rightarrow> string \<Rightarrow> jsobj \<Rightarrow> quota_tracker \<Rightarrow> jsobj" where
  "quota_status now p e t =
     map (\<lambda>k. (k, obj_get e k)) [''rpm_limit'', ''rpd_limit'', ''tpm_limit'', ''tpd_limit'', ''minute_requests'',
       ''minute_tokens'', ''daily_requests'', ''daily_tokens'']
     @ [(''cooldown_remaining_seconds'', if js_truthy (obj_get e ''cooldown_until'')
           then seconds_left now (field ''cooldown_until'' e) else JNum 0),
        (''minute_resets_in_seconds'', seconds_left now (field ''minute_resets_at'' e)),
        (''daily_resets_in_seconds'', seconds_left now (field ''daily_resets_at'' e)),
        (''avg_latency_ms'', JNum (of_int (floor (getAverageLatency p t + 1 / 2))))]"

definition getStatus :: "int \<Rightarrow> quota_tracker \<Rightarrow> (string \<times> jsobj) list \<times> quota_tracker" where
  "getStatus now t =
     (let t' = tick now t in
      (map (\<lambda>(p, e). (p, quota_status now p e t')) (quotas t'), t'))"

end
