(* ===== verification/Quota_Claims.thy ===== *)
theory Quota_Claims
  imports Quota_Tracker
begin

text \<open>
  What the quota tracker promises: although its windows are not sliding, no span of one window's width sees
  more than twice the limit of a provider.

  \<open>quota_step\<close> are the calls of a client that asks before each request and records it when it is admitted, with
  the log of the admitted requests. \<open>rolled\<close> is what every other call may do to the window of an entry;
  \<open>window_ok\<close> relates the log to a window, and \<open>window_roll\<close> and \<open>window_grant\<close> are its two steps.
\<close>

section \<open>Calls\<close>

datatype quota_window = Minute | Day

fun requests_key :: "quota_window \<Rightarrow> string" where
  "requests_key Minute = ''minute_requests''"
| "requests_key Day = ''daily_requests''"

fun resets_key :: "quota_window \<Rightarrow> string" where
  "resets_key Minute = ''minute_resets_at''"
| "resets_key Day = ''daily_resets_at''"

fun limit_key :: "quota_window \<Rightarrow> string" where
  "limit_key Minute = ''rpm_limit''"
| "limit_key Day = ''rpd_limit''"

fun width :: "quota_window \<Rightarrow> rat" where
  "width Minute = MINUTE_WINDOW_MS"
| "width Day = DAILY_WINDOW_MS"

datatype quota_call =
    Request jsval
  | Rate_limited jsval
  | Latency jsval
  | Tick
  | Status
  | Ranking
  | Smart_ranking string jsval jsval
  | Snapshot jsval

type_synonym quota_event = "int \<times> string \<times> quota_call"

fun quiet_call :: "int \<Rightarrow> string \<Rightarrow> quota_call \<Rightarrow> quota_tracker \<Rightarrow> quota_tracker" where
  "quiet_call now p (Request tokens) t = snd (canSubmit now p t)"
| "quiet_call now p (Rate_limited secs) t = recordRateLimit now p secs t"
| "quiet_call now p (Latency ms) t = recordLatency p ms t"
| "quiet_call now p Tick t = tick now t"
| "quiet_call now p Status t = snd (getStatus now t)"
| "quiet_call now p Ranking t = snd (getAvailableProviders now t)"
| "quiet_call now p (Smart_ranking c len ty) t = snd (getAvailableProvidersSmart now c len ty t)"
| "quiet_call now p (Snapshot date) t = snapshotDaily now date t"

definition quota_step :: "quota_event \<Rightarrow> (int \<times> string) list \<times> quota_tracker \<Rightarrow> (int \<times> string) list \<times> quota_tracker" where
  "quota_step ev s =
     (case (ev, s) of ((now, p, c), (granted, t)) \<Rightarrow>
        (case c of
           Request tokens \<Rightarrow>
             if fst (canSubmit now p t)
             then (granted @ [(now, p)], recordUsage now p tokens (snd (canSubmit now p t)))
             else (granted, quiet_call now p c t)
         | _ \<Rightarrow> (granted, quiet_call now p c t)))"

section \<open>A window of an entry\<close>

definition rolled :: "quota_window \<Rightarrow> int \<Rightarrow> jsobj \<Rightarrow> jsobj \<Rightarrow> bool" where
  "rolled w now e e' \<longleftrightarrow> obj_get e' (limit_key w) = obj_get e (limit_key w) \<and>
     (field (requests_key w) e' = field (requests_key w) e \<and> field (resets_key w) e' = field (resets_key w) e \<or>
      field (resets_key w) e \<le> of_int now \<and>
        field (requests_key w) e' = 0 \<and> field (resets_key w) e' = of_int now + width w)"

definition rolls :: "quota_window \<Rightarrow> int \<Rightarrow> string \<Rightarrow> quota_tracker \<Rightarrow> quota_tracker \<Rightarrow> bool" where
  "rolls w now p t t' \<longleftrightarrow> (\<forall>e. entry p t = Some e \<longrightarrow> (\<exists>e'. entry p t' = Some e' \<and> rolled w now e e'))"

lemma width_pos: "0 < width w"
  by (cases w) (simp_all add: MINUTE_WINDOW_MS_def DAILY_WINDOW_MS_def)

lemma rolled_refl: "rolled w now e e"
  by (simp add: rolled_def)

lemma rolled_trans: "rolled w now e1 e2 \<Longrightarrow> rolled w now e2 e3 \<Longrightarrow> rolled w now e1 e3"
  using width_pos [of w] by (auto simp: rolled_def)

lemma rolls_refl: "rolls w now p t t"
  by (simp add: rolls_def rolled_refl)

lemma rolls_trans: "rolls w now p t1 t2 \<Longrightarrow> rolls w now p t2 t3 \<Longrightarrow> rolls w now p t1 t3"
  unfolding rolls_def by (meson rolled_trans)

lemma rolls_same: "quotas t' = quotas t \<Longrightarrow> rolls w now p t t'"
  by (simp add: rolls_def entry_def rolled_refl)

lemma entry_write:
  "entry q (write_entry p us t) = (if q = p then map_option (\<lambda>e. obj_merge e us) (entry q t) else entry q t)"
proof -
  have "map_of (map (\<lambda>(k, e). if k = p then (k, obj_merge e us) else (k, e)) l) q =
      (if q = p then map_option (\<lambda>e. obj_merge e us) (map_of l q) else map_of l q)" for l
    by (induction l) auto
  then show ?thesis by (simp add: entry_def write_entry_def)
qed

text \<open>Fields are not disturbed by writes of other fields.\<close>

lemma merge_fields:
  "obj_merge e ((k, v) # us) = obj_merge (obj_set k v e) us"
  by (simp add: obj_merge_def)

lemma write_rolls:
  assumes "\<And>e. entry q t = Some e \<Longrightarrow> rolled w now e (obj_merge e us)"
  shows "rolls w now p t (write_entry q us t)"
  using assms by (auto simp: rolls_def entry_write rolled_refl)

lemma reset_minute_rolls: "rolls w now p t (reset_minute now q t)"
  by (cases w) (auto simp: reset_minute_def rolled_def merge_fields field_def num_of_def
      intro!: write_rolls rolls_refl split: option.split)

lemma snapshot_quotas [simp]: "quotas (snapshotDaily now date t) = quotas t"
  by (simp add: snapshotDaily_def Let_def)

lemma entry_snapshot [simp]: "entry q (snapshotDaily now date t) = entry q t"
  by (simp add: entry_def)

lemma reset_day_rolls: "rolls w now p t (reset_day now q t)"
  by (cases w) (auto simp: reset_day_def rolled_def merge_fields field_def num_of_def entry_def
      intro!: rolls_trans [OF rolls_same write_rolls] rolls_refl split: option.split)

lemma maybe_rolls: "rolls w now p t (maybeResetWindows now q t)"
  unfolding maybeResetWindows_def by (rule rolls_trans [OF reset_minute_rolls reset_day_rolls])

lemma cooldown_rolls: "rolls w now p t (end_cooldown now q t)"
  by (cases w) (auto simp: end_cooldown_def rolled_def merge_fields field_def num_of_def
      intro!: write_rolls rolls_refl split: option.split)

lemma can_rolls: "rolls w now p t (snd (canSubmit now q t))"
  by (auto simp: canSubmit_def Let_def rolls_refl maybe_rolls intro: rolls_trans [OF maybe_rolls cooldown_rolls]
      split: option.split)

lemma limited_rolls: "rolls w now p t (recordRateLimit now q secs t)"
  by (cases w) (auto simp: recordRateLimit_def rolled_def merge_fields field_def Let_def
      intro!: write_rolls rolls_refl split: option.split)

lemma tick_rolls: "rolls w now p t (tick now t)"
proof -
  have "rolls w now p t (fold (\<lambda>p t. end_cooldown now p (maybeResetWindows now p t)) ps t)" for ps
  proof (induction ps arbitrary: t)
    case Nil
    show ?case by (simp add: rolls_refl)
  next
    case (Cons q ps)
    from rolls_trans [OF rolls_trans [OF maybe_rolls cooldown_rolls] Cons.IH] show ?case by simp
  qed
  then show ?thesis by (simp add: tick_def)
qed

lemma submittable_rolls: "rolls w now p t (snd (submittable now ps t))"
proof (induction ps arbitrary: t)
  case Nil
  show ?case by (simp add: rolls_refl)
next
  case (Cons q ps)
  from rolls_trans [OF can_rolls Cons.IH] show ?case by (simp add: case_prod_unfold)
qed

lemma quiet_rolls: "rolls w now p t (quiet_call now q c t)"
proof (cases c)
  case (Latency ms)
  then show ?thesis
    by (auto simp: recordLatency_def intro!: rolls_same split: option.split jsval.split)
next
  case Status
  then show ?thesis by (simp add: getStatus_def Let_def tick_rolls)
next
  case Ranking
  then show ?thesis
    using submittable_rolls [of w now p t "map fst (quotas t)"] by (simp add: getAvailableProviders_def case_prod_unfold)
next
  case (Smart_ranking comp len ty)
  then show ?thesis
    using submittable_rolls [of w now p t "map fst (quotas t)"]
    by (simp add: getAvailableProvidersSmart_def rolls_refl case_prod_unfold)
qed (simp_all add: can_rolls limited_rolls tick_rolls rolls_same)

section \<open>An admitted request\<close>

lemma maybe_open:
  assumes "entry p (maybeResetWindows now p t) = Some e"
  shows "of_int now < field (resets_key w) e"
proof -
  have minute: "of_int now < field ''minute_resets_at'' e'" if "entry p (reset_minute now p t) = Some e'" for e'
    using that
    by (auto simp: reset_minute_def entry_write merge_fields field_def num_of_def MINUTE_WINDOW_MS_def
        split: option.splits if_splits)
  have "\<exists>e'. entry p (reset_minute now p t) = Some e' \<and>
      field ''minute_resets_at'' e = field ''minute_resets_at'' e' \<and> of_int now < field ''daily_resets_at'' e"
    using assms
    by (auto simp: maybeResetWindows_def reset_day_def entry_write merge_fields field_def num_of_def
        DAILY_WINDOW_MS_def split: option.splits if_splits)
  with minute show ?thesis by (cases w) auto
qed

lemma maybe_idle:
  assumes "entry p t = Some e" and "\<And>w. of_int now < field (resets_key w) e"
  shows "maybeResetWindows now p t = t"
  using assms(1) assms(2) [of Minute] assms(2) [of Day]
  by (simp add: maybeResetWindows_def reset_minute_def reset_day_def)

lemma cooldown_window:
  "entry p t = Some e \<Longrightarrow> \<exists>e'. entry p (end_cooldown now p t) = Some e' \<and>
     (\<forall>k. k \<noteq> ''cooldown_until'' \<longrightarrow> obj_get e' k = obj_get e k)"
  by (auto simp: end_cooldown_def entry_write merge_fields)

lemma admitted:
  assumes "entry p t = Some e" and "fst (canSubmit now p t)"
  obtains e' where "entry p (snd (canSubmit now p t)) = Some e'" and "rolled w now e e'"
    and "\<And>v. of_int now < field (resets_key v) e'"
    and "\<not> hasReachedLimit (obj_get e' (requests_key w)) (obj_get e' (limit_key w))"
proof -
  obtain e1 where e1: "entry p (maybeResetWindows now p t) = Some e1" "within_limits e1"
      "snd (canSubmit now p t) = end_cooldown now p (maybeResetWindows now p t)"
    using assms by (auto simp: canSubmit_def Let_def split: option.splits if_splits)
  obtain e' where e': "entry p (snd (canSubmit now p t)) = Some e'"
      "\<And>k. k \<noteq> ''cooldown_until'' \<Longrightarrow> obj_get e' k = obj_get e1 k"
    using cooldown_window [OF e1(1)] e1(3) by auto
  have "rolled w now e e'" using can_rolls [of w now p t p] assms(1) e'(1) by (simp add: rolls_def)
  moreover have "of_int now < field (resets_key v) e'" for v
    using maybe_open [OF e1(1), of v] e'(2) by (cases v) (simp_all add: field_def)
  moreover have "\<not> hasReachedLimit (obj_get e' (requests_key w)) (obj_get e' (limit_key w))"
    using e1(2) e'(2) by (cases w) (simp_all add: within_limits_def)
  ultimately show ?thesis using that e'(1) by blast
qed

lemma usage_counts:
  assumes "entry p t = Some e" and "\<And>v. of_int now < field (resets_key v) e"
  shows "\<exists>e'. entry p (recordUsage now p tokens t) = Some e' \<and> obj_get e' (limit_key w) = obj_get e (limit_key w) \<and>
    field (requests_key w) e' = field (requests_key w) e + 1 \<and> field (resets_key w) e' = field (resets_key w) e"
  using assms maybe_idle [OF assms]
  by (cases w) (simp_all add: recordUsage_def Let_def entry_write merge_fields field_def num_of_def)

lemma usage_other: "q \<noteq> p \<Longrightarrow> rolls w now p t (recordUsage now q tokens t)"
  using maybe_rolls [of w now p t q]
  by (auto simp: recordUsage_def Let_def rolled_refl rolls_def entry_write split: option.split)

section \<open>The log and the window\<close>

definition between :: "rat \<Rightarrow> rat \<Rightarrow> string \<Rightarrow> (int \<times> string) list \<Rightarrow> nat" where
  "between a b p granted = count_where (\<lambda>(g, q). q = p \<and> a \<le> of_int g \<and> of_int g < b) granted"

definition window_ok :: "quota_window \<Rightarrow> string \<Rightarrow> nat \<Rightarrow> (int \<times> string) list \<Rightarrow> rat \<Rightarrow> rat \<Rightarrow> bool" where
  "window_ok w p n granted resets used \<longleftrightarrow>
     (\<forall>(g, q) \<in> set granted. q = p \<longrightarrow> of_int g < resets) \<and>
     of_nat (between (resets - width w) resets p granted) = used \<and> used \<le> of_nat n \<and>
     between (resets - 2 * width w) (resets - width w) p granted \<le> n \<and>
     (\<forall>a. between a (a + width w) p granted \<le> 2 * n)"

lemma between_append [simp]:
  "between a b p (granted @ [(g, q)]) = between a b p granted + (if q = p \<and> a \<le> of_int g \<and> of_int g < b then 1 else 0)"
  by (simp add: between_def count_where_def)

lemma between_mono: "a' \<le> a \<Longrightarrow> b \<le> b' \<Longrightarrow> between a b p granted \<le> between a' b' p granted"
  unfolding between_def by (rule count_where_mono) auto

lemma between_split: "a \<le> b \<Longrightarrow> b \<le> c \<Longrightarrow> between a c p granted = between a b p granted + between b c p granted"
  by (induction granted) (auto simp: between_def)

lemma between_none: "(\<And>g. (g, p) \<in> set granted \<Longrightarrow> of_int g < a) \<Longrightarrow> between a b p granted = 0"
  by (force simp: between_def count_where_zero)

lemma between_upto:
  "(\<And>g. (g, p) \<in> set granted \<Longrightarrow> of_int g < b) \<Longrightarrow> between a c p granted \<le> between a b p granted"
  unfolding between_def by (rule count_where_mono) auto

lemma window_start: "window_ok w p n [] resets 0"
  by (simp add: window_ok_def between_def)

lemma window_roll:
  assumes "window_ok w p n granted resets used" and "resets \<le> of_int now"
  shows "window_ok w p n granted (of_int now + width w) 0"
proof -
  have below: "of_int g < resets" if "(g, p) \<in> set granted" for g
    using assms(1) that by (auto simp: window_ok_def)
  then have "between (of_int now) b p granted = 0" for b
    using assms(2) by (intro between_none) force
  moreover have "between (of_int now - width w) (of_int now) p granted \<le> n"
  proof -
    have "between (of_int now - width w) (of_int now) p granted \<le> between (resets - width w) (of_int now) p granted"
      using assms(2) by (intro between_mono) auto
    also have "\<dots> \<le> between (resets - width w) resets p granted" by (rule between_upto [OF below])
    also have "\<dots> \<le> n" using assms(1) by (auto simp: window_ok_def)
    finally show ?thesis .
  qed
  ultimately show ?thesis
    using assms width_pos [of w] below by (force simp: window_ok_def algebra_simps)
qed

lemma window_grant:
  assumes ok: "window_ok w p n granted resets used" and "used < of_nat n"
    and "resets - width w \<le> of_int now" "of_int now < resets"
  shows "window_ok w p n (granted @ [(now, p)]) resets (used + 1)"
proof -
  have used: "of_nat (between (resets - width w) resets p granted) = used" using ok by (simp add: window_ok_def)
  have room: "between (resets - width w) resets p granted + 1 \<le> n" using used assms(2) by simp
  have span: "between a (a + width w) p granted + 1 \<le> 2 * n" if "a \<le> of_int now" "of_int now < a + width w" for a
  proof -
    have below: "of_int g < resets" if "(g, p) \<in> set granted" for g using ok that by (auto simp: window_ok_def)
    have "between a (a + width w) p granted \<le> between a resets p granted" by (rule between_upto [OF below])
    also have "\<dots> \<le> between (resets - 2 * width w) resets p granted"
      using that assms(3) by (intro between_mono) auto
    also have "\<dots> = between (resets - 2 * width w) (resets - width w) p granted
        + between (resets - width w) resets p granted"
      using width_pos [of w] by (intro between_split) auto
    also have "\<dots> + 1 \<le> 2 * n" using ok room by (simp add: window_ok_def)
    finally show ?thesis by simp
  qed
  show ?thesis
    using ok assms(2-4) used room span width_pos [of w] by (auto simp: window_ok_def add.commute)
qed

section \<open>Runs\<close>

type_synonym quota_run = "int \<times> (int \<times> string) list \<times> quota_tracker"

fun run_step :: "quota_event \<Rightarrow> quota_run \<Rightarrow> quota_run" where
  "run_step ev (prev, s) = (fst ev, quota_step ev s)"

definition clock_ok :: "quota_event \<Rightarrow> quota_run \<Rightarrow> bool" where
  "clock_ok ev r \<longleftrightarrow> fst r \<le> fst ev"

definition quota_ok :: "quota_window \<Rightarrow> string \<Rightarrow> nat \<Rightarrow> quota_run \<Rightarrow> bool" where
  "quota_ok w p n r \<longleftrightarrow>
     (case r of (prev, granted, t) \<Rightarrow>
        \<exists>e. entry p t = Some e \<and> obj_get e (limit_key w) = JNum (of_nat n) \<and>
          field (resets_key w) e - width w \<le> of_int prev \<and>
          window_ok w p n granted (field (resets_key w) e) (field (requests_key w) e))"

lemma rolled_ok:
  assumes "quota_ok w p n (prev, granted, t)" and "prev \<le> now" and "rolls w now p t t'"
  shows "quota_ok w p n (now, granted, t')"
proof -
  obtain e where e: "entry p t = Some e" "obj_get e (limit_key w) = JNum (of_nat n)"
      "field (resets_key w) e - width w \<le> of_int prev"
      "window_ok w p n granted (field (resets_key w) e) (field (requests_key w) e)"
    using assms(1) by (auto simp: quota_ok_def)
  obtain e' where e': "entry p t' = Some e'" "rolled w now e e'" using assms(3) e(1) by (auto simp: rolls_def)
  have "of_int prev \<le> (of_int now :: rat)" using assms(2) by simp
  with e e' window_roll [OF e(4), of now] show ?thesis by (auto simp: quota_ok_def rolled_def)
qed

lemma other_grants: "q \<noteq> p \<Longrightarrow> window_ok w p n (granted @ [(now, q)]) resets used = window_ok w p n granted resets used"
  by (auto simp: window_ok_def)

lemma quota_ok_grant:
  assumes ok: "quota_ok w p n (prev, granted, t)" and "prev \<le> now" and "0 < n" and grant: "fst (canSubmit now q t)"
  shows "quota_ok w p n (now, granted @ [(now, q)], recordUsage now q tokens (snd (canSubmit now q t)))"
proof (cases "q = p")
  case False
  have "rolls w now p t (recordUsage now q tokens (snd (canSubmit now q t)))"
    by (rule rolls_trans [OF can_rolls usage_other [OF False]])
  from rolled_ok [OF ok assms(2) this] show ?thesis by (simp add: quota_ok_def other_grants [OF False])
next
  case True
  obtain e where "entry p t = Some e" using ok by (auto simp: quota_ok_def)
  then obtain e1 where e1: "entry p (snd (canSubmit now p t)) = Some e1"
      "\<And>v. of_int now < field (resets_key v) e1"
      "\<not> hasReachedLimit (obj_get e1 (requests_key w)) (obj_get e1 (limit_key w))"
    using admitted [of p t e now w] grant True by auto
  have "quota_ok w p n (now, granted, snd (canSubmit now p t))" by (rule rolled_ok [OF ok assms(2) can_rolls])
  with e1(1) have ok1: "obj_get e1 (limit_key w) = JNum (of_nat n)" "field (resets_key w) e1 - width w \<le> of_int now"
      "window_ok w p n granted (field (resets_key w) e1) (field (requests_key w) e1)"
    by (auto simp: quota_ok_def)
  have "field (requests_key w) e1 < of_nat n" using e1(3) ok1(1) assms(3) by (simp add: hasReachedLimit_def field_def)
  from window_grant [OF ok1(3) this ok1(2) e1(2)] usage_counts [OF e1(1,2), of tokens w] ok1 show ?thesis
    using True by (auto simp: quota_ok_def)
qed

lemma quota_ok_step:
  assumes "0 < n" and "quota_ok w p n r" and "clock_ok ev r"
  shows "quota_ok w p n (run_step ev r)"
proof -
  obtain now q c where ev: "ev = (now, q, c)" by (cases ev)
  obtain prev granted t where r: "r = (prev, granted, t)" by (cases r)
  have quiet: "quota_ok w p n (now, granted, quiet_call now q c t)"
    using assms rolled_ok [OF _ _ quiet_rolls] by (simp add: ev r clock_ok_def)
  have grant: "quota_ok w p n (now, granted @ [(now, q)], recordUsage now q tokens (snd (canSubmit now q t)))"
    if "fst (canSubmit now q t)" for tokens
    using assms quota_ok_grant that by (simp add: ev r clock_ok_def)
  show ?thesis using quiet grant by (cases c) (auto simp: ev r quota_step_def)
qed

interpretation quota_runs: guarded_machine run_step clock_ok "\<lambda>r. 0 < n \<and> quota_ok w p n r" for n w p
  by unfold_locales (simp add: quota_ok_step)

lemma clock_run:
  "sorted (map fst es) \<Longrightarrow> (\<And>ev. ev \<in> set es \<Longrightarrow> fst r \<le> fst ev) \<Longrightarrow> legal_run run_step clock_ok es r"
proof (induction es arbitrary: r)
  case Nil
  then show ?case by simp
next
  case (Cons ev es)
  have "fst (run_step ev r) = fst ev" by (cases r) simp
  with Cons show ?case by (auto simp: clock_ok_def)
qed

lemma run_log: "snd (fold run_step es (prev, s)) = fold quota_step es s"
proof (induction es arbitrary: prev s)
  case (Cons ev es)
  then show ?case by (cases s) simp
qed simp

text \<open>A new tracker starts its windows with the first call.\<close>

lemma new_entries:
  "entry p (add_limits now limits t) = Some e \<Longrightarrow> entry p t = Some e \<or> (\<exists>l. e = new_entry now l)"
proof (induction limits arbitrary: t)
  case (Cons l limits)
  from Cons.IH [OF Cons.prems [unfolded add_limits.simps]] show ?case
    by (auto simp: entry_def update_conv' split: if_splits)
qed (simp add: entry_def)

lemma quota_ok_new:
  assumes "entry p (new_tracker start limits) = Some e" and "obj_get e (limit_key w) = JNum (of_nat n)"
  shows "quota_ok w p n (start, [], new_tracker start limits)"
proof -
  obtain l where "e = new_entry start l"
    using new_entries [OF assms(1) [unfolded new_tracker_def]] by (auto simp: entry_def)
  then have "field (resets_key w) e = of_int start + width w" "field (requests_key w) e = 0"
    by (cases w; simp add: new_entry_def field_def num_of_def obj_get_def)+
  with assms show ?thesis by (simp add: quota_ok_def window_start)
qed

section \<open>The bound\<close>

text \<open>C36: Whatever calls a new tracker gets in the order of their times, a provider with a limit of \<open>n\<close> requests per
  window (minute or day) is granted at most \<open>2 * n\<close> requests in any span as long as the window, wherever
  the span begins.\<close>

theorem quota_window_bound:
  assumes "entry p (new_tracker start limits) = Some e" and "obj_get e (limit_key w) = JNum (of_nat n)" and "0 < n"
    and "sorted (map fst es)" and "\<forall>ev \<in> set es. start \<le> fst ev"
  shows "between a (a + width w) p (fst (fold quota_step es ([], new_tracker start limits))) \<le> 2 * n"
proof -
  let ?r = "(start, [], new_tracker start limits)"
  have "legal_run run_step clock_ok es ?r" using assms(4,5) by (intro clock_run) auto
  with quota_ok_new [OF assms(1,2)] assms(3) have "quota_ok w p n (fold run_step es ?r)"
    using quota_runs.guarded_run [of n w p ?r es] by simp
  moreover obtain prev granted t where r: "fold run_step es ?r = (prev, granted, t)" by (cases "fold run_step es ?r")
  moreover have "fold quota_step es ([], new_tracker start limits) = (granted, t)"
    using run_log [of es start "([], new_tracker start limits)"] r by simp
  ultimately show ?thesis by (auto simp: quota_ok_def window_ok_def)
qed

text \<open>Two requests per minute: two just before the window ends and two just after, and the fifth is refused.\<close>

definition burst :: "quota_event list" where
  "burst = map (\<lambda>t. (t, ''groq'', Request (JNum 100))) [59998, 59999, 60000, 60001, 60002]"

definition groq_limits :: "jsval list" where
  "groq_limits = [JObj [(''provider'', JStr ''groq''), (''rpm_limit'', JNum 2)]]"

lemma burst_granted:
  "map fst (fst (fold quota_step burst ([], new_tracker 0 groq_limits))) = [59998, 59999, 60000, 60001]"
  by code_simp

lemma groq_entry: "\<exists>e. entry ''groq'' (new_tracker 0 groq_limits) = Some e \<and> obj_get e (limit_key Minute) = JNum (of_nat 2)"
  by (simp add: new_tracker_def groq_limits_def entry_def new_entry_def normalizeLimit_def obj_get_def str_of_def)

theorem quota_window_bound_witness:
  "between 59990 (59990 + width Minute) ''groq'' (fst (fold quota_step burst ([], new_tracker 0 groq_limits))) \<le> 2 * 2"
proof -
  obtain e where "entry ''groq'' (new_tracker 0 groq_limits) = Some e" "obj_get e (limit_key Minute) = JNum (of_nat 2)"
    using groq_entry by blast
  then show ?thesis by (rule quota_window_bound) (simp_all add: burst_def)
qed

end
