(* ===== verification/Agent_Claims_Store.thy ===== *)
theory Agent_Claims_Store
  imports Task_Store Shared_Store
begin

text \<open>
  Agents and their claims on tasks, \<open>server/db/coordination.js\<close>: registration and heartbeats, leases on tasks,
  stealing and failover, groups of agents and the rules that route a task to an agent.

  State: \<open>coord_db\<close>, the tables of the module beside the task tables. Rows of \<open>agents\<close>, \<open>agent_groups\<close> and
  \<open>task_routing_rules\<close> are objects with JSON columns parsed; a lease (\<open>task_claims\<close>) is a record. The
  constraints of the schema are part of the operations: primary keys, foreign keys, \<open>NOT NULL\<close>, and
  \<open>task_claims.task_id UNIQUE\<close>. \<open>coord_env\<close> is the world of one call: the clock, the identifier drawn for a
  subject, JSON and the random choice. A transaction that throws leaves the state it started from.
  Loads and priorities of agents are numbers, instants lie before the year 10000, where texts and instants
  order alike. The statistics of the dashboard are not modelled.
\<close>

section \<open>State\<close>

datatype coord_error =
    Store_error task_error
  | Unknown string string
  | Already_claimed string
  | Not_active string
  | Not_claimed string
  | Group_full string
  | Constraint_violated
  | Bad_time
  | Bad_type

record coord_env =
  co_now :: int
  co_uuid :: "string \<Rightarrow> string"
  co_parse :: "string \<Rightarrow> jsval option"
  co_stringify :: "jsval \<Rightarrow> string"
  co_random :: "nat \<Rightarrow> nat"

record task_lease =
  tl_id :: string
  tl_task :: string
  tl_agent :: string
  tl_status :: string
  tl_expires :: int
  tl_seconds :: rat
  tl_renewals :: nat
  tl_claimed :: int
  tl_released :: "int option"
  tl_reason :: jsval

record steal_entry =
  st_victim :: string
  st_thief :: string
  st_task :: string
  st_reason :: jsval
  st_at :: int

record coord_event =
  ce_type :: string
  ce_agent :: "string option"
  ce_task :: "string option"
  ce_details :: jsval
  ce_at :: int

record agent_metric =
  am_agent :: string
  am_type :: jsval
  am_value :: jsval
  am_start :: jsval
  am_end :: jsval
  am_at :: int

record coord_db =
  co_db :: tdb
  agent_rows :: "db_row list"
  task_leases :: "task_lease list"
  group_rows :: "db_row list"
  group_members :: "(string \<times> string \<times> int) list"
  rule_rows :: "db_row list"
  steal_log :: "steal_entry list"
  coord_events :: "coord_event list"
  failover_rows :: "(string \<times> string) list"
  agent_metrics :: "agent_metric list"
  round_robin :: nat

type_synonym 'a coord_result = "(coord_error + 'a) \<times> coord_db"

section \<open>Agents\<close>

definition recordCoordinationEvent ::
  "coord_env \<Rightarrow> string \<Rightarrow> string option \<Rightarrow> string option \<Rightarrow> jsval \<Rightarrow> coord_db \<Rightarrow> coord_db" where
  "recordCoordinationEvent env eventType agentId taskId details s =
     s\<lparr>coord_events := coord_events s @ [\<lparr>ce_type = eventType, ce_agent = agentId, ce_task = taskId,
         ce_details = details, ce_at = co_now env\<rparr>]\<rparr>"

text \<open>A JSON column: \<open>safeJsonParse\<close> answers the default for anything but an object or an array.\<close>

definition parsed_or :: "jsval \<Rightarrow> jsval \<Rightarrow> jsval" where
  "parsed_or fallback v = (case v of JArr _ \<Rightarrow> v | JObj _ \<Rightarrow> v | _ \<Rightarrow> fallback)"

definition parse_agent :: "db_row \<Rightarrow> db_row" where
  "parse_agent r = set_cols [(''capabilities'', parsed_or (JArr []) (col r ''capabilities'')),
     (''metadata'', parsed_or JNull (col r ''metadata''))] r"

definition active_lease :: "task_lease \<Rightarrow> bool" where
  "active_lease l = (tl_status l = ''active'')"

definition active_claims :: "string \<Rightarrow> coord_db \<Rightarrow> nat" where
  "active_claims agentId s = count_where (\<lambda>l. tl_agent l = agentId \<and> active_lease l) (task_leases s)"

definition groups_of :: "string \<Rightarrow> coord_db \<Rightarrow> jsval" where
  "groups_of agentId s = JArr (map JObj (filter (\<lambda>g. list_ex (\<lambda>(a, g', _). a = agentId \<and> col g ''id'' = JStr g')
     (group_members s)) (group_rows s)))"

definition getAgent :: "string \<Rightarrow> coord_db \<Rightarrow> db_row option" where
  "getAgent agentId s =
     map_option (\<lambda>r. set_cols [(''groups'', groups_of agentId s),
         (''active_claims'', JNum (of_nat (active_claims agentId s)))] (parse_agent r))
       (lookup_row agentId (agent_rows s))"

definition agent_metrics_of :: "string \<Rightarrow> coord_db \<Rightarrow> agent_metric list" where
  "agent_metrics_of agentId s =
     take 100 (sort_key (\<lambda>m. - am_at m) (filter (\<lambda>m. am_agent m = agentId) (agent_metrics s)))"

definition truthy_or_null :: "jsval \<Rightarrow> jsval" where
  "truthy_or_null v = (if js_truthy v then v else JNull)"

definition registerAgent :: "coord_env \<Rightarrow> jsobj \<Rightarrow> coord_db \<Rightarrow> db_row option coord_result" where
  "registerAgent env args s =
     (let agentId = (case obj_get args ''id'' of JStr i \<Rightarrow> if i = [] then co_uuid env [] else i | _ \<Rightarrow> co_uuid env []) in
      if is_nullish (obj_get args ''name'') \<or> lookup_row agentId (agent_rows s) \<noteq> None
      then (Inl Constraint_violated, s)
      else let row = set_cols
             [(''id'', JStr agentId), (''name'', obj_get args ''name''),
              (''agent_type'', js_or (obj_get args ''agent_type'') (JStr ''worker'')), (''status'', JStr ''online''),
              (''capabilities'', truthy_or_null (obj_get args ''capabilities'')),
              (''max_concurrent'', js_or (obj_get args ''max_concurrent'') (JNum 1)), (''current_load'', JNum 0),
              (''priority'', js_or (obj_get args ''priority'') (JNum 0)),
              (''metadata'', truthy_or_null (obj_get args ''metadata'')),
              (''last_heartbeat_at'', iso (co_now env)), (''registered_at'', iso (co_now env))] [];
             s' = recordCoordinationEvent env ''agent_joined'' (Some agentId) None
               (JObj [(''name'', obj_get args ''name''), (''capabilities'', obj_get args ''capabilities'')])
               (s\<lparr>agent_rows := agent_rows s @ [row]\<rparr>) in
        (Inr (getAgent agentId s'), s'))"

definition write_agent :: "string \<Rightarrow> (db_row \<Rightarrow> db_row) \<Rightarrow> coord_db \<Rightarrow> coord_db" where
  "write_agent agentId f s = s\<lparr>agent_rows := update_row agentId f (agent_rows s)\<rparr>"

definition updateAgentHeartbeat :: "coord_env \<Rightarrow> string \<Rightarrow> jsval \<Rightarrow> jsval \<Rightarrow> coord_db \<Rightarrow> bool \<times> coord_db" where
  "updateAgentHeartbeat env agentId currentLoad status s =
     (lookup_row agentId (agent_rows s) \<noteq> None,
      write_agent agentId (\<lambda>r. set_cols [(''last_heartbeat_at'', iso (co_now env)),
        (''current_load'', js_coalesce currentLoad (col r ''current_load'')),
        (''status'', js_coalesce status (col r ''status''))] r) s)"

record agent_query =
  aq_status :: jsval
  aq_group :: jsval
  aq_capability :: jsval
  aq_limit :: nat

text \<open>\<open>capabilities LIKE '%"cap"%'\<close>: the text of the column, without regard to case.\<close>

definition capability_like :: "coord_env \<Rightarrow> string \<Rightarrow> db_row \<Rightarrow> bool" where
  "capability_like env cap r =
     (\<not> is_nullish (col r ''capabilities'') \<and>
      includes_str (js_lower ([CHR 0x22] @ cap @ [CHR 0x22])) (js_lower (co_stringify env (col r ''capabilities''))))"

definition listAgents :: "coord_env \<Rightarrow> agent_query \<Rightarrow> coord_db \<Rightarrow> db_row list" where
  "listAgents env q s =
     map parse_agent (take (aq_limit q)
       (sort_key (\<lambda>r. (- num_of (col r ''priority''), num_of (col r ''registered_at'')))
         (filter (\<lambda>r.
            (js_truthy (aq_group q) \<longrightarrow> list_ex (\<lambda>(a, g, _). col r ''id'' = JStr a \<and> aq_group q = JStr g) (group_members s)) \<and>
            (js_truthy (aq_status q) \<longrightarrow> sql_eq (col r ''status'') (aq_status q)) \<and>
            (js_truthy (aq_capability q) \<longrightarrow> capability_like env (str_of (aq_capability q)) r)) (agent_rows s))))"

definition AGENT_FIELDS :: "string list" where
  "AGENT_FIELDS = [''name'', ''capabilities'', ''max_concurrent'', ''priority'', ''metadata'', ''status'']"

definition agent_fields :: "jsobj \<Rightarrow> jsobj" where
  "agent_fields updates =
     map (\<lambda>(k, v). (k, if k \<in> {''capabilities'', ''metadata''} then truthy_or_null v else v))
       (filter (\<lambda>(k, v). k \<in> set AGENT_FIELDS) updates)"

definition updateAgent :: "string \<Rightarrow> jsobj \<Rightarrow> coord_db \<Rightarrow> db_row option coord_result" where
  "updateAgent agentId updates s =
     (let sets = agent_fields updates in
      if sets = [] then (Inr (getAgent agentId s), s)
      else if lookup_row agentId (agent_rows s) \<noteq> None \<and> list_ex (\<lambda>(k, v). k = ''name'' \<and> is_nullish v) sets
      then (Inl Constraint_violated, s)
      else let s' = write_agent agentId (set_cols sets) s in (Inr (getAgent agentId s'), s'))"

section \<open>Leases\<close>

definition truncated_time :: "rat \<Rightarrow> int option" where
  "truncated_time t = (if MAX_TIME < \<bar>t\<bar> then None else Some (if 0 \<le> t then floor t else ceiling t))"

definition effective_seconds :: "jsval \<Rightarrow> rat" where
  "effective_seconds v = (case js_number v of Fin q \<Rightarrow> if 0 < q then q else 300 | _ \<Rightarrow> 300)"

definition change_load :: "rat \<Rightarrow> db_row \<Rightarrow> db_row" where
  "change_load n r = set_col ''current_load'' (JNum n) r"

definition raise_load :: "db_row \<Rightarrow> db_row" where
  "raise_load r = change_load (num_of (col r ''current_load'') + 1) r"

definition lower_load :: "db_row \<Rightarrow> db_row" where
  "lower_load r = change_load (max 0 (num_of (col r ''current_load'') - 1)) r"

definition write_coord_task :: "string \<Rightarrow> (string \<times> jsval) list \<Rightarrow> coord_db \<Rightarrow> coord_db" where
  "write_coord_task taskId updates s = s\<lparr>co_db := write_cols taskId updates (co_db s)\<rparr>"

text \<open>The \<open>INSERT\<close> fails when the task or the agent does not exist or the task has a lease already, of any status.\<close>

definition lease_allowed :: "string \<Rightarrow> string \<Rightarrow> string \<Rightarrow> coord_db \<Rightarrow> bool" where
  "lease_allowed claimId taskId agentId s =
     (lookup_row taskId (tasks (co_db s)) \<noteq> None \<and> lookup_row agentId (agent_rows s) \<noteq> None \<and>
      \<not> list_ex (\<lambda>l. tl_task l = taskId \<or> tl_id l = claimId) (task_leases s))"

definition createTaskClaim ::
  "coord_env \<Rightarrow> string \<Rightarrow> string \<Rightarrow> jsval \<Rightarrow> coord_db \<Rightarrow> task_lease coord_result" where
  "createTaskClaim env taskId agentId leaseSeconds s =
     (let effectiveLeaseSeconds = effective_seconds leaseSeconds; claimId = co_uuid env taskId in
      case truncated_time (of_int (co_now env) + effectiveLeaseSeconds * 1000) of
        None \<Rightarrow> (Inl Bad_time, s)
      | Some expiresAt \<Rightarrow>
          if \<not> lease_allowed claimId taskId agentId s then (Inl Constraint_violated, s)
          else
            let lease = \<lparr>tl_id = claimId, tl_task = taskId, tl_agent = agentId, tl_status = ''active'',
                  tl_expires = expiresAt, tl_seconds = effectiveLeaseSeconds, tl_renewals = 0,
                  tl_claimed = co_now env, tl_released = None, tl_reason = JNull\<rparr> in
            (Inr lease,
             recordCoordinationEvent env ''task_claimed'' (Some agentId) (Some taskId)
               (JObj [(''lease_seconds'', JNum effectiveLeaseSeconds)])
               (write_agent agentId raise_load
                 (write_coord_task taskId [(''claimed_by_agent'', JStr agentId)]
                   (s\<lparr>task_leases := task_leases s @ [lease]\<rparr>)))))"

definition write_lease :: "string \<Rightarrow> (task_lease \<Rightarrow> task_lease) \<Rightarrow> coord_db \<Rightarrow> coord_db" where
  "write_lease claimId f s = s\<lparr>task_leases := map_where (\<lambda>l. tl_id l = claimId) f (task_leases s)\<rparr>"

definition find_lease :: "string \<Rightarrow> coord_db \<Rightarrow> task_lease option" where
  "find_lease claimId s = select_first (\<lambda>l. tl_id l = claimId) (task_leases s)"

definition task_active_lease :: "string \<Rightarrow> coord_db \<Rightarrow> task_lease option" where
  "task_active_lease taskId s = select_first (\<lambda>l. tl_task l = taskId \<and> active_lease l) (task_leases s)"

definition atomically :: "coord_db \<Rightarrow> 'a coord_result \<Rightarrow> 'a coord_result" where
  "atomically s r = (case r of (Inl e, _) \<Rightarrow> (Inl e, s) | _ \<Rightarrow> r)"

definition claimTask :: "coord_env \<Rightarrow> string \<Rightarrow> string \<Rightarrow> jsval \<Rightarrow> coord_db \<Rightarrow> task_lease coord_result" where
  "claimTask env taskId agentId leaseSeconds s =
     (case getTask taskId (co_db s) of
        Inl e \<Rightarrow> (Inl (Store_error e), s)
      | Inr None \<Rightarrow> (Inl (Unknown ''Task'' taskId), s)
      | Inr (Some _) \<Rightarrow>
          if getAgent agentId s = None then (Inl (Unknown ''Agent'' agentId), s)
          else case task_active_lease taskId s of
            None \<Rightarrow> atomically s (createTaskClaim env taskId agentId leaseSeconds s)
          | Some l \<Rightarrow>
              if co_now env < tl_expires l then (Inl (Already_claimed (tl_agent l)), s)
              else atomically s (createTaskClaim env taskId agentId leaseSeconds
                (write_lease (tl_id l) (\<lambda>l. l\<lparr>tl_status := ''expired''\<rparr>) s)))"

definition renewLease :: "coord_env \<Rightarrow> string \<Rightarrow> jsval \<Rightarrow> coord_db \<Rightarrow> task_lease coord_result" where
  "renewLease env claimId extendSeconds s =
     (case find_lease claimId s of
        None \<Rightarrow> (Inl (Unknown ''Claim'' claimId), s)
      | Some l \<Rightarrow>
          if \<not> active_lease l then (Inl (Not_active (tl_status l)), s)
          else case js_number (js_or extendSeconds (JNum (tl_seconds l))) of
            Fin duration \<Rightarrow>
              (case truncated_time (of_int (co_now env) + duration * 1000) of
                 None \<Rightarrow> (Inl Bad_time, s)
               | Some newExpiry \<Rightarrow>
                   let renew = (\<lambda>l. l\<lparr>tl_expires := newExpiry, tl_renewals := tl_renewals l + 1\<rparr>) in
                   (Inr (renew l), recordCoordinationEvent env ''lease_renewed'' (Some (tl_agent l)) (Some (tl_task l))
                      (JObj [(''new_expiry'', iso newExpiry), (''renewals'', JNum (of_nat (tl_renewals l + 1)))])
                      (write_lease claimId renew s)))
          | _ \<Rightarrow> (Inl Bad_time, s))"

definition release_lease :: "coord_env \<Rightarrow> string \<Rightarrow> jsval \<Rightarrow> task_lease \<Rightarrow> task_lease" where
  "release_lease env status reason l =
     l\<lparr>tl_status := status, tl_released := Some (co_now env), tl_reason := sql_value reason\<rparr>"

definition releaseTaskClaim :: "coord_env \<Rightarrow> string \<Rightarrow> jsval \<Rightarrow> coord_db \<Rightarrow> task_lease coord_result" where
  "releaseTaskClaim env claimId reason s =
     (case find_lease claimId s of
        None \<Rightarrow> (Inl (Unknown ''Claim'' claimId), s)
      | Some l \<Rightarrow>
          (Inr l, recordCoordinationEvent env ''task_released'' (Some (tl_agent l)) (Some (tl_task l)) (JObj [(''reason'', reason)])
             (write_agent (tl_agent l) lower_load
               (write_coord_task (tl_task l) [(''claimed_by_agent'', JNull)]
                 (write_lease claimId (release_lease env ''released'' reason) s)))))"

definition getClaim :: "string \<Rightarrow> coord_db \<Rightarrow> task_lease option" where
  "getClaim taskIdOrClaimId s =
     (case find_lease taskIdOrClaimId s of
        Some l \<Rightarrow> Some l
      | None \<Rightarrow>
          (case sort_key (\<lambda>l. - tl_claimed l) (filter (\<lambda>l. tl_task l = taskIdOrClaimId) (task_leases s)) of
             [] \<Rightarrow> None | l # _ \<Rightarrow> Some l))"

record claim_query =
  cq_agent :: jsval
  cq_task :: jsval
  cq_status :: jsval
  cq_expired :: bool
  cq_limit :: nat

definition listClaims :: "claim_query \<Rightarrow> coord_db \<Rightarrow> (task_lease \<times> jsval \<times> jsval) list" where
  "listClaims q s =
     take (cq_limit q) (sort_key (\<lambda>(l, _). - tl_claimed l)
       (List.map_filter (\<lambda>l. map_option (\<lambda>t. (l, col t ''task_description'', col t ''status''))
            (lookup_row (tl_task l) (tasks (co_db s))))
         (filter (\<lambda>l.
            (js_truthy (cq_agent q) \<longrightarrow> cq_agent q = JStr (tl_agent l)) \<and>
            (js_truthy (cq_task q) \<longrightarrow> cq_task q = JStr (tl_task l)) \<and>
            (if js_truthy (cq_status q) then cq_status q = JStr (tl_status l)
             else cq_expired q \<or> tl_status l \<in> {''active'', ''released''})) (task_leases s))))"

text \<open>\<open>UPDATE tasks SET ... status = 'queued' WHERE id = ? AND status = 'running'\<close>, with the signal when it changed the row.\<close>

definition requeue_running :: "(string \<times> jsval) list \<Rightarrow> string \<Rightarrow> coord_db \<Rightarrow> coord_db" where
  "requeue_running updates taskId s =
     (let d = co_db s; hit = (\<lambda>r. has_id taskId r \<and> col r ''status'' = JStr ''running'');
          d' = d\<lparr>tasks := map_where hit (set_cols (updates @ [(''status'', JStr ''queued'')])) (tasks d)\<rparr> in
      s\<lparr>co_db := if list_ex hit (tasks d) then emit_event Queue_changed d' else d'\<rparr>)"

definition expire_one :: "coord_env \<Rightarrow> task_lease \<Rightarrow> coord_db \<Rightarrow> coord_db" where
  "expire_one env l s =
     recordCoordinationEvent env ''lease_expired'' (Some (tl_agent l)) (Some (tl_task l)) JNull
       (write_agent (tl_agent l) lower_load
         (requeue_running [(''claimed_by_agent'', JNull)] (tl_task l)
           (write_lease (tl_id l) (\<lambda>l. l\<lparr>tl_status := ''expired''\<rparr>) s)))"

definition expireStaleLeases :: "coord_env \<Rightarrow> coord_db \<Rightarrow> task_lease list \<times> coord_db" where
  "expireStaleLeases env s =
     (let expired = filter (\<lambda>l. active_lease l \<and> tl_expires l < co_now env) (task_leases s) in
      (expired, fold (expire_one env) expired s))"

definition task_claimable :: "coord_db \<Rightarrow> db_row \<Rightarrow> bool" where
  "task_claimable s t = (col t ''status'' = JStr ''queued'' \<and>
     \<not> list_ex (\<lambda>l. col t ''id'' = JStr (tl_task l) \<and> active_lease l) (task_leases s))"

text \<open>\<open>required.every(cap => agent.capabilities.includes(cap))\<close>; \<open>None\<close> is the \<open>TypeError\<close> of a value without \<open>every\<close>.\<close>

definition has_capabilities :: "jsval \<Rightarrow> jsval list \<Rightarrow> bool option" where
  "has_capabilities required capabilities =
     (case required of JArr vs \<Rightarrow> Some (list_all (\<lambda>c. c \<in> set capabilities) vs)
      | JObj _ \<Rightarrow> None
      | _ \<Rightarrow> Some True)"

definition getClaimableTasksForAgent :: "string \<Rightarrow> nat \<Rightarrow> coord_db \<Rightarrow> coord_error + db_row list" where
  "getClaimableTasksForAgent agentId limit s =
     (case getAgent agentId s of
        None \<Rightarrow> Inr []
      | Some agent \<Rightarrow>
          let ts = take limit (sort_key (\<lambda>t. (- num_of (col t ''priority''), num_of (col t ''created_at'')))
                (filter (task_claimable s) (tasks (co_db s))));
              capabilities = arr_of (col agent ''capabilities'') in
          if capabilities = [] then Inr ts
          else if list_ex (\<lambda>t. has_capabilities (col t ''required_capabilities'') capabilities = None) ts then Inl Bad_type
          else Inr (filter (\<lambda>t. has_capabilities (col t ''required_capabilities'') capabilities = Some True) ts))"

section \<open>Leaving, stealing and failover\<close>

definition release_all :: "coord_env \<Rightarrow> jsval \<Rightarrow> task_lease list \<Rightarrow> coord_db \<Rightarrow> coord_db" where
  "release_all env reason ls s = fold (\<lambda>l s. snd (releaseTaskClaim env (tl_id l) reason s)) ls s"

definition active_of :: "string \<Rightarrow> coord_db \<Rightarrow> task_lease list" where
  "active_of agentId s = filter (\<lambda>l. tl_agent l = agentId \<and> active_lease l) (task_leases s)"

definition delete_agent :: "string \<Rightarrow> coord_db \<Rightarrow> coord_db" where
  "delete_agent agentId s =
     s\<lparr>task_leases := filter (\<lambda>l. tl_agent l \<noteq> agentId) (task_leases s),
       agent_metrics := filter (\<lambda>m. am_agent m \<noteq> agentId) (agent_metrics s),
       steal_log := filter (\<lambda>e. st_victim e \<noteq> agentId \<and> st_thief e \<noteq> agentId) (steal_log s),
       group_members := filter (\<lambda>(a, _). a \<noteq> agentId) (group_members s),
       coord_events := map_where (\<lambda>e. ce_agent e = Some agentId) (\<lambda>e. e\<lparr>ce_agent := None\<rparr>) (coord_events s),
       agent_rows := filter (\<lambda>r. \<not> has_id agentId r) (agent_rows s)\<rparr>"

definition unregisterAgent :: "coord_env \<Rightarrow> string \<Rightarrow> bool \<Rightarrow> coord_db \<Rightarrow> db_row option \<times> coord_db" where
  "unregisterAgent env agentId reassignTasks s =
     (case getAgent agentId s of
        None \<Rightarrow> (None, s)
      | Some agent \<Rightarrow>
          let s1 = (if reassignTasks then release_all env (JStr ''agent_unregistered'') (active_of agentId s) s else s) in
          (Some agent, delete_agent agentId (recordCoordinationEvent env ''agent_left'' (Some agentId) None
             (JObj [(''name'', col agent ''name'')]) s1)))"

definition stealTask :: "coord_env \<Rightarrow> string \<Rightarrow> string \<Rightarrow> jsval \<Rightarrow> coord_db \<Rightarrow> task_lease coord_result" where
  "stealTask env taskId thief reason s =
     (case task_active_lease taskId s of
        None \<Rightarrow> (Inl (Not_claimed taskId), s)
      | Some l \<Rightarrow>
          let s1 = write_lease (tl_id l) (release_lease env ''stolen'' reason) s;
              s2 = (if tl_agent l = [] then s1 else write_agent (tl_agent l) lower_load s1) in
          if lookup_row thief (agent_rows s) = None then (Inl Constraint_violated, s)
          else
            let s3 = s2\<lparr>steal_log := steal_log s2 @ [\<lparr>st_victim = tl_agent l, st_thief = thief, st_task = taskId,
                   st_reason = sql_value reason, st_at = co_now env\<rparr>]\<rparr>;
                s4 = recordCoordinationEvent env ''work_stolen'' (Some thief) (Some taskId)
                   (JObj [(''from_agent'', JStr (tl_agent l)), (''reason'', reason)]) s3 in
            atomically s (createTaskClaim env taskId thief (JNum (tl_seconds l)) s4))"

record failover_result =
  fo_released :: nat
  fo_reassigned :: nat

text \<open>One claim of the loop; a failing new claim is ignored.\<close>

definition fail_over_one ::
  "coord_env \<Rightarrow> string option \<Rightarrow> task_lease \<Rightarrow> failover_result \<times> coord_db \<Rightarrow> failover_result \<times> coord_db" where
  "fail_over_one env reassignTarget l rs =
     (case rs of (results, s) \<Rightarrow>
        let s1 = write_coord_task (tl_task l) [(''claimed_by_agent'', JNull)]
              (write_lease (tl_id l) (release_lease env ''released'' (JStr ''failover'')) s);
            s2 = recordCoordinationEvent env ''task_released'' (Some (tl_agent l)) (Some (tl_task l))
              (JObj [(''reason'', JStr ''failover'')])
              (if tl_agent l = [] then s1 else write_agent (tl_agent l) lower_load s1);
            results1 = results\<lparr>fo_released := fo_released results + 1\<rparr>;
            s3 = requeue_running [] (tl_task l) s2 in
        case reassignTarget of
          None \<Rightarrow> (results1, s3)
        | Some target \<Rightarrow>
            (case createTaskClaim env (tl_task l) target (JNum (tl_seconds l)) s3 of
               (Inl _, s4) \<Rightarrow> (results1, s4)
             | (Inr _, s4) \<Rightarrow> (results1\<lparr>fo_reassigned := fo_reassigned results1 + 1\<rparr>, s4)))"

definition triggerFailover :: "coord_env \<Rightarrow> string \<Rightarrow> string option \<Rightarrow> coord_db \<Rightarrow> failover_result coord_result" where
  "triggerFailover env agentId reassignTo s =
     (if getAgent agentId s = None then (Inl (Unknown ''Agent'' agentId), s)
      else case fold (fail_over_one env reassignTo) (active_of agentId s) (\<lparr>fo_released = 0, fo_reassigned = 0\<rparr>, s) of
        (results, s1) \<Rightarrow>
          (Inr results, recordCoordinationEvent env ''failover_triggered'' (Some agentId) None
             (JObj [(''agent_id'', JStr agentId), (''tasks_released'', JNum (of_nat (fo_released results))),
                (''tasks_reassigned'', JNum (of_nat (fo_reassigned results)))])
             (write_agent agentId (set_cols [(''status'', JStr ''offline''), (''disconnected_at'', iso (co_now env))]) s1)))"

record steal_query =
  sq_victim :: jsval
  sq_thief :: jsval
  sq_since :: "int option"
  sq_limit :: nat

definition getStealingHistory :: "steal_query \<Rightarrow> coord_db \<Rightarrow> steal_entry list" where
  "getStealingHistory q s =
     take (sq_limit q) (sort_key (\<lambda>e. - st_at e) (filter (\<lambda>e.
       (js_truthy (sq_victim q) \<longrightarrow> sq_victim q = JStr (st_victim e)) \<and>
       (js_truthy (sq_thief q) \<longrightarrow> sq_thief q = JStr (st_thief e)) \<and>
       (case sq_since q of None \<Rightarrow> True | Some t \<Rightarrow> t \<le> st_at e)) (steal_log s)))"

definition getFailoverConfig :: "coord_db \<Rightarrow> (string \<times> string) list" where
  "getFailoverConfig s = failover_rows s"

definition updateFailoverConfig :: "jsobj \<Rightarrow> coord_db \<Rightarrow> (string \<times> string) list \<times> coord_db" where
  "updateFailoverConfig updates s =
     (let s' = s\<lparr>failover_rows := fold (\<lambda>(k, v) rows. AList.update k (js_string v) rows) updates (failover_rows s)\<rparr> in
      (getFailoverConfig s', s'))"

text \<open>\<open>parseInt(config.key, 10) || fallback\<close>\<close>

definition config_seconds :: "string \<Rightarrow> int \<Rightarrow> coord_db \<Rightarrow> int" where
  "config_seconds key fallback s =
     (case map_of (getFailoverConfig s) key of
        None \<Rightarrow> fallback
      | Some v \<Rightarrow> (case parseInt v of None \<Rightarrow> fallback | Some n \<Rightarrow> if n = 0 then fallback else n))"

definition mark_offline :: "coord_env \<Rightarrow> db_row \<Rightarrow> coord_db \<Rightarrow> coord_db" where
  "mark_offline env agent s =
     recordCoordinationEvent env ''agent_offline'' (Some (str_of (col agent ''id''))) None
       (JObj [(''last_heartbeat'', col agent ''last_heartbeat_at'')])
       (write_agent (str_of (col agent ''id'')) (set_cols [(''status'', JStr ''offline''), (''disconnected_at'', iso (co_now env))]) s)"

definition checkOfflineAgents :: "coord_env \<Rightarrow> coord_db \<Rightarrow> db_row list coord_result" where
  "checkOfflineAgents env s =
     (let threshold = config_seconds ''heartbeat_interval_seconds'' 30 s * config_seconds ''offline_threshold_missed'' 3 s in
      case truncated_time (of_int (co_now env - threshold * 1000)) of
        None \<Rightarrow> (Inl Bad_time, s)
      | Some cutoff \<Rightarrow>
          let offlineAgents = filter (\<lambda>r. col r ''status'' = JStr ''online'' \<and>
                (case col r ''last_heartbeat_at'' of JNum t \<Rightarrow> t < of_int cutoff | _ \<Rightarrow> False)) (agent_rows s) in
          (Inr offlineAgents, fold (mark_offline env) offlineAgents s))"

definition recordAgentMetric ::
  "coord_env \<Rightarrow> string \<Rightarrow> jsval \<Rightarrow> jsval \<Rightarrow> jsval \<Rightarrow> jsval \<Rightarrow> coord_db \<Rightarrow> unit coord_result" where
  "recordAgentMetric env agentId metricType v periodStart periodEnd s =
     (if lookup_row agentId (agent_rows s) = None \<or> list_ex is_nullish [metricType, v, periodStart, periodEnd]
      then (Inl Constraint_violated, s)
      else (Inr (), s\<lparr>agent_metrics := agent_metrics s @ [\<lparr>am_agent = agentId, am_type = metricType, am_value = v,
             am_start = periodStart, am_end = periodEnd, am_at = co_now env\<rparr>]\<rparr>))"

end
