(* ===== verification/Agent_Routing.thy ===== *)
theory Agent_Routing
  imports Agent_Claims_Store "HOL-Library.Char_ord"
begin

text \<open>
  Groups of agents and the choice of an agent for a task, the third phase of \<open>server/db/coordination.js\<close>:
  routing rules, required capabilities, and the strategies. The capabilities of an agent are an array and
  the directory of a task is a text. A task is the object a caller hands over, so its tags and required
  capabilities may be texts or values.
\<close>

section \<open>Groups\<close>

definition group_agents :: "string \<Rightarrow> coord_db \<Rightarrow> db_row list" where
  "group_agents groupId s =
     map (\<lambda>r. set_cols [(''capabilities'', parsed_or (JArr []) (col r ''capabilities''))] r)
       (filter (\<lambda>r. list_ex (\<lambda>(a, g, _). col r ''id'' = JStr a \<and> g = groupId) (group_members s)) (agent_rows s))"

definition getAgentGroup :: "string \<Rightarrow> coord_db \<Rightarrow> (db_row \<times> db_row list) option" where
  "getAgentGroup groupId s = map_option (\<lambda>g. (g, group_agents groupId s)) (lookup_row groupId (group_rows s))"

definition createAgentGroup :: "coord_env \<Rightarrow> jsobj \<Rightarrow> coord_db \<Rightarrow> (db_row \<times> db_row list) option coord_result" where
  "createAgentGroup env args s =
     (let groupId = (case obj_get args ''id'' of JStr i \<Rightarrow> if i = [] then co_uuid env [] else i | _ \<Rightarrow> co_uuid env []) in
      if is_nullish (obj_get args ''name'') \<or> lookup_row groupId (group_rows s) \<noteq> None
         \<or> list_ex (\<lambda>g. col g ''name'' = obj_get args ''name'') (group_rows s)
      then (Inl Constraint_violated, s)
      else let s' = s\<lparr>group_rows := group_rows s @ [set_cols
             [(''id'', JStr groupId), (''name'', obj_get args ''name''), (''description'', obj_get args ''description''),
              (''routing_strategy'', js_or (obj_get args ''routing_strategy'') (JStr ''round_robin'')),
              (''max_agents'', obj_get args ''max_agents''), (''created_at'', iso (co_now env))] []]\<rparr> in
        (Inr (getAgentGroup groupId s'), s'))"

definition listAgentGroups :: "coord_db \<Rightarrow> db_row list" where
  "listAgentGroups s =
     sort_key (\<lambda>g. str_of (col g ''name''))
       (map (\<lambda>g. set_cols [(''member_count'',
            JNum (of_nat (count_where (\<lambda>(_, m, _). col g ''id'' = JStr m) (group_members s))))] g) (group_rows s))"

definition addAgentToGroup ::
  "coord_env \<Rightarrow> string \<Rightarrow> string \<Rightarrow> coord_db \<Rightarrow> (db_row \<times> db_row list) option coord_result" where
  "addAgentToGroup env agentId groupId s =
     (if getAgent agentId s = None then (Inl (Unknown ''Agent'' agentId), s)
      else case getAgentGroup groupId s of
        None \<Rightarrow> (Inl (Unknown ''Group'' groupId), s)
      | Some (g, ms) \<Rightarrow>
          if js_truthy (col g ''max_agents'') \<and> num_of (col g ''max_agents'') \<le> of_nat (length ms)
          then (Inl (Group_full (js_string (col g ''name''))), s)
          else
            let s' = (if list_ex (\<lambda>(a, m, _). a = agentId \<and> m = groupId) (group_members s) then s
                  else s\<lparr>group_members := group_members s @ [(agentId, groupId, co_now env)]\<rparr>) in
            (Inr (getAgentGroup groupId s'), s'))"

definition removeAgentFromGroup :: "string \<Rightarrow> string \<Rightarrow> coord_db \<Rightarrow> (db_row \<times> db_row list) option \<times> coord_db" where
  "removeAgentFromGroup agentId groupId s =
     (let s' = s\<lparr>group_members := filter (\<lambda>(a, g, _). \<not> (a = agentId \<and> g = groupId)) (group_members s)\<rparr> in
      (getAgentGroup groupId s', s'))"

section \<open>Rules\<close>

definition createRoutingRule :: "coord_env \<Rightarrow> jsobj \<Rightarrow> coord_db \<Rightarrow> db_row option coord_result" where
  "createRoutingRule env args s =
     (let ruleId = (case obj_get args ''id'' of JStr i \<Rightarrow> if i = [] then co_uuid env [] else i | _ \<Rightarrow> co_uuid env []) in
      if lookup_row ruleId (rule_rows s) \<noteq> None
         \<or> list_ex (\<lambda>k. is_nullish (obj_get args k))
             [''name'', ''condition_type'', ''condition_value'', ''target_type'', ''target_value'']
      then (Inl Constraint_violated, s)
      else let s' = s\<lparr>rule_rows := rule_rows s @ [set_cols
             [(''id'', JStr ruleId), (''name'', obj_get args ''name''),
              (''priority'', js_or (obj_get args ''priority'') (JNum 0)),
              (''condition_type'', obj_get args ''condition_type''), (''condition_value'', obj_get args ''condition_value''),
              (''target_type'', obj_get args ''target_type''), (''target_value'', obj_get args ''target_value''),
              (''enabled'', JNum 1), (''created_at'', iso (co_now env))] []]\<rparr> in
        (Inr (lookup_row ruleId (rule_rows s')), s'))"

definition listRoutingRules :: "jsval \<Rightarrow> jsval \<Rightarrow> coord_db \<Rightarrow> db_row list" where
  "listRoutingRules enabled target_type s =
     sort_key (\<lambda>r. (- num_of (col r ''priority''), num_of (col r ''created_at'')))
       (filter (\<lambda>r.
          (enabled \<noteq> JUndef \<longrightarrow> col r ''enabled'' = JNum (if js_truthy enabled then 1 else 0)) \<and>
          (js_truthy target_type \<longrightarrow> sql_eq (col r ''target_type'') target_type)) (rule_rows s))"

definition deleteRoutingRule :: "string \<Rightarrow> coord_db \<Rightarrow> bool \<times> coord_db" where
  "deleteRoutingRule ruleId s =
     (lookup_row ruleId (rule_rows s) \<noteq> None, s\<lparr>rule_rows := filter (\<lambda>r. \<not> has_id ruleId r) (rule_rows s)\<rparr>)"

text \<open>\<open>safeJsonParse(text, [])\<close>\<close>

definition parse_tags :: "coord_env \<Rightarrow> jsval \<Rightarrow> jsval" where
  "parse_tags env v =
     (case v of
        JStr t \<Rightarrow>
          (if starts_with ''{'' (js_trim t) \<or> starts_with ''['' (js_trim t)
           then (case co_parse env (js_trim t) of Some p \<Rightarrow> p | None \<Rightarrow> JArr []) else JArr [])
      | _ \<Rightarrow> js_or v (JArr []))"

text \<open>One rule; \<open>None\<close> is a \<open>TypeError\<close>.\<close>

definition rule_matches :: "coord_env \<Rightarrow> jsobj \<Rightarrow> db_row \<Rightarrow> bool option" where
  "rule_matches env task rule =
     (let kind = col rule ''condition_type''; wanted = col rule ''condition_value'' in
      if kind = JStr ''tag'' then
        (case parse_tags env (obj_get task ''tags'') of JArr vs \<Rightarrow> Some (wanted \<in> set vs) | _ \<Rightarrow> None)
      else if kind = JStr ''keyword'' then
        (case (obj_get task ''task_description'', wanted) of
           (JStr d, JStr w) \<Rightarrow> Some (includes_str (js_lower w) (js_lower d)) | _ \<Rightarrow> None)
      else if kind = JStr ''project'' then Some (obj_get task ''project'' = wanted)
      else if kind = JStr ''directory'' then
        Some (case obj_get task ''working_directory'' of
                JStr d \<Rightarrow> d \<noteq> [] \<and> includes_str (js_string wanted) d | _ \<Rightarrow> False)
      else Some False)"

fun first_rule :: "coord_env \<Rightarrow> jsobj \<Rightarrow> db_row list \<Rightarrow> coord_error + db_row option" where
  "first_rule env task [] = Inr None"
| "first_rule env task (rule # rules) =
     (case rule_matches env task rule of
        None \<Rightarrow> Inl Bad_type
      | Some True \<Rightarrow> Inr (Some rule)
      | Some False \<Rightarrow> first_rule env task rules)"

definition matchRoutingRule :: "coord_env \<Rightarrow> jsobj \<Rightarrow> coord_db \<Rightarrow> coord_error + db_row option" where
  "matchRoutingRule env task s = first_rule env task (listRoutingRules (JBool True) JUndef s)"

section \<open>Choosing an agent\<close>

definition online_query :: agent_query where
  "online_query = \<lparr>aq_status = JStr ''online'', aq_group = JUndef, aq_capability = JUndef, aq_limit = 50\<rparr>"

definition getAgentsWithCapabilities :: "coord_env \<Rightarrow> jsval list \<Rightarrow> coord_db \<Rightarrow> db_row list" where
  "getAgentsWithCapabilities env capabilities s =
     filter (\<lambda>a. arr_of (col a ''capabilities'') \<noteq> [] \<and>
         list_all (\<lambda>cap. cap \<in> set (arr_of (col a ''capabilities''))) capabilities)
       (listAgents env online_query s)"

definition getAgentsByTarget :: "coord_env \<Rightarrow> jsval \<Rightarrow> jsval \<Rightarrow> coord_db \<Rightarrow> db_row list" where
  "getAgentsByTarget env targetType targetValue s =
     (if targetType = JStr ''agent'' then
        (case getAgent (str_of targetValue) s of
           None \<Rightarrow> [] | Some a \<Rightarrow> if col a ''status'' = JStr ''online'' then [a] else [])
      else if targetType = JStr ''group'' then
        (case getAgentGroup (str_of targetValue) s of
           None \<Rightarrow> [] | Some (_, ms) \<Rightarrow> filter (\<lambda>a. col a ''status'' = JStr ''online'') ms)
      else if targetType = JStr ''capability'' then getAgentsWithCapabilities env [targetValue] s
      else [])"

definition has_room :: "db_row \<Rightarrow> bool" where
  "has_room a = (num_of (col a ''current_load'') < num_of (col a ''max_concurrent''))"

definition load_ratio :: "db_row \<Rightarrow> rat" where
  "load_ratio a = num_of (col a ''current_load'') / num_of (col a ''max_concurrent'')"

definition selectAgentByStrategy :: "coord_env \<Rightarrow> db_row list \<Rightarrow> string \<Rightarrow> coord_db \<Rightarrow> db_row option \<times> coord_db" where
  "selectAgentByStrategy env agents strategy s =
     (let available = filter has_room agents in
      if available = [] then (None, s)
      else if strategy = ''round_robin'' then
        (Some (available ! (round_robin s mod length available)),
         s\<lparr>round_robin := (round_robin s + 1) mod length available\<rparr>)
      else if strategy = ''least_loaded'' then (Some (hd (sort_key load_ratio available)), s)
      else if strategy = ''random'' then (Some (available ! (co_random env (length available) mod length available)), s)
      else if strategy = ''affinity_first''
      then (Some (hd (sort_key (\<lambda>a. (- num_of (col a ''priority''), load_ratio a)) available)), s)
      else (Some (hd available), s))"

text \<open>\<open>task.required_capabilities\<close> as a list; \<open>None\<close>: the text is no JSON, or the value has a length but no \<open>every\<close>.\<close>

definition required_list :: "coord_env \<Rightarrow> jsobj \<Rightarrow> jsval list option" where
  "required_list env task =
     (let v = obj_get task ''required_capabilities'' in
      if \<not> js_truthy v then Some []
      else case (case v of JStr t \<Rightarrow> co_parse env t | _ \<Rightarrow> Some v) of
        None \<Rightarrow> None
      | Some (JArr vs) \<Rightarrow> Some vs
      | Some (JStr t) \<Rightarrow> if t = [] then Some [] else None
      | Some JNull \<Rightarrow> None
      | Some _ \<Rightarrow> Some [])"

definition routeTaskToAgent :: "coord_env \<Rightarrow> jsobj \<Rightarrow> coord_db \<Rightarrow> db_row option coord_result" where
  "routeTaskToAgent env task s =
     (let anyone = (\<lambda>_::unit. case selectAgentByStrategy env (listAgents env online_query s) ''least_loaded'' s of
            (a, s') \<Rightarrow> (Inr a, s'));
          by_capability = (\<lambda>_::unit. case required_list env task of
              None \<Rightarrow> (Inl Bad_type, s)
            | Some required \<Rightarrow>
                if required \<noteq> [] \<and> getAgentsWithCapabilities env required s \<noteq> []
                then (case selectAgentByStrategy env (getAgentsWithCapabilities env required s) ''least_loaded'' s of
                        (a, s') \<Rightarrow> (Inr a, s'))
                else anyone ()) in
      case matchRoutingRule env task s of
        Inl e \<Rightarrow> (Inl e, s)
      | Inr None \<Rightarrow> by_capability ()
      | Inr (Some rule) \<Rightarrow>
          (case getAgentsByTarget env (col rule ''target_type'') (col rule ''target_value'') s of
             [] \<Rightarrow> by_capability ()
           | agents \<Rightarrow> (case selectAgentByStrategy env agents ''affinity_first'' s of (a, s') \<Rightarrow> (Inr a, s'))))"

end
