(* ===== verification/Agent_Claims.thy ===== *)
theory Agent_Claims
  imports Agent_Routing
begin

text \<open>
  What the coordination of agents promises, and one thing it does not do. \<open>coord_step\<close> are the calls of the
  module. \<open>lease_ok\<close> is the invariant of its tables: the recorded load of an agent is at least the number of its active leases.
  \<open>closes\<close> is the common part of releasing, expiring and failing over a lease; \<open>fold_closes\<close> lifts it to the loops.
  Since \<open>task_claims\<close> admits one row per task, a lease is never replaced: stealing always fails.
\<close>

section \<open>Stealing\<close>

lemma write_lease_tasks:
  "(\<And>l. tl_task (f l) = tl_task l) \<Longrightarrow> map tl_task (task_leases (write_lease i f s)) = map tl_task (task_leases s)"
  by (simp add: write_lease_def map_map_where)

lemma release_lease_simps [simp]:
  "tl_id (release_lease env st reason l) = tl_id l" "tl_task (release_lease env st reason l) = tl_task l"
  "tl_agent (release_lease env st reason l) = tl_agent l" "tl_status (release_lease env st reason l) = st"
  by (simp_all add: release_lease_def)

lemma frame_simps [simp]:
  "task_leases (recordCoordinationEvent env ty ao u d s) = task_leases s"
  "agent_rows (recordCoordinationEvent env ty ao u d s) = agent_rows s"
  "task_leases (write_agent a g s) = task_leases s" "agent_rows (write_agent a g s) = update_row a g (agent_rows s)"
  "task_leases (write_coord_task t us s) = task_leases s" "agent_rows (write_coord_task t us s) = agent_rows s"
  "task_leases (requeue_running us t s) = task_leases s" "agent_rows (requeue_running us t s) = agent_rows s"
  "task_leases (write_lease i f s) = map_where (\<lambda>l. tl_id l = i) f (task_leases s)" "agent_rows (write_lease i f s) = agent_rows s"
  by (simp_all add: recordCoordinationEvent_def write_agent_def write_coord_task_def requeue_running_def
      write_lease_def Let_def)

text \<open>A task that has a lease, whatever its status, gets no other one.\<close>

lemma no_second_lease:
  assumes "l \<in> set (task_leases s)" and "tl_task l = taskId"
  shows "isl (fst (createTaskClaim env taskId agentId secs s))" "snd (createTaskClaim env taskId agentId secs s) = s"
proof -
  have "\<not> lease_allowed c taskId agentId s" for c
    using assms by (auto simp: lease_allowed_def list_ex_iff)
  then show "isl (fst (createTaskClaim env taskId agentId secs s))" "snd (createTaskClaim env taskId agentId secs s) = s"
    by (auto simp: createTaskClaim_def Let_def split: option.split)
qed

lemma atomically_fails: "isl (fst r) \<Longrightarrow> \<exists>e. atomically s r = (Inl e, s)"
  by (auto simp: atomically_def isl_def split: prod.split)

lemma lease_survives:
  assumes "l \<in> set ls" and "\<And>x. tl_task (f x) = tl_task x"
  shows "\<exists>l' \<in> set (map_where P f ls). tl_task l' = tl_task l"
  using assms by (induction ls) auto

lemma steal_refused:
  "\<exists>e. stealTask env taskId thief reason s = (Inl e, s)"
proof (cases "task_active_lease taskId s")
  case None
  then show ?thesis by (simp add: stealTask_def)
next
  case (Some l)
  then have l: "l \<in> set (task_leases s)" "tl_task l = taskId"
    using select_first_Some [of _ "task_leases s" l] by (auto simp: task_active_lease_def)
  obtain l' where l': "l' \<in> set (map_where (\<lambda>x. tl_id x = tl_id l) (release_lease env ''stolen'' reason) (task_leases s))"
      "tl_task l' = taskId"
    using lease_survives [OF l(1), of "release_lease env ''stolen'' reason" "\<lambda>x. tl_id x = tl_id l"] l(2) by auto
  then have refused: "isl (fst (createTaskClaim env taskId thief secs s'))"
    if "task_leases s' = map_where (\<lambda>x. tl_id x = tl_id l) (release_lease env ''stolen'' reason) (task_leases s)" for s' secs
    using no_second_lease(1) that by simp
  show ?thesis
  proof (cases "lookup_row thief (agent_rows s)")
    case None
    with Some show ?thesis by (simp add: stealTask_def Let_def)
  next
    case found: (Some r)
    show ?thesis
      unfolding stealTask_def Some Let_def by (simp add: found) (auto intro!: atomically_fails refused)
  qed
qed

text \<open>C38: \<open>stealTask\<close> never moves a task to another agent: on every input and in every state it throws and leaves all tables
  as they were, because the row of the stolen claim keeps its task and a second row for one task is not allowed.\<close>

theorem steal_never_succeeds:
  "\<exists>e. stealTask env taskId thief reason s = (Inl e, s)"
  by (rule steal_refused)

section \<open>The load of an agent\<close>

text \<open>A recorded load that covers \<open>n\<close> leases.\<close>

definition loaded :: "nat \<Rightarrow> db_row \<Rightarrow> bool" where
  "loaded n r \<longleftrightarrow> (\<exists>q. col r ''current_load'' = JNum q \<and> of_nat n \<le> q)"

lemma loaded_changes:
  "loaded (Suc n) r \<Longrightarrow> loaded n (lower_load r)" "loaded n r \<Longrightarrow> loaded (Suc n) (raise_load r)"
  by (auto simp: loaded_def lower_load_def raise_load_def change_load_def num_of_def)

definition lease_ok :: "coord_db \<Rightarrow> bool" where
  "lease_ok s \<longleftrightarrow> distinct (row_ids (agent_rows s)) \<and>
     (\<forall>r \<in> set (agent_rows s). \<exists>i. col r ''id'' = JStr i \<and> i \<noteq> []) \<and>
     distinct (map tl_id (task_leases s)) \<and>
     (\<forall>l \<in> set (task_leases s). lookup_row (tl_agent l) (agent_rows s) \<noteq> None) \<and>
     (\<forall>i r. lookup_row i (agent_rows s) = Some r \<longrightarrow> loaded (active_claims i s) r)"

lemma lease_ok_frame: "agent_rows s' = agent_rows s \<Longrightarrow> task_leases s' = task_leases s \<Longrightarrow> lease_ok s' = lease_ok s"
  by (simp add: lease_ok_def active_claims_def)

lemma keeps_id_load [simp]: "keeps_id raise_load" "keeps_id lower_load"
  by (simp_all add: keeps_id_def raise_load_def lower_load_def change_load_def)

text \<open>An agent's row may be written as long as its identifier stays and its load covers its leases.\<close>

lemma lease_ok_agents:
  assumes "lease_ok s" and "task_leases s' = task_leases s" and "agent_rows s' = update_row i f (agent_rows s)"
    and "keeps_id f" and "\<And>r. loaded (active_claims i s) r \<Longrightarrow> loaded (active_claims i s) (f r)"
  shows "lease_ok s'"
proof -
  have "\<forall>r \<in> set (agent_rows s'). \<exists>i. col r ''id'' = JStr i \<and> i \<noteq> []"
    using assms by (auto simp: lease_ok_def update_row_def set_map_where keeps_id_def)
  then show ?thesis
    using assms by (auto simp: lease_ok_def lookup_update_row active_claims_def split: if_splits)
qed

definition closes :: "task_lease \<Rightarrow> coord_db \<Rightarrow> coord_db \<Rightarrow> bool" where
  "closes l s s' \<longleftrightarrow>
     (\<exists>f. (\<forall>x. tl_id (f x) = tl_id x \<and> tl_agent (f x) = tl_agent x \<and> tl_task (f x) = tl_task x \<and> \<not> active_lease (f x)) \<and>
        task_leases s' = map_where (\<lambda>x. tl_id x = tl_id l) f (task_leases s)) \<and>
     agent_rows s' = update_row (tl_agent l) lower_load (agent_rows s)"

lemma count_closed:
  assumes "distinct (map tl_id ls)" and "l \<in> set ls" and "active_lease l"
    and "\<And>x. tl_agent (f x) = tl_agent x" and "\<And>x. \<not> active_lease (f x)"
  shows "count_where (\<lambda>l. tl_agent l = a \<and> active_lease l) ls =
    count_where (\<lambda>l. tl_agent l = a \<and> active_lease l) (map_where (\<lambda>x. tl_id x = tl_id l) f ls) + (if tl_agent l = a then 1 else 0)"
  using assms(1,2)
proof (induction ls)
  case (Cons x ls)
  show ?case
  proof (cases "x = l")
    case True
    with Cons.prems have "tl_id l \<notin> tl_id ` set ls" by simp
    then have "map_where (\<lambda>x. tl_id x = tl_id l) f ls = ls" by (intro map_where_none) (metis imageI)
    with True assms(3-5) show ?thesis by simp
  next
    case False
    with Cons.prems have "tl_id x \<noteq> tl_id l" by force
    with Cons False show ?thesis by simp
  qed
qed simp

lemma closes_ok:
  assumes ok: "lease_ok s" and l: "l \<in> set (task_leases s)" "active_lease l" and closes: "closes l s s'"
  shows "lease_ok s'"
proof -
  obtain f where f: "\<And>x. tl_id (f x) = tl_id x" "\<And>x. tl_agent (f x) = tl_agent x" "\<And>x. \<not> active_lease (f x)"
      "task_leases s' = map_where (\<lambda>x. tl_id x = tl_id l) f (task_leases s)"
    and rows: "agent_rows s' = update_row (tl_agent l) lower_load (agent_rows s)"
    using closes by (auto simp: closes_def)
  have count: "active_claims a s = active_claims a s' + (if tl_agent l = a then 1 else 0)" for a
    unfolding active_claims_def f(4) by (rule count_closed) (use ok l f in \<open>auto simp: lease_ok_def\<close>)
  have ids: "map tl_id (task_leases s') = map tl_id (task_leases s)" by (simp add: f map_map_where)
  have "\<forall>r \<in> set (agent_rows s'). \<exists>i. col r ''id'' = JStr i \<and> i \<noteq> []"
    using ok by (auto simp: lease_ok_def rows update_row_def set_map_where lower_load_def change_load_def)
  moreover have "\<forall>x \<in> set (task_leases s'). lookup_row (tl_agent x) (agent_rows s') \<noteq> None"
    using ok by (auto simp: lease_ok_def rows f lookup_update_row set_map_where)
  moreover have "loaded (active_claims i s') r" if "lookup_row i (agent_rows s') = Some r" for i r
  proof -
    have "loaded (active_claims i s) z" if "lookup_row i (agent_rows s) = Some z" for z using that ok by (simp add: lease_ok_def)
    with that count [of i] show ?thesis by (auto simp: rows lookup_update_row loaded_changes split: if_splits)
  qed
  ultimately show ?thesis using ok ids by (auto simp: lease_ok_def rows)
qed

lemma closes_others: "closes l s s' \<Longrightarrow> x \<in> set (task_leases s) \<Longrightarrow> tl_id x \<noteq> tl_id l \<Longrightarrow> x \<in> set (task_leases s')"
  by (force simp: closes_def set_map_where)

text \<open>A loop over leases read before it, whose body closes one lease each.\<close>

lemma fold_closes:
  assumes body: "\<And>l c. l \<in> set (task_leases (st c)) \<Longrightarrow> lease_ok (st c) \<Longrightarrow> closes l (st c) (st (g l c))"
    and "lease_ok (st c)" and "set ls \<subseteq> set (task_leases (st c))" and "distinct (map tl_id ls)" and "\<forall>l \<in> set ls. active_lease l"
  shows "lease_ok (st (fold g ls c))"
  using assms(2-)
proof (induction ls arbitrary: c)
  case (Cons l ls)
  have closed: "closes l (st c) (st (g l c))" using body Cons.prems by simp
  have "tl_id l \<notin> tl_id ` set ls" using Cons.prems by simp
  then have "x \<in> set (task_leases (st (g l c)))" if "x \<in> set ls" for x
    using that Cons.prems by (intro closes_others [OF closed]) (auto, metis imageI)
  moreover have "lease_ok (st (g l c))" using closes_ok [OF _ _ _ closed] Cons.prems by simp
  ultimately show ?case using Cons.IH [of "g l c"] Cons.prems by (simp add: subset_iff)
qed simp

lemma found_lease:
  assumes "find_lease i s = Some l"
  shows "l \<in> set (task_leases s)" "tl_id l = i"
  using assms by (auto simp: find_lease_def dest: select_first_Some)

lemma found_again: "lease_ok s \<Longrightarrow> l \<in> set (task_leases s) \<Longrightarrow> find_lease (tl_id l) s = Some l"
proof -
  assume ok: "lease_ok s" and l: "l \<in> set (task_leases s)"
  then obtain x where x: "find_lease (tl_id l) s = Some x"
    by (cases "find_lease (tl_id l) s") (auto simp: find_lease_def select_first_None)
  have "inj_on tl_id (set (task_leases s))" using ok by (simp add: lease_ok_def distinct_map)
  with x l found_lease [OF x] show ?thesis by (auto dest: inj_onD)
qed

lemma release_closes: "find_lease i s = Some l \<Longrightarrow> closes l s (snd (releaseTaskClaim env i reason s))"
  using found_lease [of i s l]
  by (auto simp: closes_def releaseTaskClaim_def active_lease_def intro!: exI [of _ "release_lease env ''released'' reason"])

lemma expire_closes: "closes l s (expire_one env l s)"
  by (auto simp: closes_def expire_one_def active_lease_def intro!: exI [of _ "\<lambda>l. l\<lparr>tl_status := ''expired''\<rparr>"])

lemma refused_case:
  "isl (fst r) \<Longrightarrow> snd r = s \<Longrightarrow> snd (case r of (Inl e, s4) \<Rightarrow> (x, s4) | (Inr y, s4) \<Rightarrow> (z, s4)) = s"
  by (auto simp: isl_def split: prod.split)

lemma fail_over_closes:
  assumes "l \<in> set (task_leases (snd rs))" and "lease_ok (snd rs)"
  shows "closes l (snd rs) (snd (fail_over_one env target l rs))"
proof -
  obtain results s where rs: "rs = (results, s)" by (cases rs)
  define s3 where "s3 = requeue_running [] (tl_task l) (recordCoordinationEvent env ''task_released''
    (Some (tl_agent l)) (Some (tl_task l)) (JObj [(''reason'', JStr ''failover'')])
    (write_agent (tl_agent l) lower_load (write_coord_task (tl_task l) [(''claimed_by_agent'', JNull)]
      (write_lease (tl_id l) (release_lease env ''released'' (JStr ''failover'')) s))))"
  have "tl_agent l \<noteq> []"
  proof -
    obtain r where "lookup_row (tl_agent l) (agent_rows s) = Some r" using assms by (auto simp: lease_ok_def rs)
    then show ?thesis using assms(2) lookup_row_Some by (fastforce simp: lease_ok_def rs)
  qed
  moreover obtain l' where "l' \<in> set (task_leases s3)" "tl_task l' = tl_task l"
    using lease_survives [of l "task_leases s" "release_lease env ''released'' (JStr ''failover'')" "\<lambda>x. tl_id x = tl_id l"] assms(1)
    by (auto simp: s3_def rs)
  note refused = no_second_lease [OF this]
  ultimately have "snd (fail_over_one env target l rs) = s3"
    by (auto simp: fail_over_one_def rs Let_def s3_def [symmetric] refused_case [OF refused] split: option.split)
  then show ?thesis
    by (auto simp: rs closes_def s3_def active_lease_def
        intro!: exI [of _ "release_lease env ''released'' (JStr ''failover'')"])
qed

section \<open>Calls\<close>

datatype coord_call =
    Register_agent jsobj
  | Leave string bool
  | Agent_heartbeat string jsval jsval
  | Update_agent string jsobj
  | Check_offline
  | Claim_for string string jsval
  | Renew string jsval
  | Release_claim string jsval
  | Expire_leases
  | Steal string string jsval
  | Fail_over string "string option"
  | Make_group jsobj
  | Join_group string string
  | Leave_group string string
  | Add_routing jsobj
  | Drop_routing string
  | Route jsobj
  | Configure jsobj
  | Metric string jsval jsval jsval jsval

fun coord_step :: "coord_env \<times> coord_call \<Rightarrow> coord_db \<Rightarrow> coord_db" where
  "coord_step (env, Register_agent args) s = snd (registerAgent env args s)"
| "coord_step (env, Leave a b) s = snd (unregisterAgent env a b s)"
| "coord_step (env, Agent_heartbeat a n st) s = snd (updateAgentHeartbeat env a n st s)"
| "coord_step (env, Update_agent a us) s = snd (updateAgent a us s)"
| "coord_step (env, Check_offline) s = snd (checkOfflineAgents env s)"
| "coord_step (env, Claim_for t a secs) s = snd (claimTask env t a secs s)"
| "coord_step (env, Renew i secs) s = snd (renewLease env i secs s)"
| "coord_step (env, Release_claim i reason) s = snd (releaseTaskClaim env i reason s)"
| "coord_step (env, Expire_leases) s = snd (expireStaleLeases env s)"
| "coord_step (env, Steal t a reason) s = snd (stealTask env t a reason s)"
| "coord_step (env, Fail_over a target) s = snd (triggerFailover env a target s)"
| "coord_step (env, Make_group args) s = snd (createAgentGroup env args s)"
| "coord_step (env, Join_group a g) s = snd (addAgentToGroup env a g s)"
| "coord_step (env, Leave_group a g) s = snd (removeAgentFromGroup a g s)"
| "coord_step (env, Add_routing args) s = snd (createRoutingRule env args s)"
| "coord_step (env, Drop_routing i) s = snd (deleteRoutingRule i s)"
| "coord_step (env, Route task) s = snd (routeTaskToAgent env task s)"
| "coord_step (env, Configure us) s = snd (updateFailoverConfig us s)"
| "coord_step (env, Metric a ty v b e) s = snd (recordAgentMetric env a ty v b e s)"

text \<open>
  The obligations: an identifier that is drawn is not empty, a load that an agent reports with a heartbeat covers its
  active leases, and only active leases are released by hand (\<open>releaseTaskClaim\<close> takes any and lowers the load again).
\<close>

fun coord_guard :: "coord_env \<times> coord_call \<Rightarrow> coord_db \<Rightarrow> bool" where
  "coord_guard (env, Register_agent args) s = (co_uuid env [] \<noteq> [])"
| "coord_guard (env, Agent_heartbeat a n st) s =
     (is_nullish n \<or> (case n of JNum q \<Rightarrow> of_nat (active_claims a s) \<le> q | _ \<Rightarrow> False))"
| "coord_guard (env, Release_claim i reason) s = (case find_lease i s of None \<Rightarrow> True | Some l \<Rightarrow> active_lease l)"
| "coord_guard (env, _) s = True"

lemma event_ok [simp]: "lease_ok (recordCoordinationEvent env ty ao u d s) = lease_ok s"
  by (rule lease_ok_frame) simp_all

lemma lookup_added:
  "lookup_row i rows = None \<Longrightarrow> col r ''id'' = JStr i \<Longrightarrow>
     lookup_row j (rows @ [r]) = (if j = i then Some r else lookup_row j rows)"
  by (induction rows) (auto simp: has_id_def split: if_splits)

lemma lookup_dropped:
  "lookup_row j (filter (\<lambda>r. \<not> has_id a r) rows) = (if j = a then None else lookup_row j rows)"
  by (induction rows) (auto simp: has_id_def)

lemma count_dropped:
  "j \<noteq> a \<Longrightarrow> count_where (\<lambda>l. tl_agent l = j \<and> active_lease l) (filter (\<lambda>l. tl_agent l \<noteq> a) ls) =
     count_where (\<lambda>l. tl_agent l = j \<and> active_lease l) ls"
  by (induction ls) auto

lemma loop_leases:
  assumes "lease_ok s" and "\<And>l. P l \<Longrightarrow> active_lease l"
  shows "set (filter P (task_leases s)) \<subseteq> set (task_leases s)" "distinct (map tl_id (filter P (task_leases s)))"
    "\<forall>l \<in> set (filter P (task_leases s)). active_lease l"
  using assms by (auto simp: lease_ok_def distinct_map_filter)

lemma register_ok:
  assumes ok: "lease_ok s" and "co_uuid env [] \<noteq> []"
  shows "lease_ok (snd (registerAgent env args s))"
proof -
  define i where "i = (case obj_get args ''id'' of JStr i \<Rightarrow> if i = [] then co_uuid env [] else i | _ \<Rightarrow> co_uuid env [])"
  have i: "i \<noteq> []" using assms(2) by (auto simp: i_def split: jsval.split)
  have new: "lease_ok s'"
    if none: "lookup_row i (agent_rows s) = None" and rows: "agent_rows s' = agent_rows s @ [r]"
      and r: "col r ''id'' = JStr i" "col r ''current_load'' = JNum 0" and ls: "task_leases s' = task_leases s" for s' r
  proof -
    have look: "lookup_row j (agent_rows s @ [r]) = (if j = i then Some r else lookup_row j (agent_rows s))" for j
      using none r(1) by (rule lookup_added)
    have "active_claims i s' = 0"
      using ok none by (auto simp: active_claims_def count_where_zero ls lease_ok_def)
    moreover have "JStr i \<notin> set (row_ids (agent_rows s))" "loaded 0 r" using none r by (simp_all add: lookup_row_None loaded_def)
    ultimately show ?thesis
      using ok r i unfolding lease_ok_def
      by (auto simp: look ls rows active_claims_def row_ids_def split: if_splits)
  qed
  show ?thesis
    unfolding registerAgent_def Let_def i_def [symmetric]
    using ok by (auto intro!: new)
qed

lemma delete_ok:
  assumes ok: "lease_ok s"
  shows "lease_ok (delete_agent a s)"
proof -
  have ids: "\<And>r. r \<in> set (agent_rows s) \<Longrightarrow> \<exists>i. col r ''id'' = JStr i \<and> i \<noteq> []" using ok by (simp add: lease_ok_def)
  have look: "lookup_row j (agent_rows (delete_agent a s)) = (if j = a then None else lookup_row j (agent_rows s))" for j
    by (simp add: delete_agent_def lookup_dropped)
  have count: "active_claims j (delete_agent a s) = active_claims j s" if "j \<noteq> a" for j
    using that by (simp add: active_claims_def delete_agent_def count_dropped)
  have "distinct (row_ids (agent_rows (delete_agent a s)))" "distinct (map tl_id (task_leases (delete_agent a s)))"
    using ok by (simp_all add: delete_agent_def lease_ok_def distinct_row_ids_filter distinct_map_filter)
  moreover have "\<forall>l \<in> set (task_leases (delete_agent a s)). lookup_row (tl_agent l) (agent_rows (delete_agent a s)) \<noteq> None"
    using ok by (auto simp: look) (auto simp: delete_agent_def lease_ok_def)
  ultimately show ?thesis
    using ok ids by (auto simp: lease_ok_def look count split: if_splits) (auto simp: delete_agent_def)
qed

lemma release_all_ok: "lease_ok s \<Longrightarrow> lease_ok (release_all env reason (active_of a s) s)"
  unfolding release_all_def
proof -
  assume ok: "lease_ok s"
  note loop = loop_leases [OF ok, of "\<lambda>l. tl_agent l = a \<and> active_lease l", folded active_of_def]
  show "lease_ok (fold (\<lambda>l s. snd (releaseTaskClaim env (tl_id l) reason s)) (active_of a s) s)"
    by (rule fold_closes [where st = "\<lambda>s. s"]) (use ok loop release_closes found_again in \<open>simp_all\<close>)
qed

lemma leave_ok:
  assumes "lease_ok s"
  shows "lease_ok (snd (unregisterAgent env a b s))"
proof -
  show ?thesis using assms release_all_ok [OF assms]
    by (simp add: unregisterAgent_def Let_def delete_ok split: option.split)
qed

lemma expire_ok: "lease_ok s \<Longrightarrow> lease_ok (snd (expireStaleLeases env s))"
  unfolding expireStaleLeases_def Let_def snd_conv
proof -
  assume ok: "lease_ok s"
  note loop = loop_leases [OF ok, of "\<lambda>l. active_lease l \<and> tl_expires l < co_now env"]
  show "lease_ok (fold (expire_one env) (filter (\<lambda>l. active_lease l \<and> tl_expires l < co_now env) (task_leases s)) s)"
    by (rule fold_closes [where st = "\<lambda>s. s", OF expire_closes ok loop]) simp_all
qed

lemma offline_ok:
  assumes "lease_ok s"
  shows "lease_ok (write_agent a (set_cols [(''status'', JStr ''offline''), (''disconnected_at'', t)]) s)"
  by (rule lease_ok_agents [OF assms, where i = a and f = "set_cols [(''status'', JStr ''offline''), (''disconnected_at'', t)]"])
    (auto simp: loaded_def)

lemma check_offline_ok:
  assumes "lease_ok s"
  shows "lease_ok (snd (checkOfflineAgents env s))"
proof -
  have "lease_ok (fold (mark_offline env) rs s)" if "lease_ok s" for rs s
    using that
  proof (induction rs arbitrary: s)
    case (Cons r rs)
    have "lease_ok (mark_offline env r s)"
      using offline_ok [OF Cons.prems] by (simp add: mark_offline_def)
    with Cons show ?case by simp
  qed simp
  with assms show ?thesis by (auto simp: checkOfflineAgents_def Let_def split: option.split)
qed

lemma fail_over_ok:
  assumes "lease_ok s"
  shows "lease_ok (snd (triggerFailover env a target s))"
proof -
  have "lease_ok (snd (fold (fail_over_one env target) (active_of a s) (\<lparr>fo_released = 0, fo_reassigned = 0\<rparr>, s)))"
    by (rule fold_closes [where st = snd, OF fail_over_closes])
      (use assms loop_leases [OF assms, of "\<lambda>l. tl_agent l = a \<and> active_lease l", folded active_of_def] in \<open>simp_all\<close>)
  from offline_ok [OF this] show ?thesis
    using assms by (simp add: triggerFailover_def case_prod_unfold)
qed

lemma create_ok:
  assumes ok: "lease_ok s"
  shows "lease_ok (snd (createTaskClaim env t a secs s))"
proof -
  have new: "lease_ok s'"
    if allowed: "lease_allowed (tl_id l) t a s" and l: "tl_agent l = a" "active_lease l"
      and ls: "task_leases s' = task_leases s @ [l]" and rows: "agent_rows s' = update_row a raise_load (agent_rows s)" for s' l
  proof -
    have count: "active_claims j s' = active_claims j s + (if j = a then 1 else 0)" for j
      using l by (auto simp: active_claims_def ls count_where_def)
    have "tl_id l \<notin> tl_id ` set (task_leases s)" using allowed by (auto simp: lease_allowed_def list_ex_iff)
    moreover have "\<forall>r \<in> set (agent_rows s'). \<exists>i. col r ''id'' = JStr i \<and> i \<noteq> []"
      using ok by (auto simp: lease_ok_def rows update_row_def set_map_where raise_load_def change_load_def)
    moreover have "loaded (active_claims i s') r" if "lookup_row i (agent_rows s') = Some r" for i r
    proof -
      have "loaded (active_claims i s) z" if "lookup_row i (agent_rows s) = Some z" for z using that ok by (simp add: lease_ok_def)
      with that count [of i] show ?thesis by (auto simp: rows lookup_update_row loaded_changes split: if_splits)
    qed
    ultimately show ?thesis
      using ok allowed l by (auto simp: lease_ok_def ls rows lookup_update_row lease_allowed_def)
  qed
  show ?thesis
    by (auto simp: createTaskClaim_def Let_def ok active_lease_def intro!: new split: option.split)
qed

lemma claim_ok:
  assumes ok: "lease_ok s"
  shows "lease_ok (snd (claimTask env t a secs s))"
proof -
  have expired: "snd (atomically s (createTaskClaim env t a secs (write_lease i f s))) = s"
    if "l \<in> set (task_leases s)" "tl_task l = t" and keep: "\<And>x. tl_task (f x) = tl_task x" for l i f
  proof -
    obtain l' where "l' \<in> set (task_leases (write_lease i f s))" "tl_task l' = t"
      using lease_survives [OF \<open>l \<in> set (task_leases s)\<close>, of f "\<lambda>x. tl_id x = i"] by (auto simp: \<open>tl_task l = t\<close> keep)
    from atomically_fails [OF no_second_lease(1) [OF this]] show ?thesis by (metis snd_conv)
  qed
  have created: "lease_ok (snd (atomically s (createTaskClaim env t a secs s)))"
    using ok create_ok [OF ok] by (auto simp: atomically_def split: prod.split sum.split)
  show ?thesis
  proof (cases "task_active_lease t s")
    case None
    with ok created show ?thesis by (auto simp: claimTask_def split: sum.split option.split)
  next
    case (Some l)
    then have "l \<in> set (task_leases s)" "tl_task l = t"
      using select_first_Some [of _ "task_leases s" l] by (auto simp: task_active_lease_def)
    from expired [OF this, of "\<lambda>l. l\<lparr>tl_status := ''expired''\<rparr>"] ok Some show ?thesis
      by (auto simp: claimTask_def split: sum.split option.split)
  qed
qed

lemma renew_ok:
  assumes ok: "lease_ok s"
  shows "lease_ok (snd (renewLease env i secs s))"
proof -
  have "lease_ok (write_lease i f s)" if f: "\<And>l. tl_id (f l) = tl_id l \<and> tl_agent (f l) = tl_agent l \<and> tl_status (f l) = tl_status l" for f
  proof -
    have "active_claims a (write_lease i f s) = active_claims a s" for a
      unfolding active_claims_def write_lease_def map_where_def count_where_def
      by (simp add: filter_map comp_def active_lease_def f if_distrib cong: if_cong)
    then show ?thesis using ok f by (auto simp: lease_ok_def map_map_where set_map_where)
  qed
  with ok show ?thesis
    by (auto simp: renewLease_def Let_def split: option.split jsnum.split)
qed

lemma release_ok:
  assumes "lease_ok s" and "case find_lease i s of None \<Rightarrow> True | Some l \<Rightarrow> active_lease l"
  shows "lease_ok (snd (releaseTaskClaim env i reason s))"
proof (cases "find_lease i s")
  case None
  with assms show ?thesis by (simp add: releaseTaskClaim_def)
next
  case (Some l)
  with assms found_lease [OF Some] closes_ok [OF _ _ _ release_closes [OF Some]] show ?thesis by simp
qed

lemma heartbeat_ok:
  assumes "lease_ok s" and "coord_guard (env, Agent_heartbeat a n st) s"
  shows "lease_ok (snd (updateAgentHeartbeat env a n st s))"
  unfolding updateAgentHeartbeat_def snd_conv
  by (rule lease_ok_agents [OF assms(1) _ frame_simps(4)])
    (use assms(2) in \<open>auto simp: keeps_id_def js_coalesce_def loaded_def split: jsval.splits\<close>)

lemma update_ok:
  assumes ok: "lease_ok s"
  shows "lease_ok (snd (updateAgent a us s))"
proof -
  have "k \<noteq> ''id'' \<and> k \<noteq> ''current_load''" if "k \<in> fst ` set (agent_fields us)" for k
    using that by (auto simp: agent_fields_def AGENT_FIELDS_def)
  then have "''id'' \<notin> fst ` set (agent_fields us)" "''current_load'' \<notin> fst ` set (agent_fields us)" by blast+
  then have "lease_ok (write_agent a (set_cols (agent_fields us)) s)"
    by (intro lease_ok_agents [OF ok _ frame_simps(4)]) (auto simp: col_set_cols_frame loaded_def)
  with ok show ?thesis by (simp add: updateAgent_def Let_def)
qed

lemma select_frame: "agent_rows (snd (selectAgentByStrategy env as st s)) = agent_rows s"
  "task_leases (snd (selectAgentByStrategy env as st s)) = task_leases s"
  by (simp_all add: selectAgentByStrategy_def Let_def)

lemma route_frame: "agent_rows (snd (routeTaskToAgent env task s)) = agent_rows s"
  "task_leases (snd (routeTaskToAgent env task s)) = task_leases s"
  by (auto simp: routeTaskToAgent_def Let_def case_prod_unfold select_frame split: sum.split option.split list.split)

lemma others_frame:
  "lease_ok s \<Longrightarrow> lease_ok (snd (createAgentGroup env args s))"
  "lease_ok s \<Longrightarrow> lease_ok (snd (addAgentToGroup env a g s))"
  "lease_ok s \<Longrightarrow> lease_ok (snd (removeAgentFromGroup a g s))"
  "lease_ok s \<Longrightarrow> lease_ok (snd (createRoutingRule env args s))"
  "lease_ok s \<Longrightarrow> lease_ok (snd (deleteRoutingRule i s))"
  "lease_ok s \<Longrightarrow> lease_ok (snd (updateFailoverConfig us s))"
  "lease_ok s \<Longrightarrow> lease_ok (snd (recordAgentMetric env a ty v b e s))"
  by (erule lease_ok_frame [THEN iffD2, rotated 2];
      simp add: createAgentGroup_def addAgentToGroup_def removeAgentFromGroup_def createRoutingRule_def
        deleteRoutingRule_def updateFailoverConfig_def recordAgentMetric_def Let_def split: option.split)+

lemma lease_ok_step:
  assumes "lease_ok s" and "coord_guard ev s"
  shows "lease_ok (coord_step ev s)"
proof -
  obtain env c where ev: "ev = (env, c)" by (cases ev)
  show ?thesis
  proof (cases c)
    case (Steal t a reason)
    then show ?thesis using assms steal_refused [of env t a reason s] by (auto simp: ev)
  qed (use assms in \<open>simp_all add: ev register_ok leave_ok heartbeat_ok update_ok check_offline_ok claim_ok renew_ok
      release_ok expire_ok fail_over_ok others_frame lease_ok_frame [OF route_frame]\<close>)
qed

interpretation coordination: guarded_machine coord_step coord_guard lease_ok
  by unfold_locales (rule lease_ok_step)

section \<open>Routing\<close>

definition agent_view :: "coord_db \<Rightarrow> db_row \<Rightarrow> bool" where
  "agent_view s a \<longleftrightarrow> (\<exists>r \<in> set (agent_rows s). \<forall>k \<in> {''id'', ''status'', ''current_load'', ''max_concurrent''}. col a k = col r k) \<and>
     col a ''status'' = JStr ''online''"

lemma listed_view: "a \<in> set (listAgents env online_query s) \<Longrightarrow> agent_view s a"
  by (auto simp: listAgents_def online_query_def agent_view_def parse_agent_def dest!: in_set_takeD)

lemma capable_view: "a \<in> set (getAgentsWithCapabilities env caps s) \<Longrightarrow> agent_view s a"
  by (auto simp: getAgentsWithCapabilities_def intro: listed_view)

lemma target_view: "a \<in> set (getAgentsByTarget env ty v s) \<Longrightarrow> agent_view s a"
proof (cases "ty = JStr ''capability''")
  case True
  then show "a \<in> set (getAgentsByTarget env ty v s) \<Longrightarrow> agent_view s a"
    by (simp add: getAgentsByTarget_def capable_view)
next
  case False
  then show "a \<in> set (getAgentsByTarget env ty v s) \<Longrightarrow> agent_view s a"
    by (auto simp: getAgentsByTarget_def getAgent_def getAgentGroup_def group_agents_def agent_view_def parse_agent_def
        dest: lookup_row_Some lookup_row_Some [OF sym] split: if_splits option.splits)
qed

lemma target_views:
  assumes "getAgentsByTarget env ty v s = x # xs"
  shows "agent_view s x" "y \<in> set xs \<Longrightarrow> agent_view s y"
  using target_view [of _ env ty v s] by (simp_all add: assms)

lemma hd_sorted: "xs \<noteq> [] \<Longrightarrow> hd (sort_key f xs) \<in> set xs"
  using hd_in_set [of "sort_key f xs"] by (metis length_0_conv length_sort set_sort)

lemma selected:
  assumes "fst (selectAgentByStrategy env as st s) = Some a"
  shows "a \<in> set as \<and> has_room a"
proof -
  define free where "free = filter has_room as"
  have "free \<noteq> []" using assms by (auto simp: selectAgentByStrategy_def free_def)
  then have "a \<in> set free"
    using assms unfolding selectAgentByStrategy_def Let_def free_def [symmetric]
    by (auto simp: hd_sorted split: if_splits)
  then show ?thesis by (simp add: free_def)
qed

lemma routed:
  assumes "fst (routeTaskToAgent env task s) = Inr (Some a)"
  shows "agent_view s a \<and> has_room a"
  using assms
  by (auto simp: routeTaskToAgent_def Let_def case_prod_unfold split: sum.splits option.splits list.splits if_splits
      dest!: selected dest: listed_view capable_view target_views)

text \<open>C39: Whatever calls led to the tables, a task is routed only to a registered agent that is online and
  whose recorded load is below its maximum. Its active leases are below the maximum as well, provided
  that in the history the identifiers drawn for agents were not empty, no heartbeat reported a load smaller
  than the agent's active leases, and \<open>releaseTaskClaim\<close> was called for active claims only.\<close>

theorem routed_agent_has_room:
  assumes "agent_rows s0 = []" and "task_leases s0 = []"
    and "fst (routeTaskToAgent env task (fold coord_step es s0)) = Inr (Some a)"
  shows "let s = fold coord_step es s0 in
    \<exists>r \<in> set (agent_rows s). col r ''id'' = col a ''id'' \<and> col r ''status'' = JStr ''online'' \<and>
      num_of (col r ''current_load'') < num_of (col r ''max_concurrent'') \<and>
      (legal_run coord_step coord_guard es s0 \<longrightarrow>
        (\<exists>i. col a ''id'' = JStr i \<and> lookup_row i (agent_rows s) = Some r \<and>
          of_nat (active_claims i s) < num_of (col r ''max_concurrent'')))"
proof -
  let ?s = "fold coord_step es s0"
  obtain r where r: "r \<in> set (agent_rows ?s)" "has_room a" "col r ''status'' = JStr ''online''"
      "\<forall>k \<in> {''id'', ''current_load'', ''max_concurrent''}. col a k = col r k"
    using routed [OF assms(3)] by (auto simp: agent_view_def)
  then have room: "num_of (col r ''current_load'') < num_of (col r ''max_concurrent'')" by (simp add: has_room_def)
  have leases: "\<exists>i. col a ''id'' = JStr i \<and> lookup_row i (agent_rows ?s) = Some r \<and>
      of_nat (active_claims i ?s) < num_of (col r ''max_concurrent'')" if "legal_run coord_step coord_guard es s0"
  proof -
    have "lease_ok s0" using assms(1,2) by (simp add: lease_ok_def row_ids_def)
    then have ok: "lease_ok ?s" using that by (rule coordination.guarded_run)
    obtain i where i: "col r ''id'' = JStr i" using ok r(1) by (auto simp: lease_ok_def)
    then have look: "lookup_row i (agent_rows ?s) = Some r"
      using ok r(1) by (simp add: lease_ok_def lookup_row_unique)
    then have "loaded (active_claims i ?s) r" using ok by (simp add: lease_ok_def)
    with room have "of_nat (active_claims i ?s) < num_of (col r ''max_concurrent'')" by (auto simp: loaded_def num_of_def)
    with i look r(4) show ?thesis by simp
  qed
  show ?thesis unfolding Let_def using r room leases by (intro bexI [of _ r]) simp_all
qed

text \<open>Two agents register; one takes a task and is full; the next task goes to the other one.\<close>

definition demo_env :: coord_env where
  "demo_env = \<lparr>co_now = 1000, co_uuid = (\<lambda>x. ''u'' @ x), co_parse = (\<lambda>_. None), co_stringify = (\<lambda>_. []), co_random = (\<lambda>_. 0)\<rparr>"

definition demo_db :: coord_db where
  "demo_db = \<lparr>co_db = \<lparr>tasks = [[(''id'', JStr (replicate 36 CHR ''t''))]], deps = [], next_dep_id = 0, workflows = [],
       project_config = [], factory_projects = [], task_events = [], dbClosed = False, terminalGuards = [],
       terminalPending = []\<rparr>,
     agent_rows = [], task_leases = [], group_rows = [], group_members = [], rule_rows = [], steal_log = [],
     coord_events = [], failover_rows = [], agent_metrics = [], round_robin = 0\<rparr>"

definition demo_calls :: "(coord_env \<times> coord_call) list" where
  "demo_calls = map (Pair demo_env)
     [Register_agent [(''id'', JStr ''a''), (''name'', JStr ''A''), (''priority'', JNum 5)],
      Register_agent [(''id'', JStr ''b''), (''name'', JStr ''B'')],
      Claim_for (replicate 36 CHR ''t'') ''a'' (JNum 60)]"

lemma demo_legal: "legal_run coord_step coord_guard demo_calls demo_db"
  by (simp add: demo_calls_def demo_env_def)

lemma demo_route:
  "map_sum id (map_option (\<lambda>a. col a ''id'')) (fst (routeTaskToAgent demo_env [] (fold coord_step demo_calls demo_db))) =
     Inr (Some (JStr ''b''))"
  by code_simp

theorem routed_agent_has_room_witness:
  "\<exists>a i r. fst (routeTaskToAgent demo_env [] (fold coord_step demo_calls demo_db)) = Inr (Some a) \<and>
     col a ''id'' = JStr i \<and> lookup_row i (agent_rows (fold coord_step demo_calls demo_db)) = Some r \<and>
     of_nat (active_claims i (fold coord_step demo_calls demo_db)) < num_of (col r ''max_concurrent'')"
proof -
  obtain a where a: "fst (routeTaskToAgent demo_env [] (fold coord_step demo_calls demo_db)) = Inr (Some a)"
    using demo_route by (cases "fst (routeTaskToAgent demo_env [] (fold coord_step demo_calls demo_db))") auto
  have "agent_rows demo_db = []" "task_leases demo_db = []" by (simp_all add: demo_db_def)
  from routed_agent_has_room [OF this a] demo_legal a show ?thesis by (auto simp: Let_def)
qed

end
