(* ===== verification/Distributed_Locks.thy ===== *)
theory Distributed_Locks
  imports Rows Condition_Eval
begin

text \<open>
  The locks that several server processes share through the database, \<open>server/db/coordination.js\<close>: a lock is a
  lease that its holder extends and proves alive with heartbeats; the single-instance guard, the queue
  runner and the scheduled workflows use it.

  State: the rows of \<open>distributed_locks\<close>, keyed by the name. Instants are milliseconds; a lease is a number of
  seconds, and one that ends beyond the range of \<open>Date\<close> is the \<open>RangeError\<close> of \<open>toISOString\<close> (\<open>None\<close>). A statement of
  SQL and the transaction of \<open>acquireLock\<close> are one step. Instants lie before the year 10000.
\<close>

section \<open>State\<close>

record dist_lock =
  dl_name :: string
  dl_holder :: string
  dl_acquired :: int
  dl_expires :: int
  dl_info :: jsval
  dl_heartbeat :: "int option"

type_synonym dist_locks = "dist_lock list"

datatype lock_answer =
    Acquired bool int
  | Held_by string int jsval

definition find_dlock :: "string \<Rightarrow> dist_locks \<Rightarrow> dist_lock option" where
  "find_dlock lockName ls = select_first (\<lambda>l. dl_name l = lockName) ls"

definition write_dlock :: "string \<Rightarrow> (dist_lock \<Rightarrow> dist_lock) \<Rightarrow> dist_locks \<Rightarrow> dist_locks" where
  "write_dlock lockName f ls = map_where (\<lambda>l. dl_name l = lockName) f ls"

definition delete_dlocks :: "(dist_lock \<Rightarrow> bool) \<Rightarrow> dist_locks \<Rightarrow> dist_locks" where
  "delete_dlocks P ls = filter (\<lambda>l. \<not> P l) ls"

section \<open>Operations\<close>

definition lease_end :: "int \<Rightarrow> rat \<Rightarrow> int option" where
  "lease_end now leaseSeconds =
     (let t = of_int now + leaseSeconds * 1000 in
      if 8640000000000000 < \<bar>t\<bar> then None else Some (if 0 \<le> t then floor t else ceiling t))"

definition acquireLock ::
  "int \<Rightarrow> string \<Rightarrow> string \<Rightarrow> rat \<Rightarrow> jsval \<Rightarrow> dist_locks \<Rightarrow> lock_answer option \<times> dist_locks" where
  "acquireLock now lockName holderId leaseSeconds holderInfo ls =
     (case lease_end now leaseSeconds of
        None \<Rightarrow> (None, ls)
      | Some expires \<Rightarrow>
          let fresh = \<lparr>dl_name = lockName, dl_holder = holderId, dl_acquired = now, dl_expires = expires,
                dl_info = sql_value holderInfo, dl_heartbeat = Some now\<rparr> in
          (case find_dlock lockName ls of
             None \<Rightarrow> (Some (Acquired False expires), ls @ [fresh])
           | Some existing \<Rightarrow>
               if dl_holder existing = holderId
               then (Some (Acquired True expires), write_dlock lockName (\<lambda>l. l\<lparr>dl_expires := expires,
                      dl_acquired := now, dl_heartbeat := Some now,
                      dl_info := (if is_nullish holderInfo then dl_info l else sql_value holderInfo)\<rparr>) ls)
               else if now < dl_expires existing
               then (Some (Held_by (dl_holder existing) (dl_expires existing) (dl_info existing)), ls)
               else (Some (Acquired False expires), delete_dlocks (\<lambda>l. dl_name l = lockName) ls @ [fresh])))"

definition updateLockHeartbeat :: "int \<Rightarrow> string \<Rightarrow> string \<Rightarrow> dist_locks \<Rightarrow> bool \<times> dist_locks" where
  "updateLockHeartbeat now lockName holderId ls =
     (let mine = (\<lambda>l. dl_name l = lockName \<and> dl_holder l = holderId) in
      (list_ex mine ls, map_where mine (\<lambda>l. l\<lparr>dl_heartbeat := Some now\<rparr>) ls))"

text \<open>The age of the last heartbeat, when it is stale.\<close>

definition isLockHeartbeatStale :: "int \<Rightarrow> string \<Rightarrow> int \<Rightarrow> dist_locks \<Rightarrow> bool \<times> int option" where
  "isLockHeartbeatStale now lockName staleThresholdMs ls =
     (case find_dlock lockName ls of
        None \<Rightarrow> (False, None)
      | Some l \<Rightarrow>
          (case dl_heartbeat l of
             None \<Rightarrow> (False, None)
           | Some h \<Rightarrow> (staleThresholdMs < now - h, Some (now - h))))"

definition lock_stale :: "int \<Rightarrow> dist_lock \<Rightarrow> bool" where
  "lock_stale now l = (dl_expires l \<le> now \<or> (case dl_heartbeat l of None \<Rightarrow> True | Some h \<Rightarrow> 60 * 1000 < now - h))"

definition forceReleaseStaleLock :: "int \<Rightarrow> string \<Rightarrow> dist_locks \<Rightarrow> (string + string \<times> int) \<times> dist_locks" where
  "forceReleaseStaleLock now lockName ls =
     (case find_dlock lockName ls of
        None \<Rightarrow> (Inl ''lock_not_found'', ls)
      | Some l \<Rightarrow>
          if \<not> lock_stale now l then (Inl ''lock_not_stale'', ls)
          else (Inr (dl_holder l, now - dl_expires l), delete_dlocks (\<lambda>l. dl_name l = lockName) ls))"

datatype unlock_answer = Lock_released | Lock_not_found | Not_holder string

definition releaseLock :: "string \<Rightarrow> string \<Rightarrow> dist_locks \<Rightarrow> unlock_answer \<times> dist_locks" where
  "releaseLock lockName holderId ls =
     (if list_ex (\<lambda>l. dl_name l = lockName \<and> dl_holder l = holderId) ls
      then (Lock_released, delete_dlocks (\<lambda>l. dl_name l = lockName \<and> dl_holder l = holderId) ls)
      else case find_dlock lockName ls of
        None \<Rightarrow> (Lock_not_found, ls)
      | Some l \<Rightarrow> (Not_holder (dl_holder l), ls))"

definition checkLock :: "int \<Rightarrow> string \<Rightarrow> dist_locks \<Rightarrow> (bool \<times> dist_lock) option" where
  "checkLock now lockName ls = map_option (\<lambda>l. (now < dl_expires l, l)) (find_dlock lockName ls)"

text \<open>\<open>lock_name LIKE 'mcp_instance:%'\<close>: the underscore stands for any character.\<close>

definition instance_lock :: "dist_lock \<Rightarrow> bool" where
  "instance_lock l =
     (let n = js_lower (dl_name l) in
      13 \<le> length n \<and> take 3 n = ''mcp'' \<and> take 9 (drop 4 n) = ''instance:'')"

definition getActiveInstances :: "(string \<Rightarrow> jsval option) \<Rightarrow> int \<Rightarrow> int \<Rightarrow> dist_locks \<Rightarrow> jsobj list" where
  "getActiveInstances json_parse now staleThresholdMs ls =
     map (\<lambda>l. let info = (case dl_info l of
             JStr t \<Rightarrow> (case json_parse t of Some v \<Rightarrow> if js_truthy v then v else JObj [] | None \<Rightarrow> JObj []) | _ \<Rightarrow> JObj []) in
         [(''instanceId'', JStr (dl_holder l)), (''pid'', js_or (jget info ''pid'') JNull),
          (''port'', js_or (jget info ''port'') JNull),
          (''startedAt'', js_or (jget info ''startedAt'') (JNum (of_int (dl_acquired l)))),
          (''lockName'', JStr (dl_name l))])
       (filter (\<lambda>l. instance_lock l \<and> (case dl_heartbeat l of None \<Rightarrow> False | Some h \<Rightarrow> now - staleThresholdMs \<le> h)) ls)"

definition cleanupExpiredLocks :: "int \<Rightarrow> dist_locks \<Rightarrow> nat \<times> dist_locks" where
  "cleanupExpiredLocks now ls =
     (count_where (\<lambda>l. dl_expires l < now) ls, delete_dlocks (\<lambda>l. dl_expires l < now) ls)"

section \<open>What a lease guarantees\<close>

text \<open>The calls of all processes, each with the time it is made at.\<close>

datatype dlock_call =
    Acquire_lock string string rat jsval
  | Lock_heartbeat string string
  | Force_release string
  | Release_lock string string
  | Cleanup_locks

fun dlock_step :: "int \<times> dlock_call \<Rightarrow> dist_locks \<Rightarrow> dist_locks" where
  "dlock_step (now, Acquire_lock n h secs info) ls = snd (acquireLock now n h secs info ls)"
| "dlock_step (now, Lock_heartbeat n h) ls = snd (updateLockHeartbeat now n h ls)"
| "dlock_step (now, Force_release n) ls = snd (forceReleaseStaleLock now n ls)"
| "dlock_step (now, Release_lock n h) ls = snd (releaseLock n h ls)"
| "dlock_step (now, Cleanup_locks) ls = snd (cleanupExpiredLocks now ls)"

text \<open>
  The lease of \<open>holder\<close> on \<open>nm\<close> as its last heartbeat and its end, and what a call makes of it: \<open>None\<close> when the
  lease has ended, the holder gives it up, or a forced release finds the last heartbeat more than a
  minute old. The holder's own calls of \<open>acquireLock\<close> extend it.
\<close>

fun lease_next :: "string \<Rightarrow> string \<Rightarrow> int \<times> dlock_call \<Rightarrow> (int \<times> int) option \<Rightarrow> (int \<times> int) option" where
  "lease_next nm holder ev None = None"
| "lease_next nm holder (now, c) (Some (beat, until)) =
     (if until \<le> now then None
      else case c of
          Acquire_lock n h secs _ \<Rightarrow>
            Some (if n = nm \<and> h = holder
                  then (case lease_end now secs of None \<Rightarrow> (beat, until) | Some e \<Rightarrow> (now, e)) else (beat, until))
        | Lock_heartbeat n h \<Rightarrow> Some (if n = nm \<and> h = holder then now else beat, until)
        | Force_release n \<Rightarrow> if n = nm \<and> 60 * 1000 < now - beat then None else Some (beat, until)
        | Release_lock n h \<Rightarrow> if n = nm \<and> h = holder then None else Some (beat, until)
        | Cleanup_locks \<Rightarrow> Some (beat, until))"

definition lease_after :: "string \<Rightarrow> string \<Rightarrow> (int \<times> dlock_call) list \<Rightarrow> int \<times> int \<Rightarrow> (int \<times> int) option" where
  "lease_after nm holder es lease = fold (lease_next nm holder) es (Some lease)"

definition holds_lease :: "string \<Rightarrow> string \<Rightarrow> int \<times> int \<Rightarrow> dist_locks \<Rightarrow> bool" where
  "holds_lease nm holder lease ls \<longleftrightarrow>
     (\<exists>l. find_dlock nm ls = Some l \<and> dl_holder l = holder \<and> dl_heartbeat l = Some (fst lease) \<and> dl_expires l = snd lease)"

lemma find_dlock_Some: "find_dlock n ls = Some l \<Longrightarrow> l \<in> set ls \<and> dl_name l = n"
  by (auto simp: find_dlock_def dest: select_first_Some)

lemma find_dlock_None: "find_dlock n ls = None \<longleftrightarrow> n \<notin> dl_name ` set ls"
  by (auto simp: find_dlock_def select_first_None)

lemma find_dlock_Cons [simp]: "find_dlock n (l # ls) = (if dl_name l = n then Some l else find_dlock n ls)"
  "find_dlock n [] = None"
  by (simp_all add: find_dlock_def select_first_def)

lemma find_dlock_append:
  "find_dlock n (ls @ ms) = (case find_dlock n ls of None \<Rightarrow> find_dlock n ms | Some l \<Rightarrow> Some l)"
  by (induction ls) auto

lemma find_dlock_map:
  "(\<And>l. dl_name (f l) = dl_name l) \<Longrightarrow> find_dlock n (map_where P f ls) = map_option (\<lambda>l. if P l then f l else l) (find_dlock n ls)"
  by (induction ls) auto

lemma find_dlock_delete:
  "distinct (map dl_name ls) \<Longrightarrow> find_dlock n (delete_dlocks P ls) =
     (case find_dlock n ls of None \<Rightarrow> None | Some l \<Rightarrow> if P l then None else Some l)"
proof (induction ls)
  case (Cons l ls)
  have "find_dlock (dl_name l) (filter (\<lambda>l. \<not> P l) ls) = None" using Cons.prems by (auto simp: find_dlock_None)
  with Cons show ?case by (auto simp: delete_dlocks_def split: option.split)
qed (simp add: delete_dlocks_def)

lemma names_delete: "distinct (map dl_name ls) \<Longrightarrow> distinct (map dl_name (delete_dlocks P ls))"
  by (simp add: delete_dlocks_def distinct_map_filter)

lemma names_map: "(\<And>l. dl_name (f l) = dl_name l) \<Longrightarrow> map dl_name (map_where P f ls) = map dl_name ls"
  by (rule map_map_where) auto

lemma names_fresh: "find_dlock n ls = None \<Longrightarrow> distinct (map dl_name ls) \<Longrightarrow> dl_name l = n \<Longrightarrow> distinct (map dl_name (ls @ [l]))"
  by (simp add: find_dlock_None)

lemma names_replace:
  "distinct (map dl_name ls) \<Longrightarrow> dl_name l = n \<Longrightarrow> distinct (map dl_name (delete_dlocks (\<lambda>l. dl_name l = n) ls @ [l]))"
  using names_delete [of ls "\<lambda>l. dl_name l = n"] by (auto simp: delete_dlocks_def)

lemma acquire_names: "distinct (map dl_name ls) \<Longrightarrow> distinct (map dl_name (snd (acquireLock now n h secs info ls)))"
  by (auto simp: acquireLock_def Let_def write_dlock_def names_map simp del: map_append
      intro: names_fresh names_replace split: option.split)

lemma dlock_names: "distinct (map dl_name ls) \<Longrightarrow> distinct (map dl_name (dlock_step ev ls))"
proof (cases ev)
  case (Pair now c)
  assume "distinct (map dl_name ls)"
  then show ?thesis
    by (cases c) (auto simp: Pair acquire_names updateLockHeartbeat_def Let_def names_map forceReleaseStaleLock_def
        releaseLock_def cleanupExpiredLocks_def names_delete split: option.split)
qed

lemma acquire_other:
  assumes "distinct (map dl_name ls)" and "n \<noteq> nm"
  shows "find_dlock nm (snd (acquireLock now n h secs info ls)) = find_dlock nm ls"
proof -
  have "find_dlock nm (write_dlock n f ls) = find_dlock nm ls" if "\<And>l. dl_name (f l) = dl_name l" for f
    using that assms(2) find_dlock_Some [of nm ls]
    by (cases "find_dlock nm ls") (simp_all add: write_dlock_def find_dlock_map)
  moreover have "find_dlock nm (delete_dlocks (\<lambda>l. dl_name l = n) ls) = find_dlock nm ls"
    using assms find_dlock_Some [of nm ls] by (auto simp: find_dlock_delete split: option.split)
  ultimately show ?thesis
    using assms(2) by (auto simp: acquireLock_def Let_def find_dlock_append split: option.split)
qed

lemma acquire_own:
  assumes "distinct (map dl_name ls)" and "find_dlock n ls = Some x" and "dl_holder x = h" and "lease_end now secs = Some e"
  shows "holds_lease n h (now, e) (snd (acquireLock now n h secs info ls))"
  using assms find_dlock_Some [OF assms(2)]
  by (simp add: holds_lease_def acquireLock_def write_dlock_def find_dlock_map)

lemma lease_kept:
  assumes holds: "holds_lease nm holder lease ls" and names: "distinct (map dl_name ls)"
    and "lease_next nm holder ev (Some lease) = Some lease'"
  shows "holds_lease nm holder lease' (dlock_step ev ls)"
proof -
  obtain now c where ev: "ev = (now, c)" by (cases ev)
  obtain beat until where lease: "lease = (beat, until)" by (cases lease)
  obtain l where l: "find_dlock nm ls = Some l" "dl_holder l = holder" "dl_expires l = until" "dl_heartbeat l = Some beat"
    using holds by (auto simp: holds_lease_def lease)
  have nm: "dl_name l = nm" using find_dlock_Some [OF l(1)] by simp
  note lease' = assms(3) [unfolded ev lease]
  have time: "now < until" using lease' by (auto split: if_splits)
  show ?thesis
  proof (cases c)
    case (Acquire_lock n h secs info)
    consider "n \<noteq> nm" | "n = nm" "h \<noteq> holder" | "n = nm" "h = holder" by blast
    then show ?thesis
    proof cases
      case 1
      then show ?thesis using lease' holds time
        by (simp add: ev lease Acquire_lock holds_lease_def acquire_other [OF names])
    next
      case 2
      then have "snd (acquireLock now nm h secs info ls) = ls"
        using l time by (simp add: acquireLock_def Let_def split: option.split)
      with 2 lease' holds time show ?thesis by (simp add: ev lease Acquire_lock)
    next
      case 3
      show ?thesis
      proof (cases "lease_end now secs")
        case None
        with 3 lease' holds time show ?thesis by (simp add: ev lease Acquire_lock acquireLock_def)
      next
        case (Some e)
        with 3 lease' time acquire_own [OF names l(1,2) Some, of info] show ?thesis by (simp add: ev Acquire_lock)
      qed
    qed
  next
    case (Lock_heartbeat n h)
    with l lease' time nm show ?thesis
      by (auto simp: ev holds_lease_def updateLockHeartbeat_def Let_def find_dlock_map)
  next
    case (Force_release n)
    with l nm lease' time show ?thesis
      by (auto simp: ev holds_lease_def forceReleaseStaleLock_def lock_stale_def find_dlock_delete [OF names] split: option.split if_splits)
  next
    case (Release_lock n h)
    with l nm lease' time show ?thesis
      by (auto simp: ev holds_lease_def releaseLock_def find_dlock_delete [OF names] split: option.split if_splits)
  next
    case Cleanup_locks
    with l nm lease' time show ?thesis
      by (auto simp: ev holds_lease_def cleanupExpiredLocks_def find_dlock_delete [OF names])
  qed
qed

text \<open>The table beside the lease that the calls leave.\<close>

definition tracked_step :: "string \<Rightarrow> string \<Rightarrow> int \<times> dlock_call \<Rightarrow> (int \<times> int) option \<times> dist_locks \<Rightarrow> (int \<times> int) option \<times> dist_locks" where
  "tracked_step nm holder ev s = (lease_next nm holder ev (fst s), dlock_step ev (snd s))"

definition tracked :: "string \<Rightarrow> string \<Rightarrow> (int \<times> int) option \<times> dist_locks \<Rightarrow> bool" where
  "tracked nm holder s \<longleftrightarrow> distinct (map dl_name (snd s)) \<and>
     (case fst s of None \<Rightarrow> True | Some lease \<Rightarrow> holds_lease nm holder lease (snd s))"

interpretation leases_kept: invariant_machine "tracked_step nm holder" "tracked nm holder" for nm holder
proof unfold_locales
  fix s ev assume inv: "tracked nm holder s"
  then show "tracked nm holder (tracked_step nm holder ev s)"
    by (cases "fst s") (auto simp: tracked_def tracked_step_def dlock_names intro: lease_kept split: option.split)
qed

lemma tracked_fold: "fold (tracked_step nm holder) es (o1, ls) = (fold (lease_next nm holder) es o1, fold dlock_step es ls)"
  by (induction es arbitrary: o1 ls) (simp_all add: tracked_step_def)

lemma dlock_names_run: "distinct (map dl_name (fold dlock_step es []))"
proof -
  have "tracked [] [] (fold (tracked_step [] []) es (None, []))" by (rule leases_kept.inv_run) (simp add: tracked_def)
  then show ?thesis by (simp add: tracked_def tracked_fold)
qed

lemma acquired_holds:
  assumes "distinct (map dl_name ls)" and "fst (acquireLock now n h secs info ls) = Some (Acquired ext until)"
  shows "holds_lease n h (now, until) (snd (acquireLock now n h secs info ls))"
proof (cases "find_dlock n ls")
  case None
  then show ?thesis using assms(2) by (auto simp: acquireLock_def Let_def holds_lease_def find_dlock_append split: option.splits)
next
  case (Some x)
  have ends: "lease_end now secs = Some until" and free: "dl_holder x = h \<or> dl_holder x \<noteq> h \<and> dl_expires x \<le> now"
    using assms(2) Some by (auto simp: acquireLock_def Let_def split: option.splits if_splits)
  from free show ?thesis
  proof
    assume "dl_holder x = h"
    then show ?thesis by (rule acquire_own [OF assms(1) Some _ ends])
  next
    assume "dl_holder x \<noteq> h \<and> dl_expires x \<le> now"
    then show ?thesis using Some ends find_dlock_Some [OF Some]
      by (simp add: acquireLock_def holds_lease_def find_dlock_append find_dlock_delete [OF assms(1)])
  qed
qed

lemma rival_refused:
  assumes "holds_lease nm holder (beat, until) ls" and "now < until"
  shows "other \<noteq> holder \<Longrightarrow> fst (acquireLock now nm other secs info ls) \<noteq> Some (Acquired ext e)"
    and "\<exists>l. checkLock now nm ls = Some (True, l) \<and> dl_holder l = holder"
    and "isl (fst (forceReleaseStaleLock now nm ls)) \<longleftrightarrow> now - beat \<le> 60000"
proof -
  obtain l where l: "find_dlock nm ls = Some l" "dl_holder l = holder" "dl_expires l = until" "dl_heartbeat l = Some beat"
    using assms(1) by (auto simp: holds_lease_def)
  then show "fst (acquireLock now nm other secs info ls) \<noteq> Some (Acquired ext e)" if "other \<noteq> holder"
    using assms(2) that by (simp add: acquireLock_def Let_def split: option.split)
  show "\<exists>l. checkLock now nm ls = Some (True, l) \<and> dl_holder l = holder"
    using l assms(2) by (simp add: checkLock_def)
  show "isl (fst (forceReleaseStaleLock now nm ls)) \<longleftrightarrow> now - beat \<le> 60000"
    using l assms(2) by (simp add: forceReleaseStaleLock_def lock_stale_def isl_def)
qed

text \<open>C37: A process that was granted a lock keeps it as long as its lease, which it may extend, has not
  ended, it does not release the lock, and no forced release comes more than a minute after its last
  heartbeat (\<open>lease_after\<close> follows the last heartbeat and the end of the lease through the calls of all
  processes): until then nobody else is granted the lock, a check names the holder, and a forced
  release is refused exactly while the last heartbeat is at most a minute old.\<close>

theorem lease_is_exclusive:
  assumes "fst (acquireLock since nm holder secs info (fold dlock_step history [])) = Some (Acquired ext end0)"
    and "lease_after nm holder es (since, end0) = Some (beat, until)" and "now < until"
  shows "let ls = fold dlock_step es (snd (acquireLock since nm holder secs info (fold dlock_step history []))) in
    (\<forall>other secs' info' ext' e. other \<noteq> holder \<longrightarrow> fst (acquireLock now nm other secs' info' ls) \<noteq> Some (Acquired ext' e)) \<and>
    (\<exists>l. checkLock now nm ls = Some (True, l) \<and> dl_holder l = holder) \<and>
    (isl (fst (forceReleaseStaleLock now nm ls)) \<longleftrightarrow> now - beat \<le> 60000)"
proof -
  let ?ls0 = "fold dlock_step history []"
  let ?ls1 = "snd (acquireLock since nm holder secs info ?ls0)"
  have "holds_lease nm holder (since, end0) ?ls1" by (rule acquired_holds [OF dlock_names_run assms(1)])
  then have "tracked nm holder (Some (since, end0), ?ls1)"
    using acquire_names [OF dlock_names_run] by (simp add: tracked_def)
  from leases_kept.inv_run [OF this, of es] assms(2)
  have kept: "holds_lease nm holder (beat, until) (fold dlock_step es ?ls1)"
    by (simp add: tracked_fold tracked_def lease_after_def)
  show ?thesis unfolding Let_def using rival_refused [OF kept assms(3)] by blast
qed

text \<open>A lease of three minutes: a rival is refused, cleaning up and the forced release within a minute of a heartbeat change
  nothing, and the holder extends the lease. Ninety seconds after the last heartbeat a forced release
  would take it away.\<close>

definition quarrel :: "(int \<times> dlock_call) list" where
  "quarrel = [(1000, Acquire_lock ''queue'' ''B'' 30 JNull), (2000, Cleanup_locks), (50000, Lock_heartbeat ''queue'' ''A''),
     (100000, Force_release ''queue''), (110000, Release_lock ''queue'' ''B''), (120000, Acquire_lock ''queue'' ''A'' 180 JNull)]"

theorem lease_is_exclusive_witness:
  "let ls = fold dlock_step quarrel (snd (acquireLock 0 ''queue'' ''A'' 180 JNull [])) in
    fst (acquireLock 210000 ''queue'' ''B'' 30 JNull ls) \<noteq> Some (Acquired False 240000) \<and>
    (\<exists>l. checkLock 210000 ''queue'' ls = Some (True, l) \<and> dl_holder l = ''A'') \<and>
    \<not> isl (fst (forceReleaseStaleLock 210000 ''queue'' ls))"
proof -
  have "fst (acquireLock 0 ''queue'' ''A'' 180 JNull (fold dlock_step [] [])) = Some (Acquired False 180000)"
    by (simp add: acquireLock_def lease_end_def)
  moreover have "lease_after ''queue'' ''A'' quarrel (0, 180000) = Some (120000, 300000)"
    by (simp add: lease_after_def quarrel_def lease_end_def)
  ultimately show ?thesis
    using lease_is_exclusive [of 0 "''queue''" "''A''" 180 JNull "[]" False 180000 quarrel 120000 300000 210000]
    by (simp add: Let_def)
qed

end
