(* ===== verification/Retry.thy ===== *)
theory Retry
  imports Task_Utils Condition_Eval
begin

text \<open>
  Retries of a failed run: the first phase of closing a task, \<open>server/execution/retry-framework.js\<close>, with the retry
  bookkeeping of \<open>server/db/project-config-core.js\<close>. A failure that is classified as transient is counted and, within
  the budget, parked as \<open>retry_scheduled\<close>; a timer puts it back into the queue and starts it.

  State: \<open>retry_state\<close>, the task tables, the tables of attempts and failover events, the timers that are armed and
  their registry, and the cleanup guard. \<open>retry_env\<close> is the world of one call: the clock, the classification of
  an error (regular expressions), the resume context, the configured cap, \<open>startTask\<close> and \<open>processQueue\<close>.
  The columns of the retry settings hold numbers; one that nothing was written to holds the default of the schema.
  Texts that are cut are cut by bytes. Notifications, webhooks and log lines are left out.
\<close>

section \<open>State\<close>

record classification =
  cl_retryable :: bool
  cl_reason :: string
  cl_after :: "rat option"

record retry_env =
  re_now :: int
  re_classify :: "string \<Rightarrow> jsval \<Rightarrow> classification"
  re_resume :: "string \<Rightarrow> string \<Rightarrow> jsval \<Rightarrow> rat \<Rightarrow> jsval \<Rightarrow> jsval option"
  re_prepend :: "jsval \<Rightarrow> jsval \<Rightarrow> jsval"
  re_combined_max :: "rat option"
  re_registry :: bool
  re_start :: "string \<Rightarrow> tdb \<Rightarrow> string option \<times> tdb"
  re_process :: "tdb \<Rightarrow> tdb"

record retry_attempt =
  ra_task :: string
  ra_number :: rat
  ra_delay :: rat
  ra_error :: string
  ra_at :: int

record retry_failover =
  rf_task :: string
  rf_provider :: jsval
  rf_model :: jsval
  rf_reason :: string
  rf_attempt :: rat

record retry_state =
  rs_db :: tdb
  retry_history :: "retry_attempt list"
  failover_events :: "retry_failover list"
  armed_timers :: "(string \<times> rat) list"
  retry_timeouts :: "(string \<times> rat) list"
  cleanup_guard :: "string list"

section \<open>Bookkeeping\<close>

definition retries :: "db_row \<Rightarrow> rat" where
  "retries r = num_of (col r ''retry_count'')"

definition retry_budget :: "db_row \<Rightarrow> rat" where
  "retry_budget r = num_of (col r ''max_retries'')"

record retry_info =
  ri_count :: rat
  ri_max :: rat
  ri_should :: bool

definition incrementRetry :: "string \<Rightarrow> tdb \<Rightarrow> retry_info option db_result" where
  "incrementRetry taskId d =
     (if lookup_row taskId (tasks d) = None then (Inr None, d)
      else
        let d' = d\<lparr>tasks := update_row taskId (\<lambda>r. set_col ''retry_count'' (JNum (retries r + 1)) r) (tasks d)\<rparr> in
        (case getTask taskId d' of
           Inl e \<Rightarrow> (Inl e, d')
         | Inr None \<Rightarrow> (Inr None, d')
         | Inr (Some task) \<Rightarrow>
             (Inr (Some \<lparr>ri_count = retries task, ri_max = retry_budget task, ri_should = retries task \<le> retry_budget task\<rparr>), d')))"

definition retry_settings :: "jsobj \<Rightarrow> (string \<times> jsval) list" where
  "retry_settings config =
     (if obj_get config ''max_retries'' = JUndef then [] else [(''max_retries'', obj_get config ''max_retries'')])
     @ (if js_truthy (obj_get config ''retry_strategy'') then [(''retry_strategy'', obj_get config ''retry_strategy'')] else [])
     @ (if obj_get config ''retry_delay_seconds'' = JUndef then []
        else [(''retry_delay_seconds'', obj_get config ''retry_delay_seconds'')])"

definition configureTaskRetry :: "string \<Rightarrow> jsobj \<Rightarrow> tdb \<Rightarrow> db_row option db_result" where
  "configureTaskRetry taskId config d =
     (let updates = retry_settings config; d' = (if updates = [] then d else write_cols taskId updates d) in
      (getTask taskId d', d'))"

definition recordRetryAttempt :: "int \<Rightarrow> string \<Rightarrow> rat \<Rightarrow> rat \<Rightarrow> string \<Rightarrow> retry_state \<Rightarrow> retry_state" where
  "recordRetryAttempt now taskId number delay message s =
     (if lookup_row taskId (tasks (rs_db s)) = None then s
      else s\<lparr>retry_history := retry_history s @ [\<lparr>ra_task = taskId, ra_number = number, ra_delay = delay,
               ra_error = message, ra_at = now\<rparr>],
             rs_db := write_cols taskId [(''last_retry_at'', iso now)] (rs_db s)\<rparr>)"

definition getRetryHistory :: "string \<Rightarrow> retry_state \<Rightarrow> retry_attempt list" where
  "getRetryHistory taskId s = sort_key ra_number (filter (\<lambda>a. ra_task a = taskId) (retry_history s))"

definition MAX_DELAY_SECONDS :: rat where
  "MAX_DELAY_SECONDS = 7 * 24 * 60 * 60"

definition MAX_EXPONENT :: nat where
  "MAX_EXPONENT = 20"

text \<open>The schema's default strategy \<open>same_provider\<close> is none of the three: it falls through to \<open>fixed\<close>.\<close>

definition calculateRetryDelay :: "db_row \<Rightarrow> rat" where
  "calculateRetryDelay task =
     (let baseDelay = (case col task ''retry_delay_seconds'' of JNum q \<Rightarrow> if q = 0 then 30 else q | _ \<Rightarrow> 30);
          retryCount = retries task;
          strategy = (case col task ''retry_strategy'' of
              JStr t \<Rightarrow> if t = [] then ''exponential'' else t | _ \<Rightarrow> ''same_provider'');
          delay = (if strategy = ''exponential'' then baseDelay * 2 ^ min (nat (floor retryCount)) MAX_EXPONENT
                   else if strategy = ''linear'' then baseDelay * (retryCount + 1)
                   else baseDelay) in
      min delay MAX_DELAY_SECONDS)"

section \<open>Scheduling a retry\<close>

definition getRetryAttemptDurationMs :: "int \<Rightarrow> db_row \<Rightarrow> rat" where
  "getRetryAttemptDurationMs now task =
     (case col task ''started_at'' of JNum t \<Rightarrow> max 0 (of_int now - t) | _ \<Rightarrow> 0)"

definition buildRetryResumeFields :: "retry_env \<Rightarrow> db_row \<Rightarrow> string \<Rightarrow> string \<Rightarrow> jsobj" where
  "buildRetryResumeFields env task errorOutput sanitizedOutput =
     (case re_resume env sanitizedOutput errorOutput (col task ''task_description'')
          (getRetryAttemptDurationMs (re_now env) task) (col task ''provider'') of
        None \<Rightarrow> []
      | Some resumeContext \<Rightarrow>
          let taskDescription = re_prepend env (col task ''task_description'') resumeContext in
          (''resume_context'', resumeContext) #
          (if taskDescription = col task ''task_description'' then [] else [(''task_description'', taskDescription)]))"

definition cap_reached :: "retry_env \<Rightarrow> db_row \<Rightarrow> bool" where
  "cap_reached env task =
     (case re_combined_max env of
        None \<Rightarrow> False
      | Some combinedMax \<Rightarrow>
          0 < combinedMax \<and>
          combinedMax \<le> retries task + (case js_number (col task ''stall_recovery_attempts'') of Fin q \<Rightarrow> q | _ \<Rightarrow> 0))"

definition retry_patch :: "retry_env \<Rightarrow> jsval \<Rightarrow> db_row \<Rightarrow> retry_info \<Rightarrow> classification \<Rightarrow> string \<Rightarrow> string \<Rightarrow> jsobj" where
  "retry_patch env code task info c errorOutput sanitizedOutput =
     [(''exit_code'', code), (''output'', JStr sanitizedOutput),
      (''error_output'', JStr (''[Retry '' @ num_string (ri_count info) @ ''/'' @ num_string (ri_max info) @ '' - ''
         @ cl_reason c @ ''] '' @ errorOutput))]
     @ buildRetryResumeFields env task errorOutput sanitizedOutput"

definition delay_ms :: "db_row \<Rightarrow> classification \<Rightarrow> rat" where
  "delay_ms task c =
     (let retryAfterSec = (case cl_after c of Some q \<Rightarrow> if 0 < q then q else 0 | None \<Rightarrow> 0) in
      max (calculateRetryDelay task) retryAfterSec * 1000)"

text \<open>What follows once the retry is decided: the records, the transition and the timer.\<close>

definition schedule_retry ::
  "retry_env \<Rightarrow> string \<Rightarrow> jsval \<Rightarrow> string \<Rightarrow> string \<Rightarrow> db_row \<Rightarrow> retry_info \<Rightarrow> classification \<Rightarrow> retry_state \<Rightarrow>
   (task_error + bool) \<times> retry_state" where
  "schedule_retry env taskId code output errorOutput task info c s =
     (let delayMs = delay_ms task c; sanitizedOutput = sanitizeTaskOutput output;
          s1 = recordRetryAttempt (re_now env) taskId (ri_count info) (of_int (floor (delayMs / 1000)))
                 (cl_reason c @ '': '' @ take 400 errorOutput) s;
          s2 = s1\<lparr>failover_events := failover_events s1 @ [\<lparr>rf_task = taskId, rf_provider = col task ''provider'',
                 rf_model = col task ''model'', rf_reason = ''Retry: '' @ cl_reason c, rf_attempt = ri_count info\<rparr>],
               cleanup_guard := removeAll taskId (cleanup_guard s1)\<rparr> in
      case updateTaskStatus (re_now env) taskId ''retry_scheduled''
             (retry_patch env code task info c errorOutput sanitizedOutput) (rs_db s2) of
        (Inl e, d) \<Rightarrow> (Inl e, s2\<lparr>rs_db := d\<rparr>)
      | (Inr _, d) \<Rightarrow>
          (Inr True, s2\<lparr>rs_db := re_process env d,
             armed_timers := armed_timers s2 @ [(taskId, of_int (re_now env) + delayMs)],
             retry_timeouts := AList.update taskId (of_int (re_now env) + delayMs) (retry_timeouts s2)\<rparr>))"

text \<open>\<open>True\<close>: \<open>ctx.earlyExit\<close>, a retry was scheduled. \<open>False\<close>: the task falls through to the handling of a failure.\<close>

definition handleRetryLogic ::
  "retry_env \<Rightarrow> string \<Rightarrow> jsval \<Rightarrow> string \<Rightarrow> string \<Rightarrow> retry_state \<Rightarrow> (task_error + bool) \<times> retry_state" where
  "handleRetryLogic env taskId code output errorOutput s =
     (let c = re_classify env errorOutput code in
      if \<not> cl_retryable c then (Inr False, s)
      else case incrementRetry taskId (rs_db s) of
        (Inl _, d) \<Rightarrow> (Inr False, s\<lparr>rs_db := d\<rparr>)
      | (Inr None, d) \<Rightarrow> (Inr False, s\<lparr>rs_db := d\<rparr>)
      | (Inr (Some info), d) \<Rightarrow>
          let s' = s\<lparr>rs_db := d\<rparr> in
          if \<not> ri_should info then (Inr False, s')
          else case getTask taskId d of
            Inl e \<Rightarrow> (Inl e, s')
          | Inr None \<Rightarrow> (Inr False, s')
          | Inr (Some task) \<Rightarrow>
              if cap_reached env task \<or> \<not> re_registry env then (Inr False, s')
              else schedule_retry env taskId code output errorOutput task info c s')"

section \<open>The timer\<close>

text \<open>The callback of \<open>setTimeout\<close>. \<open>re_start\<close> answers the message of what \<open>startTask\<close> throws.\<close>

definition fire_timer :: "retry_env \<Rightarrow> string \<Rightarrow> retry_state \<Rightarrow> retry_state" where
  "fire_timer env taskId s0 =
     (let s = s0\<lparr>retry_timeouts := AList.delete taskId (retry_timeouts s0),
            armed_timers := filter (\<lambda>(t, _). t \<noteq> taskId) (armed_timers s0)\<rparr>; d = rs_db s in
      case getTask taskId d of
        Inl _ \<Rightarrow> s
      | Inr None \<Rightarrow> s
      | Inr (Some currentTask) \<Rightarrow>
          if col currentTask ''status'' \<noteq> JStr ''retry_scheduled'' then s
          else case updateTaskStatus (re_now env) taskId ''queued'' [(''retry_count'', JNum (retries currentTask + 1))] d of
            (Inl _, d1) \<Rightarrow> s\<lparr>rs_db := d1\<rparr>
          | (Inr _, d1) \<Rightarrow>
              (case re_start env taskId d1 of
                 (None, d2) \<Rightarrow> s\<lparr>rs_db := d2\<rparr>
               | (Some message, d2) \<Rightarrow>
                   s\<lparr>rs_db := snd (updateTaskStatus (re_now env) taskId ''failed''
                      [(''error_output'', JStr (''Retry failed: '' @ message))] d2)\<rparr>))"

end
