(* ===== verification/Retry_Claims.thy ===== *)
theory Retry_Claims
  imports Retry Cancellation_Claims
begin

text \<open>
  How many retries a task gets. \<open>retry_rounds\<close> are the rounds of a task that fails every time: its failure is
  handled, the timer fires and starts it again. The failure counts the attempt and the timer counts it a
  second time, so a budget of \<open>m\<close> retries is used up by half of them (\<open>retry_budget_halved\<close>).

  \<open>transition_col\<close> reads a column after a transition of the task store.
\<close>

section \<open>One round\<close>

definition starts_task :: "retry_env \<Rightarrow> string \<Rightarrow> bool" where
  "starts_task env i \<longleftrightarrow>
     (\<forall>d r. \<not> dbClosed d \<and> row_of d i = Some r \<and> col r ''status'' = JStr ''queued'' \<longrightarrow>
        (\<exists>d' r'. re_start env i d = (None, d') \<and> \<not> dbClosed d' \<and> row_of d' i = Some r' \<and>
           col r' ''status'' = JStr ''running'' \<and> retries r' = retries r \<and> retry_budget r' = retry_budget r))"

definition leaves_parked :: "retry_env \<Rightarrow> string \<Rightarrow> bool" where
  "leaves_parked env i \<longleftrightarrow>
     (\<forall>d. dbClosed (re_process env d) = dbClosed d \<and>
        (\<forall>r. row_of d i = Some r \<and> col r ''status'' = JStr ''retry_scheduled'' \<longrightarrow> row_of (re_process env d) i = Some r))"

record attempt =
  at_env :: retry_env
  at_code :: jsval
  at_output :: string
  at_error :: string

definition transient_failure :: "string \<Rightarrow> attempt \<Rightarrow> bool" where
  "transient_failure i a \<longleftrightarrow> cl_retryable (re_classify (at_env a) (at_error a) (at_code a)) \<and>
     re_combined_max (at_env a) = None \<and> re_registry (at_env a) \<and>
     starts_task (at_env a) i \<and> leaves_parked (at_env a) i"

fun retry_rounds :: "string \<Rightarrow> attempt list \<Rightarrow> retry_state \<Rightarrow> nat \<times> retry_state" where
  "retry_rounds i [] s = (0, s)"
| "retry_rounds i (a # as) s =
     (case handleRetryLogic (at_env a) i (at_code a) (at_output a) (at_error a) s of
        (Inr True, s1) \<Rightarrow> (case retry_rounds i as (fire_timer (at_env a) i s1) of (k, s2) \<Rightarrow> (k + 1, s2))
      | (_, s1) \<Rightarrow> (0, s1))"

definition runs_with :: "string \<Rightarrow> nat \<Rightarrow> nat \<Rightarrow> retry_state \<Rightarrow> bool" where
  "runs_with i c m s \<longleftrightarrow> \<not> dbClosed (rs_db s) \<and>
     (\<exists>r. row_of (rs_db s) i = Some r \<and> col r ''status'' = JStr ''running'' \<and> retries r = of_nat c \<and> retry_budget r = of_nat m)"

definition column_after :: "jsobj \<Rightarrow> db_row \<Rightarrow> string \<Rightarrow> jsval" where
  "column_after p r k = (if obj_has p k then sql_value (obj_get p k) else col r k)"

lemma transition_accepted:
  assumes "\<not> dbClosed d" and "row_of d i = Some cur" and "length i = 36" and "col cur ''status'' = JStr old"
    and "old \<noteq> s" and "old \<notin> set TERMINAL_TASK_STATUS_VALUES" and "patch_ok p" and "distinct (map fst p)"
  shows "\<exists>x d' r. updateTaskStatus now i s p d = (Inr x, d') \<and> \<not> dbClosed d' \<and> row_of d' i = Some r \<and>
    col r ''status'' = JStr s \<and> col r ''retry_count'' = column_after p cur ''retry_count'' \<and>
    col r ''max_retries'' = column_after p cur ''max_retries''"
proof -
  have cur: "\<not> is_terminal (col cur ''status'')" "\<not> is_nullish (col cur ''status'')" "col cur ''status'' \<noteq> JStr s"
    using assms(4-6) by (auto simp: is_terminal_def)
  let ?d = "snd (updateTaskStatus now i s p d)"
  have row: "\<exists>r. row_of ?d i = Some r \<and> col r ''status'' = JStr s \<and>
      col r ''retry_count'' = column_after p cur ''retry_count'' \<and> col r ''max_retries'' = column_after p cur ''max_retries''"
  proof (rule transition_col [OF assms(1,2) cur assms(7,8), where now = now])
    fix r
    assume r: "row_of ?d i = Some r" "col r ''status'' = JStr s"
      and cols: "\<And>k. k \<notin> {''original_provider'', ''model'', ''ollama_host_id'',
      ''provider_switched_at'', ''metadata'', ''provider'', ''cancel_reason'', ''status'', ''started_at'', ''completed_at''}
      \<union> set INTERNAL_FLAGS \<Longrightarrow> col r k = (if obj_has p k then sql_value (obj_get p k) else col cur k)"
    have "col r ''retry_count'' = column_after p cur ''retry_count''"
      unfolding column_after_def by (rule cols) (simp add: INTERNAL_FLAGS_def)
    moreover have "col r ''max_retries'' = column_after p cur ''max_retries''"
      unfolding column_after_def by (rule cols) (simp add: INTERNAL_FLAGS_def)
    ultimately show ?thesis using r by blast
  qed
  have "full_id i" using assms(3) by (simp add: full_id_def)
  from transition_returns [OF assms(1,2) cur(1) assms(7) this, of now s] obtain x
    where "fst (updateTaskStatus now i s p d) = Inr x" by blast
  then have "updateTaskStatus now i s p d = (Inr x, ?d)" by (metis prod.collapse)
  moreover have "\<not> dbClosed ?d" using assms(1) by simp
  ultimately show ?thesis using row by blast
qed

lemma failure_counted:
  assumes "\<not> dbClosed d" and "row_of d i = Some r" and "length i = 36"
  shows "incrementRetry i d = (Inr (Some \<lparr>ri_count = retries r + 1, ri_max = retry_budget r,
      ri_should = retries r + 1 \<le> retry_budget r\<rparr>),
    d\<lparr>tasks := update_row i (\<lambda>r. set_col ''retry_count'' (JNum (retries r + 1)) r) (tasks d)\<rparr>)"
    "row_of (snd (incrementRetry i d)) i = Some (set_col ''retry_count'' (JNum (retries r + 1)) r)"
    "dbClosed (snd (incrementRetry i d)) = dbClosed d"
proof -
  have keeps: "keeps_id (\<lambda>r. set_col ''retry_count'' (JNum (retries r + 1)) r)" by (simp add: keeps_id_def)
  then show "incrementRetry i d = (Inr (Some \<lparr>ri_count = retries r + 1, ri_max = retry_budget r,
      ri_should = retries r + 1 \<le> retry_budget r\<rparr>),
    d\<lparr>tasks := update_row i (\<lambda>r. set_col ''retry_count'' (JNum (retries r + 1)) r) (tasks d)\<rparr>)"
    using assms by (simp add: incrementRetry_def Let_def getTask_full row_of_def lookup_update_row retries_def
        retry_budget_def num_of_def)
  then show "row_of (snd (incrementRetry i d)) i = Some (set_col ''retry_count'' (JNum (retries r + 1)) r)"
    "dbClosed (snd (incrementRetry i d)) = dbClosed d"
    using assms keeps by (simp_all add: row_of_def lookup_update_row)
qed

lemma resume_keys:
  "map fst (buildRetryResumeFields env task err out) \<in> {[], [''resume_context''], [''resume_context'', ''task_description'']}"
  by (simp add: buildRetryResumeFields_def Let_def split: option.split)

lemma retry_patch_keys:
  "set (map fst (retry_patch env code task info c err out)) \<subseteq>
     {''exit_code'', ''output'', ''error_output'', ''resume_context'', ''task_description''}"
  "distinct (map fst (retry_patch env code task info c err out))"
  using resume_keys [of env task err out] unfolding retry_patch_def map_append by auto

lemma retry_patch_has:
  "obj_has (retry_patch env code task info c err out) k \<Longrightarrow>
     k = ''exit_code'' \<or> k = ''output'' \<or> k = ''error_output'' \<or> k = ''resume_context'' \<or> k = ''task_description''"
  using retry_patch_keys(1) [of env code task info c err out] by (simp only: obj_has_fst set_map) fast

lemma retry_patch_ok:
  "patch_ok (retry_patch env code task info c err out)"
  "\<not> obj_has (retry_patch env code task info c err out) ''retry_count''"
  "\<not> obj_has (retry_patch env code task info c err out) ''max_retries''"
  unfolding patch_ok_def
  by (intro conjI allI impI notI; drule retry_patch_has; auto simp: ALLOWED_TASK_COLUMNS_def)+

lemma recorded:
  assumes "row_of (rs_db s) i = Some r"
  shows "row_of (rs_db (recordRetryAttempt now i n q msg s)) i = Some (set_col ''last_retry_at'' (iso now) r)"
    "dbClosed (rs_db (recordRetryAttempt now i n q msg s)) = dbClosed (rs_db s)"
proof -
  have "keeps_id (set_cols [(''last_retry_at'', iso now)])" by auto
  with assms show "row_of (rs_db (recordRetryAttempt now i n q msg s)) i = Some (set_col ''last_retry_at'' (iso now) r)"
    "dbClosed (rs_db (recordRetryAttempt now i n q msg s)) = dbClosed (rs_db s)"
    by (simp_all add: recordRetryAttempt_def row_of_def lookup_update_row)
qed

definition parked_with :: "string \<Rightarrow> nat \<Rightarrow> nat \<Rightarrow> retry_state \<Rightarrow> bool" where
  "parked_with i c m s \<longleftrightarrow> \<not> dbClosed (rs_db s) \<and>
     (\<exists>r. row_of (rs_db s) i = Some r \<and> col r ''status'' = JStr ''retry_scheduled'' \<and> retries r = of_nat c \<and>
        retry_budget r = of_nat m)"

lemma scheduled:
  assumes "\<not> dbClosed (rs_db s)" and "row_of (rs_db s) i = Some r" and "col r ''status'' = JStr ''running''"
    and "retries r = of_nat c" and "retry_budget r = of_nat m" and "length i = 36" and "leaves_parked env i"
  shows "\<exists>s1. schedule_retry env i code out err task info cl s = (Inr True, s1) \<and> parked_with i c m s1"
proof -
  define s1 where "s1 = recordRetryAttempt (re_now env) i (ri_count info) (of_int (floor (delay_ms task cl / 1000)))
    (cl_reason cl @ '': '' @ take 400 err) s"
  note rec = recorded [OF assms(2), of "re_now env" "ri_count info" "of_int (floor (delay_ms task cl / 1000))"
      "cl_reason cl @ '': '' @ take 400 err", folded s1_def]
  let ?p = "retry_patch env code task info cl err (sanitizeTaskOutput out)"
  have db: "\<not> dbClosed (rs_db s1)" using rec(2) assms(1) by simp
  have running: "col (set_col ''last_retry_at'' (iso (re_now env)) r) ''status'' = JStr ''running''" using assms(3) by simp
  have "\<exists>x d' r'. updateTaskStatus (re_now env) i ''retry_scheduled'' ?p (rs_db s1) = (Inr x, d') \<and> \<not> dbClosed d' \<and>
      row_of d' i = Some r' \<and> col r' ''status'' = JStr ''retry_scheduled'' \<and>
      col r' ''retry_count'' = column_after ?p (set_col ''last_retry_at'' (iso (re_now env)) r) ''retry_count'' \<and>
      col r' ''max_retries'' = column_after ?p (set_col ''last_retry_at'' (iso (re_now env)) r) ''max_retries''"
    by (rule transition_accepted [OF db rec(1) assms(6) running _ _ retry_patch_ok(1) retry_patch_keys(2)])
      (simp_all add: TERMINAL_TASK_STATUS_VALUES_def)
  then obtain x d' r' where t: "updateTaskStatus (re_now env) i ''retry_scheduled'' ?p (rs_db s1) = (Inr x, d')"
      and d': "\<not> dbClosed d'" "row_of d' i = Some r'" "col r' ''status'' = JStr ''retry_scheduled''"
      and cols: "col r' ''retry_count'' = col r ''retry_count''" "col r' ''max_retries'' = col r ''max_retries''"
    by (auto simp: column_after_def retry_patch_ok(2,3))
  have "row_of (re_process env d') i = Some r'" "\<not> dbClosed (re_process env d')"
    using assms(7) d' by (auto simp: leaves_parked_def)
  moreover have "retries r' = of_nat c" "retry_budget r' = of_nat m"
    using cols assms(4,5) by (simp_all add: retries_def retry_budget_def)
  ultimately have "parked_with i c m (snd (schedule_retry env i code out err task info cl s))"
    using d' unfolding schedule_retry_def Let_def s1_def [symmetric] by (simp add: t parked_with_def)
  moreover have "fst (schedule_retry env i code out err task info cl s) = Inr True"
    unfolding schedule_retry_def Let_def s1_def [symmetric] by (simp add: t)
  ultimately show ?thesis by (metis prod.collapse)
qed

lemma handled:
  assumes run: "runs_with i c m s" and "length i = 36" and "transient_failure i a"
  defines "h \<equiv> handleRetryLogic (at_env a) i (at_code a) (at_output a) (at_error a) s"
  shows "c < m \<Longrightarrow> \<exists>s1. h = (Inr True, s1) \<and> parked_with i (c + 1) m s1" and "m \<le> c \<Longrightarrow> fst h = Inr False"
proof -
  obtain r where r: "\<not> dbClosed (rs_db s)" "row_of (rs_db s) i = Some r" "col r ''status'' = JStr ''running''"
      "retries r = of_nat c" "retry_budget r = of_nat m" using run by (auto simp: runs_with_def)
  note count = failure_counted [OF r(1,2) assms(2)]
  define d1 where "d1 = snd (incrementRetry i (rs_db s))"
  define r1 where "r1 = set_col ''retry_count'' (JNum (retries r + 1)) r"
  have d1: "row_of d1 i = Some r1" "\<not> dbClosed d1" using count(2,3) r(1) by (simp_all add: d1_def r1_def)
  have r1: "col r1 ''status'' = JStr ''running''" "retries r1 = of_nat (c + 1)" "retry_budget r1 = of_nat m"
    using r by (simp_all add: r1_def retries_def retry_budget_def num_of_def)
  have inc: "incrementRetry i (rs_db s) = (Inr (Some \<lparr>ri_count = of_nat c + 1, ri_max = of_nat m,
      ri_should = (of_nat c + 1 :: rat) \<le> of_nat m\<rparr>), d1)"
    using count(1) r by (simp add: d1_def)
  have should: "(of_nat c + 1 :: rat) \<le> of_nat m \<longleftrightarrow> c < m" by (metis of_nat_Suc of_nat_le_iff Suc_le_eq add.commute)
  have env: "cl_retryable (re_classify (at_env a) (at_error a) (at_code a))" "leaves_parked (at_env a) i"
      "\<not> cap_reached (at_env a) t" "re_registry (at_env a)" for t
    using assms(3) by (simp_all add: transient_failure_def cap_reached_def)
  show "fst h = Inr False" if "m \<le> c"
    using env that should by (simp add: h_def handleRetryLogic_def Let_def inc)
  show "\<exists>s1. h = (Inr True, s1) \<and> parked_with i (c + 1) m s1" if "c < m"
  proof -
    have "h = schedule_retry (at_env a) i (at_code a) (at_output a) (at_error a) (parse_task_row r1)
        \<lparr>ri_count = of_nat c + 1, ri_max = of_nat m, ri_should = True\<rparr>
        (re_classify (at_env a) (at_error a) (at_code a)) (s\<lparr>rs_db := d1\<rparr>)"
      using env that should d1 assms(2) by (simp add: h_def handleRetryLogic_def Let_def inc getTask_full)
    moreover have "\<exists>s1. schedule_retry (at_env a) i (at_code a) (at_output a) (at_error a) (parse_task_row r1)
        \<lparr>ri_count = of_nat c + 1, ri_max = of_nat m, ri_should = True\<rparr>
        (re_classify (at_env a) (at_error a) (at_code a)) (s\<lparr>rs_db := d1\<rparr>) = (Inr True, s1) \<and> parked_with i (c + 1) m s1"
      by (rule scheduled [OF _ _ r1 assms(2) env(2)]) (simp_all add: d1)
    ultimately show ?thesis by simp
  qed
qed

lemma fired:
  assumes "parked_with i c m s" and "length i = 36" and "starts_task env i"
  shows "runs_with i (c + 1) m (fire_timer env i s)"
proof -
  obtain r where r: "\<not> dbClosed (rs_db s)" "row_of (rs_db s) i = Some r" "col r ''status'' = JStr ''retry_scheduled''"
      "retries r = of_nat c" "retry_budget r = of_nat m" using assms(1) by (auto simp: parked_with_def)
  let ?p = "[(''retry_count'', JNum (retries r + 1))]"
  have ok: "patch_ok ?p" by (simp add: patch_ok_def obj_has_fst ALLOWED_TASK_COLUMNS_def)
  have "\<exists>x d' r'. updateTaskStatus (re_now env) i ''queued'' ?p (rs_db s) = (Inr x, d') \<and> \<not> dbClosed d' \<and>
      row_of d' i = Some r' \<and> col r' ''status'' = JStr ''queued'' \<and>
      col r' ''retry_count'' = column_after ?p r ''retry_count'' \<and> col r' ''max_retries'' = column_after ?p r ''max_retries''"
    by (rule transition_accepted [OF r(1,2) assms(2) r(3) _ _ ok]) (simp_all add: TERMINAL_TASK_STATUS_VALUES_def)
  then obtain x d1 r1 where t: "updateTaskStatus (re_now env) i ''queued'' ?p (rs_db s) = (Inr x, d1)"
      and d1: "\<not> dbClosed d1" "row_of d1 i = Some r1" "col r1 ''status'' = JStr ''queued''"
      and cols: "col r1 ''retry_count'' = JNum (retries r + 1)" "col r1 ''max_retries'' = col r ''max_retries''"
    by (auto simp: column_after_def obj_has_def obj_get_def)
  have r1: "retries r1 = of_nat (c + 1)" "retry_budget r1 = of_nat m"
    using cols r(4,5) by (simp_all add: retries_def retry_budget_def num_of_def)
  obtain d2 r2 where d2: "re_start env i d1 = (None, d2)" "\<not> dbClosed d2" "row_of d2 i = Some r2"
      "col r2 ''status'' = JStr ''running''" "retries r2 = retries r1" "retry_budget r2 = retry_budget r1"
    using assms(3) d1 unfolding starts_task_def by blast
  have "getTask i (rs_db s) = Inr (Some (parse_task_row r))" using r(1,2) assms(2) by (simp add: getTask_full)
  then have "rs_db (fire_timer env i s) = d2"
    using r(3) t d2(1) by (simp add: fire_timer_def Let_def retries_def)
  with d2 r1 show ?thesis by (simp add: runs_with_def)
qed

section \<open>The budget\<close>

lemma rounds_counted:
  assumes "runs_with i c m s" and "length i = 36" and "\<forall>a\<in>set as. transient_failure i a"
  shows "fst (retry_rounds i as s) = min (length as) ((m + 1 - c) div 2)"
  using assms(1,3)
proof (induction as arbitrary: s c)
  case Nil
  then show ?case by simp
next
  case (Cons a as)
  have a: "transient_failure i a" using Cons.prems(2) by simp
  note h = handled [OF Cons.prems(1) assms(2) a]
  show ?case
  proof (cases "c < m")
    case True
    from h(1) [OF this] obtain s1 where s1: "handleRetryLogic (at_env a) i (at_code a) (at_output a) (at_error a) s = (Inr True, s1)"
        "parked_with i (c + 1) m s1" by blast
    have "runs_with i (c + 1 + 1) m (fire_timer (at_env a) i s1)"
      by (rule fired [OF s1(2) assms(2)]) (use a in \<open>simp add: transient_failure_def\<close>)
    from Cons.IH [OF this] Cons.prems(2)
    have "fst (retry_rounds i as (fire_timer (at_env a) i s1)) = min (length as) ((m + 1 - (c + 2)) div 2)" by simp
    moreover have "(m + 1 - c) div 2 = (m + 1 - (c + 2)) div 2 + 1" using True by simp
    ultimately show ?thesis by (simp add: s1(1) split_beta)
  next
    case False
    then obtain s1 where "handleRetryLogic (at_env a) i (at_code a) (at_output a) (at_error a) s = (Inr False, s1)"
      using h(2) by (metis not_less prod.collapse)
    moreover have "(m + 1 - c) div 2 = 0" using False by simp
    ultimately show ?thesis by simp
  qed
qed

text \<open>C40: A failing task gets half its retry budget. A task is running, \<open>retry_count\<close> is \<open>c\<close> and \<open>max_retries\<close> is \<open>m\<close>;
  every run fails with an error classified as transient, and each time the timer fires and starts the task.
  Handling the failure counts the attempt, and the callback of the timer counts it again. So of any number
  of failures exactly the first \<open>(m + 1 - c) div 2\<close> (rounded down) are retried: with a fresh task and a budget of \<open>m\<close> that
  is half of \<open>m\<close>, rounded up, and never more than the budget allows; the next failure falls through to the handling of a failed task.\<close>

theorem retry_budget_halved:
  assumes "runs_with i c m s" and "length i = 36" and "\<forall>a\<in>set as. transient_failure i a"
  shows "fst (retry_rounds i as s) = min (length as) ((m + 1 - c) div 2)"
  using assms by (rule rounds_counted)

definition always_transient :: attempt where
  "always_transient = \<lparr>at_env = \<lparr>re_now = 0, re_classify = \<lambda>_ _. \<lparr>cl_retryable = True, cl_reason = ''timeout'', cl_after = None\<rparr>,
     re_resume = \<lambda>_ _ _ _ _. None, re_prepend = \<lambda>t _. t, re_combined_max = None, re_registry = True,
     re_start = \<lambda>i d. (None, snd (updateTaskStatus 0 i ''running'' [] d)), re_process = id\<rparr>,
   at_code = JNum 1, at_output = [], at_error = ''timeout''\<rparr>"

definition failing_id :: string where
  "failing_id = replicate 36 CHR ''a''"

definition failing_state :: retry_state where
  "failing_state = \<lparr>rs_db = sample_db\<lparr>dbClosed := False, tasks := [[(''id'', JStr failing_id), (''status'', JStr ''running''),
     (''retry_count'', JNum 0), (''max_retries'', JNum 3)]]\<rparr>,
   retry_history = [], failover_events = [], armed_timers = [], retry_timeouts = [], cleanup_guard = []\<rparr>"

lemma starts_when_allowed:
  assumes "length i = 36"
  shows "transient_failure i always_transient"
proof -
  have "starts_task (at_env always_transient) i"
    unfolding starts_task_def
  proof (intro allI impI, elim conjE)
    fix d r
    assume q: "\<not> dbClosed d" "row_of d i = Some r" "col r ''status'' = JStr ''queued''"
    have "\<exists>x d' r'. updateTaskStatus 0 i ''running'' [] d = (Inr x, d') \<and> \<not> dbClosed d' \<and> row_of d' i = Some r' \<and>
        col r' ''status'' = JStr ''running'' \<and> col r' ''retry_count'' = column_after [] r ''retry_count'' \<and>
        col r' ''max_retries'' = column_after [] r ''max_retries''"
      by (rule transition_accepted [OF q(1,2) assms q(3)])
        (simp_all add: TERMINAL_TASK_STATUS_VALUES_def patch_ok_def obj_has_fst)
    then obtain x d' r' where t: "updateTaskStatus 0 i ''running'' [] d = (Inr x, d')" "\<not> dbClosed d'" "row_of d' i = Some r'"
        "col r' ''status'' = JStr ''running''"
        "retries r' = retries r" "retry_budget r' = retry_budget r"
      by (auto simp: column_after_def obj_has_fst retries_def retry_budget_def)
    have "re_start (at_env always_transient) i d = (None, d')"
      by (simp add: always_transient_def t(1))
    with t(2-6) show "\<exists>d' r'. re_start (at_env always_transient) i d = (None, d') \<and> \<not> dbClosed d' \<and> row_of d' i = Some r' \<and>
           col r' ''status'' = JStr ''running'' \<and> retries r' = retries r \<and> retry_budget r' = retry_budget r"
      by blast
  qed
  then show ?thesis by (simp add: transient_failure_def leaves_parked_def always_transient_def)
qed

theorem retry_budget_halved_witness:
  "fst (retry_rounds failing_id [always_transient, always_transient, always_transient, always_transient] failing_state) = 2"
proof -
  have "length failing_id = 36" by (simp add: failing_id_def)
  moreover have "runs_with failing_id 0 3 failing_state"
    by (simp add: runs_with_def failing_state_def row_of_def lookup_row_def has_id_def col_def obj_get_def
        retries_def retry_budget_def num_of_def)
  ultimately show ?thesis
    using retry_budget_halved [of failing_id 0 3 failing_state
        "[always_transient, always_transient, always_transient, always_transient]"] starts_when_allowed by simp
qed

end
